(* ===== verification/Go_Prelude.thy ===== *)
theory Go_Prelude
  imports Main "HOL-Library.AList" "HOL-Library.Char_ord" "HOL-Library.List_Lexorder"
begin

text \<open>
  The shared vocabulary of the development: what the Go sources use of the language and of the
  packages \<^verbatim>\<open>strings\<close>, \<^verbatim>\<open>strconv\<close>, \<^verbatim>\<open>net\<close>, \<^verbatim>\<open>cmp\<close>, \<^verbatim>\<open>errors\<close> and \<^verbatim>\<open>time\<close>.
  A Go string is a byte sequence, so it is a HOL \<^typ>\<open>string\<close> (a list of 8-bit characters) and
  \<^const>\<open>length\<close> is \<^verbatim>\<open>len\<close>; the byte order of \<^verbatim>\<open>cmp.Compare\<close> is the lexicographic order of
  List_Lexorder over Char_ord. A signed 64-bit integer is an \<^typ>\<open>int\<close> whose wrap-around is
  written out by \<open>wrap64\<close> where the code can overflow.
\<close>

section \<open>Collections of facts\<close>

named_theorems go_splits \<open>case splits for the error-carrying results\<close>

declare sum.splits [go_splits] option.splits [go_splits] prod.splits [go_splits] if_splits [go_splits]

section \<open>Integers\<close>

text \<open>Two's complement wrap-around of an \<^verbatim>\<open>int\<close>/\<^verbatim>\<open>int64\<close> and of an \<^verbatim>\<open>int32\<close>.\<close>

definition wrap64 :: "int \<Rightarrow> int" where
  "wrap64 x = (x + 2 ^ 63) mod 2 ^ 64 - 2 ^ 63"

definition wrap32 :: "int \<Rightarrow> int" where
  "wrap32 x = (x + 2 ^ 31) mod 2 ^ 32 - 2 ^ 31"

text \<open>Go's integer division truncates towards zero.\<close>

definition go_quot :: "int \<Rightarrow> int \<Rightarrow> int" where
  "go_quot a b = sgn a * sgn b * (\<bar>a\<bar> div \<bar>b\<bar>)"

definition go_rem :: "int \<Rightarrow> int \<Rightarrow> int" where
  "go_rem a b = a - go_quot a b * b"

section \<open>Strings\<close>

text \<open>\<^verbatim>\<open>cmp.Or\<close> on two strings: the first that is not empty.\<close>

definition cmp_Or :: "string \<Rightarrow> string \<Rightarrow> string" where
  "cmp_Or a b = (if a = [] then b else a)"

definition cmp_OrI :: "int \<Rightarrow> int \<Rightarrow> int" where
  "cmp_OrI a b = (if a = 0 then b else a)"

definition strings_HasPrefix :: "string \<Rightarrow> string \<Rightarrow> bool" where
  "strings_HasPrefix s p = (take (length p) s = p)"

definition strings_CutPrefix :: "string \<Rightarrow> string \<Rightarrow> string option" where
  "strings_CutPrefix s p = (if take (length p) s = p then Some (drop (length p) s) else None)"

definition strings_CutSuffix :: "string \<Rightarrow> string \<Rightarrow> string option" where
  "strings_CutSuffix s p =
     (if length p \<le> length s \<and> drop (length s - length p) s = p
      then Some (take (length s - length p) s) else None)"

definition strings_TrimSuffix :: "string \<Rightarrow> string \<Rightarrow> string" where
  "strings_TrimSuffix s p = (case strings_CutSuffix s p of None \<Rightarrow> s | Some t \<Rightarrow> t)"

text \<open>\<^verbatim>\<open>strings.Cut\<close>: the text before and after the first separator, None when there is none.\<close>

fun strings_Cut :: "string \<Rightarrow> string \<Rightarrow> (string \<times> string) option" where
  "strings_Cut [] sep = (if sep = [] then Some ([], []) else None)"
| "strings_Cut (c # cs) sep =
     (if take (length sep) (c # cs) = sep then Some ([], drop (length sep) (c # cs))
      else map_option (\<lambda>(a, b). (c # a, b)) (strings_Cut cs sep))"

definition strings_Contains :: "string \<Rightarrow> string \<Rightarrow> bool" where
  "strings_Contains s sub = (strings_Cut s sub \<noteq> None)"

definition strings_ContainsAny :: "string \<Rightarrow> string \<Rightarrow> bool" where
  "strings_ContainsAny s chars = list_ex (\<lambda>c. c \<in> set chars) s"

text \<open>\<^verbatim>\<open>strings.Split\<close> and \<^verbatim>\<open>strings.SplitSeq\<close> at a one-byte separator.\<close>

fun strings_Split :: "string \<Rightarrow> char \<Rightarrow> string list" where
  "strings_Split [] sep = [[]]"
| "strings_Split (c # cs) sep =
     (if c = sep then [] # strings_Split cs sep
      else (case strings_Split cs sep of [] \<Rightarrow> [[c]] | w # ws \<Rightarrow> (c # w) # ws))"

fun strings_Join :: "string list \<Rightarrow> string \<Rightarrow> string" where
  "strings_Join [] sep = []"
| "strings_Join [w] sep = w"
| "strings_Join (w # ws) sep = w @ sep @ strings_Join ws sep"

text \<open>
  White space as \<^verbatim>\<open>strings.TrimSpace\<close> and \<^verbatim>\<open>strings.Fields\<close> know it: the UTF-8 encodings of the
  code points with the property White\_Space.
\<close>

definition go_spaces :: "string list" where
  "go_spaces =
     [[CHR 0x20], [CHR 0x09], [CHR 0x0A], [CHR 0x0B], [CHR 0x0C], [CHR 0x0D],
      [CHR 0xC2, CHR 0x85], [CHR 0xC2, CHR 0xA0], [CHR 0xE1, CHR 0x9A, CHR 0x80],
      [CHR 0xE2, CHR 0x80, CHR 0x80], [CHR 0xE2, CHR 0x80, CHR 0x81], [CHR 0xE2, CHR 0x80, CHR 0x82],
      [CHR 0xE2, CHR 0x80, CHR 0x83], [CHR 0xE2, CHR 0x80, CHR 0x84], [CHR 0xE2, CHR 0x80, CHR 0x85],
      [CHR 0xE2, CHR 0x80, CHR 0x86], [CHR 0xE2, CHR 0x80, CHR 0x87], [CHR 0xE2, CHR 0x80, CHR 0x88],
      [CHR 0xE2, CHR 0x80, CHR 0x89], [CHR 0xE2, CHR 0x80, CHR 0x8A], [CHR 0xE2, CHR 0x80, CHR 0xA8],
      [CHR 0xE2, CHR 0x80, CHR 0xA9], [CHR 0xE2, CHR 0x80, CHR 0xAF], [CHR 0xE2, CHR 0x81, CHR 0x9F],
      [CHR 0xE3, CHR 0x80, CHR 0x80]]"

text \<open>The length of the space that starts a string, 0 when none does.\<close>

definition space_width :: "string list \<Rightarrow> string \<Rightarrow> nat" where
  "space_width ws s = (case find (\<lambda>w. take (length w) s = w) ws of None \<Rightarrow> 0 | Some w \<Rightarrow> length w)"

function trim_left :: "string list \<Rightarrow> string \<Rightarrow> string" where
  "trim_left ws s =
     (let n = space_width ws s in if n = 0 \<or> s = [] then s else trim_left ws (drop n s))"
  by pat_completeness auto
termination
  by (relation "measure (\<lambda>(ws, s). length s)") auto

declare trim_left.simps [simp del]

definition strings_TrimSpace :: "string \<Rightarrow> string" where
  "strings_TrimSpace s = rev (trim_left (map rev go_spaces) (rev (trim_left go_spaces s)))"

text \<open>\<^verbatim>\<open>strings.Fields\<close>: the maximal runs without white space; \<open>acc\<close> is the current run, reversed.\<close>

function fields_from :: "string \<Rightarrow> string \<Rightarrow> string list" where
  "fields_from acc s =
     (case s of
        [] \<Rightarrow> (if acc = [] then [] else [rev acc])
      | c # cs \<Rightarrow>
          (let n = space_width go_spaces s in
           if n = 0 then fields_from (c # acc) cs
           else (if acc = [] then [] else [rev acc]) @ fields_from [] (drop n s)))"
  by pat_completeness auto
termination
  by (relation "measure (\<lambda>(acc, s). length s)") auto

declare fields_from.simps [simp del]

definition strings_Fields :: "string \<Rightarrow> string list" where
  "strings_Fields s = fields_from [] s"

text \<open>ASCII letter case; what \<^verbatim>\<open>unicode\<close> does beyond ASCII is a parameter of the callers.\<close>

definition ascii_upper_char :: "char \<Rightarrow> bool" where
  "ascii_upper_char c = (CHR ''A'' \<le> c \<and> c \<le> CHR ''Z'')"

definition ascii_lower :: "char \<Rightarrow> char" where
  "ascii_lower c = (if ascii_upper_char c then char_of (of_char c + 32 :: nat) else c)"

definition is_ascii :: "string \<Rightarrow> bool" where
  "is_ascii s = list_all (\<lambda>c. of_char c < (128 :: nat)) s"

definition is_digit :: "char \<Rightarrow> bool" where
  "is_digit c = (CHR ''0'' \<le> c \<and> c \<le> CHR ''9'')"

definition is_letter :: "char \<Rightarrow> bool" where
  "is_letter c = ((CHR ''a'' \<le> c \<and> c \<le> CHR ''z'') \<or> (CHR ''A'' \<le> c \<and> c \<le> CHR ''Z''))"

section \<open>Numbers in strings\<close>

definition digit_char :: "nat \<Rightarrow> char" where
  "digit_char d = char_of (48 + d)"

definition digit_val :: "char \<Rightarrow> nat" where
  "digit_val c = of_char c - 48"

fun format_nat :: "nat \<Rightarrow> string" where
  "format_nat n = (if n < 10 then [digit_char n] else format_nat (n div 10) @ [digit_char (n mod 10)])"

declare format_nat.simps [simp del]

text \<open>\<^verbatim>\<open>strconv.Itoa\<close> and \<^verbatim>\<open>strconv.FormatInt\<close> in base 10.\<close>

definition strconv_Itoa :: "int \<Rightarrow> string" where
  "strconv_Itoa i = (if i < 0 then CHR ''-'' # format_nat (nat (- i)) else format_nat (nat i))"

definition digits_val :: "string \<Rightarrow> nat" where
  "digits_val s = foldl (\<lambda>n c. 10 * n + digit_val c) 0 s"

definition parse_digits :: "string \<Rightarrow> nat option" where
  "parse_digits s = (if s \<noteq> [] \<and> list_all is_digit s then Some (digits_val s) else None)"

text \<open>\<^verbatim>\<open>strconv.ParseUint(s, 10, bits)\<close>: digits only, no sign, and the value fits.\<close>

definition strconv_ParseUint :: "nat \<Rightarrow> string \<Rightarrow> nat option" where
  "strconv_ParseUint bits s =
     (case parse_digits s of None \<Rightarrow> None | Some n \<Rightarrow> if n < 2 ^ bits then Some n else None)"

text \<open>\<^verbatim>\<open>strconv.Atoi\<close> and \<^verbatim>\<open>strconv.ParseInt(s, 10, 64)\<close>: an optional sign, then digits in range.\<close>

definition strconv_Atoi :: "string \<Rightarrow> int option" where
  "strconv_Atoi s =
     (let (neg, t) = (case s of
        [] \<Rightarrow> (False, [])
      | c # cs \<Rightarrow> if c = CHR ''-'' then (True, cs) else if c = CHR ''+'' then (False, cs) else (False, s))
      in case parse_digits t of
           None \<Rightarrow> None
         | Some n \<Rightarrow> if neg then (if n \<le> 2 ^ 63 then Some (- int n) else None)
                     else (if n < 2 ^ 63 then Some (int n) else None))"

section \<open>Addresses\<close>

text \<open>Everything after the last separator, with everything before it.\<close>

definition cut_last :: "string \<Rightarrow> char \<Rightarrow> (string \<times> string) option" where
  "cut_last s sep = (case strings_Cut (rev s) [sep] of
     None \<Rightarrow> None | Some (after, before) \<Rightarrow> Some (rev before, rev after))"

text \<open>
  \<^verbatim>\<open>net.SplitHostPort\<close>: the port follows the last colon, a host in brackets ends just before it, and
  no other bracket or colon may appear.
\<close>

definition net_SplitHostPort :: "string \<Rightarrow> (string \<times> string) option" where
  "net_SplitHostPort hp =
     (case cut_last hp (CHR '':'') of
        None \<Rightarrow> None
      | Some (before, port) \<Rightarrow>
          (if take 1 hp = ''['' then
             (case strings_Cut (drop 1 before) '']'' of
                None \<Rightarrow> None
              | Some (host, rest) \<Rightarrow>
                  if rest = [] \<and> CHR ''['' \<notin> set (drop 1 hp) \<and> CHR '']'' \<notin> set port
                  then Some (host, port) else None)
           else if CHR '':'' \<in> set before \<or> CHR ''['' \<in> set hp \<or> CHR '']'' \<in> set hp then None
           else Some (before, port)))"

section \<open>Errors\<close>

text \<open>
  A message is a format string and its arguments, as the code hands them to \<^verbatim>\<open>fmt\<close>; how \<^verbatim>\<open>fmt\<close> renders
  them is not modelled.
\<close>

datatype msg = Msg string "string list"

text \<open>
  The error values the code tells apart with \<^verbatim>\<open>errors.Is\<close> and \<^verbatim>\<open>errors.AsType\<close>. \<open>Wrap\<close> is
  \<^verbatim>\<open>fmt.Errorf\<close> with \<^verbatim>\<open>%w\<close>: the chain stays searchable.
\<close>

datatype err =
    HTTPError int string
  | RedirectError "string list"
  | ErrNodeAtCapacity
  | ErrNoWarmCapacity
  | OpError string
  | StatusError int msg
  | PlainError msg
  | Wrap msg err

fun as_HTTPError :: "err \<Rightarrow> (int \<times> string) option" where
  "as_HTTPError (HTTPError c m) = Some (c, m)"
| "as_HTTPError (Wrap m e) = as_HTTPError e"
| "as_HTTPError e = None"

fun as_RedirectError :: "err \<Rightarrow> string list option" where
  "as_RedirectError (RedirectError ts) = Some ts"
| "as_RedirectError (Wrap m e) = as_RedirectError e"
| "as_RedirectError e = None"

fun as_OpError :: "err \<Rightarrow> string option" where
  "as_OpError (OpError op) = Some op"
| "as_OpError (Wrap m e) = as_OpError e"
| "as_OpError e = None"

fun as_StatusError :: "err \<Rightarrow> (int \<times> msg) option" where
  "as_StatusError (StatusError c m) = Some (c, m)"
| "as_StatusError (Wrap m e) = as_StatusError e"
| "as_StatusError e = None"

text \<open>\<^verbatim>\<open>RedirectError.Is\<close> makes a redirect match \<^verbatim>\<open>ErrNodeAtCapacity\<close>.\<close>

fun is_ErrNodeAtCapacity :: "err \<Rightarrow> bool" where
  "is_ErrNodeAtCapacity ErrNodeAtCapacity = True"
| "is_ErrNodeAtCapacity (RedirectError ts) = True"
| "is_ErrNodeAtCapacity (Wrap m e) = is_ErrNodeAtCapacity e"
| "is_ErrNodeAtCapacity e = False"

fun is_ErrNoWarmCapacity :: "err \<Rightarrow> bool" where
  "is_ErrNoWarmCapacity ErrNoWarmCapacity = True"
| "is_ErrNoWarmCapacity (Wrap m e) = is_ErrNoWarmCapacity e"
| "is_ErrNoWarmCapacity e = False"

text \<open>\<^verbatim>\<open>errors.Is\<close> against a sentinel value.\<close>

fun err_Is :: "err \<Rightarrow> err \<Rightarrow> bool" where
  "err_Is (Wrap m e) t = (Wrap m e = t \<or> err_Is e t)"
| "err_Is e t = (e = t)"

text \<open>The Kubernetes status errors are told apart by their code.\<close>

definition k8s_IsNotFound :: "err \<Rightarrow> bool" where
  "k8s_IsNotFound e = (case as_StatusError e of None \<Rightarrow> False | Some (c, m) \<Rightarrow> c = 404)"

definition k8s_IsConflict :: "err \<Rightarrow> bool" where
  "k8s_IsConflict e = (case as_StatusError e of None \<Rightarrow> False | Some (c, m) \<Rightarrow> c = 409)"

definition k8s_NewNotFound :: "string \<Rightarrow> err" where
  "k8s_NewNotFound name = StatusError 404 (Msg ''sandboxes.agents.x-k8s.io %q not found'' [name])"

definition k8s_NewBadRequest :: "msg \<Rightarrow> err" where
  "k8s_NewBadRequest m = StatusError 400 m"

definition k8s_NewServiceUnavailable :: "msg \<Rightarrow> err" where
  "k8s_NewServiceUnavailable m = StatusError 503 m"

text \<open>\<^verbatim>\<open>NewInternalError\<close> keeps only the text of its cause: the chain ends there.\<close>

definition k8s_NewInternalError :: "msg \<Rightarrow> err" where
  "k8s_NewInternalError m = StatusError 500 m"

section \<open>Time\<close>

text \<open>
  \<^verbatim>\<open>time.Time\<close> is the nanoseconds since Go's zero time (year 1, UTC), so the zero time is 0.
\<close>

type_synonym time = int

definition time_IsZero :: "time \<Rightarrow> bool" where
  "time_IsZero t = (t = 0)"

definition second :: int where "second = 1000000000"

definition unix_epoch :: time where "unix_epoch = 62135596800 * 1000000000"

definition time_Unix :: "time \<Rightarrow> int" where
  "time_Unix t = (t - unix_epoch) div 1000000000"

definition time_UnixNano :: "time \<Rightarrow> int" where
  "time_UnixNano t = wrap64 (t - unix_epoch)"

definition pad :: "nat \<Rightarrow> int \<Rightarrow> string" where
  "pad w n = (let s = strconv_Itoa n in replicate (w - length s) (CHR ''0'') @ s)"

text \<open>Year, month and day of a day number counted from 0001-01-01 (proleptic Gregorian).\<close>

definition civil_from_days :: "int \<Rightarrow> int \<times> int \<times> int" where
  "civil_from_days z0 =
     (let z = z0 + 306;
          era = z div 146097;
          doe = z - era * 146097;
          yoe = (doe - doe div 1460 + doe div 36524 - doe div 146096) div 365;
          y = yoe + era * 400;
          doy = doe - (365 * yoe + yoe div 4 - yoe div 100);
          mp = (5 * doy + 2) div 153;
          d = doy - (153 * mp + 2) div 5 + 1;
          m = (if mp < 10 then mp + 3 else mp - 9)
      in (if m \<le> 2 then y + 1 else y, m, d))"

text \<open>\<^verbatim>\<open>t.UTC().Format(time.RFC3339)\<close>.\<close>

definition format_RFC3339 :: "time \<Rightarrow> string" where
  "format_RFC3339 t =
     (let secs = t div 1000000000;
          (y, m, d) = civil_from_days (secs div 86400);
          r = secs mod 86400
      in pad 4 y @ ''-'' @ pad 2 m @ ''-'' @ pad 2 d @ ''T'' @ pad 2 (r div 3600) @ '':''
         @ pad 2 (r div 60 mod 60) @ '':'' @ pad 2 (r mod 60) @ ''Z'')"

section \<open>Shared lemmas\<close>

lemma wrap64_id [simp]: "- (2 ^ 63) \<le> x \<Longrightarrow> x < 2 ^ 63 \<Longrightarrow> wrap64 x = x"
  by (simp add: wrap64_def)

lemma wrap64_bounds: "- (2 ^ 63) \<le> wrap64 x" "wrap64 x < 2 ^ 63"
  by (simp_all add: wrap64_def)

lemma wrap32_id [simp]: "- (2 ^ 31) \<le> x \<Longrightarrow> x < 2 ^ 31 \<Longrightarrow> wrap32 x = x"
  by (simp add: wrap32_def)

lemma go_quot_nonneg: "0 \<le> a \<Longrightarrow> 0 < b \<Longrightarrow> go_quot a b = a div b"
  by (cases "a = 0") (auto simp: go_quot_def)

lemma go_rem_nonneg: "0 \<le> a \<Longrightarrow> 0 < b \<Longrightarrow> go_rem a b = a mod b"
  by (simp add: go_rem_def go_quot_nonneg minus_div_mult_eq_mod)

lemma cmp_Or_Nil [simp]: "cmp_Or [] b = b"
  by (simp add: cmp_Or_def)

lemma cmp_Or_nonempty [simp]: "a \<noteq> [] \<Longrightarrow> cmp_Or a b = a"
  by (simp add: cmp_Or_def)

lemma cmp_Or_eq_Nil [simp]: "(cmp_Or a b = []) = (a = [] \<and> b = [])"
  by (auto simp: cmp_Or_def)

lemma strings_CutPrefix_Some: "strings_CutPrefix s p = Some t \<longleftrightarrow> s = p @ t"
  by (auto simp: strings_CutPrefix_def) (metis append_take_drop_id)

lemma strings_CutPrefix_append [simp]: "strings_CutPrefix (p @ t) p = Some t"
  by (simp add: strings_CutPrefix_Some)

lemma strings_HasPrefix_iff: "strings_HasPrefix s p \<longleftrightarrow> (\<exists>t. s = p @ t)"
  by (auto simp: strings_HasPrefix_def) (metis append_take_drop_id)

lemma strings_CutSuffix_Some: "strings_CutSuffix s p = Some t \<longleftrightarrow> s = t @ p"
  by (auto simp: strings_CutSuffix_def) (metis append_take_drop_id)

lemma strings_CutSuffix_append [simp]: "strings_CutSuffix (t @ p) p = Some t"
  by (simp add: strings_CutSuffix_Some)

lemma strings_Cut_Some: "strings_Cut s sep = Some (a, b) \<Longrightarrow> s = a @ sep @ b"
proof (induction s arbitrary: a)
  case Nil
  then show ?case by (auto split: if_splits)
next
  case (Cons c cs)
  then show ?case by (auto split: if_splits) (metis append_take_drop_id)
qed

lemma strings_Cut_char_None [simp]: "strings_Cut s [c] = None \<longleftrightarrow> c \<notin> set s"
  by (induction s) auto

lemma strings_Cut_char_notin: "strings_Cut s [c] = Some (a, b) \<Longrightarrow> c \<notin> set a"
  by (induction s arbitrary: a) (auto split: if_splits)

lemma strings_Cut_char_append: "c \<notin> set a \<Longrightarrow> strings_Cut (a @ c # b) [c] = Some (a, b)"
  by (induction a) auto

lemma strings_Cut_char_iff: "strings_Cut s [c] = Some (a, b) \<longleftrightarrow> s = a @ c # b \<and> c \<notin> set a"
  using strings_Cut_Some strings_Cut_char_notin strings_Cut_char_append by fastforce

lemma strings_Contains_char [simp]: "strings_Contains s [c] \<longleftrightarrow> c \<in> set s"
  by (simp add: strings_Contains_def)

lemma strings_Split_nonempty [simp]: "strings_Split s sep \<noteq> []"
  by (induction s) (auto split: list.splits)

lemma strings_Join_Cons: "ws \<noteq> [] \<Longrightarrow> strings_Join (w # ws) sep = w @ sep @ strings_Join ws sep"
  by (cases ws) auto

lemma strings_Join_Cons_Cons: "strings_Join ((c # w) # ws) sep = c # strings_Join (w # ws) sep"
  by (cases ws) auto

lemma strings_Join_Split: "strings_Join (strings_Split s sep) [sep] = s"
  by (induction s) (auto simp: strings_Join_Cons strings_Join_Cons_Cons split: list.splits)

lemma strings_Split_sep: "w \<in> set (strings_Split s sep) \<Longrightarrow> sep \<notin> set w"
  by (induction s arbitrary: w) (fastforce split: if_splits list.splits)+

lemma is_ascii_Nil [simp]: "is_ascii []"
  by (simp add: is_ascii_def)

lemma is_ascii_Cons [simp]: "is_ascii (c # s) \<longleftrightarrow> of_char c < (128 :: nat) \<and> is_ascii s"
  by (simp add: is_ascii_def)

lemma is_digit_digit_char: "d < 10 \<Longrightarrow> is_digit (digit_char d)"
  by (simp add: is_digit_def digit_char_def less_eq_char_def)

lemma digit_val_digit_char: "d < 10 \<Longrightarrow> digit_val (digit_char d) = d"
  by (simp add: digit_val_def digit_char_def)

lemma format_nat_nonempty [simp]: "format_nat n \<noteq> []"
  by (subst format_nat.simps) simp

lemma format_nat_digits: "list_all is_digit (format_nat n)"
proof (induction n rule: format_nat.induct)
  case (1 n)
  then show ?case
    by (subst format_nat.simps) (auto simp: is_digit_digit_char)
qed

lemma digits_val_snoc: "digits_val (s @ [c]) = 10 * digits_val s + digit_val c"
  by (simp add: digits_val_def)

lemma digits_val_format_nat: "digits_val (format_nat n) = n"
proof (induction n rule: format_nat.induct)
  case (1 n)
  show ?case
  proof (cases "n < 10")
    case True
    then show ?thesis by (subst format_nat.simps) (simp add: digits_val_def digit_val_digit_char)
  next
    case False
    with 1 show ?thesis
      by (subst format_nat.simps) (simp add: digits_val_snoc digit_val_digit_char)
  qed
qed

lemma parse_digits_format_nat [simp]: "parse_digits (format_nat n) = Some n"
  by (simp add: parse_digits_def format_nat_digits digits_val_format_nat)

lemma strconv_ParseUint_format_nat: "n < 2 ^ bits \<Longrightarrow> strconv_ParseUint bits (format_nat n) = Some n"
  by (simp add: strconv_ParseUint_def)

text \<open>A digit is neither a sign, a letter nor a separator.\<close>

lemma is_digit_neq: "is_digit c \<Longrightarrow> c \<noteq> CHR ''-'' \<and> c \<noteq> CHR ''+'' \<and> c \<noteq> CHR '':'' \<and> c \<noteq> CHR ''.''"
  by (auto simp: is_digit_def less_eq_char_def)

lemma strconv_Atoi_Itoa:
  assumes "- (2 ^ 63) \<le> i" and "i < 2 ^ 63"
  shows "strconv_Atoi (strconv_Itoa i) = Some i"
proof (cases "i < 0")
  case True
  with assms show ?thesis by (simp add: strconv_Atoi_def strconv_Itoa_def)
next
  case False
  obtain c cs where cs: "format_nat (nat i) = c # cs" by (cases "format_nat (nat i)") auto
  with format_nat_digits [of "nat i"] have "is_digit c" by simp
  moreover have "parse_digits (c # cs) = Some (nat i)" by (simp flip: cs)
  ultimately show ?thesis using False assms
    by (simp add: strconv_Atoi_def strconv_Itoa_def cs is_digit_neq)
qed

lemma trim_left_no_space: "space_width ws s = 0 \<Longrightarrow> trim_left ws s = s"
  by (subst trim_left.simps) simp

lemma trim_left_suffix: "\<exists>p. s = p @ trim_left ws s"
proof (induction ws s rule: trim_left.induct)
  case (1 ws s)
  show ?case
  proof (cases "space_width ws s = 0 \<or> s = []")
    case True
    then show ?thesis by (subst trim_left.simps) auto
  next
    case False
    with 1 obtain p where "drop (space_width ws s) s = p @ trim_left ws (drop (space_width ws s) s)"
      by auto
    with False have "s = (take (space_width ws s) s @ p) @ trim_left ws s"
      by (subst trim_left.simps) (metis append.assoc append_take_drop_id)
    then show ?thesis by blast
  qed
qed

text \<open>An error that a wrap only annotates keeps its kind.\<close>

lemma k8s_IsNotFound_Wrap [simp]: "k8s_IsNotFound (Wrap m e) = k8s_IsNotFound e"
  by (simp add: k8s_IsNotFound_def)

lemma k8s_IsNotFound_StatusError [simp]: "k8s_IsNotFound (StatusError c m) = (c = 404)"
  by (simp add: k8s_IsNotFound_def)

lemma find_SomeD: "find P xs = Some x \<Longrightarrow> x \<in> set xs \<and> P x"
  by (auto simp: find_Some_iff)

end
