(* ===== verification/Scale_Types.thy ===== *)
theory Scale_Types
  imports Go_Prelude
begin

text \<open>
  The data model of the store: the NodeInventory API types (api/v1beta1/nodeinventory\_types.go),
  the store's own types (pkg/scale/sandboxstore.go), the bodies exchanged with sandboxd
  (pkg/sandboxd), and of the upstream \<^verbatim>\<open>Sandbox\<close> object the fields the code reads or writes.
  A pointer field is an option; a \<^verbatim>\<open>map[string]string\<close> is a partial map, or an association list
  where the code iterates over it or takes its length.
\<close>

type_synonym strmap = "string \<rightharpoonup> string"

text \<open>Indexing a Go map gives the empty string for a missing key.\<close>

definition map_index :: "strmap \<Rightarrow> string \<Rightarrow> string" where
  "map_index m k = (case m k of None \<Rightarrow> [] | Some v \<Rightarrow> v)"

lemma map_index_simps [simp]:
  "map_index Map.empty k = []"
  "map_index (m(k \<mapsto> v)) k = v"
  "k' \<noteq> k \<Longrightarrow> map_index (m(k' \<mapsto> v)) k = map_index m k"
  by (auto simp: map_index_def)

section \<open>api/v1beta1\<close>

record PoolCapacity =
  pc_Template :: string
  pc_Net :: string
  pc_Size :: string
  pc_Warm :: int
  pc_Target :: int

record PromotedTemplate =
  pt_Template :: string
  pt_Net :: string
  pt_Size :: string
  pt_ContentDigest :: string
  pt_Tenant :: string
  pt_CreatedAt :: "time option"
  pt_CPUCount :: int
  pt_MemoryBytes :: int
  pt_Labels :: "(string \<times> string) list"

record InventoryEntry =
  ie_Name :: string
  ie_ID :: string
  ie_Phase :: string
  ie_Template :: string
  ie_ClaimRef :: string
  ie_Address :: string
  ie_Deadline :: "time option"
  ie_ClaimedAt :: "time option"
  ie_Metadata :: string
  ie_CPUCount :: int
  ie_MemoryBytes :: int

text \<open>\<open>ni_Name\<close> is \<^verbatim>\<open>metadata.name\<close>; the zero time stands for an unset \<^verbatim>\<open>publishedAt\<close>.\<close>

record NodeInventory =
  ni_Name :: string
  ni_Node :: string
  ni_Entries :: "InventoryEntry list"
  ni_Address :: string
  ni_Pools :: "PoolCapacity list"
  ni_Templates :: "PromotedTemplate list"
  ni_PublishedAt :: time

section \<open>pkg/scale\<close>

record PoolKey =
  pk_Template :: string
  pk_Net :: string
  pk_Size :: string

record NodePools =
  np_Node :: string
  np_Address :: string
  np_Pools :: "PoolCapacity list"
  np_Templates :: "PromotedTemplate list"

datatype ExpireAction = ExpireKeep | ExpireDestroy | ExpireArchive

record ClaimOptions =
  co_TTLSeconds :: int
  co_Metadata :: "(string \<times> string) list"
  co_OnExpire :: ExpireAction
  co_NoEgress :: bool
  co_Promoted :: bool

record Assignment =
  as_SandboxName :: string
  as_Node :: string
  as_Address :: string
  as_Token :: string
  as_Deadline :: time
  as_NetRoute :: string

record Snapshot =
  sn_ID :: string
  sn_Name :: string
  sn_SandboxID :: string
  sn_Pool :: PoolKey
  sn_CreatedAt :: time
  sn_Node :: string

record SandboxRecord =
  sr_Token :: string
  sr_Paused :: bool
  sr_Deadline :: time

record ListOptions =
  lo_Namespace :: string
  lo_LabelSelector :: string
  lo_FieldSelector :: string
  lo_WatchList :: bool

section \<open>pkg/sandboxd\<close>

record ClaimSpec =
  cs_Template :: string
  cs_Net :: string
  cs_Size :: string
  cs_TTLSeconds :: int
  cs_ClaimRef :: string
  cs_NoRedirect :: bool
  cs_Metadata :: "(string \<times> string) list"
  cs_OnExpire :: ExpireAction
  cs_RequirePromoted :: bool
  cs_Egress :: "bool option"

record ClaimResult =
  cr_ID :: string
  cr_Token :: string
  cr_Deadline :: time
  cr_OwnerAddr :: string
  cr_NetRoute :: string
  cr_Redirect :: "string list"

record PoolSpec =
  ps_Template :: string
  ps_Net :: string
  ps_Size :: string
  ps_Warm :: int

record NodePool =
  nl_Key :: PoolKey
  nl_Warm :: int
  nl_Refilling :: int
  nl_Target :: int
  nl_Golden :: bool

record NodeTemplate =
  nt_Key :: PoolKey
  nt_ContentDigest :: string
  nt_Tenant :: string
  nt_CreatedAt :: time
  nt_CPUCount :: int
  nt_MemTotalBytes :: int
  nt_Labels :: "(string \<times> string) list"

record NodeInfo =
  nf_Pools :: "NodePool list"
  nf_Templates :: "NodeTemplate list"
  nf_Claimed :: int
  nf_Hibernated :: int
  nf_Archived :: int
  nf_AdvertiseAddr :: string
  nf_Peers :: "string list"

record ForkSpec =
  fs_Token :: string
  fs_Count :: int
  fs_TTLSeconds :: int
  fs_ClaimRefPrefix :: string

record RenewSpec =
  rs_TTLSeconds :: int
  rs_OnExpire :: ExpireAction

record CheckpointSpec =
  ks_Token :: string
  ks_Name :: string

record Checkpoint =
  ck_ID :: string
  ck_Name :: string
  ck_SandboxID :: string
  ck_Key :: PoolKey
  ck_CreatedAt :: time

record SandboxSummary =
  ss_ID :: string
  ss_Key :: PoolKey
  ss_Deadline :: time
  ss_ClaimedAt :: time
  ss_Hibernated :: bool
  ss_Archived :: bool
  ss_ClaimRef :: string
  ss_Token :: string
  ss_Metadata :: "(string \<times> string) list"
  ss_CPUCount :: int
  ss_MemTotalBytes :: int

section \<open>The upstream Sandbox object\<close>

text \<open>The condition type and the reason whose texts are upstream's stay names here.\<close>

datatype condition_type = SandboxConditionReady

datatype condition_reason = Reason string | SandboxReasonDependenciesReady

record Condition =
  cd_Type :: condition_type
  cd_Status :: string
  cd_Reason :: condition_reason
  cd_Message :: msg

text \<open>A container's image and its CPU and memory requests and limits, in nano-units of a resource.\<close>

record Container =
  ct_Image :: string
  ct_RequestsCPU :: int
  ct_RequestsMemory :: int
  ct_LimitsCPU :: int
  ct_LimitsMemory :: int

record Sandbox =
  sb_Namespace :: string
  sb_Name :: string
  sb_GenerateName :: string
  sb_UID :: string
  sb_Labels :: strmap
  sb_Annotations :: strmap
  sb_ResourceVersion :: string
  sb_CreationTimestamp :: time
  sb_Containers :: "Container list"
  sb_PodAnnotations :: strmap
  sb_ShutdownTime :: "time option"
  sb_NodeName :: string
  sb_PodIPs :: "string list"
  sb_Conditions :: "Condition list"

definition empty_Sandbox :: Sandbox where
  "empty_Sandbox =
     \<lparr>sb_Namespace = [], sb_Name = [], sb_GenerateName = [], sb_UID = [], sb_Labels = Map.empty,
      sb_Annotations = Map.empty, sb_ResourceVersion = [], sb_CreationTimestamp = 0,
      sb_Containers = [], sb_PodAnnotations = Map.empty, sb_ShutdownTime = None, sb_NodeName = [],
      sb_PodIPs = [], sb_Conditions = []\<rparr>"

section \<open>The sandboxd client interface and the inventory source\<close>

text \<open>
  \<^verbatim>\<open>SandboxdClient\<close>: what the store asks of one node. The nodes, their daemons and the network are
  the world \<open>'w\<close>; a verb that changes them maps the world to an answer and a new world, a read
  answers from the world. A connection to a guest port is the number of its handle.
\<close>

record 'w SandboxdClient =
  cl_Claim :: "ClaimSpec \<Rightarrow> 'w \<Rightarrow> (err + ClaimResult) \<times> 'w"
  cl_Release :: "string \<Rightarrow> string \<Rightarrow> 'w \<Rightarrow> (err + unit) \<times> 'w"
  cl_Hibernate :: "string \<Rightarrow> 'w \<Rightarrow> (err + unit) \<times> 'w"
  cl_Wake :: "string \<Rightarrow> 'w \<Rightarrow> (err + unit) \<times> 'w"
  cl_Renew :: "string \<Rightarrow> RenewSpec \<Rightarrow> 'w \<Rightarrow> (err + time) \<times> 'w"
  cl_Fork :: "string \<Rightarrow> ForkSpec \<Rightarrow> 'w \<Rightarrow> (err + ClaimResult list) \<times> 'w"
  cl_Checkpoint :: "string \<Rightarrow> CheckpointSpec \<Rightarrow> 'w \<Rightarrow> (err + Checkpoint) \<times> 'w"
  cl_Checkpoints :: "'w \<Rightarrow> err + Checkpoint list"
  cl_DeleteCheckpoint :: "string \<Rightarrow> 'w \<Rightarrow> (err + unit) \<times> 'w"
  cl_DeleteTemplate :: "PoolKey \<Rightarrow> string \<Rightarrow> 'w \<Rightarrow> (err + unit) \<times> 'w"
  cl_Promote :: "string \<Rightarrow> string \<Rightarrow> 'w \<Rightarrow> (err + PoolKey \<times> string) \<times> 'w"
  cl_SetTemplateLabels :: "PoolKey \<Rightarrow> (string \<times> string) list \<Rightarrow> string \<Rightarrow> 'w \<Rightarrow> (err + unit) \<times> 'w"
  cl_Info :: "'w \<Rightarrow> err + NodeInfo"
  cl_DialPort :: "string \<Rightarrow> string \<Rightarrow> nat \<Rightarrow> 'w \<Rightarrow> (err + nat) \<times> 'w"
  cl_SetInstanceMetadata :: "string \<Rightarrow> string \<Rightarrow> 'w \<Rightarrow> (err + unit) \<times> 'w"
  cl_Sandbox :: "string \<Rightarrow> 'w \<Rightarrow> err + SandboxSummary"
  cl_SandboxesByClaimRef :: "string \<Rightarrow> 'w \<Rightarrow> err + SandboxSummary list"

text \<open>\<^verbatim>\<open>InventorySource\<close>: the fleet as the process holds it in memory, read from the world.\<close>

record 'w InventorySource =
  src_ListNodes :: "'w \<Rightarrow> err + string list"
  src_NodeInventory :: "'w \<Rightarrow> string \<Rightarrow> err + NodeInventory"
  src_NodeCapacity :: "'w \<Rightarrow> string \<Rightarrow> err + string \<times> PoolCapacity list"
  src_NodeCapacities :: "'w \<Rightarrow> err + NodePools list"

end
