(* ===== verification/Pool_Key.thy ===== *)
theory Pool_Key
  imports Scale_Types
begin

text \<open>
  The warm-pool key (pkg/scale/poolkey.go) and how a node's reported capacity is matched against it
  (\<^verbatim>\<open>poolCapacityMatches\<close> in pkg/scale/sandboxstore\_impl.go). A \<^verbatim>\<open>resource.Quantity\<close> is the
  integer number of nano-units it stands for, the finest precision the type keeps.
\<close>

definition SizeClassSmall :: string where "SizeClassSmall = ''small''"
definition SizeClassMedium :: string where "SizeClassMedium = ''medium''"
definition SizeClassLarge :: string where "SizeClassLarge = ''large''"
definition NetDefault :: string where "NetDefault = ''none''"
definition NetEgress :: string where "NetEgress = ''egress''"
definition NetAnnotation :: string where "NetAnnotation = ''sandbox.cocoonstack.io/net''"

definition nano :: int where "nano = 1000000000"

definition sizeCPUMedium :: int where "sizeCPUMedium = 1 * nano"
definition sizeMemMedium :: int where "sizeMemMedium = 2 * 2 ^ 30 * nano"
definition sizeCPULarge :: int where "sizeCPULarge = 4 * nano"
definition sizeMemLarge :: int where "sizeMemLarge = 8 * 2 ^ 30 * nano"

definition SizeClassForContainers :: "Container list \<Rightarrow> string" where
  "SizeClassForContainers containers =
     (case containers of
        [] \<Rightarrow> SizeClassSmall
      | res # _ \<Rightarrow>
          (let cpu = (if ct_RequestsCPU res = 0 then ct_LimitsCPU res else ct_RequestsCPU res);
               mem = (if ct_RequestsMemory res = 0 then ct_LimitsMemory res else ct_RequestsMemory res)
           in if cpu > sizeCPULarge \<or> mem > sizeMemLarge then SizeClassLarge
              else if cpu > sizeCPUMedium \<or> mem > sizeMemMedium then SizeClassMedium
              else SizeClassSmall))"

definition PoolKeyFor :: "Container list \<Rightarrow> string \<Rightarrow> PoolKey" where
  "PoolKeyFor containers net =
     \<lparr>pk_Template = (case containers of [] \<Rightarrow> [] | c # _ \<Rightarrow> ct_Image c),
      pk_Net = cmp_Or net NetDefault,
      pk_Size = SizeClassForContainers containers\<rparr>"

definition NetForAnnotations :: "strmap \<Rightarrow> strmap \<Rightarrow> string" where
  "NetForAnnotations object podTemplate =
     cmp_Or (map_index object NetAnnotation) (map_index podTemplate NetAnnotation)"

definition poolCapacityMatches :: "PoolCapacity \<Rightarrow> PoolKey \<Rightarrow> bool" where
  "poolCapacityMatches pc key =
     (pc_Template pc = pk_Template key
      \<and> cmp_Or (pc_Net pc) NetDefault = cmp_Or (pk_Net key) NetDefault
      \<and> cmp_Or (pc_Size pc) SizeClassSmall = cmp_Or (pk_Size key) SizeClassSmall)"

section \<open>Lemmas\<close>

lemmas size_consts = SizeClassSmall_def SizeClassMedium_def SizeClassLarge_def
lemmas size_thresholds = sizeCPUMedium_def sizeMemMedium_def sizeCPULarge_def sizeMemLarge_def nano_def

lemma size_class_range:
  "SizeClassForContainers cs \<in> {SizeClassSmall, SizeClassMedium, SizeClassLarge}"
  by (simp add: SizeClassForContainers_def Let_def split: list.split)

lemma SizeClass_nonempty [simp]: "SizeClassForContainers cs \<noteq> []"
  using size_class_range [of cs] by (auto simp: size_consts)

lemma PoolKeyFor_axes [simp]: "pk_Net (PoolKeyFor cs net) \<noteq> []" "pk_Size (PoolKeyFor cs net) \<noteq> []"
  by (simp_all add: PoolKeyFor_def NetDefault_def)

text \<open>The order of the size classes.\<close>

definition size_rank :: "string \<Rightarrow> nat" where
  "size_rank s = (if s = SizeClassLarge then 2 else if s = SizeClassMedium then 1 else 0)"

lemma size_rank_mono:
  assumes "ct_RequestsCPU c \<noteq> 0" "ct_RequestsMemory c \<noteq> 0"
    and "ct_RequestsCPU c \<le> ct_RequestsCPU d" "ct_RequestsMemory c \<le> ct_RequestsMemory d"
    and "ct_RequestsCPU d \<noteq> 0" "ct_RequestsMemory d \<noteq> 0"
  shows "size_rank (SizeClassForContainers (c # cs)) \<le> size_rank (SizeClassForContainers (d # ds))"
  using assms by (auto simp: SizeClassForContainers_def size_rank_def Let_def size_consts size_thresholds)

lemma poolCapacityMatches_key:
  "poolCapacityMatches \<lparr>pc_Template = pk_Template k, pc_Net = pk_Net k, pc_Size = pk_Size k,
     pc_Warm = w, pc_Target = t\<rparr> k"
  by (simp add: poolCapacityMatches_def)

end
