(* ===== verification/Store_Entry.thy ===== *)
theory Store_Entry
  imports Pool_Key "HOL-Library.Word"
begin

text \<open>
  How one row of a node's index becomes an inventory entry (pkg/scale/sandboxstore\_live.go), and how
  an inventory entry becomes the Sandbox the API serves (pkg/scale/sandboxstore\_impl.go). The JSON
  encoder of the metadata is the parameter \<open>marshal\<close>, None when it reports an error.
\<close>

unbundle bit_operations_syntax

section \<open>Labels and annotations\<close>

definition NodeLabel :: string where "NodeLabel = ''sandbox.cocoonstack.io/node''"
definition PhaseLabel :: string where "PhaseLabel = ''sandbox.cocoonstack.io/phase''"
definition PhaseRunning :: string where "PhaseRunning = ''Running''"
definition PhaseHibernated :: string where "PhaseHibernated = ''Hibernated''"
definition ClaimLabel :: string where "ClaimLabel = ''sandbox.cocoonstack.io/claim''"
definition TemplateLabel :: string where "TemplateLabel = ''sandbox.cocoonstack.io/template''"
definition ClaimIDAnnotation :: string where "ClaimIDAnnotation = ''sandbox.cocoonstack.io/claim-id''"
definition DeadlineAnnotation :: string where "DeadlineAnnotation = ''sandbox.cocoonstack.io/deadline''"
definition TokenAnnotation :: string where "TokenAnnotation = ''sandbox.cocoonstack.io/token''"
definition MetadataAnnotation :: string where "MetadataAnnotation = ''sandbox.cocoonstack.io/metadata''"
definition CPUCountAnnotation :: string where "CPUCountAnnotation = ''sandbox.cocoonstack.io/cpu-count''"
definition MemoryBytesAnnotation :: string where "MemoryBytesAnnotation = ''sandbox.cocoonstack.io/memory-bytes''"

lemmas annotation_keys = ClaimIDAnnotation_def DeadlineAnnotation_def TokenAnnotation_def
  MetadataAnnotation_def CPUCountAnnotation_def MemoryBytesAnnotation_def NetAnnotation_def

lemmas label_keys = NodeLabel_def PhaseLabel_def ClaimLabel_def TemplateLabel_def

section \<open>Names\<close>

definition NamespaceDefault :: string where "NamespaceDefault = ''default''"

definition namespacedName :: "string \<Rightarrow> string \<Rightarrow> string" where
  "namespacedName namespace name = namespace @ ''/'' @ name"

definition splitNamespacedName :: "string \<Rightarrow> string \<times> string" where
  "splitNamespacedName s =
     (case strings_Cut s ''/'' of Some (before, after) \<Rightarrow> (before, after) | None \<Rightarrow> (NamespaceDefault, s))"

definition objKey :: "Sandbox \<Rightarrow> string" where
  "objKey sb = namespacedName (sb_Namespace sb) (sb_Name sb)"

lemma split_namespacedName [simp]:
  "CHR ''/'' \<notin> set ns \<Longrightarrow> splitNamespacedName (namespacedName ns name) = (ns, name)"
  by (simp add: splitNamespacedName_def namespacedName_def strings_Cut_char_append)

lemma split_no_slash: "splitNamespacedName s = (ns, name) \<Longrightarrow> CHR ''/'' \<notin> set ns"
  by (auto simp: splitNamespacedName_def NamespaceDefault_def dest: strings_Cut_char_notin split: option.splits)

section \<open>From a node's index to its inventory\<close>

definition isPaused :: "SandboxSummary \<Rightarrow> bool" where
  "isPaused row = (ss_Hibernated row \<or> ss_Archived row)"

definition optionalTime :: "time \<Rightarrow> time option" where
  "optionalTime t = (if time_IsZero t then None else Some t)"

definition encodeMetadata :: "((string \<times> string) list \<Rightarrow> string option) \<Rightarrow> (string \<times> string) list \<Rightarrow> string" where
  "encodeMetadata marshal md =
     (if md = [] then [] else (case marshal md of None \<Rightarrow> [] | Some b \<Rightarrow> b))"

definition EntryFromSummary ::
  "((string \<times> string) list \<Rightarrow> string option) \<Rightarrow> SandboxSummary \<Rightarrow> InventoryEntry" where
  "EntryFromSummary marshal row =
     (let name = cmp_Or (ss_ClaimRef row) (ss_ID row)
      in \<lparr>ie_Name = name, ie_ID = ss_ID row,
          ie_Phase = (if isPaused row then PhaseHibernated else PhaseRunning),
          ie_Template = pk_Template (ss_Key row), ie_ClaimRef = name, ie_Address = [],
          ie_Deadline = optionalTime (ss_Deadline row), ie_ClaimedAt = optionalTime (ss_ClaimedAt row),
          ie_Metadata = encodeMetadata marshal (ss_Metadata row),
          ie_CPUCount = ss_CPUCount row, ie_MemoryBytes = ss_MemTotalBytes row\<rparr>)"

definition PoolCapacityFromInfo :: "NodeInfo \<Rightarrow> PoolCapacity list" where
  "PoolCapacityFromInfo info =
     map (\<lambda>p. \<lparr>pc_Template = pk_Template (nl_Key p), pc_Net = pk_Net (nl_Key p),
                pc_Size = pk_Size (nl_Key p), pc_Warm = nl_Warm p, pc_Target = nl_Target p\<rparr>) (nf_Pools info)"

definition TemplatesFromInfo :: "NodeInfo \<Rightarrow> PromotedTemplate list" where
  "TemplatesFromInfo info =
     map (\<lambda>t. \<lparr>pt_Template = pk_Template (nt_Key t), pt_Net = pk_Net (nt_Key t),
                pt_Size = pk_Size (nt_Key t), pt_ContentDigest = nt_ContentDigest t,
                pt_Tenant = nt_Tenant t, pt_CreatedAt = optionalTime (nt_CreatedAt t),
                pt_CPUCount = wrap32 (nt_CPUCount t), pt_MemoryBytes = nt_MemTotalBytes t,
                pt_Labels = nt_Labels t\<rparr>) (nf_Templates info)"

section \<open>From an inventory entry to a Sandbox\<close>

definition AddressIPs :: "string \<Rightarrow> string list" where
  "AddressIPs addr =
     (if addr = [] then []
      else (let addr' = (case strings_Cut addr ''://'' of Some (_, rest) \<Rightarrow> rest | None \<Rightarrow> addr)
            in case net_SplitHostPort addr' of
                 Some (host, _) \<Rightarrow> if host \<noteq> [] then [host] else [addr']
               | None \<Rightarrow> [addr']))"

definition SandboxdBaseURL :: "string \<Rightarrow> string" where
  "SandboxdBaseURL addr = (if strings_Contains addr ''://'' then addr else ''http://'' @ addr)"

definition synthLabels :: "string \<Rightarrow> InventoryEntry \<Rightarrow> strmap" where
  "synthLabels node e =
     (let l0 = Map.empty(NodeLabel \<mapsto> node);
          l1 = (if ie_Phase e \<noteq> [] then l0(PhaseLabel \<mapsto> ie_Phase e) else l0);
          l2 = (if ie_Template e \<noteq> [] then l1(TemplateLabel \<mapsto> ie_Template e) else l1);
          claim = snd (splitNamespacedName (ie_ClaimRef e))
      in if ie_ClaimRef e \<noteq> [] \<and> claim \<noteq> [] then l2(ClaimLabel \<mapsto> claim) else l2)"

definition deadlineValue :: "InventoryEntry \<Rightarrow> string" where
  "deadlineValue e =
     (case ie_Deadline e of None \<Rightarrow> [] | Some d \<Rightarrow> if time_IsZero d then [] else format_RFC3339 d)"

definition claimedAtValue :: "InventoryEntry \<Rightarrow> string" where
  "claimedAtValue e = (case ie_ClaimedAt e of None \<Rightarrow> [] | Some t \<Rightarrow> strconv_Itoa (time_Unix t))"

definition synthAnnotations :: "InventoryEntry \<Rightarrow> strmap" where
  "synthAnnotations e =
     (let a0 = Map.empty;
          a1 = (if ie_ID e \<noteq> [] then a0(ClaimIDAnnotation \<mapsto> ie_ID e) else a0);
          a2 = (if deadlineValue e \<noteq> [] then a1(DeadlineAnnotation \<mapsto> deadlineValue e) else a1);
          a3 = (if ie_Metadata e \<noteq> [] then a2(MetadataAnnotation \<mapsto> ie_Metadata e) else a2);
          a4 = (if ie_CPUCount e > 0 then a3(CPUCountAnnotation \<mapsto> strconv_Itoa (ie_CPUCount e)) else a3)
      in if ie_MemoryBytes e > 0 then a4(MemoryBytesAnnotation \<mapsto> strconv_Itoa (ie_MemoryBytes e)) else a4)"

text \<open>\<^verbatim>\<open>strings.EqualFold\<close> against an ASCII word without k and s, to which no other code point folds.\<close>

definition strings_EqualFold :: "string \<Rightarrow> string \<Rightarrow> bool" where
  "strings_EqualFold s t = (map ascii_lower s = map ascii_lower t)"

definition readyStatus :: "string \<Rightarrow> string" where
  "readyStatus phase =
     (if strings_EqualFold phase PhaseRunning \<or> strings_EqualFold phase ''Ready'' then ''True'' else ''False'')"

text \<open>\<^verbatim>\<open>hash/fnv\<close>'s 64-bit FNV-1a.\<close>

definition fnv64a :: "string \<Rightarrow> 64 word" where
  "fnv64a s = foldl (\<lambda>h c. (h XOR of_char c) * 1099511628211) 14695981039346656037 s"

definition resourceVersionFor :: "string \<Rightarrow> string \<Rightarrow> InventoryEntry \<Rightarrow> string" where
  "resourceVersionFor ns name e =
     format_nat (unat (fnv64a (ns @ ''/'' @ name @ ''|'' @ ie_ID e @ ''|'' @ ie_Phase e @ ''|'' @ ie_ClaimRef e
       @ ''|'' @ ie_Address e @ ''|'' @ ie_Template e @ ''|'' @ deadlineValue e @ ''|'' @ claimedAtValue e)))"

definition entryToSandbox :: "string \<Rightarrow> InventoryEntry \<Rightarrow> Sandbox" where
  "entryToSandbox node e =
     (let (ns, name) = splitNamespacedName (ie_Name e)
      in empty_Sandbox\<lparr>sb_Namespace := ns, sb_Name := name, sb_Labels := synthLabels node e,
           sb_Annotations := synthAnnotations e, sb_ResourceVersion := resourceVersionFor ns name e,
           sb_NodeName := node, sb_PodIPs := AddressIPs (ie_Address e),
           sb_Conditions := [\<lparr>cd_Type = SandboxConditionReady, cd_Status = readyStatus (ie_Phase e),
             cd_Reason = Reason (cmp_Or (ie_Phase e) ''Unknown''),
             cd_Message = Msg ''phase %q reported by node %q inventory'' [ie_Phase e, node]\<rparr>],
           sb_CreationTimestamp := (case ie_ClaimedAt e of None \<Rightarrow> 0 | Some t \<Rightarrow> t)\<rparr>)"

text \<open>The metadata annotation read back; \<open>unmarshal\<close> is \<^verbatim>\<open>json.Unmarshal\<close> into a string map.\<close>

definition MetadataOf ::
  "(string \<Rightarrow> (string \<times> string) list option) \<Rightarrow> Sandbox \<Rightarrow> (string \<times> string) list option" where
  "MetadataOf unmarshal sb =
     (let raw = map_index (sb_Annotations sb) MetadataAnnotation
      in if raw = [] then None else unmarshal raw)"

section \<open>Lemmas\<close>

text \<open>
  FNV-1a tells texts that differ in one byte apart: a round is injective in the hash, the prime being odd, and two bytes
  give two hashes.
\<close>

lemma fnv_round_inj:
  assumes "((h :: 64 word) XOR c) * 1099511628211 = (h' XOR c) * 1099511628211"
  shows "h = h'"
proof -
  have inv: "(1099511628211 :: 64 word) * 14886173955864302971 = 1" by simp
  have "(h XOR c) * (1099511628211 * 14886173955864302971) = (h' XOR c) * (1099511628211 * 14886173955864302971)"
    using assms unfolding mult.assoc [symmetric] by (rule arg_cong)
  then have "(h XOR c) XOR c = (h' XOR c) XOR c" unfolding inv by simp
  then show ?thesis by (simp add: xor.assoc)
qed

lemma fnv_rounds_inj:
  "foldl (\<lambda>h c. (h XOR of_char c) * 1099511628211) h s = foldl (\<lambda>h c. (h XOR of_char c) * 1099511628211) h' s \<Longrightarrow> h = (h' :: 64 word)"
  by (induction s arbitrary: h h') (auto dest: fnv_round_inj)

lemma fnv64a_byte:
  assumes "(of_char x :: 64 word) \<noteq> of_char y"
  shows "fnv64a (p @ x # s) \<noteq> fnv64a (p @ y # s)"
proof
  let ?h = "foldl (\<lambda>h c. (h XOR of_char c) * 1099511628211) (14695981039346656037 :: 64 word) p"
  assume "fnv64a (p @ x # s) = fnv64a (p @ y # s)"
  then have "(of_char x XOR ?h) * 1099511628211 = (of_char y XOR ?h) * 1099511628211"
    by (auto simp: fnv64a_def xor.commute dest: fnv_rounds_inj)
  then show False using assms fnv_round_inj by blast
qed

lemma format_nat_inj: "format_nat m = format_nat n \<Longrightarrow> m = n"
  by (metis digits_val_format_nat)

lemma entryToSandbox_fields [simp]:
  "sb_NodeName (entryToSandbox node e) = node"
  "sb_Namespace (entryToSandbox node e) = fst (splitNamespacedName (ie_Name e))"
  "sb_Name (entryToSandbox node e) = snd (splitNamespacedName (ie_Name e))"
  "sb_Labels (entryToSandbox node e) = synthLabels node e"
  "sb_Annotations (entryToSandbox node e) = synthAnnotations e"
  "sb_ResourceVersion (entryToSandbox node e)
     = resourceVersionFor (fst (splitNamespacedName (ie_Name e))) (snd (splitNamespacedName (ie_Name e))) e"
  by (simp_all add: entryToSandbox_def split: prod.split)

lemma synthAnnotations_claim [simp]: "map_index (synthAnnotations e) ClaimIDAnnotation = ie_ID e"
  by (simp add: synthAnnotations_def Let_def annotation_keys map_index_def)

lemma synthAnnotations_metadata [simp]: "map_index (synthAnnotations e) MetadataAnnotation = ie_Metadata e"
  by (simp add: synthAnnotations_def Let_def annotation_keys map_index_def)

lemma synthAnnotations_deadline [simp]: "map_index (synthAnnotations e) DeadlineAnnotation = deadlineValue e"
  by (simp add: synthAnnotations_def Let_def annotation_keys map_index_def)

lemma synthAnnotations_token [simp]: "map_index (synthAnnotations e) TokenAnnotation = []"
  by (simp add: synthAnnotations_def Let_def annotation_keys map_index_def)

lemma EntryFromSummary_fields [simp]:
  "ie_Name (EntryFromSummary m row) = cmp_Or (ss_ClaimRef row) (ss_ID row)"
  "ie_ID (EntryFromSummary m row) = ss_ID row"
  "ie_Metadata (EntryFromSummary m row) = encodeMetadata m (ss_Metadata row)"
  by (simp_all add: EntryFromSummary_def Let_def)

end
