(* ===== verification/Node_Index.thy ===== *)
theory Node_Index
  imports Go_Prelude
begin

text \<open>
  The resolution index of pkg/scale/nodeindex.go: a two-generation map from a lookup key to the node
  last seen holding it. The mutex makes every operation atomic, so an execution is a sequence of
  operations. The generations are association lists with distinct keys, whose length is \<^verbatim>\<open>len\<close>.
\<close>

record nodeIndex =
  nx_max :: nat
  nx_cur :: "(string \<times> string) list"
  nx_prev :: "(string \<times> string) list"

definition nodeIndexMaxEntries :: nat where "nodeIndexMaxEntries = 8192"

definition newNodeIndex :: "nat \<Rightarrow> nodeIndex" where
  "newNodeIndex maxEntries = \<lparr>nx_max = maxEntries, nx_cur = [], nx_prev = []\<rparr>"

definition storeLocked :: "string \<Rightarrow> string \<Rightarrow> nodeIndex \<Rightarrow> nodeIndex" where
  "storeLocked key node x =
     (let x' = (if nx_max x \<le> length (nx_cur x) then x\<lparr>nx_prev := nx_cur x, nx_cur := []\<rparr> else x)
      in x'\<lparr>nx_cur := AList.update key node (nx_cur x')\<rparr>)"

definition index_lookup :: "string \<Rightarrow> nodeIndex \<Rightarrow> string option \<times> nodeIndex" where
  "index_lookup key x =
     (case map_of (nx_cur x) key of
        Some node \<Rightarrow> (Some node, x)
      | None \<Rightarrow>
          (case map_of (nx_prev x) key of
             Some node \<Rightarrow> (Some node, storeLocked key node x)
           | None \<Rightarrow> (None, x)))"

definition index_remember :: "string \<Rightarrow> string \<Rightarrow> nodeIndex \<Rightarrow> nodeIndex" where
  "index_remember key node x = (if key = [] \<or> node = [] then x else storeLocked key node x)"

definition nameKey :: "string \<Rightarrow> string \<Rightarrow> string" where
  "nameKey namespace name = ''name/'' @ namespace @ ''/'' @ name"

definition claimKey :: "string \<Rightarrow> string \<Rightarrow> string" where
  "claimKey namespace cid = ''claim/'' @ namespace @ ''/'' @ cid"

text \<open>What the index answers for a key, and the invariant of its generations.\<close>

definition index_view :: "nodeIndex \<Rightarrow> string \<rightharpoonup> string" where
  "index_view x = map_of (nx_prev x) ++ map_of (nx_cur x)"

definition index_ok :: "nodeIndex \<Rightarrow> bool" where
  "index_ok x \<longleftrightarrow> distinct (map fst (nx_cur x)) \<and> distinct (map fst (nx_prev x))
     \<and> length (nx_cur x) \<le> max 1 (nx_max x) \<and> length (nx_prev x) \<le> max 1 (nx_max x)"

datatype index_op = Remember string string | Lookup string

fun index_step :: "index_op \<Rightarrow> nodeIndex \<Rightarrow> nodeIndex" where
  "index_step (Remember k n) x = index_remember k n x"
| "index_step (Lookup k) x = snd (index_lookup k x)"

text \<open>An execution: the list holds the newest operation first.\<close>

definition index_run :: "index_op list \<Rightarrow> nodeIndex \<Rightarrow> nodeIndex" where
  "index_run ops x = foldr index_step ops x"

section \<open>The contract of a hint index\<close>

text \<open>The last node a sequence of operations remembered for each key.\<close>

fun last_remembered :: "index_op list \<Rightarrow> string \<rightharpoonup> string" where
  "last_remembered [] = Map.empty"
| "last_remembered (Remember k n # ops) =
     (if k = [] \<or> n = [] then last_remembered ops else (last_remembered ops)(k \<mapsto> n))"
| "last_remembered (Lookup k # ops) = last_remembered ops"

text \<open>
  Operations are applied from the right, the newest first in the list. A client of the index relies
  on two laws: a lookup answers the view, and no operation invents an answer.
\<close>

locale hint_index =
  fixes empty :: "'x"
    and lookup :: "string \<Rightarrow> 'x \<Rightarrow> string option \<times> 'x"
    and remember :: "string \<Rightarrow> string \<Rightarrow> 'x \<Rightarrow> 'x"
    and view :: "'x \<Rightarrow> string \<rightharpoonup> string"
  assumes view_empty: "view empty = Map.empty"
    and lookup_view: "fst (lookup k x) = view x k"
    and view_lookup: "view (snd (lookup k x)) \<subseteq>\<^sub>m view x"
    and view_remember: "k \<noteq> [] \<Longrightarrow> n \<noteq> [] \<Longrightarrow> view (remember k n x) \<subseteq>\<^sub>m (view x)(k \<mapsto> n)"
    and remember_ignored: "k = [] \<or> n = [] \<Longrightarrow> remember k n x = x"
    and remembered: "k \<noteq> [] \<Longrightarrow> n \<noteq> [] \<Longrightarrow> view (remember k n x) k = Some n"
begin

primrec run :: "index_op list \<Rightarrow> 'x" where
  "run [] = empty"
| "run (op # ops) =
     (case op of Remember k n \<Rightarrow> remember k n (run ops) | Lookup k \<Rightarrow> snd (lookup k (run ops)))"

lemma view_run: "view (run ops) \<subseteq>\<^sub>m last_remembered ops"
proof (induction ops)
  case Nil
  show ?case by (simp add: view_empty)
next
  case (Cons op ops)
  show ?case
  proof (cases op)
    case (Remember k n)
    then show ?thesis
      using Cons view_remember [of k n "run ops"] map_le_upd [OF Cons, of k "Some n"]
      by (auto simp: remember_ignored intro: map_le_trans)
  next
    case (Lookup k)
    then show ?thesis using Cons view_lookup by (auto intro: map_le_trans)
  qed
qed

lemma lookup_last_remembered:
  assumes "fst (lookup k (run ops)) = Some n"
  shows "last_remembered ops k = Some n"
proof -
  have "view (run ops) k = Some n" using assms by (simp add: lookup_view)
  then show ?thesis using view_run [of ops] by (force simp: map_le_def dom_def)
qed

end

section \<open>The index meets the contract\<close>

lemma map_of_AList_update: "map_of (AList.update k v xs) = (map_of xs)(k \<mapsto> v)"
  by (rule update_conv')

lemma length_AList_update: "length (AList.update k v xs) \<le> Suc (length xs)"
  by (induction xs) auto

lemma view_storeLocked: "index_view (storeLocked k n x) \<subseteq>\<^sub>m (index_view x)(k \<mapsto> n)"
  by (auto simp: index_view_def storeLocked_def Let_def map_le_def map_of_AList_update
      map_add_def split: option.splits)

lemma view_storeLocked_self: "index_view (storeLocked k n x) k = Some n"
  by (simp add: index_view_def storeLocked_def Let_def map_of_AList_update map_add_def)

lemma fst_index_lookup: "fst (index_lookup k x) = index_view x k"
  by (auto simp: index_lookup_def index_view_def map_add_def split: option.splits)

lemma view_index_lookup: "index_view (snd (index_lookup k x)) \<subseteq>\<^sub>m index_view x"
proof (cases "map_of (nx_cur x) k")
  case (Some n)
  then show ?thesis by (simp add: index_lookup_def)
next
  case cur: None
  show ?thesis
  proof (cases "map_of (nx_prev x) k")
    case None
    with cur show ?thesis by (simp add: index_lookup_def)
  next
    case (Some n)
    with cur have "(index_view x)(k \<mapsto> n) = index_view x"
      by (auto simp: index_view_def map_add_def)
    with cur Some view_storeLocked [of k n x] show ?thesis by (simp add: index_lookup_def)
  qed
qed

lemma view_newNodeIndex: "index_view (newNodeIndex m) = Map.empty"
  by (simp add: index_view_def newNodeIndex_def)

interpretation node_index: hint_index "newNodeIndex m" index_lookup index_remember index_view for m
  by unfold_locales
    (auto simp: view_newNodeIndex fst_index_lookup view_index_lookup index_remember_def
      view_storeLocked_self intro: view_storeLocked)

section \<open>Bounds and retention\<close>

lemma index_ok_new: "index_ok (newNodeIndex m)"
  by (simp add: index_ok_def newNodeIndex_def)

lemma index_ok_storeLocked: "index_ok x \<Longrightarrow> index_ok (storeLocked k n x)"
  using length_AList_update [of k n "nx_cur x"] length_AList_update [of k n "[]"]
  by (auto simp: index_ok_def storeLocked_def Let_def distinct_update)

lemma index_ok_lookup: "index_ok x \<Longrightarrow> index_ok (snd (index_lookup k x))"
  by (auto simp: index_lookup_def index_ok_storeLocked split: option.splits)

lemma index_ok_remember: "index_ok x \<Longrightarrow> index_ok (index_remember k n x)"
  by (simp add: index_remember_def index_ok_storeLocked)

lemma nx_max_ops [simp]:
  "nx_max (storeLocked k n x) = nx_max x"
  "nx_max (snd (index_lookup k x)) = nx_max x"
  "nx_max (index_remember k n x) = nx_max x"
  by (auto simp: storeLocked_def index_lookup_def index_remember_def Let_def split: option.splits)

lemma index_run_simps [simp]: "index_run [] x = x" "index_run (op # ops) x = index_step op (index_run ops x)"
  by (simp_all add: index_run_def)

lemma index_run_locale: "index_run ops (newNodeIndex m) = node_index.run m ops"
proof (induction ops)
  case (Cons op ops)
  then show ?case by (cases op) simp_all
qed simp

lemma index_run_max [simp]: "nx_max (index_run ops x) = nx_max x"
proof (induction ops)
  case (Cons op ops)
  then show ?case by (cases op) simp_all
qed simp

lemma index_ok_run: "index_ok x \<Longrightarrow> index_ok (index_run ops x)"
proof (induction ops)
  case (Cons op ops)
  then show ?case by (cases op) (simp_all add: index_ok_lookup index_ok_remember)
qed simp

text \<open>
  A key in the current generation, or in the retired one with room left for \<open>n\<close> more stores.
\<close>

definition retained :: "string \<Rightarrow> nat \<Rightarrow> nodeIndex \<Rightarrow> bool" where
  "retained k n x \<longleftrightarrow> map_of (nx_cur x) k \<noteq> None
     \<or> (map_of (nx_prev x) k \<noteq> None \<and> length (nx_cur x) + n \<le> nx_max x)"

lemma retained_view: "retained k n x \<Longrightarrow> index_view x k \<noteq> None"
  by (auto simp: retained_def index_view_def map_add_def split: option.splits)

lemma retained_storeLocked:
  assumes "retained k (Suc n) x" "Suc n \<le> nx_max x"
  shows "retained k n (storeLocked k' v x)"
  using assms length_AList_update [of k' v "nx_cur x"]
  by (auto simp: retained_def storeLocked_def Let_def map_of_AList_update split: if_splits)

lemma retained_mono: "retained k (Suc n) x \<Longrightarrow> retained k n x"
  by (auto simp: retained_def)

lemma retained_step:
  assumes "retained k (Suc n) x" "Suc n \<le> nx_max x"
  shows "retained k n (index_step op x)"
  using retained_storeLocked [OF assms] retained_mono [OF assms(1)]
  by (cases op) (auto simp: index_remember_def index_lookup_def split: option.splits)

lemma retained_run:
  assumes "retained k n x" "n \<le> nx_max x" "length ops \<le> n"
  shows "retained k (n - length ops) (index_run ops x)"
  using assms(3)
proof (induction ops)
  case Nil
  then show ?case using assms(1) by simp
next
  case (Cons op ops)
  then have "retained k (Suc (n - length (op # ops))) (index_run ops x)"
    by (simp add: Suc_diff_Suc)
  moreover have "Suc (n - length (op # ops)) \<le> nx_max (index_run ops x)"
    using assms(2) Cons.prems by simp
  ultimately show ?case using retained_step by simp
qed

lemma retained_remember: "k \<noteq> [] \<Longrightarrow> v \<noteq> [] \<Longrightarrow> retained k n (index_remember k v x)"
  by (simp add: retained_def index_remember_def storeLocked_def Let_def map_of_AList_update)

section \<open>Properties\<close>

text \<open>
  The index never holds more than two generations of \<open>m\<close> keys, whatever the sequence of lookups
  and remembers, so its memory is capped independently of the fleet and of the load.
\<close>

theorem nodeIndex_bounded:
  "length (nx_cur (index_run ops (newNodeIndex m))) + length (nx_prev (index_run ops (newNodeIndex m)))
     \<le> 2 * max 1 m"
  using index_ok_run [OF index_ok_new [of m], of ops] index_run_max [of ops "newNodeIndex m"]
  by (simp add: index_ok_def newNodeIndex_def)

text \<open>
  C25. An answer of the index is the node remembered last for that key: eviction and the promotion of
  a retired entry on a hit never resurrect an older node.
\<close>

theorem nodeIndex_sound:
  assumes "fst (index_lookup k (index_run ops (newNodeIndex m))) = Some n"
  shows "last_remembered ops k = Some n"
  using assms node_index.lookup_last_remembered [of k m ops n] by (simp add: index_run_locale)

theorem nodeIndex_sound_witness:
  "fst (index_lookup ''name/ns/a''
     (index_run [Lookup ''b'', Remember ''c'' ''n3'', Remember ''b'' ''n2'', Remember ''name/ns/a'' ''n1''] (newNodeIndex 2)))
     = Some ''n1''
   \<and> last_remembered [Lookup ''b'', Remember ''c'' ''n3'', Remember ''b'' ''n2'', Remember ''name/ns/a'' ''n1''] ''name/ns/a''
     = Some ''n1''"
proof -
  have h: "fst (index_lookup ''name/ns/a''
     (index_run [Lookup ''b'', Remember ''c'' ''n3'', Remember ''b'' ''n2'', Remember ''name/ns/a'' ''n1''] (newNodeIndex 2)))
     = Some ''n1''"
    by code_simp
  from nodeIndex_sound [OF h] h show ?thesis by blast
qed

text \<open>
  A remembered key survives: for the next \<open>max\<close> operations of any kind the index still answers for
  it, although no per-entry recency is kept.
\<close>

theorem nodeIndex_retains:
  assumes "k \<noteq> []" "n \<noteq> []" "length ops \<le> nx_max x"
  shows "fst (index_lookup k (index_run ops (index_remember k n x))) \<noteq> None"
proof -
  have "retained k (nx_max x - length ops) (index_run ops (index_remember k n x))"
    using assms by (intro retained_run retained_remember) auto
  then show ?thesis by (simp add: fst_index_lookup retained_view)
qed

theorem nodeIndex_retains_witness:
  "fst (index_lookup ''k'' (index_run [Remember ''b'' ''n2'', Remember ''a'' ''n1'']
     (index_remember ''k'' ''n0'' (newNodeIndex 2)))) \<noteq> None"
proof -
  have "length [Remember ''b'' ''n2'', Remember ''a'' ''n1''] \<le> nx_max (newNodeIndex 2)"
    by (simp add: newNodeIndex_def)
  then show ?thesis by (intro nodeIndex_retains) simp_all
qed

end
