(* ===== verification/Inventory_Source.thy ===== *)
theory Inventory_Source
  imports Scale_Types
begin

text \<open>
  The contract of \<^verbatim>\<open>InventorySource\<close> (pkg/scale/sandboxstore\_impl.go) as a locale, and its in-memory
  implementation \<^verbatim>\<open>StaticInventorySource\<close>. The Kubernetes and the mesh source meet the same contract
  in their own theories.
\<close>

section \<open>StaticInventorySource\<close>

text \<open>\<open>st_inv\<close> keeps one entry per node; \<open>st_partition\<close> holds the nodes whose reads fail.\<close>

record StaticInventorySource =
  st_inv :: "(string \<times> NodeInventory) list"
  st_partition :: "string list"
  st_applies :: nat

definition NewStaticInventorySource :: StaticInventorySource where
  "NewStaticInventorySource = \<lparr>st_inv = [], st_partition = [], st_applies = 0\<rparr>"

definition static_Put :: "NodeInventory \<Rightarrow> StaticInventorySource \<Rightarrow> StaticInventorySource" where
  "static_Put iv s = s\<lparr>st_inv := AList.update (ni_Node iv) iv (st_inv s)\<rparr>"

definition static_Apply :: "NodeInventory \<Rightarrow> StaticInventorySource \<Rightarrow> StaticInventorySource" where
  "static_Apply iv s =
     s\<lparr>st_inv := AList.update (ni_Node iv) iv (st_inv s), st_applies := Suc (st_applies s)\<rparr>"

definition static_Partition :: "string \<Rightarrow> StaticInventorySource \<Rightarrow> StaticInventorySource" where
  "static_Partition node s = s\<lparr>st_partition := List.insert node (st_partition s)\<rparr>"

definition static_Remove :: "string \<Rightarrow> StaticInventorySource \<Rightarrow> StaticInventorySource" where
  "static_Remove node s =
     s\<lparr>st_inv := AList.delete node (st_inv s), st_partition := filter (\<lambda>n. n \<noteq> node) (st_partition s)\<rparr>"

definition static_ListNodes :: "StaticInventorySource \<Rightarrow> err + string list" where
  "static_ListNodes s = Inr (sort (map fst (st_inv s)))"

definition static_NodeInventory :: "StaticInventorySource \<Rightarrow> string \<Rightarrow> err + NodeInventory" where
  "static_NodeInventory s node =
     (if node \<in> set (st_partition s)
      then Inl (PlainError (Msg ''scale: node %q partitioned from aggregated server'' [node]))
      else (case map_of (st_inv s) node of
              None \<Rightarrow> Inl (PlainError (Msg ''scale: no inventory published for node %q'' [node]))
            | Some iv \<Rightarrow> Inr iv))"

definition static_NodeCapacity ::
  "StaticInventorySource \<Rightarrow> string \<Rightarrow> err + string \<times> PoolCapacity list" where
  "static_NodeCapacity s node =
     (if node \<in> set (st_partition s)
      then Inl (PlainError (Msg ''scale: node %q partitioned from aggregated server'' [node]))
      else (case map_of (st_inv s) node of
              None \<Rightarrow> Inl (PlainError (Msg ''scale: no inventory published for node %q'' [node]))
            | Some iv \<Rightarrow> Inr (ni_Address iv, ni_Pools iv)))"

text \<open>The loop over the sorted node names; each name has an inventory, the map being ranged over.\<close>

fun static_rows :: "StaticInventorySource \<Rightarrow> string list \<Rightarrow> NodePools list" where
  "static_rows s [] = []"
| "static_rows s (node # nodes) =
     (if node \<in> set (st_partition s) then static_rows s nodes
      else (case map_of (st_inv s) node of
              None \<Rightarrow> static_rows s nodes
            | Some iv \<Rightarrow>
                \<lparr>np_Node = node, np_Address = ni_Address iv, np_Pools = ni_Pools iv,
                 np_Templates = ni_Templates iv\<rparr> # static_rows s nodes))"

definition static_NodeCapacities :: "StaticInventorySource \<Rightarrow> err + NodePools list" where
  "static_NodeCapacities s = Inr (static_rows s (sort (map fst (st_inv s))))"

definition static_ObjectCount :: "StaticInventorySource \<Rightarrow> nat" where
  "static_ObjectCount s = length (st_inv s)"

definition static_source :: "StaticInventorySource InventorySource" where
  "static_source =
     \<lparr>src_ListNodes = static_ListNodes, src_NodeInventory = static_NodeInventory,
      src_NodeCapacity = static_NodeCapacity, src_NodeCapacities = static_NodeCapacities\<rparr>"

definition static_ok :: "StaticInventorySource \<Rightarrow> bool" where
  "static_ok s = distinct (map fst (st_inv s))"

section \<open>The contract\<close>

text \<open>The capacity row of one node, None when its inventory cannot be read.\<close>

definition capacity_row :: "(string \<Rightarrow> err + NodeInventory) \<Rightarrow> string \<Rightarrow> NodePools option" where
  "capacity_row read node =
     (case read node of
        Inl e \<Rightarrow> None
      | Inr iv \<Rightarrow> Some \<lparr>np_Node = node, np_Address = ni_Address iv, np_Pools = ni_Pools iv,
                         np_Templates = ni_Templates iv\<rparr>)"

text \<open>
  The four reads describe one fleet: the nodes come sorted without repetition, a node's capacity is
  its inventory without the entries, and the capacities are the readable nodes in list order.
\<close>

locale inventory_source =
  fixes src :: "'w InventorySource"
    and ok :: "'w \<Rightarrow> bool"
  assumes list_sorted: "ok w \<Longrightarrow> src_ListNodes src w = Inr ns \<Longrightarrow> sorted ns \<and> distinct ns"
    and capacity_inventory: "ok w \<Longrightarrow> src_NodeCapacity src w n =
          (case src_NodeInventory src w n of Inl e \<Rightarrow> Inl e | Inr iv \<Rightarrow> Inr (ni_Address iv, ni_Pools iv))"
    and capacities_rows: "ok w \<Longrightarrow> src_ListNodes src w = Inr ns \<Longrightarrow>
          src_NodeCapacities src w = Inr (List.map_filter (capacity_row (src_NodeInventory src w)) ns)"
    and list_total: "ok w \<Longrightarrow> \<exists>ns. src_ListNodes src w = Inr ns"
begin

lemma capacities_total: "ok w \<Longrightarrow> \<exists>rows. src_NodeCapacities src w = Inr rows"
  using list_total capacities_rows by blast

lemma capacities_inventory:
  assumes "ok w" "src_NodeCapacities src w = Inr rows" "r \<in> set rows"
  shows "\<exists>iv. src_NodeInventory src w (np_Node r) = Inr iv \<and> np_Address r = ni_Address iv
           \<and> np_Pools r = ni_Pools iv \<and> np_Templates r = ni_Templates iv"
proof -
  from assms list_total obtain ns where ns: "src_ListNodes src w = Inr ns" by blast
  from capacities_rows [OF assms(1) ns] assms(2,3) obtain n
    where "capacity_row (src_NodeInventory src w) n = Some r"
    by (auto simp: map_filter_def)
  then show ?thesis by (auto simp: capacity_row_def split: sum.splits)
qed

lemma capacities_capacity:
  assumes "ok w" "src_NodeCapacities src w = Inr rows" "r \<in> set rows"
  shows "src_NodeCapacity src w (np_Node r) = Inr (np_Address r, np_Pools r)"
  using capacities_inventory [OF assms] by (auto simp: capacity_inventory assms(1))

lemma rows_nodes: "map np_Node (List.map_filter (capacity_row rd) ns) = filter (\<lambda>n. \<exists>i. rd n = Inr i) ns"
  by (induction ns) (auto simp: map_filter_def capacity_row_def split: sum.splits)

lemma capacities_distinct:
  assumes "ok w" "src_NodeCapacities src w = Inr rows"
  shows "distinct (map np_Node rows)"
proof -
  from assms(1) list_total obtain ns where ns: "src_ListNodes src w = Inr ns" by blast
  from capacities_rows [OF assms(1) ns] assms(2) list_sorted [OF assms(1) ns] show ?thesis
    by (auto simp: rows_nodes)
qed

end

section \<open>The static source meets the contract\<close>

lemma static_rows_filter:
  "set ns \<subseteq> dom (map_of (st_inv s)) \<Longrightarrow>
   static_rows s ns = List.map_filter (capacity_row (static_NodeInventory s)) ns"
  by (induction ns)
    (auto simp: map_filter_def capacity_row_def static_NodeInventory_def split: option.splits)

lemma static_keys: "set (sort (map fst (st_inv s))) \<subseteq> dom (map_of (st_inv s))"
  by (simp add: dom_map_of_conv_image_fst)

interpretation static_inventory: inventory_source static_source static_ok
proof
  fix w ns n
  assume ok: "static_ok w"
  show "src_ListNodes static_source w = Inr ns \<Longrightarrow> sorted ns \<and> distinct ns"
    using ok by (auto simp: static_source_def static_ListNodes_def static_ok_def)
  show "src_NodeCapacity static_source w n =
      (case src_NodeInventory static_source w n of Inl e \<Rightarrow> Inl e | Inr iv \<Rightarrow> Inr (ni_Address iv, ni_Pools iv))"
    by (simp add: static_source_def static_NodeCapacity_def static_NodeInventory_def split: option.split)
  show "src_ListNodes static_source w = Inr ns \<Longrightarrow>
      src_NodeCapacities static_source w
        = Inr (List.map_filter (capacity_row (src_NodeInventory static_source w)) ns)"
    using static_rows_filter [OF static_keys [of w]]
    by (auto simp: static_source_def static_ListNodes_def static_NodeCapacities_def)
  show "\<exists>ns. src_ListNodes static_source w = Inr ns"
    by (simp add: static_source_def static_ListNodes_def)
qed

lemma static_ok_ops:
  "static_ok NewStaticInventorySource"
  "static_ok s \<Longrightarrow> static_ok (static_Put iv s)"
  "static_ok s \<Longrightarrow> static_ok (static_Apply iv s)"
  "static_ok s \<Longrightarrow> static_ok (static_Partition n s)"
  "static_ok s \<Longrightarrow> static_ok (static_Remove n s)"
  by (simp_all add: static_ok_def NewStaticInventorySource_def static_Put_def static_Apply_def
      static_Partition_def static_Remove_def distinct_update distinct_delete)

section \<open>Properties\<close>

text \<open>
  A lost inventory object is rebuilt by the node's next publish and nothing else is disturbed:
  after \<^verbatim>\<open>Remove\<close> and \<^verbatim>\<open>Apply\<close> the node reads as published, it is listed once, and every other node reads
  as before.
\<close>

theorem static_rebuild:
  "static_NodeInventory (static_Apply iv (static_Remove (ni_Node iv) s)) n =
     (if n = ni_Node iv then Inr iv else static_NodeInventory s n)"
  by (auto simp: static_NodeInventory_def static_Apply_def static_Remove_def update_conv'
      delete_conv' split: option.splits)

end
