(* ===== verification/Store_Lifecycle.thy ===== *)
theory Store_Lifecycle
  imports Store_Entry Node_Index Inventory_Source
begin

text \<open>
  The scatter-gather store (pkg/scale/sandboxstore\_impl.go) and the verbs it routes to one node
  (pkg/scale/sandboxstore\_lifecycle.go). A store holds its inventory source, its client factory and
  its resolution index, the only part of it that changes. A verb takes the world and gives back its
  result and the new world; one that also writes the index gives back the store.
\<close>

record 'w scatterGatherStore =
  sg_src :: "'w InventorySource"
  sg_concurrency :: int
  sg_watchPoll :: int
  sg_index :: nodeIndex
  sg_token :: string
  sg_factory :: "(string \<Rightarrow> string \<Rightarrow> 'w SandboxdClient) option"

definition NewScatterGatherStore :: "'w InventorySource \<Rightarrow> 'w scatterGatherStore" where
  "NewScatterGatherStore src =
     \<lparr>sg_src = src, sg_concurrency = 16, sg_watchPoll = second, sg_index = newNodeIndex nodeIndexMaxEntries,
      sg_token = [], sg_factory = None\<rparr>"

definition WithWatchPollInterval :: "int \<Rightarrow> 'w scatterGatherStore \<Rightarrow> 'w scatterGatherStore" where
  "WithWatchPollInterval d s = s\<lparr>sg_watchPoll := d\<rparr>"

definition WithClaimRouting ::
  "string \<Rightarrow> (string \<Rightarrow> string \<Rightarrow> 'w SandboxdClient) \<Rightarrow> 'w scatterGatherStore \<Rightarrow> 'w scatterGatherStore" where
  "WithClaimRouting token factory s = s\<lparr>sg_token := token, sg_factory := Some factory\<rparr>"

section \<open>Errors of a node\<close>

text \<open>The text of a generic server response is the API machinery's own.\<close>

definition nodeVerbError :: "err \<Rightarrow> string \<Rightarrow> string \<Rightarrow> string \<Rightarrow> err" where
  "nodeVerbError e verb cid node =
     (case as_HTTPError e of
        Some (code, m) \<Rightarrow>
          if code = 404 then k8s_NewNotFound cid
          else if code \<ge> 400 \<and> code < 500 then
            StatusError code
              (if m \<noteq> [] then Msg ''sandboxd %s of %q on node %q: %s'' [verb, cid, node, m]
               else Msg ''generic server response to %s of %q'' [verb, cid])
          else Wrap (Msg ''scale: sandboxd %s of %q on node %q: %w'' [verb, cid, node]) e
      | None \<Rightarrow> Wrap (Msg ''scale: sandboxd %s of %q on node %q: %w'' [verb, cid, node]) e)"

definition err_not_configured :: err where
  "err_not_configured = PlainError (Msg ''scale: claim routing not configured (call WithClaimRouting)'' [])"

definition nodeClient :: "'w scatterGatherStore \<Rightarrow> 'w \<Rightarrow> string \<Rightarrow> string \<Rightarrow> string \<Rightarrow> err + 'w SandboxdClient" where
  "nodeClient s w node verb cid =
     (case sg_factory s of
        None \<Rightarrow> Inl err_not_configured
      | Some factory \<Rightarrow>
          if node = [] then Inl (PlainError (Msg ''scale: %s requires an owning node'' [verb]))
          else (case src_NodeCapacity (sg_src s) w node of
                  Inl e \<Rightarrow> Inl (Wrap (Msg ''scale: resolve node %q for %s of %q: %w'' [node, verb, cid]) e)
                | Inr (addr, _) \<Rightarrow>
                    if addr = [] then
                      Inl (PlainError (Msg ''scale: node %q advertises no sandboxd address for %s of %q'' [node, verb, cid]))
                    else Inr (factory addr (sg_token s))))"

section \<open>The verbs\<close>

text \<open>Every verb reaches its node's client first; what it makes of the client's error differs.\<close>

definition with_client :: "'w scatterGatherStore \<Rightarrow> string \<Rightarrow> string \<Rightarrow> string
   \<Rightarrow> ('w SandboxdClient \<Rightarrow> 'w \<Rightarrow> (err + 'a) \<times> 'w) \<Rightarrow> (err \<Rightarrow> err) \<Rightarrow> 'w \<Rightarrow> (err + 'a) \<times> 'w" where
  "with_client s node verb cid call onError w =
     (case nodeClient s w node verb cid of
        Inl e \<Rightarrow> (Inl e, w)
      | Inr cl \<Rightarrow> (case call cl w of (Inl e, w') \<Rightarrow> (Inl (onError e), w') | (Inr a, w') \<Rightarrow> (Inr a, w')))"

definition Pause :: "'w scatterGatherStore \<Rightarrow> string \<Rightarrow> string \<Rightarrow> 'w \<Rightarrow> (err + unit) \<times> 'w" where
  "Pause s node cid = with_client s node ''pause'' cid (\<lambda>cl. cl_Hibernate cl cid)
     (\<lambda>e. nodeVerbError e ''pause'' cid node)"

definition DialGuestPort :: "'w scatterGatherStore \<Rightarrow> string \<Rightarrow> string \<Rightarrow> string \<Rightarrow> nat \<Rightarrow> 'w \<Rightarrow> (err + nat) \<times> 'w" where
  "DialGuestPort s node cid token port = with_client s node ''port'' cid (\<lambda>cl. cl_DialPort cl cid token port)
     (\<lambda>e. nodeVerbError e ''port'' cid node)"

definition SetInstanceMetadata :: "'w scatterGatherStore \<Rightarrow> string \<Rightarrow> string \<Rightarrow> string \<Rightarrow> 'w \<Rightarrow> (err + unit) \<times> 'w" where
  "SetInstanceMetadata s node cid doc = with_client s node ''instance metadata'' cid
     (\<lambda>cl. cl_SetInstanceMetadata cl cid doc) (\<lambda>e. nodeVerbError e ''instance metadata'' cid node)"

definition Renew ::
  "'w scatterGatherStore \<Rightarrow> string \<Rightarrow> string \<Rightarrow> int \<Rightarrow> ExpireAction \<Rightarrow> 'w \<Rightarrow> (err + time) \<times> 'w" where
  "Renew s node cid ttlSeconds onExpire = with_client s node ''renew'' cid
     (\<lambda>cl. cl_Renew cl cid \<lparr>rs_TTLSeconds = ttlSeconds, rs_OnExpire = onExpire\<rparr>)
     (\<lambda>e. nodeVerbError e ''renew'' cid node)"

definition Resume :: "'w scatterGatherStore \<Rightarrow> string \<Rightarrow> string \<Rightarrow> 'w \<Rightarrow> (err + unit) \<times> 'w" where
  "Resume s node cid = with_client s node ''resume'' cid (\<lambda>cl. cl_Wake cl cid)
     (\<lambda>e. nodeVerbError e ''resume'' cid node)"

text \<open>The loop over a fork's children: each is remembered under both keys and reported.\<close>

fun fork_children :: "string \<Rightarrow> string \<Rightarrow> ClaimResult list \<Rightarrow> nodeIndex \<Rightarrow> Assignment list \<times> nodeIndex" where
  "fork_children namespace node [] x = ([], x)"
| "fork_children namespace node (c # cs) x =
     (let x' = index_remember (claimKey namespace (cr_ID c)) node (index_remember (nameKey namespace (cr_ID c)) node x);
          (out, x'') = fork_children namespace node cs x'
      in (\<lparr>as_SandboxName = cr_ID c, as_Node = node, as_Address = cr_OwnerAddr c, as_Token = cr_Token c,
           as_Deadline = cr_Deadline c, as_NetRoute = []\<rparr> # out, x''))"

definition Fork :: "'w scatterGatherStore \<Rightarrow> string \<Rightarrow> string \<Rightarrow> string \<Rightarrow> int \<Rightarrow> int \<Rightarrow> 'w
   \<Rightarrow> (err + Assignment list) \<times> 'w scatterGatherStore \<times> 'w" where
  "Fork s namespace node cid count ttlSeconds w =
     (if count < 1 then (Inl (PlainError (Msg ''scale: fork count must be >= 1, got %d'' [strconv_Itoa count])), s, w)
      else (case with_client s node ''fork'' cid
              (\<lambda>cl. cl_Fork cl cid \<lparr>fs_Token = [], fs_Count = count, fs_TTLSeconds = ttlSeconds,
                      fs_ClaimRefPrefix = namespacedName namespace []\<rparr>)
              (\<lambda>e. nodeVerbError e ''fork'' cid node) w of
              (Inl e, w') \<Rightarrow> (Inl e, s, w')
            | (Inr children, w') \<Rightarrow>
                (let (out, x) = fork_children namespace node children (sg_index s)
                 in (Inr out, s\<lparr>sg_index := x\<rparr>, w'))))"

definition snapshotFrom :: "Checkpoint \<Rightarrow> string \<Rightarrow> Snapshot" where
  "snapshotFrom ck node =
     \<lparr>sn_ID = ck_ID ck, sn_Name = ck_Name ck, sn_SandboxID = ck_SandboxID ck, sn_Pool = ck_Key ck,
      sn_CreatedAt = ck_CreatedAt ck, sn_Node = node\<rparr>"

definition res_map :: "('a \<Rightarrow> 'b) \<Rightarrow> (err + 'a) \<times> 'w \<Rightarrow> (err + 'b) \<times> 'w" where
  "res_map f r = (case fst r of Inl e \<Rightarrow> Inl e | Inr a \<Rightarrow> Inr (f a), snd r)"

definition store_Snapshot :: "'w scatterGatherStore \<Rightarrow> string \<Rightarrow> string \<Rightarrow> string \<Rightarrow> 'w \<Rightarrow> (err + Snapshot) \<times> 'w" where
  "store_Snapshot s node cid name w = res_map (\<lambda>ck. snapshotFrom ck node)
     (with_client s node ''snapshot'' cid (\<lambda>cl. cl_Checkpoint cl cid \<lparr>ks_Token = [], ks_Name = name\<rparr>)
       (\<lambda>e. nodeVerbError e ''snapshot'' cid node) w)"

definition Snapshots :: "'w scatterGatherStore \<Rightarrow> string \<Rightarrow> 'w \<Rightarrow> err + Snapshot list" where
  "Snapshots s node w =
     (case nodeClient s w node ''list snapshots'' [] of
        Inl e \<Rightarrow> Inl e
      | Inr cl \<Rightarrow>
          (case cl_Checkpoints cl w of
             Inl e \<Rightarrow> Inl (Wrap (Msg ''scale: sandboxd list snapshots on node %q: %w'' [node]) e)
           | Inr cks \<Rightarrow> Inr (map (\<lambda>ck. snapshotFrom ck node) cks)))"

definition DeleteSnapshot :: "'w scatterGatherStore \<Rightarrow> string \<Rightarrow> string \<Rightarrow> 'w \<Rightarrow> (err + unit) \<times> 'w" where
  "DeleteSnapshot s node snapshotID = with_client s node ''delete snapshot'' snapshotID
     (\<lambda>cl. cl_DeleteCheckpoint cl snapshotID)
     (\<lambda>e. Wrap (Msg ''scale: sandboxd delete snapshot %q on node %q: %w'' [snapshotID, node]) e)"

definition DeleteTemplate :: "'w scatterGatherStore \<Rightarrow> string \<Rightarrow> PoolKey \<Rightarrow> string \<Rightarrow> 'w \<Rightarrow> (err + unit) \<times> 'w" where
  "DeleteTemplate s node key digest = with_client s node ''delete template'' (pk_Template key)
     (\<lambda>cl. cl_DeleteTemplate cl key digest) (\<lambda>e. nodeVerbError e ''delete template'' (pk_Template key) node)"

definition Promote ::
  "'w scatterGatherStore \<Rightarrow> string \<Rightarrow> string \<Rightarrow> string \<Rightarrow> 'w \<Rightarrow> (err + PoolKey \<times> string) \<times> 'w" where
  "Promote s node cid template = with_client s node ''promote'' cid (\<lambda>cl. cl_Promote cl cid template)
     (\<lambda>e. nodeVerbError e ''promote'' cid node)"

definition SetTemplateLabels ::
  "'w scatterGatherStore \<Rightarrow> string \<Rightarrow> PoolKey \<Rightarrow> (string \<times> string) list \<Rightarrow> string \<Rightarrow> 'w \<Rightarrow> (err + unit) \<times> 'w" where
  "SetTemplateLabels s node key labels digest = with_client s node ''template labels'' (pk_Template key)
     (\<lambda>cl. cl_SetTemplateLabels cl key labels digest)
     (\<lambda>e. nodeVerbError e ''template labels'' (pk_Template key) node)"

definition NodeTemplates :: "'w scatterGatherStore \<Rightarrow> string \<Rightarrow> 'w \<Rightarrow> err + PromotedTemplate list" where
  "NodeTemplates s node w =
     (case nodeClient s w node ''templates'' node of
        Inl e \<Rightarrow> Inl e
      | Inr cl \<Rightarrow>
          (case cl_Info cl w of
             Inl e \<Rightarrow> Inl (Wrap (Msg ''scale: sandboxd info on node %q: %w'' [node]) e)
           | Inr info \<Rightarrow> Inr (TemplatesFromInfo info)))"

definition store_Read :: "'w scatterGatherStore \<Rightarrow> string \<Rightarrow> string \<Rightarrow> 'w \<Rightarrow> err + SandboxRecord" where
  "store_Read s node cid w =
     (case nodeClient s w node ''read'' cid of
        Inl e \<Rightarrow> Inl e
      | Inr cl \<Rightarrow>
          (case cl_Sandbox cl cid w of
             Inl e \<Rightarrow> Inl (nodeVerbError e ''read'' cid node)
           | Inr row \<Rightarrow> Inr \<lparr>sr_Token = ss_Token row, sr_Paused = isPaused row, sr_Deadline = ss_Deadline row\<rparr>))"

definition Release :: "'w scatterGatherStore \<Rightarrow> string \<Rightarrow> string \<Rightarrow> 'w \<Rightarrow> (err + unit) \<times> 'w" where
  "Release s node cid w =
     (if cid = [] then (Inl (PlainError (Msg ''scale: release requires a claim id'' [])), w)
      else with_client s node ''release'' cid (\<lambda>cl. cl_Release cl cid (sg_token s))
        (\<lambda>e. Wrap (Msg ''scale: sandboxd release of %q on node %q: %w'' [cid, node]) e) w)"

section \<open>Stamped names\<close>

definition maxSandboxdName :: nat where "maxSandboxdName = 63"

text \<open>The regular expression \<^verbatim>\<open>^[a-zA-Z0-9][a-zA-Z0-9._:/-]{0,62}$\<close>.\<close>

definition name_char :: "char \<Rightarrow> bool" where
  "name_char c = (is_letter c \<or> is_digit c \<or> c \<in> set ''._:/-'')"

definition sandboxdName :: "string \<Rightarrow> bool" where
  "sandboxdName s =
     (case s of [] \<Rightarrow> False
      | c # cs \<Rightarrow> (is_letter c \<or> is_digit c) \<and> length cs \<le> 62 \<and> list_all name_char cs)"

definition StampedName :: "string \<Rightarrow> string \<Rightarrow> string \<Rightarrow> string \<Rightarrow> err + string" where
  "StampedName kind prefix namespace name =
     (let stamped = prefix @ namespace @ ''/'' @ name
      in if length stamped > maxSandboxdName then
           Inl (k8s_NewBadRequest (Msg ''%s name %q: at most %d characters in namespace %q''
             [kind, name, strconv_Itoa (int maxSandboxdName - int (length prefix) - int (length namespace) - 1), namespace]))
         else if \<not> sandboxdName stamped then
           Inl (k8s_NewBadRequest (Msg ''%s name %q: letters, digits and . _ : / - only'' [kind, name]))
         else Inr stamped)"

definition CheckpointName :: "string \<Rightarrow> string \<Rightarrow> err + string" where
  "CheckpointName namespace name = StampedName ''snapshot'' [] namespace name"

definition CheckpointNameIn :: "string \<Rightarrow> string \<Rightarrow> string option" where
  "CheckpointNameIn namespace stamped = strings_CutPrefix stamped (namespace @ ''/'')"

text \<open>A client whose every verb fails, the base of the concrete fleets below.\<close>

definition null_client :: "'w SandboxdClient" where
  "null_client =
     (let e = PlainError (Msg ''unused'' [])
      in \<lparr>cl_Claim = (\<lambda>spec w. (Inl e, w)), cl_Release = (\<lambda>i t w. (Inl e, w)), cl_Hibernate = (\<lambda>i w. (Inl e, w)),
          cl_Wake = (\<lambda>i w. (Inl e, w)), cl_Renew = (\<lambda>i r w. (Inl e, w)), cl_Fork = (\<lambda>i f w. (Inl e, w)),
          cl_Checkpoint = (\<lambda>i c w. (Inl e, w)), cl_Checkpoints = (\<lambda>w. Inl e), cl_DeleteCheckpoint = (\<lambda>i w. (Inl e, w)),
          cl_DeleteTemplate = (\<lambda>k d w. (Inl e, w)), cl_Promote = (\<lambda>i t w. (Inl e, w)),
          cl_SetTemplateLabels = (\<lambda>k l d w. (Inl e, w)), cl_Info = (\<lambda>w. Inl e), cl_DialPort = (\<lambda>i t p w. (Inl e, w)),
          cl_SetInstanceMetadata = (\<lambda>i d w. (Inl e, w)), cl_Sandbox = (\<lambda>i w. Inl e),
          cl_SandboxesByClaimRef = (\<lambda>r w. Inl e)\<rparr>)"

section \<open>Properties\<close>

text \<open>A client error of the node's own kind keeps its status; every other error stays in the chain.\<close>

lemma nodeVerbError_status:
  "as_HTTPError e = Some (code, m) \<Longrightarrow> 400 \<le> code \<Longrightarrow> code < 500
   \<Longrightarrow> \<exists>m'. as_StatusError (nodeVerbError e verb cid node) = Some (code, m')"
  by (auto simp: nodeVerbError_def k8s_NewNotFound_def)

lemma with_client_world: "nodeClient s w node verb cid = Inl e \<Longrightarrow> with_client s node verb cid call h w = (Inl e, w)"
  by (simp add: with_client_def)

lemma sandboxdName_length: "sandboxdName s \<Longrightarrow> length s \<le> 63"
  by (auto simp: sandboxdName_def split: list.splits)

lemma CutPrefix_namespace:
  assumes "CHR ''/'' \<notin> set ns" "CHR ''/'' \<notin> set ns'"
  shows "CheckpointNameIn ns' (ns @ ''/'' @ name) = (if ns' = ns then Some name else None)"
proof (cases "CheckpointNameIn ns' (ns @ ''/'' @ name)")
  case None
  then show ?thesis by (auto simp: CheckpointNameIn_def strings_CutPrefix_def split: if_splits)
next
  case (Some t)
  then have eq: "ns @ CHR ''/'' # name = ns' @ CHR ''/'' # t"
    by (simp add: CheckpointNameIn_def strings_CutPrefix_Some)
  then have "strings_Cut (ns @ CHR ''/'' # name) ''/'' = strings_Cut (ns' @ CHR ''/'' # t) ''/''" by (rule arg_cong)
  then show ?thesis using Some assms by (simp add: strings_Cut_char_append)
qed

text \<open>
  C26. Namespaces cannot read each other's checkpoints: a name \<^verbatim>\<open>CheckpointName\<close> accepts fits the node's
  budget, strips back to the name given in its own namespace, and belongs to no other namespace.
\<close>

theorem checkpoint_namespaces:
  assumes "CheckpointName ns name = Inr stamped" "CHR ''/'' \<notin> set ns" "CHR ''/'' \<notin> set ns'"
  shows "length stamped \<le> maxSandboxdName \<and> sandboxdName stamped
     \<and> CheckpointNameIn ns' stamped = (if ns' = ns then Some name else None)"
proof -
  have "stamped = ns @ ''/'' @ name" "sandboxdName stamped" "length stamped \<le> maxSandboxdName"
    using assms(1) by (auto simp: CheckpointName_def StampedName_def Let_def split: if_splits)
  then show ?thesis using CutPrefix_namespace [OF assms(2,3)] by simp
qed

theorem checkpoint_namespaces_witness:
  "length ''team-a/ckpt.1'' \<le> maxSandboxdName \<and> sandboxdName ''team-a/ckpt.1''
     \<and> CheckpointNameIn ''team'' ''team-a/ckpt.1'' = (if ''team'' = ''team-a'' then Some ''ckpt.1'' else None)"
  by (rule checkpoint_namespaces) (code_simp, simp_all)

end
