(* ===== verification/Store_Read.thy ===== *)
theory Store_Read
  imports Store_Lifecycle
begin

text \<open>
  The read path of the store (pkg/scale/sandboxstore\_impl.go and sandboxstore\_live.go): one sandbox
  resolved through the index, the inventories and the nodes' own indexes, and lists assembled from
  the inventories. The nodes of a sweep answer in any order, so \<^verbatim>\<open>FirstHit\<close> takes the order in which
  they report; the first hit wins and ends the sweep. Label and field selectors are the API
  machinery's: what the code asks of them is the record \<open>selectors\<close>.
\<close>

record field_selector =
  fl_Matches :: "strmap \<Rightarrow> bool"
  fl_RequiresExactMatch :: "string \<Rightarrow> string option"
  fl_Requirements :: "string list"

record selector_lib =
  lib_Labels :: "string \<Rightarrow> string + (strmap \<Rightarrow> bool)"
  lib_Fields :: "string \<Rightarrow> string + field_selector"

record selectors =
  sel_label :: "strmap \<Rightarrow> bool"
  sel_field :: field_selector

type_synonym metadata_encoder = "(string \<times> string) list \<Rightarrow> string option"

definition sandboxFields :: "Sandbox \<Rightarrow> strmap" where
  "sandboxFields sb = [''metadata.name'' \<mapsto> sb_Name sb, ''metadata.namespace'' \<mapsto> sb_Namespace sb,
     ''status.nodeName'' \<mapsto> sb_NodeName sb]"

definition selected :: "selectors \<Rightarrow> Sandbox \<Rightarrow> bool" where
  "selected sel sb = (sel_label sel (sb_Labels sb) \<and> fl_Matches (sel_field sel) (sandboxFields sb))"

definition selectedOne :: "selectors \<Rightarrow> err + Sandbox option \<Rightarrow> err + Sandbox list" where
  "selectedOne sel r =
     (case r of Inl e \<Rightarrow> Inl e
      | Inr None \<Rightarrow> Inr []
      | Inr (Some sb) \<Rightarrow> Inr (if selected sel sb then [sb] else []))"

definition parseSelectors :: "selector_lib \<Rightarrow> ListOptions \<Rightarrow> err + selectors" where
  "parseSelectors lib opts =
     (case lib_Labels lib (lo_LabelSelector opts) of
        Inl m \<Rightarrow> Inl (k8s_NewBadRequest (Msg ''parse label selector %q: %v'' [lo_LabelSelector opts, m]))
      | Inr labelSel \<Rightarrow>
          (case lib_Fields lib (lo_FieldSelector opts) of
             Inl m \<Rightarrow> Inl (k8s_NewBadRequest (Msg ''parse field selector %q: %v'' [lo_FieldSelector opts, m]))
           | Inr fieldSel \<Rightarrow>
               (case find (\<lambda>f. sandboxFields empty_Sandbox f = None) (fl_Requirements fieldSel) of
                  Some f \<Rightarrow> Inl (k8s_NewBadRequest (Msg ''field selector %q is not supported on sandboxes'' [f]))
                | None \<Rightarrow> Inr \<lparr>sel_label = labelSel, sel_field = fieldSel\<rparr>)))"

definition pinnedName :: "string \<Rightarrow> selectors \<Rightarrow> string option" where
  "pinnedName namespace sel =
     (case fl_RequiresExactMatch (sel_field sel) ''metadata.name'' of
        Some name \<Rightarrow> if name \<noteq> [] \<and> namespace \<noteq> [] then Some name else None
      | None \<Rightarrow> None)"

text \<open>A match decides on one entry of an inventory.\<close>

definition nameMatch :: "string \<Rightarrow> string \<Rightarrow> InventoryEntry \<Rightarrow> bool" where
  "nameMatch namespace name e =
     (let (ens, ename) = splitNamespacedName (ie_Name e) in ens = namespace \<and> ename = name)"

section \<open>One node\<close>

definition matchOnNode :: "'w scatterGatherStore \<Rightarrow> 'w \<Rightarrow> string \<Rightarrow> (InventoryEntry \<Rightarrow> bool) \<Rightarrow> Sandbox option" where
  "matchOnNode s w node match =
     (case src_NodeInventory (sg_src s) w node of
        Inl e \<Rightarrow> None
      | Inr iv \<Rightarrow> map_option (entryToSandbox (ni_Node iv)) (find match (ni_Entries iv)))"

type_synonym 'w nodeRows = "'w SandboxdClient \<Rightarrow> 'w \<Rightarrow> err + SandboxSummary list"

definition rowsByClaimRef :: "string \<Rightarrow> 'w nodeRows" where
  "rowsByClaimRef ref cl w = cl_SandboxesByClaimRef cl ref w"

definition rowByID :: "string \<Rightarrow> 'w nodeRows" where
  "rowByID cid cl w =
     (case cl_Sandbox cl cid w of
        Inr row \<Rightarrow> Inr [row]
      | Inl e \<Rightarrow>
          (case as_HTTPError e of
             Some (code, m) \<Rightarrow> if code = 404 then Inr [] else Inl e
           | None \<Rightarrow> Inl e))"

definition liveOnNode :: "metadata_encoder \<Rightarrow> 'w scatterGatherStore \<Rightarrow> 'w \<Rightarrow> string \<Rightarrow> string \<Rightarrow> 'w nodeRows
   \<Rightarrow> (InventoryEntry \<Rightarrow> bool) \<Rightarrow> Sandbox option" where
  "liveOnNode marshal s w op node rows match =
     (case nodeClient s w node op [] of
        Inl e \<Rightarrow> None
      | Inr cl \<Rightarrow>
          (case rows cl w of
             Inl e \<Rightarrow> None
           | Inr got \<Rightarrow> map_option (entryToSandbox node) (find match (map (EntryFromSummary marshal) got))))"

section \<open>Sweeps\<close>

fun first_hit :: "(string \<Rightarrow> 'a option) \<Rightarrow> string list \<Rightarrow> 'a option" where
  "first_hit fnd [] = None"
| "first_hit fnd (node # nodes) = (case fnd node of Some hit \<Rightarrow> Some hit | None \<Rightarrow> first_hit fnd nodes)"

definition FirstHit :: "(string list \<Rightarrow> string list) \<Rightarrow> 'w InventorySource \<Rightarrow> 'w \<Rightarrow> (string \<Rightarrow> 'a option) \<Rightarrow> err + 'a option" where
  "FirstHit sched src w fnd =
     (case src_ListNodes src w of
        Inl e \<Rightarrow> Inl (Wrap (Msg ''scale: enumerate node inventories: %w'' []) e)
      | Inr nodes \<Rightarrow> Inr (first_hit fnd (sched nodes)))"

text \<open>
  \<^verbatim>\<open>resolve\<close>: the indexed node's inventory, that node, every inventory, then every node. The two
  sweeps report in the orders \<open>sched\<close> and \<open>sched'\<close>.
\<close>

definition resolve_sweep :: "metadata_encoder \<Rightarrow> (string list \<Rightarrow> string list) \<Rightarrow> (string list \<Rightarrow> string list)
   \<Rightarrow> 'w scatterGatherStore \<Rightarrow> 'w \<Rightarrow> string \<Rightarrow> 'w nodeRows \<Rightarrow> (InventoryEntry \<Rightarrow> bool) \<Rightarrow> err + Sandbox option" where
  "resolve_sweep marshal sched sched' s w op rows match =
     (case FirstHit sched (sg_src s) w (\<lambda>node. matchOnNode s w node match) of
        Inr None \<Rightarrow>
          if sg_factory s \<noteq> None
          then FirstHit sched' (sg_src s) w (\<lambda>node. liveOnNode marshal s w op node rows match)
          else Inr None
      | r \<Rightarrow> r)"

definition resolve :: "metadata_encoder \<Rightarrow> (string list \<Rightarrow> string list) \<Rightarrow> (string list \<Rightarrow> string list)
   \<Rightarrow> 'w scatterGatherStore \<Rightarrow> 'w \<Rightarrow> string \<Rightarrow> string \<Rightarrow> 'w nodeRows \<Rightarrow> (InventoryEntry \<Rightarrow> bool)
   \<Rightarrow> (err + Sandbox option) \<times> 'w scatterGatherStore" where
  "resolve marshal sched sched' s w op key rows match =
     (let (hint, x) = index_lookup key (sg_index s);
          s' = s\<lparr>sg_index := x\<rparr>;
          hinted = (case hint of
             None \<Rightarrow> None
           | Some node \<Rightarrow>
               (case matchOnNode s' w node match of
                  Some sb \<Rightarrow> Some sb
                | None \<Rightarrow> liveOnNode marshal s' w op node rows match))
      in case hinted of
           Some sb \<Rightarrow> (Inr (Some sb), s')
         | None \<Rightarrow>
             (let found = resolve_sweep marshal sched sched' s' w op rows match
              in case found of
                   Inr (Some sb) \<Rightarrow> (found, s'\<lparr>sg_index := index_remember key (sb_NodeName sb) (sg_index s')\<rparr>)
                 | _ \<Rightarrow> (found, s')))"

definition lookupName :: "metadata_encoder \<Rightarrow> (string list \<Rightarrow> string list) \<Rightarrow> (string list \<Rightarrow> string list)
   \<Rightarrow> 'w scatterGatherStore \<Rightarrow> 'w \<Rightarrow> string \<Rightarrow> string \<Rightarrow> (err + Sandbox option) \<times> 'w scatterGatherStore" where
  "lookupName marshal sched sched' s w namespace name =
     resolve marshal sched sched' s w ''get'' (nameKey namespace name)
       (rowsByClaimRef (namespacedName namespace name)) (nameMatch namespace name)"

definition found_or_404 :: "string \<Rightarrow> (err + Sandbox option) \<times> 's \<Rightarrow> (err + Sandbox) \<times> 's" where
  "found_or_404 name r =
     (case fst r of Inl e \<Rightarrow> Inl e | Inr None \<Rightarrow> Inl (k8s_NewNotFound name) | Inr (Some sb) \<Rightarrow> Inr sb, snd r)"

definition Get :: "metadata_encoder \<Rightarrow> (string list \<Rightarrow> string list) \<Rightarrow> (string list \<Rightarrow> string list)
   \<Rightarrow> 'w scatterGatherStore \<Rightarrow> 'w \<Rightarrow> string \<Rightarrow> string \<Rightarrow> (err + Sandbox) \<times> 'w scatterGatherStore" where
  "Get marshal sched sched' s w namespace name =
     found_or_404 name (lookupName marshal sched sched' s w namespace name)"

definition claimMatch :: "string \<Rightarrow> (string \<Rightarrow> bool) \<Rightarrow> InventoryEntry \<Rightarrow> bool" where
  "claimMatch namespace match e =
     (ie_ID e \<noteq> [] \<and> match (ie_ID e) \<and> (namespace = [] \<or> fst (splitNamespacedName (ie_Name e)) = namespace))"

definition GetByClaimID :: "metadata_encoder \<Rightarrow> (string list \<Rightarrow> string list) \<Rightarrow> (string list \<Rightarrow> string list)
   \<Rightarrow> 'w scatterGatherStore \<Rightarrow> 'w \<Rightarrow> string \<Rightarrow> string \<Rightarrow> (string \<Rightarrow> bool) \<Rightarrow> (err + Sandbox) \<times> 'w scatterGatherStore" where
  "GetByClaimID marshal sched sched' s w namespace cid match =
     found_or_404 [] (resolve marshal sched sched' s w ''claim-id get'' (claimKey namespace cid)
       (rowByID cid) (claimMatch namespace match))"

section \<open>Lists\<close>

definition materialize :: "NodeInventory \<Rightarrow> string \<Rightarrow> selectors \<Rightarrow> Sandbox list" where
  "materialize iv namespace sel =
     filter (selected sel) (map (entryToSandbox (ni_Node iv))
       (filter (\<lambda>e. namespace = [] \<or> fst (splitNamespacedName (ie_Name e)) = namespace) (ni_Entries iv)))"

text \<open>The items come sorted by namespace and name; the order of equal names is not specified.\<close>

definition sandbox_order :: "Sandbox \<Rightarrow> string list" where
  "sandbox_order sb = [sb_Namespace sb, sb_Name sb]"

definition listInventories :: "'w scatterGatherStore \<Rightarrow> 'w \<Rightarrow> string \<Rightarrow> selectors \<Rightarrow> err + Sandbox list" where
  "listInventories s w namespace sel =
     (case src_ListNodes (sg_src s) w of
        Inl e \<Rightarrow> Inl (Wrap (Msg ''scale: enumerate node inventories: %w'' []) e)
      | Inr nodes \<Rightarrow>
          Inr (sort_key sandbox_order (concat (map (\<lambda>node.
            case src_NodeInventory (sg_src s) w node of Inl e \<Rightarrow> [] | Inr iv \<Rightarrow> materialize iv namespace sel) nodes))))"

definition pollPinned :: "(string list \<Rightarrow> string list) \<Rightarrow> 'w scatterGatherStore \<Rightarrow> 'w \<Rightarrow> string \<Rightarrow> string
   \<Rightarrow> Sandbox option \<Rightarrow> selectors \<Rightarrow> err + Sandbox list" where
  "pollPinned sched s w namespace name prev sel =
     (case prev of
        Some p \<Rightarrow> selectedOne sel (Inr (matchOnNode s w (sb_NodeName p) (nameMatch namespace name)))
      | None \<Rightarrow> selectedOne sel (FirstHit sched (sg_src s) w (\<lambda>node.
          case matchOnNode s w node (nameMatch namespace name) of
            Some sb \<Rightarrow> if selected sel sb then Some sb else None
          | None \<Rightarrow> None)))"

definition listPinned :: "metadata_encoder \<Rightarrow> (string list \<Rightarrow> string list) \<Rightarrow> (string list \<Rightarrow> string list)
   \<Rightarrow> 'w scatterGatherStore \<Rightarrow> 'w \<Rightarrow> string \<Rightarrow> string \<Rightarrow> selectors \<Rightarrow> (err + Sandbox list) \<times> 'w scatterGatherStore" where
  "listPinned marshal sched sched' s w namespace name sel =
     (let (r, s') = lookupName marshal sched sched' s w namespace name
      in case r of
           Inr (Some sb) \<Rightarrow>
             if \<not> selected sel sb then (pollPinned sched s' w namespace name None sel, s')
             else (selectedOne sel r, s')
         | _ \<Rightarrow> (selectedOne sel r, s'))"

definition listItems :: "metadata_encoder \<Rightarrow> (string list \<Rightarrow> string list) \<Rightarrow> (string list \<Rightarrow> string list)
   \<Rightarrow> 'w scatterGatherStore \<Rightarrow> 'w \<Rightarrow> string \<Rightarrow> selectors \<Rightarrow> (err + Sandbox list) \<times> 'w scatterGatherStore" where
  "listItems marshal sched sched' s w namespace sel =
     (case pinnedName namespace sel of
        Some name \<Rightarrow> listPinned marshal sched sched' s w namespace name sel
      | None \<Rightarrow> (listInventories s w namespace sel, s))"

definition store_List :: "selector_lib \<Rightarrow> metadata_encoder \<Rightarrow> (string list \<Rightarrow> string list) \<Rightarrow> (string list \<Rightarrow> string list)
   \<Rightarrow> 'w scatterGatherStore \<Rightarrow> 'w \<Rightarrow> ListOptions \<Rightarrow> (err + Sandbox list) \<times> 'w scatterGatherStore" where
  "store_List lib marshal sched sched' s w opts =
     (case parseSelectors lib opts of
        Inl e \<Rightarrow> (Inl e, s)
      | Inr sel \<Rightarrow> listItems marshal sched sched' s w (lo_Namespace opts) sel)"

definition heldByNode :: "metadata_encoder \<Rightarrow> 'w scatterGatherStore \<Rightarrow> 'w \<Rightarrow> Sandbox \<Rightarrow> selectors \<Rightarrow> bool" where
  "heldByNode marshal s w sb sel =
     (case liveOnNode marshal s w ''watch'' (sb_NodeName sb) (rowsByClaimRef (objKey sb))
             (nameMatch (sb_Namespace sb) (sb_Name sb)) of
        None \<Rightarrow> False | Some live \<Rightarrow> selected sel live)"

section \<open>Lemmas\<close>

lemma read_index_irrelevant [simp]:
  "nodeClient (s\<lparr>sg_index := x\<rparr>) w node op cid = nodeClient s w node op cid"
  "matchOnNode (s\<lparr>sg_index := x\<rparr>) w node match = matchOnNode s w node match"
  "liveOnNode marshal (s\<lparr>sg_index := x\<rparr>) w op node rows match = liveOnNode marshal s w op node rows match"
  "resolve_sweep marshal sched sched' (s\<lparr>sg_index := x\<rparr>) w op rows match
     = resolve_sweep marshal sched sched' s w op rows match"
proof -
  show nc: "nodeClient (s\<lparr>sg_index := x\<rparr>) w node op cid = nodeClient s w node op cid" for s w node op cid
    by (simp add: nodeClient_def split: option.split sum.split)
  show mn: "matchOnNode (s\<lparr>sg_index := x\<rparr>) w node match = matchOnNode s w node match" for node
    by (simp add: matchOnNode_def)
  show ln: "liveOnNode marshal (s\<lparr>sg_index := x\<rparr>) w op node rows match = liveOnNode marshal s w op node rows match" for node
    by (simp add: liveOnNode_def nc)
  show "resolve_sweep marshal sched sched' (s\<lparr>sg_index := x\<rparr>) w op rows match
     = resolve_sweep marshal sched sched' s w op rows match"
    by (auto simp: resolve_sweep_def mn ln split: sum.split option.split)
qed

lemma first_hit_Some: "first_hit fnd nodes = Some hit \<Longrightarrow> \<exists>node\<in>set nodes. fnd node = Some hit"
  by (induction nodes) (auto split: option.splits)

lemma first_hit_None: "first_hit fnd nodes = None \<longleftrightarrow> (\<forall>node\<in>set nodes. fnd node = None)"
  by (induction nodes) (auto split: option.splits)

lemma matchOnNode_Some:
  "matchOnNode s w node match = Some sb \<Longrightarrow>
   \<exists>iv e. src_NodeInventory (sg_src s) w node = Inr iv \<and> e \<in> set (ni_Entries iv) \<and> match e \<and> sb = entryToSandbox (ni_Node iv) e"
  by (auto simp: matchOnNode_def dest!: find_SomeD split: sum.splits)

lemma liveOnNode_Some:
  "liveOnNode marshal s w op node rows match = Some sb \<Longrightarrow>
   \<exists>cl got row. nodeClient s w node op [] = Inr cl \<and> rows cl w = Inr got \<and> row \<in> set got
     \<and> match (EntryFromSummary marshal row) \<and> sb = entryToSandbox node (EntryFromSummary marshal row)"
  by (fastforce simp: liveOnNode_def dest!: find_SomeD split: sum.splits)

text \<open>What a miss on one node says of the names it published or answered with.\<close>

lemma matchOnNode_None:
  assumes "matchOnNode s w node (nameMatch ns name) = None" "src_NodeInventory (sg_src s) w node = Inr iv"
    "e \<in> set (ni_Entries iv)"
  shows "splitNamespacedName (ie_Name e) \<noteq> (ns, name)"
  using assms by (auto simp: matchOnNode_def find_None_iff nameMatch_def)

lemma liveOnNode_None:
  assumes "liveOnNode marshal s w op node (rowsByClaimRef ref) (nameMatch ns name) = None"
    "nodeClient s w node op [] = Inr cl" "cl_SandboxesByClaimRef cl ref w = Inr rows" "row \<in> set rows"
  shows "splitNamespacedName (cmp_Or (ss_ClaimRef row) (ss_ID row)) \<noteq> (ns, name)"
  using assms by (auto simp: liveOnNode_def rowsByClaimRef_def find_None_iff nameMatch_def EntryFromSummary_def Let_def)

lemma nodeClient_factory: "nodeClient s w node op cid = Inr cl \<Longrightarrow> sg_factory s \<noteq> None"
  by (cases "sg_factory s") (simp_all add: nodeClient_def)

text \<open>Where a resolved sandbox comes from: a published entry or a live row that matches.\<close>

definition published :: "'w scatterGatherStore \<Rightarrow> 'w \<Rightarrow> (InventoryEntry \<Rightarrow> bool) \<Rightarrow> Sandbox \<Rightarrow> bool" where
  "published s w match sb \<longleftrightarrow> (\<exists>node iv e. src_NodeInventory (sg_src s) w node = Inr iv
     \<and> e \<in> set (ni_Entries iv) \<and> match e \<and> sb = entryToSandbox (ni_Node iv) e)"

definition live :: "metadata_encoder \<Rightarrow> 'w scatterGatherStore \<Rightarrow> 'w \<Rightarrow> string \<Rightarrow> 'w nodeRows \<Rightarrow> (InventoryEntry \<Rightarrow> bool) \<Rightarrow> Sandbox \<Rightarrow> bool" where
  "live marshal s w op rows match sb \<longleftrightarrow> (\<exists>node cl got row. nodeClient s w node op [] = Inr cl \<and> rows cl w = Inr got
     \<and> row \<in> set got \<and> match (EntryFromSummary marshal row) \<and> sb = entryToSandbox node (EntryFromSummary marshal row))"

lemma hit_origin:
  "matchOnNode s w node match = Some sb \<Longrightarrow> published s w match sb"
  "liveOnNode marshal s w op node rows match = Some sb \<Longrightarrow> live marshal s w op rows match sb"
  unfolding published_def live_def by (drule matchOnNode_Some, blast) (drule liveOnNode_Some, blast)

lemma FirstHit_Inr: "FirstHit sched src w fnd = Inr r \<Longrightarrow> \<exists>nodes. src_ListNodes src w = Inr nodes \<and> r = first_hit fnd (sched nodes)"
  by (auto simp: FirstHit_def split: sum.splits)

lemma sweep_origin:
  assumes "resolve_sweep marshal sched sched' s w op rows match = Inr (Some sb)"
  shows "published s w match sb \<or> live marshal s w op rows match sb"
  using assms unfolding resolve_sweep_def
  by (auto split: sum.splits option.splits if_splits dest!: FirstHit_Inr first_hit_Some dest: hit_origin
      simp: FirstHit_def)

lemma resolve_origin:
  assumes "fst (resolve marshal sched sched' s w op key rows match) = Inr (Some sb)"
  shows "published s w match sb \<or> live marshal s w op rows match sb"
  using assms sweep_origin [of marshal sched sched' s w op rows match sb]
  by (auto simp: resolve_def Let_def split: prod.splits option.splits sum.splits dest: hit_origin)

lemma resolve_miss:
  assumes "\<forall>sb. fst (resolve marshal sched sched' s w op key rows match) \<noteq> Inr (Some sb)"
    and nodes: "src_ListNodes (sg_src s) w = Inr nodes"
    and sched: "set (sched nodes) = set nodes" "set (sched' nodes) = set nodes"
  shows "fst (resolve marshal sched sched' s w op key rows match) = Inr None
    \<and> (\<forall>node\<in>set nodes. matchOnNode s w node match = None)
    \<and> (sg_factory s \<noteq> None \<longrightarrow> (\<forall>node\<in>set nodes. liveOnNode marshal s w op node rows match = None))"
proof -
  have eq: "fst (resolve marshal sched sched' s w op key rows match) = resolve_sweep marshal sched sched' s w op rows match"
    using assms(1) by (auto simp: resolve_def Let_def split: prod.splits option.splits sum.splits)
  then have miss: "\<forall>sb. resolve_sweep marshal sched sched' s w op rows match \<noteq> Inr (Some sb)" using assms(1) by simp
  then have 1: "first_hit (\<lambda>node. matchOnNode s w node match) (sched nodes) = None"
    by (auto simp: resolve_sweep_def FirstHit_def nodes split: option.splits)
  then have 2: "sg_factory s \<noteq> None \<Longrightarrow> first_hit (\<lambda>node. liveOnNode marshal s w op node rows match) (sched' nodes) = None"
    using miss by (auto simp: resolve_sweep_def FirstHit_def nodes)
  have "resolve_sweep marshal sched sched' s w op rows match = Inr None"
    using 1 2 by (auto simp: resolve_sweep_def FirstHit_def nodes)
  then show ?thesis using eq 1 2 by (simp add: first_hit_None sched)
qed

lemma get_sound_lemma:
  assumes "fst (Get marshal sched sched' s w ns name) = Inr sb"
  shows "sb_Namespace sb = ns \<and> sb_Name sb = name
    \<and> (published s w (nameMatch ns name) sb
       \<or> live marshal s w ''get'' (rowsByClaimRef (namespacedName ns name)) (nameMatch ns name) sb)"
proof -
  have "published s w (nameMatch ns name) sb
       \<or> live marshal s w ''get'' (rowsByClaimRef (namespacedName ns name)) (nameMatch ns name) sb"
    using assms resolve_origin [of marshal sched sched' s w "''get''" "nameKey ns name"
        "rowsByClaimRef (namespacedName ns name)" "nameMatch ns name" sb]
    by (auto simp: Get_def found_or_404_def lookupName_def split: sum.splits option.splits)
  moreover have "sb_Namespace (entryToSandbox n e) = ns \<and> sb_Name (entryToSandbox n e) = name" if "nameMatch ns name e" for n e
    using that by (auto simp: nameMatch_def split: prod.splits)
  ultimately show ?thesis unfolding published_def live_def by blast
qed

section \<open>Properties\<close>

text \<open>
  C28. A resolved sandbox is real and is the one asked for: whatever the index remembers and whatever
  order the nodes answer in, \<^verbatim>\<open>Get\<close> returns a sandbox of exactly that namespace and name, built from a
  published inventory entry or from a row of a node's own index.
\<close>

theorem get_sound:
  assumes "fst (Get marshal sched sched' s w ns name) = Inr sb"
  shows "sb_Namespace sb = ns \<and> sb_Name sb = name
    \<and> (published s w (nameMatch ns name) sb
       \<or> live marshal s w ''get'' (rowsByClaimRef (namespacedName ns name)) (nameMatch ns name) sb)"
  using assms by (rule get_sound_lemma)

text \<open>
  C29. Not found means nobody who can be asked has it: when \<^verbatim>\<open>Get\<close> fails although the nodes can be listed, the
  error is a not-found error, no inventory of a listed node that can be read holds an entry of that
  namespace and name, and no listed node that answers for its own index names a sandbox of them. A stale index
  entry never hides a sandbox; a node that neither publishes a readable inventory nor answers is skipped.
\<close>

theorem get_complete:
  assumes "fst (Get marshal sched sched' s w ns name) = Inl e" "src_ListNodes (sg_src s) w = Inr nodes"
    "set (sched nodes) = set nodes" "set (sched' nodes) = set nodes"
  shows "k8s_IsNotFound e
    \<and> (\<forall>node\<in>set nodes.
         (\<forall>iv. src_NodeInventory (sg_src s) w node = Inr iv
            \<longrightarrow> (\<forall>e'\<in>set (ni_Entries iv). splitNamespacedName (ie_Name e') \<noteq> (ns, name)))
       \<and> (\<forall>cl rows. nodeClient s w node ''get'' [] = Inr cl \<and> cl_SandboxesByClaimRef cl (namespacedName ns name) w = Inr rows
            \<longrightarrow> (\<forall>row\<in>set rows. splitNamespacedName (cmp_Or (ss_ClaimRef row) (ss_ID row)) \<noteq> (ns, name))))"
proof -
  let ?r = "fst (lookupName marshal sched sched' s w ns name)"
  have miss: "\<forall>sb. ?r \<noteq> Inr (Some sb)"
    using assms(1) by (auto simp: Get_def found_or_404_def)
  note m = resolve_miss [OF miss [unfolded lookupName_def] assms(2-4)]
  moreover from m have "?r = Inr None" by (simp add: lookupName_def)
  ultimately show ?thesis using assms(1) nodeClient_factory [of s w]
    by (auto simp: Get_def found_or_404_def k8s_NewNotFound_def dest!: matchOnNode_None liveOnNode_None)
qed

text \<open>
  C30. A list is exactly what the readable inventories hold: sorted by namespace and name, with one item
  for every entry of a readable listed node that is in the namespace and selected, and no other item;
  a node whose inventory cannot be read costs only its own entries.
\<close>

theorem list_exact:
  assumes "listInventories s w ns sel = Inr items" "src_ListNodes (sg_src s) w = Inr nodes"
  shows "sorted (map sandbox_order items)
    \<and> (sb \<in> set items \<longleftrightarrow> (\<exists>node\<in>set nodes. \<exists>iv e. src_NodeInventory (sg_src s) w node = Inr iv
         \<and> e \<in> set (ni_Entries iv) \<and> sb = entryToSandbox (ni_Node iv) e
         \<and> (ns = [] \<or> sb_Namespace sb = ns) \<and> selected sel sb))
    \<and> length items = (\<Sum>node\<leftarrow>nodes. case src_NodeInventory (sg_src s) w node of Inl e \<Rightarrow> 0
         | Inr iv \<Rightarrow> length (filter (\<lambda>e. (ns = [] \<or> fst (splitNamespacedName (ie_Name e)) = ns)
             \<and> selected sel (entryToSandbox (ni_Node iv) e)) (ni_Entries iv)))"
proof -
  define row where "row node = (case src_NodeInventory (sg_src s) w node of Inl e \<Rightarrow> [] | Inr iv \<Rightarrow> materialize iv ns sel)" for node
  have items: "items = sort_key sandbox_order (concat (map row nodes))"
    using assms by (simp add: listInventories_def row_def [abs_def])
  have rowset: "sb \<in> set (row node) \<longleftrightarrow> (\<exists>iv e. src_NodeInventory (sg_src s) w node = Inr iv
         \<and> e \<in> set (ni_Entries iv) \<and> sb = entryToSandbox (ni_Node iv) e
         \<and> (ns = [] \<or> sb_Namespace sb = ns) \<and> selected sel sb)" for node
    by (cases "src_NodeInventory (sg_src s) w node") (auto simp: row_def materialize_def)
  have rowlen: "length (row node) = (case src_NodeInventory (sg_src s) w node of Inl e \<Rightarrow> 0
         | Inr iv \<Rightarrow> length (filter (\<lambda>e. (ns = [] \<or> fst (splitNamespacedName (ie_Name e)) = ns)
             \<and> selected sel (entryToSandbox (ni_Node iv) e)) (ni_Entries iv)))" for node
    by (auto simp: row_def materialize_def filter_map o_def conj_commute split: sum.splits)
  have "length items = (\<Sum>node\<leftarrow>nodes. length (row node))"
    by (simp add: items length_concat o_def)
  then show ?thesis unfolding rowlen using rowset by (auto simp: items)
qed

section \<open>A concrete fleet\<close>

definition demo_entry :: "string \<Rightarrow> string \<Rightarrow> InventoryEntry" where
  "demo_entry name cid = \<lparr>ie_Name = name, ie_ID = cid, ie_Phase = PhaseRunning, ie_Template = ''img'', ie_ClaimRef = name,
     ie_Address = [], ie_Deadline = None, ie_ClaimedAt = None, ie_Metadata = [], ie_CPUCount = 1, ie_MemoryBytes = 1\<rparr>"

definition read_fleet :: StaticInventorySource where
  "read_fleet = \<lparr>st_inv = [(''n1'', \<lparr>ni_Name = ''n1'', ni_Node = ''n1'', ni_Entries = [demo_entry ''ns/b'' ''c1'', demo_entry ''ns/a'' ''c2''],
     ni_Address = ''h:1'', ni_Pools = [], ni_Templates = [], ni_PublishedAt = 0\<rparr>)], st_partition = [], st_applies = 0\<rparr>"

definition read_store :: "StaticInventorySource scatterGatherStore" where
  "read_store = NewScatterGatherStore static_source"

definition every :: selectors where
  "every = \<lparr>sel_label = (\<lambda>l. True), sel_field = \<lparr>fl_Matches = (\<lambda>f. True), fl_RequiresExactMatch = (\<lambda>f. None), fl_Requirements = []\<rparr>\<rparr>"

lemma read_store_nodes: "src_ListNodes (sg_src read_store) read_fleet = Inr [''n1'']"
  by code_simp

lemma read_store_get:
  "fst (Get (\<lambda>md. None) (\<lambda>ns. ns) (\<lambda>ns. ns) read_store read_fleet ''ns'' ''a'') = Inr (entryToSandbox ''n1'' (demo_entry ''ns/a'' ''c2''))"
  by (simp add: Get_def found_or_404_def lookupName_def resolve_def read_store_def NewScatterGatherStore_def newNodeIndex_def
      index_lookup_def resolve_sweep_def FirstHit_def static_source_def static_ListNodes_def read_fleet_def matchOnNode_def
      static_NodeInventory_def demo_entry_def nameMatch_def splitNamespacedName_def)

lemma read_store_miss:
  "fst (Get (\<lambda>md. None) (\<lambda>ns. ns) (\<lambda>ns. ns) read_store read_fleet ''ns'' ''x'') = Inl (k8s_NewNotFound ''x'')"
  by (simp add: Get_def found_or_404_def lookupName_def resolve_def read_store_def NewScatterGatherStore_def newNodeIndex_def
      index_lookup_def resolve_sweep_def FirstHit_def static_source_def static_ListNodes_def read_fleet_def matchOnNode_def
      static_NodeInventory_def demo_entry_def nameMatch_def splitNamespacedName_def)

theorem get_sound_witness:
  "sb_Namespace (entryToSandbox ''n1'' (demo_entry ''ns/a'' ''c2'')) = ''ns''
   \<and> sb_Name (entryToSandbox ''n1'' (demo_entry ''ns/a'' ''c2'')) = ''a''"
  using get_sound [OF read_store_get] by blast

theorem get_complete_witness:
  "k8s_IsNotFound (k8s_NewNotFound ''x'') \<and> splitNamespacedName ''ns/a'' \<noteq> (''ns'', ''x'')"
proof -
  have iv: "src_NodeInventory (sg_src read_store) read_fleet ''n1'' = Inr (snd (hd (st_inv read_fleet)))"
    by (simp add: read_store_def NewScatterGatherStore_def static_source_def static_NodeInventory_def read_fleet_def)
  have "demo_entry ''ns/a'' ''c2'' \<in> set (ni_Entries (snd (hd (st_inv read_fleet))))" by (simp add: read_fleet_def)
  then have "splitNamespacedName (ie_Name (demo_entry ''ns/a'' ''c2'')) \<noteq> (''ns'', ''x'')"
    using get_complete [OF read_store_miss read_store_nodes] iv by simp
  then show ?thesis by (simp add: demo_entry_def k8s_NewNotFound_def)
qed

lemma read_store_list: "\<exists>items. listInventories read_store read_fleet ''ns'' every = Inr items"
  using read_store_nodes by (simp add: listInventories_def)

theorem list_exact_witness:
  "\<exists>items. listInventories read_store read_fleet ''ns'' every = Inr items \<and> sorted (map sandbox_order items)
     \<and> entryToSandbox ''n1'' (demo_entry ''ns/a'' ''c2'') \<in> set items"
proof -
  obtain items where i: "listInventories read_store read_fleet ''ns'' every = Inr items" using read_store_list by blast
  have inv: "src_NodeInventory (sg_src read_store) read_fleet ''n1'' = Inr (snd (hd (st_inv read_fleet)))"
    by (simp add: read_store_def NewScatterGatherStore_def static_source_def static_NodeInventory_def read_fleet_def)
  have "\<exists>node\<in>set [''n1'']. \<exists>iv e. src_NodeInventory (sg_src read_store) read_fleet node = Inr iv
         \<and> e \<in> set (ni_Entries iv) \<and> entryToSandbox ''n1'' (demo_entry ''ns/a'' ''c2'') = entryToSandbox (ni_Node iv) e
         \<and> (''ns'' = [] \<or> sb_Namespace (entryToSandbox ''n1'' (demo_entry ''ns/a'' ''c2'')) = ''ns'')
         \<and> selected every (entryToSandbox ''n1'' (demo_entry ''ns/a'' ''c2''))"
    using inv by (auto simp: read_fleet_def every_def selected_def demo_entry_def splitNamespacedName_def)
  then show ?thesis using list_exact [OF i read_store_nodes] i by blast
qed

end
