(* ===== verification/Sandboxd_Client.thy ===== *)
theory Sandboxd_Client
  imports Scale_Types
begin

text \<open>
  The HTTP client of one node's daemon (pkg/sandboxd: client.go, lifecycle.go and ports.go) over the
  standard library: a request and a response as records, \<^verbatim>\<open>http.Client\<close> as a function that answers a
  request and changes the world, the JSON codec of the bodies as a record of functions. A body is its
  bytes, with the error a read of it ends in, if any. The last section opens a guest port: every
  connection it opens is accounted for.
\<close>

section \<open>URL escapes\<close>

definition hex_digit :: "nat \<Rightarrow> char" where
  "hex_digit d = char_of (if d < 10 then 48 + d else 55 + d)"

definition percent :: "char \<Rightarrow> string" where
  "percent c = [CHR ''%'', hex_digit (of_char c div 16), hex_digit (of_char c mod 16)]"

definition unreserved :: "char \<Rightarrow> bool" where
  "unreserved c = (is_letter c \<or> is_digit c \<or> c \<in> set ''-_.~'')"

text \<open>\<^verbatim>\<open>url.PathEscape\<close>: a path segment keeps the unreserved bytes and six of the reserved ones.\<close>

definition url_PathEscape :: "string \<Rightarrow> string" where
  "url_PathEscape s = concat (map (\<lambda>c. if unreserved c \<or> c \<in> set ''$&+=:@'' then [c] else percent c) s)"

text \<open>\<^verbatim>\<open>url.QueryEscape\<close>: a query component turns a space into a plus sign.\<close>

definition url_QueryEscape :: "string \<Rightarrow> string" where
  "url_QueryEscape s =
     concat (map (\<lambda>c. if unreserved c then [c] else if c = CHR '' '' then ''+'' else percent c) s)"

text \<open>\<^verbatim>\<open>url.Values.Encode\<close> on single values: the pairs in the order of their keys.\<close>

definition url_Encode :: "(string \<times> string) list \<Rightarrow> string" where
  "url_Encode q = strings_Join (map (\<lambda>(k, v). url_QueryEscape k @ ''='' @ url_QueryEscape v) (sort_key fst q)) ''&''"

text \<open>\<^verbatim>\<open>strings.TrimRight(s, "/")\<close>.\<close>

definition trim_right_slash :: "string \<Rightarrow> string" where
  "trim_right_slash s = rev (dropWhile (\<lambda>c. c = CHR ''/'') (rev s))"

section \<open>HTTP\<close>

record http_request =
  hq_Method :: string
  hq_URL :: string
  hq_ContentType :: "string option"
  hq_Authorization :: "string option"
  hq_Body :: "string option"

record http_response =
  hp_StatusCode :: int
  hp_Body :: string
  hp_Broken :: "err option"

text \<open>\<^verbatim>\<open>hc_Do\<close> is told the client's timeout, 0 for none; \<^verbatim>\<open>hc_Parse\<close> is what \<^verbatim>\<open>http.NewRequest\<close> says of a URL.\<close>

record 'w http_Client =
  hc_Timeout :: int
  hc_Parse :: "string \<Rightarrow> err option"
  hc_Do :: "int \<Rightarrow> http_request \<Rightarrow> 'w \<Rightarrow> (err + http_response) \<times> 'w"

text \<open>\<^verbatim>\<open>io.ReadAll(io.LimitReader(body, n))\<close>: at most \<^verbatim>\<open>n\<close> bytes; the body's error shows only below the limit.\<close>

definition read_limited :: "nat \<Rightarrow> http_response \<Rightarrow> string \<times> err option" where
  "read_limited n resp = (take n (hp_Body resp), if length (hp_Body resp) < n then hp_Broken resp else None)"

record wire =
  wi_claim :: "ClaimSpec \<Rightarrow> err + string"
  wi_claim_reply :: "http_response \<Rightarrow> err + ClaimResult"
  wi_error :: "string \<Rightarrow> string"
  wi_pools :: "PoolSpec list \<Rightarrow> err + string"
  wi_info :: "string \<Rightarrow> err + NodeInfo"
  wi_renew :: "RenewSpec \<Rightarrow> err + string"
  wi_deadline :: "string \<Rightarrow> err + time"
  wi_fork :: "ForkSpec \<Rightarrow> err + string"
  wi_children :: "string \<Rightarrow> err + ClaimResult list"
  wi_checkpoint :: "CheckpointSpec \<Rightarrow> err + string"
  wi_captured :: "string \<Rightarrow> err + Checkpoint"
  wi_checkpoints :: "string \<Rightarrow> err + Checkpoint list"
  wi_promote :: "string \<Rightarrow> err + string"
  wi_promoted :: "string \<Rightarrow> err + PoolKey \<times> string"
  wi_labels :: "(string \<times> string) list \<Rightarrow> err + string"
  wi_summary :: "string \<Rightarrow> err + SandboxSummary"
  wi_sandboxes :: "string \<Rightarrow> err + SandboxSummary list"

section \<open>The client\<close>

definition captureTimeout :: int where "captureTimeout = 10 * 60 * second"

definition maxReplyBytes :: nat where "maxReplyBytes = 16 * 2 ^ 20"

record 'w Client =
  c_baseURL :: string
  c_token :: string
  c_hc :: "'w http_Client"
  c_capture :: "'w http_Client"

definition WithHTTPClient :: "'w http_Client \<Rightarrow> 'w Client \<Rightarrow> 'w Client" where
  "WithHTTPClient hc c = c\<lparr>c_hc := hc\<rparr>"

text \<open>\<^verbatim>\<open>sandboxd.New\<close>; \<open>def\<close> is Go's zero \<^verbatim>\<open>http.Client\<close>, which has no timeout.\<close>

definition client_New :: "'w http_Client \<Rightarrow> string \<Rightarrow> string \<Rightarrow> ('w Client \<Rightarrow> 'w Client) list \<Rightarrow> 'w Client" where
  "client_New def baseURL token opts =
     (let c = fold (\<lambda>opt c. opt c) opts
                \<lparr>c_baseURL = trim_right_slash baseURL, c_token = token, c_hc = def, c_capture = def\<rparr>
      in c\<lparr>c_capture := (c_hc c)\<lparr>hc_Timeout := captureTimeout\<rparr>\<rparr>)"

definition authenticate :: "string \<Rightarrow> http_request \<Rightarrow> http_request" where
  "authenticate token req = (if token \<noteq> [] then req\<lparr>hq_Authorization := Some (''Bearer '' @ token)\<rparr> else req)"

definition client_do :: "'w Client \<Rightarrow> 'w http_Client \<Rightarrow> string \<Rightarrow> string \<Rightarrow> string \<Rightarrow> string option \<Rightarrow> 'w
   \<Rightarrow> (err + http_response) \<times> 'w" where
  "client_do c hc meth path token body w =
     (case hc_Parse hc (c_baseURL c @ path) of
        Some e \<Rightarrow> (Inl e, w)
      | None \<Rightarrow>
          hc_Do hc (hc_Timeout hc) (authenticate token
            \<lparr>hq_Method = meth, hq_URL = c_baseURL c @ path,
             hq_ContentType = (if body = None then None else Some ''application/json''),
             hq_Authorization = None, hq_Body = body\<rparr>) w)"

definition statusError :: "wire \<Rightarrow> http_response \<Rightarrow> err" where
  "statusError j resp = HTTPError (hp_StatusCode resp) (wi_error j (fst (read_limited (2 ^ 16) resp)))"

definition sendWith :: "wire \<Rightarrow> 'w Client \<Rightarrow> 'w http_Client \<Rightarrow> string \<Rightarrow> string \<Rightarrow> string \<Rightarrow> string \<Rightarrow> string option \<Rightarrow> int list
   \<Rightarrow> 'w \<Rightarrow> (err + unit) \<times> 'w" where
  "sendWith j c hc meth path token op body oks w =
     (case client_do c hc meth path token body w of
        (Inl e, w') \<Rightarrow> (Inl (Wrap (Msg ''sandboxd: %s: %w'' [op]) e), w')
      | (Inr resp, w') \<Rightarrow>
          (if hp_StatusCode resp \<notin> set oks then Inl (statusError j resp) else Inr (), w'))"

definition client_send :: "wire \<Rightarrow> 'w Client \<Rightarrow> string \<Rightarrow> string \<Rightarrow> string \<Rightarrow> string \<Rightarrow> string option \<Rightarrow> int list
   \<Rightarrow> 'w \<Rightarrow> (err + unit) \<times> 'w" where
  "client_send j c = sendWith j c (c_hc c)"

text \<open>A reply is decoded only when all of it was read; one byte past the cap tells it is too long.\<close>

definition decodeInto :: "(string \<Rightarrow> err + 'a) \<Rightarrow> http_response \<Rightarrow> string \<Rightarrow> err + 'a" where
  "decodeInto unmarshal resp path =
     (case read_limited (maxReplyBytes + 1) resp of
        (b, Some e) \<Rightarrow> Inl (Wrap (Msg ''sandboxd: read %s reply: %w'' [path]) e)
      | (b, None) \<Rightarrow>
          if length b > maxReplyBytes
          then Inl (PlainError (Msg ''sandboxd: %s reply exceeds %d bytes'' [path, format_nat maxReplyBytes]))
          else (case unmarshal b of
                  Inl e \<Rightarrow> Inl (Wrap (Msg ''sandboxd: decode %s reply: %w'' [path]) e)
                | Inr a \<Rightarrow> Inr a))"

definition sendJSONWith :: "wire \<Rightarrow> 'w Client \<Rightarrow> 'w http_Client \<Rightarrow> string \<Rightarrow> string \<Rightarrow> err + string \<Rightarrow> (string \<Rightarrow> err + 'a)
   \<Rightarrow> 'w \<Rightarrow> (err + 'a) \<times> 'w" where
  "sendJSONWith j c hc meth path payload unmarshal w =
     (case payload of
        Inl e \<Rightarrow> (Inl (Wrap (Msg ''sandboxd: encode %s: %w'' [path]) e), w)
      | Inr body \<Rightarrow>
          (case client_do c hc meth path (c_token c) (Some body) w of
             (Inl e, w') \<Rightarrow> (Inl (Wrap (Msg ''sandboxd: %s: %w'' [path]) e), w')
           | (Inr resp, w') \<Rightarrow>
               (if go_quot (hp_StatusCode resp) 100 \<noteq> 2 then Inl (statusError j resp)
                else decodeInto unmarshal resp path, w')))"

definition sendJSON :: "wire \<Rightarrow> 'w Client \<Rightarrow> string \<Rightarrow> string \<Rightarrow> err + string \<Rightarrow> (string \<Rightarrow> err + 'a)
   \<Rightarrow> 'w \<Rightarrow> (err + 'a) \<times> 'w" where
  "sendJSON j c = sendJSONWith j c (c_hc c)"

text \<open>A GET leaves the node as it was: only its answer is kept.\<close>

definition getJSON :: "wire \<Rightarrow> 'w Client \<Rightarrow> string \<Rightarrow> (string \<Rightarrow> err + 'a) \<Rightarrow> 'w \<Rightarrow> err + 'a" where
  "getJSON j c path unmarshal w =
     (case fst (client_do c (c_hc c) ''GET'' path (c_token c) None w) of
        Inl e \<Rightarrow> Inl (Wrap (Msg ''sandboxd: %s: %w'' [path]) e)
      | Inr resp \<Rightarrow>
          if hp_StatusCode resp \<noteq> 200 then Inl (statusError j resp) else decodeInto unmarshal resp path)"

section \<open>Claims and pools\<close>

definition client_Claim :: "wire \<Rightarrow> 'w Client \<Rightarrow> ClaimSpec \<Rightarrow> 'w \<Rightarrow> (err + ClaimResult) \<times> 'w" where
  "client_Claim j c spec w =
     (case wi_claim j spec of
        Inl e \<Rightarrow> (Inl (Wrap (Msg ''sandboxd: encode claim: %w'' []) e), w)
      | Inr body \<Rightarrow>
          (case hc_Parse (c_hc c) (c_baseURL c @ ''/v1/claim'') of
             Some e \<Rightarrow> (Inl e, w)
           | None \<Rightarrow>
               (case hc_Do (c_hc c) (hc_Timeout (c_hc c)) (authenticate (c_token c)
                       \<lparr>hq_Method = ''POST'', hq_URL = c_baseURL c @ ''/v1/claim'', hq_ContentType = Some ''application/json'',
                        hq_Authorization = None, hq_Body = Some body\<rparr>) w of
                  (Inl e, w') \<Rightarrow> (Inl (Wrap (Msg ''sandboxd: claim: %w'' []) e), w')
                | (Inr resp, w') \<Rightarrow>
                    (if hp_StatusCode resp = 200 then
                       (case wi_claim_reply j resp of
                          Inl e \<Rightarrow> Inl (Wrap (Msg ''sandboxd: decode claim response: %w'' []) e)
                        | Inr r \<Rightarrow>
                            if cr_ID r = [] \<and> length (cr_Redirect r) > 0 then Inl (RedirectError (cr_Redirect r))
                            else if cr_ID r = [] then Inl ErrNodeAtCapacity
                            else Inr r)
                     else if hp_StatusCode resp = 429 then Inl ErrNodeAtCapacity
                     else Inl (statusError j resp), w'))))"

definition client_SetPools :: "wire \<Rightarrow> 'w Client \<Rightarrow> PoolSpec list \<Rightarrow> 'w \<Rightarrow> (err + NodeInfo) \<times> 'w" where
  "client_SetPools j c pools w = sendJSON j c ''PUT'' ''/v1/pools'' (wi_pools j pools) (wi_info j) w"

definition client_Info :: "wire \<Rightarrow> 'w Client \<Rightarrow> 'w \<Rightarrow> err + NodeInfo" where
  "client_Info j c w = getJSON j c ''/v1/info'' (wi_info j) w"

text \<open>A claim that is already gone counts as released.\<close>

definition sandbox_path :: "string \<Rightarrow> string \<Rightarrow> string" where
  "sandbox_path sid verb = ''/v1/sandboxes/'' @ url_PathEscape sid @ ''/'' @ verb"

definition needs_id :: "msg \<Rightarrow> string \<Rightarrow> ('w \<Rightarrow> (err + 'a) \<times> 'w) \<Rightarrow> 'w \<Rightarrow> (err + 'a) \<times> 'w" where
  "needs_id m sid run w = (if sid = [] then (Inl (PlainError m), w) else run w)"

definition client_Release :: "wire \<Rightarrow> 'w Client \<Rightarrow> string \<Rightarrow> string \<Rightarrow> 'w \<Rightarrow> (err + unit) \<times> 'w" where
  "client_Release j c sid token =
     needs_id (Msg ''sandboxd: release requires a sandbox id'' []) sid
       (client_send j c ''POST'' (sandbox_path sid ''release'') token ''release'' None [204, 404])"

text \<open>\<^verbatim>\<open>TokenFrom\<close>; \<open>read_file\<close> is \<^verbatim>\<open>os.ReadFile\<close> of the cleaned path.\<close>

definition TokenFrom :: "(string \<Rightarrow> err + string) \<Rightarrow> string \<Rightarrow> string \<Rightarrow> err + string" where
  "TokenFrom read_file lit file =
     (if file = [] then Inr lit
      else (case read_file file of
              Inl e \<Rightarrow> Inl (Wrap (Msg ''sandboxd: read token file %q: %w'' [file]) e)
            | Inr b \<Rightarrow> Inr (strings_TrimSpace b)))"

section \<open>Lifecycle verbs\<close>

definition sandboxVerb :: "wire \<Rightarrow> 'w Client \<Rightarrow> string \<Rightarrow> string \<Rightarrow> 'w \<Rightarrow> (err + unit) \<times> 'w" where
  "sandboxVerb j c sid verb =
     needs_id (Msg ''sandboxd: %s requires a sandbox id'' [verb]) sid
       (sendWith j c (c_capture c) ''POST'' (sandbox_path sid verb) (c_token c) verb None [204])"

definition client_Hibernate :: "wire \<Rightarrow> 'w Client \<Rightarrow> string \<Rightarrow> 'w \<Rightarrow> (err + unit) \<times> 'w" where
  "client_Hibernate j c sid = sandboxVerb j c sid ''hibernate''"

definition client_Wake :: "wire \<Rightarrow> 'w Client \<Rightarrow> string \<Rightarrow> 'w \<Rightarrow> (err + unit) \<times> 'w" where
  "client_Wake j c sid = sandboxVerb j c sid ''wake''"

definition client_Renew :: "wire \<Rightarrow> 'w Client \<Rightarrow> string \<Rightarrow> RenewSpec \<Rightarrow> 'w \<Rightarrow> (err + time) \<times> 'w" where
  "client_Renew j c sid spec =
     needs_id (Msg ''sandboxd: renew requires a sandbox id'' []) sid
       (sendJSON j c ''POST'' (sandbox_path sid ''renew'') (wi_renew j spec) (wi_deadline j))"

definition client_Fork :: "wire \<Rightarrow> 'w Client \<Rightarrow> string \<Rightarrow> ForkSpec \<Rightarrow> 'w \<Rightarrow> (err + ClaimResult list) \<times> 'w" where
  "client_Fork j c sid spec =
     needs_id (Msg ''sandboxd: fork requires a sandbox id'' []) sid
       (sendJSONWith j c (c_capture c) ''POST'' (sandbox_path sid ''fork'') (wi_fork j spec) (wi_children j))"

definition client_SetInstanceMetadata :: "wire \<Rightarrow> 'w Client \<Rightarrow> string \<Rightarrow> string \<Rightarrow> 'w \<Rightarrow> (err + unit) \<times> 'w" where
  "client_SetInstanceMetadata j c sid doc =
     needs_id (Msg ''sandboxd: instance metadata requires a sandbox id'' []) sid
       (client_send j c ''PUT'' (sandbox_path sid ''instance-metadata'') (c_token c) ''instance metadata'' (Some doc) [204])"

definition client_Checkpoint :: "wire \<Rightarrow> 'w Client \<Rightarrow> string \<Rightarrow> CheckpointSpec \<Rightarrow> 'w \<Rightarrow> (err + Checkpoint) \<times> 'w" where
  "client_Checkpoint j c sid spec =
     needs_id (Msg ''sandboxd: checkpoint requires a sandbox id'' []) sid
       (sendJSONWith j c (c_capture c) ''POST'' (sandbox_path sid ''checkpoint'') (wi_checkpoint j spec) (wi_captured j))"

definition client_Promote :: "wire \<Rightarrow> 'w Client \<Rightarrow> string \<Rightarrow> string \<Rightarrow> 'w \<Rightarrow> (err + PoolKey \<times> string) \<times> 'w" where
  "client_Promote j c sid template =
     needs_id (Msg ''sandboxd: promote requires a sandbox id'' []) sid
       (sendJSONWith j c (c_capture c) ''POST'' (sandbox_path sid ''promote'') (wi_promote j template) (wi_promoted j))"

definition client_Checkpoints :: "wire \<Rightarrow> 'w Client \<Rightarrow> 'w \<Rightarrow> err + Checkpoint list" where
  "client_Checkpoints j c w = getJSON j c ''/v1/checkpoints'' (wi_checkpoints j) w"

definition templateQuery :: "PoolKey \<Rightarrow> (string \<times> string) list" where
  "templateQuery key =
     (''template'', pk_Template key)
     # (if pk_Net key \<noteq> [] then [(''net'', pk_Net key)] else [])
     @ (if pk_Size key \<noteq> [] then [(''size'', pk_Size key)] else [])"

definition with_digest :: "string \<Rightarrow> (string \<times> string) list \<Rightarrow> (string \<times> string) list" where
  "with_digest digest q = (if digest \<noteq> [] then AList.update ''digest'' digest q else q)"

definition client_DeleteTemplate :: "wire \<Rightarrow> 'w Client \<Rightarrow> PoolKey \<Rightarrow> string \<Rightarrow> 'w \<Rightarrow> (err + unit) \<times> 'w" where
  "client_DeleteTemplate j c key digest =
     needs_id (Msg ''sandboxd: delete template requires a template name'' []) (pk_Template key)
       (client_send j c ''DELETE''
          (''/v1/templates?'' @ url_Encode (with_digest digest (AList.update ''no_redirect'' ''1'' (templateQuery key))))
          (c_token c) ''delete template'' None [204, 404])"

definition client_SetTemplateLabels :: "wire \<Rightarrow> 'w Client \<Rightarrow> PoolKey \<Rightarrow> (string \<times> string) list \<Rightarrow> string \<Rightarrow> 'w \<Rightarrow> (err + unit) \<times> 'w" where
  "client_SetTemplateLabels j c key labels digest w =
     (case wi_labels j labels of
        Inl e \<Rightarrow> (Inl e, w)
      | Inr body \<Rightarrow>
          client_send j c ''PUT'' (''/v1/templates/labels?'' @ url_Encode (with_digest digest (templateQuery key)))
            (c_token c) ''template labels'' (Some body) [204] w)"

definition client_DeleteCheckpoint :: "wire \<Rightarrow> 'w Client \<Rightarrow> string \<Rightarrow> 'w \<Rightarrow> (err + unit) \<times> 'w" where
  "client_DeleteCheckpoint j c checkpointID =
     needs_id (Msg ''sandboxd: delete checkpoint requires a checkpoint id'' []) checkpointID
       (client_send j c ''DELETE'' (''/v1/checkpoints/'' @ url_PathEscape checkpointID) (c_token c) ''delete checkpoint'' None [204, 404])"

definition client_Sandbox :: "wire \<Rightarrow> 'w Client \<Rightarrow> string \<Rightarrow> 'w \<Rightarrow> err + SandboxSummary" where
  "client_Sandbox j c sid w =
     (if sid = [] then Inl (PlainError (Msg ''sandboxd: sandbox read requires a sandbox id'' []))
      else getJSON j c (''/v1/sandboxes/'' @ url_PathEscape sid) (wi_summary j) w)"

definition listSandboxes :: "wire \<Rightarrow> 'w Client \<Rightarrow> string \<Rightarrow> 'w \<Rightarrow> err + SandboxSummary list" where
  "listSandboxes j c path w = getJSON j c path (wi_sandboxes j) w"

definition client_Sandboxes :: "wire \<Rightarrow> 'w Client \<Rightarrow> 'w \<Rightarrow> err + SandboxSummary list" where
  "client_Sandboxes j c = listSandboxes j c ''/v1/sandboxes''"

definition client_SandboxesByClaimRef :: "wire \<Rightarrow> 'w Client \<Rightarrow> string \<Rightarrow> 'w \<Rightarrow> err + SandboxSummary list" where
  "client_SandboxesByClaimRef j c ref = listSandboxes j c (''/v1/sandboxes?claim_ref='' @ url_QueryEscape ref)"

section \<open>Guest ports\<close>

text \<open>
  What opening a port asks of the network: a connection is the number of its handle, closing it is an
  effect. \<open>nt_URL\<close> is \<^verbatim>\<open>url.Parse\<close> read as scheme, host name and port.
\<close>

record port_request = http_request +
  hq_Upgrade :: string
  hq_Connection :: string

record 'w network =
  nt_URL :: "string \<Rightarrow> (string \<times> string \<times> string) option"
  nt_Parse :: "string \<Rightarrow> err option"
  nt_Dial :: "string \<Rightarrow> 'w \<Rightarrow> (err + nat) \<times> 'w"
  nt_Handshake :: "nat \<Rightarrow> string \<Rightarrow> 'w \<Rightarrow> err option \<times> 'w"
  nt_Close :: "nat \<Rightarrow> 'w \<Rightarrow> 'w"
  nt_Write :: "nat \<Rightarrow> port_request \<Rightarrow> 'w \<Rightarrow> err option \<times> 'w"
  nt_ReadResponse :: "nat \<Rightarrow> nat \<Rightarrow> 'w \<Rightarrow> (err + http_response) \<times> 'w"

definition portUpgradeProto :: string where "portUpgradeProto = ''tcp''"

definition portReplyMax :: nat where "portReplyMax = 16 * 2 ^ 10"

text \<open>\<^verbatim>\<open>net.JoinHostPort\<close>: a host with a colon or a zone goes into brackets.\<close>

definition net_JoinHostPort :: "string \<Rightarrow> string \<Rightarrow> string" where
  "net_JoinHostPort host port =
     (if CHR '':'' \<in> set host \<or> CHR ''%'' \<in> set host then ''['' @ host @ '']:'' @ port else host @ '':'' @ port)"

definition relayTarget :: "(string \<Rightarrow> (string \<times> string \<times> string) option) \<Rightarrow> string \<Rightarrow> string \<times> string \<times> string" where
  "relayTarget parse base =
     (let (scheme, host, port) =
        (case (if strings_Contains base ''://'' then parse base else None) of
           Some u \<Rightarrow> u
         | None \<Rightarrow> (case net_SplitHostPort base of
                      Some (h, p) \<Rightarrow> (''http'', h, p)
                    | None \<Rightarrow> (''http'', base, [])));
          port' = cmp_Or port (if scheme = ''https'' then ''443'' else ''80'')
      in (scheme, net_JoinHostPort host port', host))"

definition port_path :: "string \<Rightarrow> nat \<Rightarrow> string" where
  "port_path sid port = sandbox_path sid (''ports/'' @ format_nat port)"

definition upgrade_request :: "string \<Rightarrow> string \<Rightarrow> port_request" where
  "upgrade_request url token =
     \<lparr>hq_Method = ''GET'', hq_URL = url, hq_ContentType = None, hq_Authorization = Some (''Bearer '' @ token),
      hq_Body = None, hq_Upgrade = portUpgradeProto, hq_Connection = ''Upgrade''\<rparr>"

text \<open>From an established connection on: the request is written and the reply must switch protocols.\<close>

definition port_upgrade :: "wire \<Rightarrow> 'w network \<Rightarrow> nat \<Rightarrow> string \<Rightarrow> string \<Rightarrow> 'w \<Rightarrow> (err + nat) \<times> 'w" where
  "port_upgrade j n conn url token w =
     (case nt_Parse n url of
        Some e \<Rightarrow> (Inl e, nt_Close n conn w)
      | None \<Rightarrow>
          (case nt_Write n conn (upgrade_request url token) w of
             (Some e, w') \<Rightarrow> (Inl (Wrap (Msg ''write upgrade: %w'' []) e), nt_Close n conn w')
           | (None, w') \<Rightarrow>
               (case nt_ReadResponse n conn portReplyMax w' of
                  (Inl e, w'') \<Rightarrow> (Inl (Wrap (Msg ''read upgrade reply: %w'' []) e), nt_Close n conn w'')
                | (Inr resp, w'') \<Rightarrow>
                    if hp_StatusCode resp \<noteq> 101 then (Inl (statusError j resp), nt_Close n conn w'')
                    else (Inr conn, w''))))"

definition DialPort :: "wire \<Rightarrow> 'w network \<Rightarrow> string \<Rightarrow> string \<Rightarrow> string \<Rightarrow> nat \<Rightarrow> 'w \<Rightarrow> (err + nat) \<times> 'w" where
  "DialPort j n base sid token port w =
     (let (scheme, addr, serverName) = relayTarget (nt_URL n) base;
          url = scheme @ ''://'' @ addr @ port_path sid port
      in case nt_Dial n addr w of
           (Inl e, w') \<Rightarrow> (Inl (Wrap (Msg ''dial node: %w'' []) e), w')
         | (Inr conn, w') \<Rightarrow>
             if scheme = ''https'' then
               (case nt_Handshake n conn serverName w' of
                  (Some e, w'') \<Rightarrow> (Inl (Wrap (Msg ''tls to node: %w'' []) e), nt_Close n conn w'')
                | (None, w'') \<Rightarrow> port_upgrade j n conn url token w'')
             else port_upgrade j n conn url token w')"

definition client_DialPort :: "wire \<Rightarrow> 'w network \<Rightarrow> 'w Client \<Rightarrow> string \<Rightarrow> string \<Rightarrow> nat \<Rightarrow> 'w \<Rightarrow> (err + nat) \<times> 'w" where
  "client_DialPort j n c sid token port = DialPort j n (c_baseURL c) sid (cmp_Or token (c_token c)) port"

text \<open>The client as the store uses it.\<close>

definition sandboxd_client :: "wire \<Rightarrow> 'w network \<Rightarrow> 'w Client \<Rightarrow> 'w SandboxdClient" where
  "sandboxd_client j n c =
     \<lparr>cl_Claim = client_Claim j c, cl_Release = client_Release j c, cl_Hibernate = client_Hibernate j c,
      cl_Wake = client_Wake j c, cl_Renew = client_Renew j c, cl_Fork = client_Fork j c,
      cl_Checkpoint = client_Checkpoint j c, cl_Checkpoints = client_Checkpoints j c,
      cl_DeleteCheckpoint = client_DeleteCheckpoint j c, cl_DeleteTemplate = client_DeleteTemplate j c,
      cl_Promote = client_Promote j c, cl_SetTemplateLabels = client_SetTemplateLabels j c, cl_Info = client_Info j c,
      cl_DialPort = client_DialPort j n c, cl_SetInstanceMetadata = client_SetInstanceMetadata j c,
      cl_Sandbox = client_Sandbox j c, cl_SandboxesByClaimRef = client_SandboxesByClaimRef j c\<rparr>"

section \<open>What the client guarantees\<close>

text \<open>An escaped segment holds no byte that ends a segment, and it can be read back.\<close>

definition hex_val :: "char \<Rightarrow> nat" where
  "hex_val c = (let n = of_char c in if n < 58 then n - 48 else n - 55)"

fun path_unescape :: "string \<Rightarrow> string" where
  "path_unescape (c # a # b # s) =
     (if c = CHR ''%'' then char_of (hex_val a * 16 + hex_val b) # path_unescape s else c # path_unescape (a # b # s))"
| "path_unescape s = s"

lemma hex_val_digit: "d < 16 \<Longrightarrow> hex_val (hex_digit d) = d"
  by (simp add: hex_val_def hex_digit_def)

lemma path_unescape_plain: "c \<noteq> CHR ''%'' \<Longrightarrow> path_unescape (c # s) = c # path_unescape s"
  by (cases s rule: path_unescape.cases) auto

lemma path_unescape_percent: "path_unescape (percent c @ s) = c # path_unescape s"
proof -
  have "of_char c < (256 :: nat)" by simp
  then have "of_char c div 16 < (16 :: nat)" by (simp add: less_mult_imp_div_less)
  then show ?thesis by (simp add: percent_def hex_val_digit)
qed

lemma path_unescape_escape: "path_unescape (url_PathEscape s) = s"
proof (induction s)
  case (Cons c s)
  have "unreserved c \<or> c \<in> set ''$&+=:@'' \<Longrightarrow> c \<noteq> CHR ''%''"
    by (auto simp: unreserved_def is_letter_def is_digit_def less_eq_char_def)
  with Cons show ?case
    by (auto simp: url_PathEscape_def path_unescape_plain path_unescape_percent)
qed (simp add: url_PathEscape_def)

lemma hex_digit_plain: "d < 16 \<Longrightarrow> hex_digit d \<notin> set ''/?#''"
proof -
  have "list_all (\<lambda>d. hex_digit d \<notin> set ''/?#'') [0..<16]" by code_simp
  then show "d < 16 \<Longrightarrow> hex_digit d \<notin> set ''/?#''" by (simp add: list_all_iff)
qed

lemma percent_plain: "c \<in> set (percent x) \<Longrightarrow> c \<notin> set ''/?#''"
proof -
  have "of_char x < (256 :: nat)" by simp
  then have "of_char x div 16 < (16 :: nat)" by (simp add: less_mult_imp_div_less)
  then show "c \<in> set (percent x) \<Longrightarrow> c \<notin> set ''/?#''"
    using hex_digit_plain [of "of_char x div 16"] hex_digit_plain [of "of_char x mod 16"]
    by (auto simp: percent_def)
qed

lemma escape_plain: "c \<in> set (url_PathEscape s) \<Longrightarrow> c \<notin> set ''/?#''"
  using percent_plain
  by (fastforce simp: url_PathEscape_def unreserved_def is_letter_def is_digit_def less_eq_char_def split: if_splits)

text \<open>
  A path names one sandbox and one verb: whatever bytes an id holds, the paths of two requests are
  equal only when their ids and their verbs are, so no id reaches another sandbox or another verb.
\<close>

theorem sandbox_path_injective:
  "sandbox_path sid verb = sandbox_path sid' verb' \<longleftrightarrow> sid = sid' \<and> verb = verb'"
proof
  assume "sandbox_path sid verb = sandbox_path sid' verb'"
  then have "strings_Cut (url_PathEscape sid @ CHR ''/'' # verb) ''/'' = strings_Cut (url_PathEscape sid' @ CHR ''/'' # verb') ''/''"
    by (simp add: sandbox_path_def)
  moreover have "CHR ''/'' \<notin> set (url_PathEscape x)" for x using escape_plain [of "CHR ''/''" x] by auto
  ultimately have "url_PathEscape sid = url_PathEscape sid'" "verb = verb'"
    by (simp_all add: strings_Cut_char_append)
  then show "sid = sid' \<and> verb = verb'" by (metis path_unescape_escape)
qed simp

text \<open>A reply is the decoding of the whole body, which the node finished and which fits the cap.\<close>

lemma decodeInto_whole:
  "decodeInto unmarshal resp path = Inr a \<longleftrightarrow>
     length (hp_Body resp) \<le> maxReplyBytes \<and> hp_Broken resp = None \<and> unmarshal (hp_Body resp) = Inr a"
  by (auto simp: decodeInto_def read_limited_def min_def split: sum.splits option.splits if_splits)

lemma client_Release_ok:
  "fst (client_Release j c sid token w) = Inr () \<longleftrightarrow> sid \<noteq> [] \<and>
     (\<exists>resp w'. client_do c (c_hc c) ''POST'' (sandbox_path sid ''release'') token None w = (Inr resp, w')
        \<and> hp_StatusCode resp \<in> {204, 404})"
  by (auto simp: client_Release_def needs_id_def client_send_def sendWith_def split: sum.splits prod.splits)

text \<open>The claim of the client delivers exactly when the node answered 200 with an id.\<close>

definition http_claim :: "wire \<Rightarrow> 'w Client \<Rightarrow> ClaimSpec \<Rightarrow> 'w \<Rightarrow> (err + http_response) option" where
  "http_claim j c spec w =
     (case wi_claim j spec of
        Inl e \<Rightarrow> None
      | Inr body \<Rightarrow>
          (case hc_Parse (c_hc c) (c_baseURL c @ ''/v1/claim'') of
             Some e \<Rightarrow> None
           | None \<Rightarrow> Some (fst (client_do c (c_hc c) ''POST'' ''/v1/claim'' (c_token c) (Some body) w))))"

lemma client_Claim_delivers:
  "fst (client_Claim j c spec w) = Inr cr \<longleftrightarrow>
     (\<exists>resp. http_claim j c spec w = Some (Inr resp) \<and> hp_StatusCode resp = 200 \<and> wi_claim_reply j resp = Inr cr \<and> cr_ID cr \<noteq> [])"
  by (auto simp: client_Claim_def http_claim_def client_do_def split: sum.splits option.splits prod.splits)

section \<open>No connection is left open\<close>

text \<open>A network that keeps the handles it opened and has not closed yet.\<close>

definition tracked :: "'w network \<Rightarrow> ('w \<times> nat list) network" where
  "tracked n =
     \<lparr>nt_URL = nt_URL n, nt_Parse = nt_Parse n,
      nt_Dial = (\<lambda>addr (w, opened). case nt_Dial n addr w of (Inl e, w') \<Rightarrow> (Inl e, w', opened) | (Inr h, w') \<Rightarrow> (Inr h, w', h # opened)),
      nt_Handshake = (\<lambda>h name (w, opened). case nt_Handshake n h name w of (r, w') \<Rightarrow> (r, w', opened)),
      nt_Close = (\<lambda>h (w, opened). (nt_Close n h w, remove1 h opened)),
      nt_Write = (\<lambda>h req (w, opened). case nt_Write n h req w of (r, w') \<Rightarrow> (r, w', opened)),
      nt_ReadResponse = (\<lambda>h m (w, opened). case nt_ReadResponse n h m w of (r, w') \<Rightarrow> (r, w', opened))\<rparr>"

lemma tracked_simps:
  "nt_Dial (tracked n) addr (w, opened) =
     (case nt_Dial n addr w of (Inl e, w') \<Rightarrow> (Inl e, w', opened) | (Inr h, w') \<Rightarrow> (Inr h, w', h # opened))"
  "nt_Handshake (tracked n) h name (w, opened) = (case nt_Handshake n h name w of (r, w') \<Rightarrow> (r, w', opened))"
  "nt_Close (tracked n) h (w, opened) = (nt_Close n h w, remove1 h opened)"
  by (simp_all add: tracked_def)

lemma port_upgrade_tracked:
  "port_upgrade j (tracked n) h url token (w, h # opened) = (r, w', opened') \<Longrightarrow>
     opened' = (case r of Inl e \<Rightarrow> opened | Inr h' \<Rightarrow> h' # opened)"
  by (auto simp: port_upgrade_def tracked_def split: go_splits)

lemma dial_port_tracked:
  "snd (snd (DialPort j (tracked n) base sid token port (w, opened))) =
     (case fst (DialPort j (tracked n) base sid token port (w, opened)) of
        Inl e \<Rightarrow> opened | Inr h \<Rightarrow> h # opened)"
proof -
  obtain scheme addr name where t: "relayTarget (nt_URL (tracked n)) base = (scheme, addr, name)" by (metis surj_pair)
  let ?up = "\<lambda>h w'. port_upgrade j (tracked n) h (scheme @ ''://'' @ addr @ port_path sid port) token (w', h # opened)"
  have up: "snd (snd (?up h w')) = (case fst (?up h w') of Inl e \<Rightarrow> opened | Inr h' \<Rightarrow> h' # opened)" for h w'
    by (metis port_upgrade_tracked prod.collapse)
  show ?thesis
  proof (cases "nt_Dial n addr w")
    case (Pair d w')
    then show ?thesis using up
      by (cases d; cases "scheme = ''https''"; cases "nt_Handshake n (projr d) name w'"; cases "fst (nt_Handshake n (projr d) name w')")
        (simp_all add: DialPort_def t tracked_simps Let_def)
  qed
qed

text \<open>
  Opening a guest port leaks no connection: on every failing path, the handshake, the write, the reply
  and the refusal included, the connection it opened is closed again; on success exactly the returned
  handle stays open.
\<close>

theorem dial_port_no_leak:
  "snd (snd (DialPort j (tracked n) base sid token port (w, opened))) =
     (case fst (DialPort j (tracked n) base sid token port (w, opened)) of
        Inl e \<Rightarrow> opened | Inr h \<Rightarrow> h # opened)"
  by (rule dial_port_tracked)

end
