(* ===== verification/E2B_Ids.thy ===== *)
theory E2B_Ids
  imports Scale_Types
begin

text \<open>
  The two spellings of a sandbox id (pkg/e2bcompat/sandboxid.go): the node-local claim id and the
  DNS-safe id that e2b clients see, and the access token a sandbox is reached with. A Go string is bytes; \<open>rune_width\<close> is how many of them
  \<^verbatim>\<open>utf8.DecodeRune\<close> takes, and \<open>uni\<close> is what \<^verbatim>\<open>unicode.ToLower\<close> makes of a string that is not ASCII.
\<close>

section \<open>Runes\<close>

definition byte_in :: "nat \<Rightarrow> nat \<Rightarrow> char \<Rightarrow> bool" where
  "byte_in lo hi c = (lo \<le> of_char c \<and> of_char c \<le> hi)"

text \<open>The width of the first rune: a byte that starts no well-formed sequence is a rune of its own.\<close>

definition rune_width :: "string \<Rightarrow> nat" where
  "rune_width s =
     (let cont = byte_in 0x80 0xBF in
      case s of
        [] \<Rightarrow> 0
      | c # cs \<Rightarrow>
          if byte_in 0xC2 0xDF c then
            (case cs of a # _ \<Rightarrow> if cont a then 2 else 1 | _ \<Rightarrow> 1)
          else if byte_in 0xE0 0xEF c then
            (case cs of
               a # b # _ \<Rightarrow>
                 if byte_in (if c = CHR 0xE0 then 0xA0 else 0x80) (if c = CHR 0xED then 0x9F else 0xBF) a \<and> cont b
                 then 3 else 1
             | _ \<Rightarrow> 1)
          else if byte_in 0xF0 0xF4 c then
            (case cs of
               a # b # d # _ \<Rightarrow>
                 if byte_in (if c = CHR 0xF0 then 0x90 else 0x80) (if c = CHR 0xF4 then 0x8F else 0xBF) a \<and> cont b \<and> cont d
                 then 4 else 1
             | _ \<Rightarrow> 1)
          else 1)"

lemma rune_width_bounds: "s \<noteq> [] \<Longrightarrow> 0 < rune_width s \<and> rune_width s \<le> 4"
  by (auto simp: rune_width_def Let_def split: list.splits)

definition strings_ToLower :: "(string \<Rightarrow> string) \<Rightarrow> string \<Rightarrow> string" where
  "strings_ToLower uni s = (if is_ascii s then map ascii_lower s else uni s)"

section \<open>Ids\<close>

text \<open>A rune of more than one byte is never safe, so the test is one on bytes.\<close>

definition isDNSSafe :: "char \<Rightarrow> bool" where
  "isDNSSafe c = (CHR ''a'' \<le> c \<and> c \<le> CHR ''z'' \<or> is_digit c \<or> c = CHR ''-'')"

definition needsRewrite :: "string \<Rightarrow> bool" where
  "needsRewrite s = list_ex (\<lambda>c. \<not> isDNSSafe c) s"

text \<open>\<^verbatim>\<open>strings.Map\<close> with the rewrite of \<^verbatim>\<open>PublicID\<close>: one hyphen per unsafe rune.\<close>

function dns_map :: "string \<Rightarrow> string" where
  "dns_map [] = []"
| "dns_map (c # cs) =
     (if isDNSSafe c then c # dns_map cs else CHR ''-'' # dns_map (drop (rune_width (c # cs)) (c # cs)))"
  by pat_completeness auto
termination
proof (relation "measure length")
  fix c :: char and cs :: string
  show "(drop (rune_width (c # cs)) (c # cs), c # cs) \<in> measure length"
    using rune_width_bounds [of "c # cs"] by (simp add: drop_Cons')
qed simp_all

definition PublicID :: "(string \<Rightarrow> string) \<Rightarrow> string \<Rightarrow> string" where
  "PublicID uni claimID = (if \<not> needsRewrite claimID then claimID else dns_map (strings_ToLower uni claimID))"

definition ClaimID :: "string \<Rightarrow> string" where
  "ClaimID sandboxID = (case strings_CutPrefix sandboxID ''sb-'' of Some rest \<Rightarrow> ''sb_'' @ rest | None \<Rightarrow> sandboxID)"

fun matches_bytes :: "string \<Rightarrow> string \<Rightarrow> bool" where
  "matches_bytes (c # cs) (r # rs) =
     (let c' = ascii_lower c; c'' = (if \<not> isDNSSafe c' then CHR ''-'' else c')
      in if r \<noteq> c'' then False else matches_bytes cs rs)"
| "matches_bytes _ _ = True"

definition MatchesID :: "(string \<Rightarrow> string) \<Rightarrow> string \<Rightarrow> string \<Rightarrow> bool" where
  "MatchesID uni claimID requested =
     (if claimID = [] \<or> requested = [] then False
      else if claimID = requested then True
      else if \<not> is_ascii claimID then PublicID uni claimID = requested
      else if length claimID \<noteq> length requested then False
      else matches_bytes claimID requested)"

section \<open>Access tokens\<close>

text \<open>A sandbox's access token derives from its claim token (pkg/e2bcompat/envd.go); \<open>hmac\<close> is HMAC-SHA256.\<close>

definition hex_EncodeToString :: "string \<Rightarrow> string" where
  "hex_EncodeToString s =
     concat (map (\<lambda>c. map (\<lambda>d. char_of (if d < 10 then 48 + d else 87 + d :: nat)) [of_char c div 16, of_char c mod 16]) s)"

definition AccessToken :: "(string \<Rightarrow> string \<Rightarrow> string) \<Rightarrow> string \<Rightarrow> string \<Rightarrow> string" where
  "AccessToken hmac secret claimToken = hex_EncodeToString (hmac secret claimToken)"

section \<open>Lemmas\<close>

lemma rune_width_ascii: "of_char c < (128 :: nat) \<Longrightarrow> rune_width (c # cs) = 1"
  by (simp add: rune_width_def byte_in_def Let_def)

lemma dns_map_ascii: "is_ascii s \<Longrightarrow> dns_map s = map (\<lambda>c. if isDNSSafe c then c else CHR ''-'') s"
  by (induction s rule: dns_map.induct) (auto simp: rune_width_ascii)

lemma dns_map_safe: "list_all isDNSSafe (dns_map s)"
  by (induction s rule: dns_map.induct) (auto simp: isDNSSafe_def less_eq_char_def)

lemma ascii_lower_ascii: "is_ascii s \<Longrightarrow> is_ascii (map ascii_lower s)"
  by (induction s) (auto simp: ascii_lower_def ascii_upper_char_def less_eq_char_def)

lemma ascii_lower_safe: "isDNSSafe c \<Longrightarrow> ascii_lower c = c"
  by (auto simp: isDNSSafe_def is_digit_def ascii_lower_def ascii_upper_char_def less_eq_char_def)

lemma needsRewrite_safe: "\<not> needsRewrite s \<longleftrightarrow> list_all isDNSSafe s"
  by (simp add: needsRewrite_def list_all_iff list_ex_iff)

lemma PublicID_ascii:
  "is_ascii s \<Longrightarrow> PublicID uni s = map (\<lambda>c. if isDNSSafe (ascii_lower c) then ascii_lower c else CHR ''-'') s"
proof (cases "needsRewrite s")
  case False
  then show "PublicID uni s = map (\<lambda>c. if isDNSSafe (ascii_lower c) then ascii_lower c else CHR ''-'') s"
    by (auto simp: PublicID_def needsRewrite_safe list_all_iff ascii_lower_safe intro!: map_idI [symmetric])
qed (simp add: PublicID_def strings_ToLower_def dns_map_ascii ascii_lower_ascii)

lemma matches_bytes_map:
  "length cs = length rs \<Longrightarrow>
   matches_bytes cs rs \<longleftrightarrow> rs = map (\<lambda>c. if isDNSSafe (ascii_lower c) then ascii_lower c else CHR ''-'') cs"
  by (induction cs rs rule: matches_bytes.induct) (auto simp: Let_def)

section \<open>Properties\<close>

text \<open>
  C40. The comparison in place agrees with the rendering: a requested id matches a claim id exactly when
  neither is empty and it is the claim id itself or its published form.
\<close>

theorem matches_id_iff:
  "MatchesID uni claimID requested \<longleftrightarrow>
     claimID \<noteq> [] \<and> requested \<noteq> [] \<and> (claimID = requested \<or> PublicID uni claimID = requested)"
  by (auto simp: MatchesID_def PublicID_ascii matches_bytes_map)

text \<open>A published id is a run of characters that a DNS label allows.\<close>

lemma PublicID_safe: "list_all isDNSSafe (PublicID uni s)"
  by (simp add: PublicID_def needsRewrite_safe dns_map_safe)

lemma PublicID_nonempty:
  assumes "s \<noteq> []" and "\<And>t. t \<noteq> [] \<Longrightarrow> uni t \<noteq> []"
  shows "PublicID uni s \<noteq> []"
proof -
  have "dns_map t \<noteq> []" if "t \<noteq> []" for t using that by (cases t) auto
  with assms show ?thesis by (auto simp: PublicID_def strings_ToLower_def)
qed

definition is_hex :: "char \<Rightarrow> bool" where
  "is_hex c = (is_digit c \<or> CHR ''a'' \<le> c \<and> c \<le> CHR ''f'')"

lemma is_hex_safe: "is_hex c \<Longrightarrow> isDNSSafe c \<and> of_char c < (128 :: nat)"
  by (auto simp: is_hex_def isDNSSafe_def is_digit_def less_eq_char_def)

text \<open>
  A daemon's claim id survives publication: rendering \<^verbatim>\<open>sb_\<close> followed by hexadecimal digits and
  reading the rendering back gives the claim id.
\<close>

theorem claim_id_roundtrip:
  assumes "list_all is_hex h"
  shows "PublicID uni (''sb_'' @ h) = ''sb-'' @ h \<and> ClaimID (PublicID uni (''sb_'' @ h)) = ''sb_'' @ h"
proof -
  have "is_ascii h" using assms by (auto simp: is_ascii_def list_all_iff dest: is_hex_safe)
  then have "is_ascii (''sb_'' @ h)" by simp
  moreover have "map (\<lambda>c. if isDNSSafe (ascii_lower c) then ascii_lower c else CHR ''-'') h = h"
    using assms by (intro map_idI) (simp add: list_all_iff ascii_lower_safe is_hex_safe)
  moreover have "map (\<lambda>c. if isDNSSafe (ascii_lower c) then ascii_lower c else CHR ''-'') ''sb_'' = ''sb-''"
    by code_simp
  ultimately have "PublicID uni (''sb_'' @ h) = ''sb-'' @ h" by (simp add: PublicID_ascii)
  then show ?thesis by (simp add: ClaimID_def strings_CutPrefix_def)
qed

theorem claim_id_roundtrip_witness: "ClaimID (PublicID (\<lambda>s. s) ''sb_0af9'') = ''sb_0af9''"
proof -
  have "list_all is_hex ''0af9''" by code_simp
  from claim_id_roundtrip [OF this, of "\<lambda>s. s"] show ?thesis by (metis append_Cons append_Nil)
qed

end
