(* ===== verification/Envd_Proxy.thy ===== *)
theory Envd_Proxy
  imports Store_Read Sandboxd_Client E2B_Ids
begin

text \<open>
  The edge of the data plane (pkg/envdproxy): which sandbox a request names (route.go), who owns it and
  whether the caller is admitted (resolver.go), and what the proxy then does (envdproxy.go, dial.go).
  Requests are those the multiplexer hands to the proxy. The clock, the answer of the rate limiter and
  the keyed hash are arguments.
\<close>

section \<open>Routes\<close>

record unicode =
  un_ToLower :: "string \<Rightarrow> string"
  un_EqualFold :: "string \<Rightarrow> string \<Rightarrow> bool"

text \<open>\<^verbatim>\<open>strings.EqualFold\<close>: on ASCII it compares the bytes without their case.\<close>

definition edge_EqualFold :: "unicode \<Rightarrow> string \<Rightarrow> string \<Rightarrow> bool" where
  "edge_EqualFold uc s t =
     (if is_ascii s \<and> is_ascii t then map ascii_lower s = map ascii_lower t else un_EqualFold uc s t)"

definition trim_slashes :: "string \<Rightarrow> string" where
  "trim_slashes s = trim_right_slash (dropWhile (\<lambda>c. c = CHR ''/'') s)"

definition sandboxIDHeader :: string where "sandboxIDHeader = ''E2b-Sandbox-Id''"
definition sandboxPortHeader :: string where "sandboxPortHeader = ''E2b-Sandbox-Port''"
definition accessTokenHeader :: string where "accessTokenHeader = ''X-Access-Token''"
definition apiKeyHeader :: string where "apiKeyHeader = ''X-API-KEY''"
definition envdPort :: nat where "envdPort = 49983"

text \<open>What the proxy reads of a request; the header is keyed by the names above.\<close>

record edge_request =
  eq_Host :: string
  eq_Path :: string
  eq_Header :: strmap
  eq_Query :: strmap

record route =
  rt_sandboxID :: string
  rt_port :: nat

definition parsePort :: "string \<Rightarrow> nat option" where
  "parsePort s =
     (case strconv_ParseUint 16 (strings_TrimSpace s) of
        None \<Rightarrow> None
      | Some port \<Rightarrow> if port = 0 then None else Some port)"

definition routeOfHost :: "unicode \<Rightarrow> string \<Rightarrow> string \<Rightarrow> route option" where
  "routeOfHost uc host domain =
     (let host' = (case net_SplitHostPort host of Some (h, _) \<Rightarrow> h | None \<Rightarrow> host)
      in case strings_CutSuffix (strings_ToLower (un_ToLower uc) host') (''.'' @ strings_ToLower (un_ToLower uc) domain) of
           None \<Rightarrow> None
         | Some label \<Rightarrow>
             if label = [] \<or> strings_Contains label ''.'' then None
             else (case strings_Cut label ''-'' of
                     None \<Rightarrow> None
                   | Some (portStr, sid) \<Rightarrow>
                       if sid = [] then None
                       else (case parsePort portStr of
                               None \<Rightarrow> None
                             | Some port \<Rightarrow> Some \<lparr>rt_sandboxID = sid, rt_port = port\<rparr>)))"

definition routeOf :: "unicode \<Rightarrow> edge_request \<Rightarrow> string \<Rightarrow> route option" where
  "routeOf uc r domain =
     (let sid = strings_TrimSpace (map_index (eq_Header r) sandboxIDHeader)
      in if sid \<noteq> [] then
           (case parsePort (map_index (eq_Header r) sandboxPortHeader) of
              None \<Rightarrow> None
            | Some port \<Rightarrow> Some \<lparr>rt_sandboxID = sid, rt_port = port\<rparr>)
         else routeOfHost uc (eq_Host r) domain)"

definition internalPaths :: "string list" where
  "internalPaths = [''/init'', ''/freeze'', ''/unfreeze'', ''/fsfreeze'', ''/fsthaw'', ''/collapse'']"

definition internalPath :: "unicode \<Rightarrow> string \<Rightarrow> bool" where
  "internalPath uc path = (let clean = ''/'' @ trim_slashes path in list_ex (edge_EqualFold uc clean) internalPaths)"

definition signedFileURL :: "edge_request \<Rightarrow> bool" where
  "signedFileURL r = (eq_Path r = ''/files'' \<and> map_index (eq_Query r) ''signature'' \<noteq> [])"

section \<open>The resolver\<close>

definition ErrSandboxNotFound :: err where "ErrSandboxNotFound = PlainError (Msg ''envdproxy: sandbox not found'' [])"
definition ErrAccessDenied :: err where
  "ErrAccessDenied = PlainError (Msg ''envdproxy: access token does not match the sandbox'' [])"

definition recentOwnerTTL :: int where "recentOwnerTTL = 60 * second"
definition recentOwnerMax :: nat where "recentOwnerMax = 4096"

record Owner =
  ow_ClaimID :: string
  ow_Address :: string
  ow_Token :: string

record recentOwner =
  ro_owner :: Owner
  ro_access :: string
  ro_until :: time

type_synonym recentOwners = "(string \<times> recentOwner) list"

definition recent_get :: "string \<Rightarrow> time \<Rightarrow> recentOwners \<Rightarrow> recentOwner option" where
  "recent_get sandboxID now m =
     (case map_of m sandboxID of
        None \<Rightarrow> None
      | Some e \<Rightarrow> if now > ro_until e then None else Some e)"

definition recent_put :: "string \<Rightarrow> recentOwner \<Rightarrow> time \<Rightarrow> recentOwners \<Rightarrow> recentOwners" where
  "recent_put sandboxID e now m =
     (let m' = (if length m \<ge> recentOwnerMax
                then (let kept = filter (\<lambda>(_, e). \<not> now > ro_until e) m
                      in if length kept \<ge> recentOwnerMax then [] else kept)
                else m)
      in AList.update sandboxID (e\<lparr>ro_until := now + recentOwnerTTL\<rparr>) m')"

record 'w storeResolver =
  rv_claims :: "'w scatterGatherStore"
  rv_lifecycle :: "'w scatterGatherStore"
  rv_inventory :: "'w InventorySource"
  rv_namespace :: string
  rv_secret :: string
  rv_recent :: recentOwners

definition NewResolver :: "'w scatterGatherStore option \<Rightarrow> 'w InventorySource option \<Rightarrow> string \<Rightarrow> string \<Rightarrow> err + 'w storeResolver" where
  "NewResolver routed inventory namespace secret =
     (case (routed, inventory) of
        (Some st, Some src) \<Rightarrow>
          if secret = [] then Inl (PlainError (Msg ''envdproxy: the envd secret is required to verify access tokens'' []))
          else Inr \<lparr>rv_claims = NewScatterGatherStore src, rv_lifecycle = st, rv_inventory = src, rv_namespace = namespace,
                    rv_secret = secret, rv_recent = []\<rparr>
      | _ \<Rightarrow> Inl (PlainError (Msg ''envdproxy: a routed store and an inventory source are required'' [])))"

text \<open>What the environment gives one request.\<close>

record edge_env =
  ev_uni :: unicode
  ev_hmac :: "string \<Rightarrow> string \<Rightarrow> string"
  ev_marshal :: metadata_encoder
  ev_sched :: "string list \<Rightarrow> string list"
  ev_now :: time
  ev_later :: time
  ev_allow :: bool

type_synonym admission = "recentOwner \<Rightarrow> err + Owner"

definition admit :: "string \<Rightarrow> admission" where
  "admit accessToken e = (if ro_access e \<noteq> accessToken then Inl ErrAccessDenied else Inr (ro_owner e))"

definition nodeAddress :: "'w storeResolver \<Rightarrow> 'w \<Rightarrow> string \<Rightarrow> err + string" where
  "nodeAddress s w node =
     (case src_NodeCapacity (rv_inventory s) w node of
        Inl e \<Rightarrow> Inl (Wrap (Msg ''envdproxy: resolve node %q: %w'' [node]) e)
      | Inr (address, _) \<Rightarrow>
          if address = [] then Inl (PlainError (Msg ''envdproxy: node %q publishes no address'' [node])) else Inr address)"

definition ownerOn :: "'w storeResolver \<Rightarrow> 'w \<Rightarrow> string \<Rightarrow> string \<Rightarrow> err + Owner" where
  "ownerOn s w node claimID =
     (case nodeAddress s w node of
        Inl e \<Rightarrow> Inl e
      | Inr address \<Rightarrow>
          (case store_Read (rv_lifecycle s) node claimID w of
             Inl e \<Rightarrow> Inl e
           | Inr rec \<Rightarrow> Inr \<lparr>ow_ClaimID = claimID, ow_Address = address, ow_Token = sr_Token rec\<rparr>))"

definition resolver_entry :: "edge_env \<Rightarrow> 'w storeResolver \<Rightarrow> Owner \<Rightarrow> recentOwner" where
  "resolver_entry env s ow = \<lparr>ro_owner = ow, ro_access = AccessToken (ev_hmac env) (rv_secret s) (ow_Token ow), ro_until = 0\<rparr>"

definition keep_owner :: "edge_env \<Rightarrow> string \<Rightarrow> Owner \<Rightarrow> admission \<Rightarrow> 'w storeResolver \<Rightarrow> (err + Owner) \<times> 'w storeResolver" where
  "keep_owner env sandboxID ow adm s =
     (let e = resolver_entry env s ow
      in (adm e, s\<lparr>rv_recent := recent_put sandboxID e (ev_later env) (rv_recent s)\<rparr>))"

definition resolver_probe :: "edge_env \<Rightarrow> 'w \<Rightarrow> string \<Rightarrow> string \<Rightarrow> admission \<Rightarrow> 'w storeResolver \<Rightarrow> (err + Owner) \<times> 'w storeResolver" where
  "resolver_probe env w sandboxID claimID adm s =
     (if \<not> ev_allow env then (Inl ErrSandboxNotFound, s)
      else (case FirstHit (ev_sched env) (rv_inventory s) w
                   (\<lambda>node. case ownerOn s w node claimID of Inl e \<Rightarrow> None | Inr ow \<Rightarrow> Some ow) of
              Inl e \<Rightarrow> (Inl e, s)
            | Inr None \<Rightarrow> (Inl ErrSandboxNotFound, s)
            | Inr (Some ow) \<Rightarrow> keep_owner env sandboxID ow adm s))"

definition readOwner :: "edge_env \<Rightarrow> 'w \<Rightarrow> string \<Rightarrow> string \<Rightarrow> string \<Rightarrow> admission \<Rightarrow> 'w storeResolver \<Rightarrow> (err + Owner) \<times> 'w storeResolver" where
  "readOwner env w sandboxID node claimID adm s =
     (case ownerOn s w node claimID of
        Inl e \<Rightarrow> (Inl (if k8s_IsNotFound e then ErrSandboxNotFound else e), s)
      | Inr ow \<Rightarrow> keep_owner env sandboxID ow adm s)"

definition resolver_find :: "edge_env \<Rightarrow> 'w \<Rightarrow> string \<Rightarrow> admission \<Rightarrow> 'w storeResolver \<Rightarrow> (err + Owner) \<times> 'w storeResolver" where
  "resolver_find env w sandboxID adm s =
     (if strings_TrimSpace sandboxID = [] then (Inl ErrSandboxNotFound, s)
      else (case recent_get sandboxID (ev_now env) (rv_recent s) of
              Some e \<Rightarrow> (adm e, s)
            | None \<Rightarrow>
                (let claimID = ClaimID sandboxID;
                     (got, st) = GetByClaimID (ev_marshal env) (ev_sched env) (ev_sched env) (rv_claims s) w (rv_namespace s) claimID
                        (\<lambda>cid. MatchesID (un_ToLower (ev_uni env)) cid sandboxID);
                     s' = s\<lparr>rv_claims := st\<rparr>
                 in case got of
                      Inl e \<Rightarrow> if k8s_IsNotFound e then resolver_probe env w sandboxID claimID adm s' else (Inl e, s')
                    | Inr sb \<Rightarrow>
                        if sb_NodeName sb = [] then (Inl ErrSandboxNotFound, s')
                        else readOwner env w sandboxID (sb_NodeName sb) (map_index (sb_Annotations sb) ClaimIDAnnotation) adm s')))"

definition resolver_Owner :: "edge_env \<Rightarrow> 'w \<Rightarrow> string \<Rightarrow> string \<Rightarrow> 'w storeResolver \<Rightarrow> (err + Owner) \<times> 'w storeResolver" where
  "resolver_Owner env w sandboxID accessToken = resolver_find env w sandboxID (admit accessToken)"

definition resolver_Locate :: "edge_env \<Rightarrow> 'w \<Rightarrow> string \<Rightarrow> 'w storeResolver \<Rightarrow> (err + Owner) \<times> 'w storeResolver" where
  "resolver_Locate env w sandboxID = resolver_find env w sandboxID (\<lambda>e. Inr (ro_owner e))"

section \<open>The proxy\<close>

record proxy_options =
  op_Domain :: string
  op_GuestHTTP2 :: bool
  op_NodeToken :: string

record 'w proxy_server =
  px_resolver :: "'w storeResolver"
  px_opts :: proxy_options

definition proxy_NewServer :: "'w storeResolver option \<Rightarrow> proxy_options \<Rightarrow> err + 'w proxy_server" where
  "proxy_NewServer resolver opts =
     (case resolver of
        None \<Rightarrow> Inl (PlainError (Msg ''envdproxy: resolver is required'' []))
      | Some r \<Rightarrow>
          if strings_TrimSpace (op_Domain opts) = []
          then Inl (PlainError (Msg ''envdproxy: no domain configured; the SDK's sandbox host is derived from it'' []))
          else if strings_TrimSpace (op_NodeToken opts) = []
          then Inl (PlainError (Msg ''envdproxy: the node token is required; a signed file URL relays with it'' []))
          else Inr \<lparr>px_resolver = r, px_opts = opts\<rparr>)"

record target =
  tg_owner :: Owner
  tg_port :: nat
  tg_h2 :: bool

datatype edge_answer = WriteError int string | Forward route target

definition edge_unavailable :: "err \<Rightarrow> edge_answer" where
  "edge_unavailable e =
     (if err_Is e ErrAccessDenied then WriteError 401 ''invalid sandbox access token''
      else WriteError 502 ''sandbox unavailable'')"

text \<open>\<^verbatim>\<open>serve\<close> up to the reverse proxy: an answer of its own, or the target the request is forwarded to.\<close>

definition serve :: "edge_env \<Rightarrow> 'w \<Rightarrow> edge_request \<Rightarrow> 'w proxy_server \<Rightarrow> edge_answer \<times> 'w proxy_server" where
  "serve env w r s =
     (case routeOf (ev_uni env) r (op_Domain (px_opts s)) of
        None \<Rightarrow> (WriteError 400 ''no sandbox in the request host or headers'', s)
      | Some rt \<Rightarrow>
          if internalPath (ev_uni env) (eq_Path r) then (WriteError 404 ''not found'', s)
          else
            (let token = strings_TrimSpace (map_index (eq_Header r) accessTokenHeader);
                 forward = (\<lambda>ow. Forward rt \<lparr>tg_owner = ow, tg_port = rt_port rt, tg_h2 = op_GuestHTTP2 (px_opts s)\<rparr>)
             in if token \<noteq> [] then
                  (let (got, v) = resolver_Owner env w (rt_sandboxID rt) token (px_resolver s)
                   in (case got of Inl e \<Rightarrow> edge_unavailable e | Inr ow \<Rightarrow> forward ow, s\<lparr>px_resolver := v\<rparr>))
                else if rt_port rt = envdPort \<and> signedFileURL r then
                  (let (got, v) = resolver_Locate env w (rt_sandboxID rt) (px_resolver s)
                   in (case got of
                         Inl e \<Rightarrow> edge_unavailable e
                       | Inr ow \<Rightarrow> forward (ow\<lparr>ow_Token := op_NodeToken (px_opts s)\<rparr>), s\<lparr>px_resolver := v\<rparr>))
                else (WriteError 401 (''missing '' @ accessTokenHeader), s)))"

definition sandboxHost :: "string \<Rightarrow> route \<Rightarrow> string" where
  "sandboxHost domain rt = format_nat (rt_port rt) @ ''-'' @ rt_sandboxID rt @ ''.'' @ domain"

text \<open>The outbound request; \<open>forwarded\<close> is \<^verbatim>\<open>SetXForwarded\<close>.\<close>

definition proxy_rewrite :: "(strmap \<Rightarrow> strmap) \<Rightarrow> proxy_options \<Rightarrow> route \<Rightarrow> edge_request \<Rightarrow> edge_request" where
  "proxy_rewrite forwarded opts rt r =
     r\<lparr>eq_Host := sandboxHost (op_Domain opts) rt, eq_Header := (forwarded (eq_Header r))(apiKeyHeader := None)\<rparr>"

definition writeUpstreamError :: "err \<Rightarrow> edge_answer" where
  "writeUpstreamError e =
     (case as_HTTPError e of
        Some (code, m) \<Rightarrow>
          if code = 404 \<or> code = 401 then WriteError 401 ''invalid sandbox access token''
          else if code = 400 then WriteError 400 ''unsupported sandbox port''
          else if code = 409 then WriteError 502 ''sandbox is paused''
          else WriteError 502 ''sandbox unreachable''
      | None \<Rightarrow> WriteError 502 ''sandbox unreachable'')"

text \<open>The dial of the guest transport, for a target put into the context of the request.\<close>

definition guest_dial :: "wire \<Rightarrow> 'w network \<Rightarrow> target \<Rightarrow> 'w \<Rightarrow> (err + nat) \<times> 'w" where
  "guest_dial j n t = DialPort j n (ow_Address (tg_owner t)) (ow_ClaimID (tg_owner t)) (ow_Token (tg_owner t)) (tg_port t)"

section \<open>Lemmas\<close>

definition resolver_ok :: "edge_env \<Rightarrow> 'w storeResolver \<Rightarrow> bool" where
  "resolver_ok env s \<longleftrightarrow> length (rv_recent s) \<le> recentOwnerMax \<and>
     (\<forall>(sid, e)\<in>set (rv_recent s). ro_access e = AccessToken (ev_hmac env) (rv_secret s) (ow_Token (ro_owner e)))"

definition owner_ok :: "edge_env \<Rightarrow> 'w storeResolver \<Rightarrow> recentOwner \<Rightarrow> bool" where
  "owner_ok env s e = (ro_access e = AccessToken (ev_hmac env) (rv_secret s) (ow_Token (ro_owner e)))"

lemma length_update_le: "length (AList.update k v m) \<le> Suc (length m)"
  by (induction m) auto

lemma set_update_cases: "x \<in> set (AList.update k v m) \<Longrightarrow> x = (k, v) \<or> x \<in> set m"
  by (induction m) (auto split: if_splits)

lemma recent_put_length:
  assumes "length m \<le> recentOwnerMax"
  shows "length (recent_put sid e now m) \<le> recentOwnerMax"
proof -
  define room where "room = (if length m \<ge> recentOwnerMax
    then (let kept = filter (\<lambda>(_, e). \<not> now > ro_until e) m in if length kept \<ge> recentOwnerMax then [] else kept) else m)"
  have "length room < recentOwnerMax" by (auto simp: room_def Let_def recentOwnerMax_def)
  then show ?thesis
    using length_update_le [of sid "e\<lparr>ro_until := now + recentOwnerTTL\<rparr>" room]
    by (simp add: recent_put_def flip: room_def)
qed

lemma recent_put_set:
  "(k, x) \<in> set (recent_put sid e now m) \<Longrightarrow> (k, x) \<in> set m \<or> x = e\<lparr>ro_until := now + recentOwnerTTL\<rparr>"
  by (auto simp: recent_put_def Let_def split: if_splits dest!: set_update_cases)

lemma keep_owner_ok: "resolver_ok env s \<Longrightarrow> resolver_ok env (snd (keep_owner env sid ow adm s))"
  using recent_put_length [of "rv_recent s" sid]
  by (fastforce simp: keep_owner_def resolver_ok_def resolver_entry_def Let_def dest!: recent_put_set)

lemma keep_owner_admits:
  "owner_ok env s (resolver_entry env s ow)" "fst (keep_owner env sid ow adm s) = adm (resolver_entry env s ow)"
  by (simp_all add: keep_owner_def resolver_entry_def owner_ok_def Let_def)

lemma keep_owner_secret [simp]: "rv_secret (snd (keep_owner env sid ow adm s)) = rv_secret s"
  by (simp add: keep_owner_def Let_def)

lemma resolver_ok_claims [simp]: "resolver_ok env (s\<lparr>rv_claims := st\<rparr>) = resolver_ok env s"
  by (simp add: resolver_ok_def)

lemma owner_ok_claims [simp]: "owner_ok env (s\<lparr>rv_claims := st\<rparr>) = owner_ok env s"
  by (simp add: owner_ok_def fun_eq_iff)

text \<open>
  Whatever the admission says, the resolver says it of an owner whose access token derives from the
  claim token it read on the node, or fails otherwise.
\<close>

lemma find_ok:
  assumes ok: "resolver_ok env s" and run: "resolver_find env w sid adm s = (r, s')"
  shows "resolver_ok env s' \<and> rv_secret s' = rv_secret s \<and> (isl r \<or> (\<exists>e. owner_ok env s e \<and> r = adm e))"
proof -
  have keep: "resolver_ok env (snd k) \<and> rv_secret (snd k) = rv_secret s \<and> (\<exists>e. owner_ok env s e \<and> fst k = adm e)"
    if "k = keep_owner env sid ow adm (s\<lparr>rv_claims := st\<rparr>)" for k ow st
    using that ok keep_owner_ok [of env "s\<lparr>rv_claims := st\<rparr>" sid ow adm]
      keep_owner_admits(1) [of env "s\<lparr>rv_claims := st\<rparr>" ow] keep_owner_admits(2) [of env sid ow adm "s\<lparr>rv_claims := st\<rparr>"]
    by auto
  have hit: "owner_ok env s e" if "recent_get sid (ev_now env) (rv_recent s) = Some e" for e
    using that ok by (auto simp: recent_get_def resolver_ok_def owner_ok_def split: option.splits if_splits dest!: map_of_SomeD)
  have probe: "resolver_ok env (snd k) \<and> rv_secret (snd k) = rv_secret s \<and> (isl (fst k) \<or> (\<exists>e. owner_ok env s e \<and> fst k = adm e))"
    if "k = resolver_probe env w sid cid adm (s\<lparr>rv_claims := st\<rparr>)" for k cid st
    using that ok keep by (auto simp: resolver_probe_def split: sum.splits option.splits)
  have read: "resolver_ok env (snd k) \<and> rv_secret (snd k) = rv_secret s \<and> (isl (fst k) \<or> (\<exists>e. owner_ok env s e \<and> fst k = adm e))"
    if "k = readOwner env w sid node cid adm (s\<lparr>rv_claims := st\<rparr>)" for k node cid st
    using that ok keep by (auto simp: readOwner_def split: sum.splits)
  show ?thesis
    using run ok hit probe [OF refl] read [OF refl]
    by (auto simp: resolver_find_def Let_def split: go_splits) (metis fst_conv snd_conv)+
qed

section \<open>Requests in sequence\<close>

definition edge_run :: "(edge_env \<times> 'w \<times> edge_request) list \<Rightarrow> 'w proxy_server \<Rightarrow> 'w proxy_server" where
  "edge_run reqs s = foldl (\<lambda>s (env, w, r). snd (serve env w r s)) s reqs"

definition edge_ok :: "(string \<Rightarrow> string \<Rightarrow> string) \<Rightarrow> string \<Rightarrow> 'w storeResolver \<Rightarrow> bool" where
  "edge_ok hmac secret s \<longleftrightarrow> rv_secret s = secret \<and> length (rv_recent s) \<le> recentOwnerMax \<and>
     (\<forall>(sid, e)\<in>set (rv_recent s). ro_access e = AccessToken hmac secret (ow_Token (ro_owner e)))"

lemma edge_ok_resolver: "edge_ok (ev_hmac env) secret s \<longleftrightarrow> rv_secret s = secret \<and> resolver_ok env s"
  by (auto simp: edge_ok_def resolver_ok_def)

lemma owner_admission:
  assumes "edge_ok hmac secret s" and "ev_hmac env = hmac"
  shows "edge_ok hmac secret (snd (resolver_Owner env w sid token s))"
    and "fst (resolver_Owner env w sid token s) = Inr ow \<Longrightarrow> token = AccessToken hmac secret (ow_Token ow)"
    and "edge_ok hmac secret (snd (resolver_Locate env w sid s))"
proof -
  have ok: "resolver_ok env s" "rv_secret s = secret" using assms edge_ok_resolver by blast+
  from find_ok [OF ok(1), of w sid "admit token"] ok(2) assms(2)
  show "edge_ok hmac secret (snd (resolver_Owner env w sid token s))"
    by (metis edge_ok_resolver prod.collapse resolver_Owner_def)
  from find_ok [OF ok(1), of w sid "admit token"] ok(2) assms(2)
  show "token = AccessToken hmac secret (ow_Token ow)" if "fst (resolver_Owner env w sid token s) = Inr ow"
    using that by (cases "resolver_find env w sid (admit token) s")
      (auto simp: resolver_Owner_def admit_def owner_ok_def split: if_splits)
  from find_ok [OF ok(1), of w sid "\<lambda>e. Inr (ro_owner e)"] ok(2) assms(2)
  show "edge_ok hmac secret (snd (resolver_Locate env w sid s))"
    by (metis edge_ok_resolver prod.collapse resolver_Locate_def)
qed

lemma serve_ok:
  assumes "edge_ok hmac secret (px_resolver s)" and "ev_hmac env = hmac"
  shows "edge_ok hmac secret (px_resolver (snd (serve env w r s)))"
  using assms(1) owner_admission(1,3) [OF assms]
  by (auto simp: serve_def Let_def split_beta split: option.splits)

lemma edge_run_ok:
  assumes "edge_ok hmac secret (px_resolver s)" and "\<forall>(env, w, r)\<in>set reqs. ev_hmac env = hmac"
  shows "edge_ok hmac secret (px_resolver (edge_run reqs s))"
  using assms by (induction reqs arbitrary: s) (auto simp: edge_run_def serve_ok split: prod.splits)

lemma serve_opts [simp]: "px_opts (snd (serve env w r s)) = px_opts s"
  by (auto simp: serve_def Let_def split_beta split: option.splits)

lemma edge_run_opts [simp]: "px_opts (edge_run reqs s) = px_opts s"
  by (induction reqs arbitrary: s) (auto simp: edge_run_def split: prod.splits)

lemma NewResolver_ok: "NewResolver routed src ns secret = Inr v \<Longrightarrow> edge_ok hmac secret v"
  by (auto simp: NewResolver_def edge_ok_def split: option.splits if_splits)

text \<open>
  C37. The edge relays only what it admits. However many requests it has served, a request it forwards does
  not address the guest daemon's control surface, and either presents the access token derived from the
  very claim token its relay is opened with, or is a signed file URL for the daemon's port without a
  token, which is relayed with the node's token alone. The cache of owners never outgrows its bound.
\<close>

theorem edge_admission:
  assumes new: "NewResolver routed src ns secret = Inr v" "proxy_NewServer (Some v) opts = Inr s"
    and hmac: "\<forall>(env, w, r)\<in>set reqs. ev_hmac env = hmac" "ev_hmac env = hmac"
    and fwd: "serve env w r (edge_run reqs s) = (Forward rt t, s')"
  shows "\<not> internalPath (ev_uni env) (eq_Path r) \<and> tg_port t = rt_port rt
    \<and> (let token = strings_TrimSpace (map_index (eq_Header r) accessTokenHeader) in
         token \<noteq> [] \<and> token = AccessToken hmac secret (ow_Token (tg_owner t))
         \<or> token = [] \<and> tg_port t = envdPort \<and> signedFileURL r \<and> ow_Token (tg_owner t) = op_NodeToken opts)
    \<and> length (rv_recent (px_resolver s')) \<le> recentOwnerMax"
proof -
  have s: "px_resolver s = v" "px_opts s = opts" using new(2) by (auto simp: proxy_NewServer_def split: if_splits)
  have ok: "edge_ok hmac secret (px_resolver (edge_run reqs s))"
    using edge_run_ok [OF _ hmac(1), of secret s] NewResolver_ok [OF new(1)] s by simp
  have "edge_ok hmac secret (px_resolver s')" using serve_ok [OF ok hmac(2), of w r] fwd by simp
  then have "length (rv_recent (px_resolver s')) \<le> recentOwnerMax" by (simp add: edge_ok_def)
  with fwd owner_admission(2) [OF ok hmac(2)] s(2) show ?thesis
    by (auto simp: serve_def Let_def split_beta edge_unavailable_def split: option.splits sum.splits if_splits)
qed

section \<open>Hosts\<close>

lemma spaces_not_safe: "list_all (\<lambda>w. w \<noteq> [] \<and> \<not> isDNSSafe (hd w)) go_spaces"
  "list_all (\<lambda>w. w \<noteq> [] \<and> \<not> isDNSSafe (hd w)) (map rev go_spaces)"
  by code_simp+

lemma space_width_safe:
  assumes "list_all (\<lambda>w. w \<noteq> [] \<and> \<not> isDNSSafe (hd w)) ws" and "isDNSSafe c"
  shows "space_width ws (c # s) = 0"
proof -
  have "find (\<lambda>w. take (length w) (c # s) = w) ws = None"
    using assms by (auto simp: find_None_iff list_all_iff take_Cons' neq_Nil_conv split: if_splits)
  then show ?thesis by (simp add: space_width_def)
qed

lemma trim_space_safe:
  assumes "list_all isDNSSafe s"
  shows "strings_TrimSpace s = s"
proof -
  have left: "trim_left ws t = t" if "list_all isDNSSafe t" and "list_all (\<lambda>w. w \<noteq> [] \<and> \<not> isDNSSafe (hd w)) ws" for ws t
    using that by (cases t) (auto simp: trim_left_no_space space_width_safe trim_left.simps [of ws "[]"])
  have "list_all isDNSSafe (rev s)" using assms by (simp add: list_all_iff)
  then show ?thesis using assms by (simp add: strings_TrimSpace_def left spaces_not_safe)
qed

lemma trim_space_digits: "list_all is_digit s \<Longrightarrow> strings_TrimSpace s = s"
  by (rule trim_space_safe) (auto simp: list_all_iff isDNSSafe_def)

lemma parsePort_format: "0 < p \<Longrightarrow> p < 2 ^ 16 \<Longrightarrow> parsePort (format_nat p) = Some p"
  by (simp add: parsePort_def trim_space_digits format_nat_digits strconv_ParseUint_format_nat)

lemma digits_plain: "c \<in> set (format_nat p) \<Longrightarrow> is_digit c"
  using format_nat_digits [of p] by (simp add: list_all_iff)

lemma digit_lower: "is_digit c \<Longrightarrow> ascii_lower c = c \<and> of_char c < (128 :: nat) \<and> c \<notin> set ''.:-[]''"
  by (auto simp: is_digit_def ascii_lower_def ascii_upper_char_def less_eq_char_def)

lemma safe_lower: "isDNSSafe c \<Longrightarrow> ascii_lower c = c \<and> of_char c < (128 :: nat) \<and> c \<notin> set ''.:[]''"
  by (auto simp: isDNSSafe_def is_digit_def ascii_lower_def ascii_upper_char_def less_eq_char_def)

lemma is_ascii_append [simp]: "is_ascii (s @ t) \<longleftrightarrow> is_ascii s \<and> is_ascii t"
  by (simp add: is_ascii_def)

lemma split_host_plain: "CHR '':'' \<notin> set host \<Longrightarrow> net_SplitHostPort host = None"
proof -
  assume "CHR '':'' \<notin> set host"
  then have "strings_Cut (rev host) '':'' = None" by simp
  then show "net_SplitHostPort host = None" by (simp add: net_SplitHostPort_def cut_last_def del: strings_Cut_char_None)
qed

lemma split_host_port:
  assumes "\<forall>c\<in>set host. c \<notin> set '':[]''" and "\<forall>c\<in>set port. c \<notin> set '':[]''"
  shows "net_SplitHostPort (host @ CHR '':'' # port) = Some (host, port)"
proof -
  have "strings_Cut (rev port @ CHR '':'' # rev host) '':'' = Some (rev port, rev host)"
    by (rule strings_Cut_char_append) (use assms in auto)
  then have "cut_last (host @ CHR '':'' # port) (CHR '':'') = Some (host, port)" by (simp add: cut_last_def)
  moreover have "CHR '':'' \<notin> set host" "CHR ''['' \<notin> set (host @ CHR '':'' # port)" "CHR '']'' \<notin> set (host @ CHR '':'' # port)"
    using assms by auto
  moreover from this have "take 1 (host @ CHR '':'' # port) \<noteq> ''[''" by (cases host) auto
  ultimately show ?thesis by (simp add: net_SplitHostPort_def)
qed

lemma host_routes:
  assumes sid: "list_all isDNSSafe sid" "sid \<noteq> []" and port: "0 < p" "p < 2 ^ 16"
    and domain: "is_ascii domain" "\<forall>c\<in>set domain. c \<notin> set '':[]''"
    and tail: "tail = [] \<or> tail = '':'' @ format_nat q"
  shows "routeOfHost uc (sandboxHost domain \<lparr>rt_sandboxID = sid, rt_port = p\<rparr> @ tail) domain
    = Some \<lparr>rt_sandboxID = sid, rt_port = p\<rparr>"
proof -
  define label where "label = format_nat p @ ''-'' @ sid"
  define host where "host = label @ ''.'' @ domain"
  have chars: "\<forall>c\<in>set label. ascii_lower c = c \<and> of_char c < (128 :: nat) \<and> c \<notin> set ''.:[]''"
  proof
    fix c assume "c \<in> set label"
    then have "isDNSSafe c" using sid(1) by (auto simp: label_def list_all_iff isDNSSafe_def dest!: digits_plain)
    then show "ascii_lower c = c \<and> of_char c < (128 :: nat) \<and> c \<notin> set ''.:[]''" by (rule safe_lower)
  qed
  then have ascii: "is_ascii label" and lower: "map ascii_lower label = label"
    by (auto simp: is_ascii_def list_all_iff intro!: map_idI)
  have plain: "\<forall>c\<in>set host. c \<notin> set '':[]''" using chars domain(2) by (auto simp: host_def)
  have port_plain: "\<forall>c\<in>set (format_nat q). c \<notin> set '':[]''"
    using digit_lower [OF digits_plain] by auto
  have "(case net_SplitHostPort (host @ tail) of Some (h, _) \<Rightarrow> h | None \<Rightarrow> host @ tail) = host"
    using tail
  proof
    assume "tail = []"
    moreover have "CHR '':'' \<notin> set host" using plain by auto
    ultimately show ?thesis by (simp add: split_host_plain)
  next
    assume "tail = '':'' @ format_nat q"
    then show ?thesis using split_host_port [OF plain port_plain] by simp
  qed
  moreover have "map ascii_lower ''.'' = ''.''" by code_simp
  then have "strings_ToLower (un_ToLower uc) host = label @ ''.'' @ map ascii_lower domain"
    using ascii domain(1) lower by (simp add: strings_ToLower_def host_def)
  moreover have "strings_Cut label ''-'' = Some (format_nat p, sid)"
    using digit_lower [OF digits_plain] by (auto simp: label_def intro!: strings_Cut_char_append)
  moreover have "CHR ''.'' \<notin> set label" using chars by auto
  moreover have "strings_CutSuffix (label @ ''.'' @ map ascii_lower domain) (''.'' @ map ascii_lower domain) = Some label"
    by (rule strings_CutSuffix_append)
  moreover have "host @ tail = sandboxHost domain \<lparr>rt_sandboxID = sid, rt_port = p\<rparr> @ tail"
    by (simp add: host_def label_def sandboxHost_def)
  ultimately show ?thesis
    using sid(2) domain(1) parsePort_format [OF port]
    by (auto simp: routeOfHost_def strings_ToLower_def Let_def label_def)
qed

text \<open>
  The host a client derives for a sandbox routes back to it: for every DNS-safe id, every port and every
  ASCII domain without a port of its own, the host, with or without a port behind it, resolves to the
  very id and port it was built from. Published ids are DNS-safe, so every sandbox can be reached.
\<close>

theorem host_roundtrip:
  assumes sid: "list_all isDNSSafe sid" "sid \<noteq> []" and port: "0 < p" "p < 2 ^ 16"
    and domain: "is_ascii domain" "\<forall>c\<in>set domain. c \<notin> set '':[]''"
    and tail: "tail = [] \<or> tail = '':'' @ format_nat q"
  shows "routeOfHost uc (sandboxHost domain \<lparr>rt_sandboxID = sid, rt_port = p\<rparr> @ tail) domain
    = Some \<lparr>rt_sandboxID = sid, rt_port = p\<rparr>"
  using assms by (rule host_routes)

section \<open>A concrete edge\<close>

definition edge_row :: SandboxSummary where
  "edge_row = \<lparr>ss_ID = ''c2'', ss_Key = \<lparr>pk_Template = ''img'', pk_Net = [], pk_Size = []\<rparr>, ss_Deadline = 0, ss_ClaimedAt = 0,
     ss_Hibernated = False, ss_Archived = False, ss_ClaimRef = ''ns/a'', ss_Token = ''t'', ss_Metadata = [],
     ss_CPUCount = 1, ss_MemTotalBytes = 1\<rparr>"

definition edge_store :: "StaticInventorySource scatterGatherStore" where
  "edge_store = WithClaimRouting ''tok''
     (\<lambda>addr tok. null_client\<lparr>cl_Sandbox := (\<lambda>i w. if i = ''c2'' then Inr edge_row else Inl (HTTPError 404 []))\<rparr>) read_store"

definition edge_env0 :: edge_env where
  "edge_env0 = \<lparr>ev_uni = \<lparr>un_ToLower = (\<lambda>s. s), un_EqualFold = (=)\<rparr>, ev_hmac = (\<lambda>secret t. t), ev_marshal = (\<lambda>md. None),
     ev_sched = (\<lambda>ns. ns), ev_now = 0, ev_later = 0, ev_allow = True\<rparr>"

definition edge_opts :: proxy_options where
  "edge_opts = \<lparr>op_Domain = ''d'', op_GuestHTTP2 = False, op_NodeToken = ''node''\<rparr>"

definition edge_server :: "StaticInventorySource proxy_server" where
  "edge_server = projr (proxy_NewServer (Some (projr (NewResolver (Some edge_store) (Some static_source) [] ''s''))) edge_opts)"

definition edge_get :: "string \<Rightarrow> string \<Rightarrow> edge_request" where
  "edge_get host token = \<lparr>eq_Host = host, eq_Path = ''/files'', eq_Header = [accessTokenHeader \<mapsto> token], eq_Query = Map.empty\<rparr>"

lemma edge_server_eq: "edge_server =
   \<lparr>px_resolver = \<lparr>rv_claims = read_store, rv_lifecycle = edge_store, rv_inventory = static_source, rv_namespace = [],
      rv_secret = ''s'', rv_recent = []\<rparr>, px_opts = edge_opts\<rparr>"
  "NewResolver (Some edge_store) (Some static_source) [] ''s'' = Inr (px_resolver edge_server)"
  "proxy_NewServer (Some (px_resolver edge_server)) edge_opts = Inr edge_server"
proof -
  have "strings_TrimSpace ''d'' \<noteq> []" "strings_TrimSpace ''node'' \<noteq> []" by code_simp+
  then show "edge_server =
   \<lparr>px_resolver = \<lparr>rv_claims = read_store, rv_lifecycle = edge_store, rv_inventory = static_source, rv_namespace = [],
      rv_secret = ''s'', rv_recent = []\<rparr>, px_opts = edge_opts\<rparr>"
    "NewResolver (Some edge_store) (Some static_source) [] ''s'' = Inr (px_resolver edge_server)"
    "proxy_NewServer (Some (px_resolver edge_server)) edge_opts = Inr edge_server"
    by (simp_all add: edge_server_def NewResolver_def proxy_NewServer_def edge_opts_def read_store_def)
qed

lemma edge_routes:
  "routeOf (ev_uni edge_env0) (edge_get ''22-c2.d'' token) ''d'' = Some \<lparr>rt_sandboxID = ''c2'', rt_port = 22\<rparr>"
  "routeOf (ev_uni edge_env0) (edge_get ''22-c9.d'' token) ''d'' = Some \<lparr>rt_sandboxID = ''c9'', rt_port = 22\<rparr>"
  "\<not> internalPath (ev_uni edge_env0) ''/files''"
proof -
  have host: "sandboxHost ''d'' \<lparr>rt_sandboxID = sid, rt_port = 22\<rparr> = ''22-'' @ sid @ ''.d''" for sid
  proof -
    have "format_nat 22 = ''22''" by code_simp
    then show ?thesis by (simp add: sandboxHost_def)
  qed
  have "list_all isDNSSafe ''c2''" "list_all isDNSSafe ''c9''" by code_simp+
  then have "routeOfHost (ev_uni edge_env0) ''22-c2.d'' ''d'' = Some \<lparr>rt_sandboxID = ''c2'', rt_port = 22\<rparr>"
    "routeOfHost (ev_uni edge_env0) ''22-c9.d'' ''d'' = Some \<lparr>rt_sandboxID = ''c9'', rt_port = 22\<rparr>"
    using host_routes [of "''c2''" 22 "''d''" "[]"] host_routes [of "''c9''" 22 "''d''" "[]"] by (simp_all add: host)
  moreover have "strings_TrimSpace [] = []" by code_simp
  ultimately show "routeOf (ev_uni edge_env0) (edge_get ''22-c2.d'' token) ''d'' = Some \<lparr>rt_sandboxID = ''c2'', rt_port = 22\<rparr>"
    "routeOf (ev_uni edge_env0) (edge_get ''22-c9.d'' token) ''d'' = Some \<lparr>rt_sandboxID = ''c9'', rt_port = 22\<rparr>"
    by (simp_all add: routeOf_def edge_get_def sandboxIDHeader_def accessTokenHeader_def map_index_def)
  show "\<not> internalPath (ev_uni edge_env0) ''/files''" by code_simp
qed

lemma edge_found:
  "fst (GetByClaimID (\<lambda>md. None) (\<lambda>ns. ns) (\<lambda>ns. ns) read_store read_fleet [] ''c2'' (\<lambda>cid. MatchesID (\<lambda>s. s) cid ''c2''))
     = Inr (entryToSandbox ''n1'' (demo_entry ''ns/a'' ''c2''))"
  "fst (GetByClaimID (\<lambda>md. None) (\<lambda>ns. ns) (\<lambda>ns. ns) read_store read_fleet [] ''c9'' (\<lambda>cid. MatchesID (\<lambda>s. s) cid ''c9''))
     = Inl (k8s_NewNotFound [])"
proof -
  have "MatchesID (\<lambda>s. s) ''c2'' ''c2''" "\<not> MatchesID (\<lambda>s. s) ''c1'' ''c2''"
    "\<not> MatchesID (\<lambda>s. s) ''c1'' ''c9''" "\<not> MatchesID (\<lambda>s. s) ''c2'' ''c9''" by code_simp+
  then show "fst (GetByClaimID (\<lambda>md. None) (\<lambda>ns. ns) (\<lambda>ns. ns) read_store read_fleet [] ''c2'' (\<lambda>cid. MatchesID (\<lambda>s. s) cid ''c2''))
     = Inr (entryToSandbox ''n1'' (demo_entry ''ns/a'' ''c2''))"
  "fst (GetByClaimID (\<lambda>md. None) (\<lambda>ns. ns) (\<lambda>ns. ns) read_store read_fleet [] ''c9'' (\<lambda>cid. MatchesID (\<lambda>s. s) cid ''c9''))
     = Inl (k8s_NewNotFound [])"
    by (simp_all add: GetByClaimID_def found_or_404_def resolve_def read_store_def NewScatterGatherStore_def newNodeIndex_def
      index_lookup_def resolve_sweep_def FirstHit_def static_source_def static_ListNodes_def read_fleet_def matchOnNode_def
      static_NodeInventory_def demo_entry_def claimMatch_def)
qed

lemma edge_owner:
  "src_NodeCapacity static_source read_fleet ''n1'' = Inr (''h:1'', [])"
  "store_Read edge_store ''n1'' ''c2'' read_fleet = Inr \<lparr>sr_Token = ''t'', sr_Paused = False, sr_Deadline = 0\<rparr>"
  "isl (store_Read edge_store ''n1'' ''c9'' read_fleet)"
  "src_ListNodes static_source read_fleet = Inr [''n1'']"
  by (simp_all add: store_Read_def nodeClient_def edge_store_def WithClaimRouting_def read_store_def NewScatterGatherStore_def
      static_source_def static_NodeCapacity_def static_ListNodes_def read_fleet_def null_client_def edge_row_def isPaused_def)

lemma edge_ids: "ClaimID ''c2'' = ''c2''" "ClaimID ''c9'' = ''c9''" "strings_TrimSpace ''c2'' \<noteq> []" "strings_TrimSpace ''c9'' \<noteq> []"
  "AccessToken (\<lambda>secret t. t) ''s'' ''t'' = ''74''"
  by code_simp+

lemma edge_env0_simps [simp]:
  "ev_hmac edge_env0 = (\<lambda>secret t. t)" "ev_marshal edge_env0 = (\<lambda>md. None)" "ev_sched edge_env0 = (\<lambda>ns. ns)"
  "ev_allow edge_env0 = True" "un_ToLower (ev_uni edge_env0) = (\<lambda>s. s)"
  by (simp_all add: edge_env0_def)

definition edge_target :: target where
  "edge_target = \<lparr>tg_owner = \<lparr>ow_ClaimID = ''c2'', ow_Address = ''h:1'', ow_Token = ''t''\<rparr>, tg_port = 22, tg_h2 = False\<rparr>"

lemma edge_find:
  "fst (resolver_find edge_env0 read_fleet ''c2'' adm (px_resolver edge_server)) =
     adm \<lparr>ro_owner = tg_owner edge_target, ro_access = ''74'', ro_until = 0\<rparr>"
  "fst (resolver_find edge_env0 read_fleet ''c9'' adm (px_resolver edge_server)) = Inl ErrSandboxNotFound"
proof -
  have "sb_NodeName (entryToSandbox ''n1'' (demo_entry ''ns/a'' ''c2'')) = ''n1''"
    "map_index (sb_Annotations (entryToSandbox ''n1'' (demo_entry ''ns/a'' ''c2''))) ClaimIDAnnotation = ''c2''"
    by (simp_all add: demo_entry_def)
  with edge_found(1) edge_owner edge_ids show "fst (resolver_find edge_env0 read_fleet ''c2'' adm (px_resolver edge_server)) =
     adm \<lparr>ro_owner = tg_owner edge_target, ro_access = ''74'', ro_until = 0\<rparr>"
    by (simp add: resolver_find_def edge_server_eq(1) recent_get_def split_beta readOwner_def ownerOn_def nodeAddress_def
        keep_owner_def resolver_entry_def edge_target_def Let_def)
  obtain e where "store_Read edge_store ''n1'' ''c9'' read_fleet = Inl e" using edge_owner(3) by (auto simp: isl_def)
  with edge_found(2) edge_owner edge_ids show "fst (resolver_find edge_env0 read_fleet ''c9'' adm (px_resolver edge_server))
      = Inl ErrSandboxNotFound"
    by (simp add: resolver_find_def edge_server_eq(1) recent_get_def split_beta resolver_probe_def FirstHit_def ownerOn_def
        nodeAddress_def k8s_NewNotFound_def Let_def)
qed

lemma edge_serve:
  assumes "strings_TrimSpace token = token" "token \<noteq> []"
  shows "fst (serve edge_env0 read_fleet (edge_get ''22-c2.d'' token) edge_server) =
      (if token = ''74'' then Forward \<lparr>rt_sandboxID = ''c2'', rt_port = 22\<rparr> edge_target
       else WriteError 401 ''invalid sandbox access token'')"
    and "fst (serve edge_env0 read_fleet (edge_get ''22-c9.d'' token) edge_server) = WriteError 502 ''sandbox unavailable''"
  using assms edge_routes edge_find [of "admit token"]
  by (auto simp: serve_def edge_server_eq(1) edge_opts_def split_beta resolver_Owner_def Let_def admit_def edge_target_def
      edge_unavailable_def ErrAccessDenied_def ErrSandboxNotFound_def edge_get_def map_index_def)

theorem edge_admission_witness:
  "\<exists>s'. serve edge_env0 read_fleet (edge_get ''22-c2.d'' ''74'') (edge_run [] edge_server)
        = (Forward \<lparr>rt_sandboxID = ''c2'', rt_port = 22\<rparr> edge_target, s')
     \<and> length (rv_recent (px_resolver s')) \<le> recentOwnerMax
     \<and> ''74'' = AccessToken (\<lambda>secret t. t) ''s'' (ow_Token (tg_owner edge_target))"
proof -
  have trim: "strings_TrimSpace ''74'' = ''74''" by code_simp
  have run: "edge_run [] edge_server = edge_server" by (simp add: edge_run_def)
  obtain s' where fwd: "serve edge_env0 read_fleet (edge_get ''22-c2.d'' ''74'') (edge_run [] edge_server)
        = (Forward \<lparr>rt_sandboxID = ''c2'', rt_port = 22\<rparr> edge_target, s')"
    using edge_serve(1) [OF trim] run by (metis list.distinct(1) prod.collapse)
  have "map_index (eq_Header (edge_get ''22-c2.d'' ''74'')) accessTokenHeader = ''74''"
    by (simp add: edge_get_def map_index_def)
  with edge_admission [OF edge_server_eq(2,3) _ _ fwd, of "\<lambda>secret t. t"] trim fwd show ?thesis
    by (auto simp: Let_def)
qed

theorem host_roundtrip_witness:
  "routeOfHost (ev_uni edge_env0) (sandboxHost ''d'' \<lparr>rt_sandboxID = ''c2'', rt_port = 22\<rparr> @ '':'' @ format_nat 443) ''d''
    = Some \<lparr>rt_sandboxID = ''c2'', rt_port = 22\<rparr>"
proof -
  have "list_all isDNSSafe ''c2''" by code_simp
  then show ?thesis using host_roundtrip [of "''c2''" 22 "''d''" "'':'' @ format_nat 443" 443] by simp
qed

text \<open>
  The answer tells whether an id exists: a caller without a valid token gets 401 for an id the fleet
  holds and 502 for one it does not, whatever token it presents.
\<close>

theorem edge_existence_oracle:
  "fst (serve edge_env0 read_fleet (edge_get ''22-c2.d'' ''guess'') edge_server) = WriteError 401 ''invalid sandbox access token''
   \<and> fst (serve edge_env0 read_fleet (edge_get ''22-c9.d'' ''guess'') edge_server) = WriteError 502 ''sandbox unavailable''"
proof -
  have "strings_TrimSpace ''guess'' = ''guess''" by code_simp
  from edge_serve [OF this] show ?thesis by simp
qed

end
