(* ===== verification/Claim_Routing.thy ===== *)
theory Claim_Routing
  imports Store_Lifecycle
begin

text \<open>
  The claim path of the store (\<^verbatim>\<open>Claim\<close> in pkg/scale/sandboxstore\_impl.go): candidates from the
  inventory's capacity, two random samples per attempt, redirects followed once, and a capacity miss
  drops the node and samples the rest. The random numbers are an argument: attempt \<open>k\<close> draws
  \<open>rnd (2 * k)\<close> and \<open>rnd (2 * k + 1)\<close>, reduced to the range \<^verbatim>\<open>rand.IntN\<close> promises.
\<close>

record warmCandidate =
  wc_node :: string
  wc_addr :: string
  wc_warm :: int

definition warmCandidates :: "NodePools list \<Rightarrow> PoolKey \<Rightarrow> warmCandidate list" where
  "warmCandidates nodes pool =
     concat (map (\<lambda>n.
       if np_Address n = [] then []
       else map (\<lambda>pc. \<lparr>wc_node = np_Node n, wc_addr = np_Address n, wc_warm = pc_Warm pc\<rparr>)
              (filter (\<lambda>pc. pc_Warm pc > 0 \<and> poolCapacityMatches pc pool) (np_Pools n))) nodes)"

definition templateCandidates :: "NodePools list \<Rightarrow> PoolKey \<Rightarrow> warmCandidate list" where
  "templateCandidates nodes pool =
     map (\<lambda>n. \<lparr>wc_node = np_Node n, wc_addr = np_Address n, wc_warm = 1\<rparr>)
       (filter (\<lambda>n. np_Address n \<noteq> []
          \<and> list_ex (\<lambda>t. poolCapacityMatches \<lparr>pc_Template = pt_Template t, pc_Net = pt_Net t,
                           pc_Size = pt_Size t, pc_Warm = 0, pc_Target = 0\<rparr> pool) (np_Templates n)) nodes)"

definition pickPowerOfTwo :: "nat \<Rightarrow> nat \<Rightarrow> warmCandidate list \<Rightarrow> warmCandidate" where
  "pickPowerOfTwo r1 r2 candidates =
     (let i = r1 mod length candidates; j = r2 mod length candidates
      in if wc_warm (candidates ! j) > wc_warm (candidates ! i) then candidates ! j else candidates ! i)"

definition nodeForAddress :: "NodePools list \<Rightarrow> string \<Rightarrow> string" where
  "nodeForAddress nodes addr =
     (case find (\<lambda>n. np_Address n = addr) nodes of Some n \<Rightarrow> np_Node n | None \<Rightarrow> [])"

definition claimUndelivered :: "err \<Rightarrow> bool" where
  "claimUndelivered e =
     (is_ErrNodeAtCapacity e \<or> as_OpError e = Some ''dial''
      \<or> (case as_HTTPError e of Some (code, m) \<Rightarrow> code \<ge> 500 | None \<Rightarrow> False))"

definition templateGone :: "err \<Rightarrow> bool" where
  "templateGone e = (case as_HTTPError e of Some (code, m) \<Rightarrow> code = 404 | None \<Rightarrow> False)"

definition IsNoWarmCapacity :: "err \<Rightarrow> bool" where
  "IsNoWarmCapacity e = is_ErrNoWarmCapacity e"

text \<open>The loop over the targets of a redirect; \<open>redirect\<close> is the error that carried them.\<close>

fun redirect_loop :: "(string \<Rightarrow> 'w SandboxdClient) \<Rightarrow> NodePools list \<Rightarrow> string \<Rightarrow> err \<Rightarrow> ClaimSpec
   \<Rightarrow> string list \<Rightarrow> 'w \<Rightarrow> (string \<times> (err + ClaimResult)) \<times> 'w" where
  "redirect_loop dial nodes from redirect spec [] w = ((from, Inl redirect), w)"
| "redirect_loop dial nodes from redirect spec (target # targets) w =
     (let node = nodeForAddress nodes target
      in if node = [] then redirect_loop dial nodes from redirect spec targets w
         else (case cl_Claim (dial target) spec w of
                 (Inr res, w') \<Rightarrow> ((node, Inr res), w')
               | (Inl e, w') \<Rightarrow>
                   if \<not> claimUndelivered e then ((node, Inl e), w')
                   else redirect_loop dial nodes from redirect spec targets w'))"

definition claimRedirected :: "(string \<Rightarrow> 'w SandboxdClient) \<Rightarrow> NodePools list \<Rightarrow> string \<Rightarrow> string list
   \<Rightarrow> ClaimSpec \<Rightarrow> 'w \<Rightarrow> (string \<times> (err + ClaimResult)) \<times> 'w" where
  "claimRedirected dial nodes from targets spec w =
     redirect_loop dial nodes from (RedirectError targets) (spec\<lparr>cs_NoRedirect := True\<rparr>) targets w"

text \<open>One attempt: the claim at the picked node, and the redirect it may answer with.\<close>

definition redirect_targets :: "err + ClaimResult \<Rightarrow> string list option" where
  "redirect_targets r = (case r of Inl e \<Rightarrow> as_RedirectError e | Inr res \<Rightarrow> None)"

definition claim_attempt :: "(string \<Rightarrow> 'w SandboxdClient) \<Rightarrow> NodePools list \<Rightarrow> ClaimSpec \<Rightarrow> warmCandidate \<Rightarrow> 'w
   \<Rightarrow> (string list option \<times> string \<times> (err + ClaimResult)) \<times> 'w" where
  "claim_attempt dial nodes spec best w =
     (case cl_Claim (dial (wc_addr best)) spec w of
        (r, w') \<Rightarrow>
          (case redirect_targets r of
             None \<Rightarrow> ((None, wc_node best, r), w')
           | Some targets \<Rightarrow>
               (case claimRedirected dial nodes (wc_node best) targets spec w' of
                  ((node, r'), w'') \<Rightarrow> ((Some targets, node, r'), w''))))"

definition drop_candidates :: "warmCandidate \<Rightarrow> string list option \<Rightarrow> warmCandidate list \<Rightarrow> warmCandidate list" where
  "drop_candidates best redirect cands =
     filter (\<lambda>c. \<not> (wc_node c = wc_node best
        \<or> (case redirect of Some targets \<Rightarrow> wc_addr c \<in> set targets | None \<Rightarrow> False))) cands"

lemma pick_in: "cands \<noteq> [] \<Longrightarrow> pickPowerOfTwo r1 r2 cands \<in> set cands"
  by (simp add: pickPowerOfTwo_def Let_def)

lemma drop_shorter:
  assumes "cands \<noteq> []"
  shows "length (drop_candidates (pickPowerOfTwo r1 r2 cands) redirect cands) < length cands"
  unfolding drop_candidates_def by (rule length_filter_less [OF pick_in [OF assms, of r1 r2]]) simp

text \<open>The retry loop; it ends because every iteration drops the node it tried.\<close>

function claim_loop :: "(string \<Rightarrow> 'w SandboxdClient) \<Rightarrow> NodePools list \<Rightarrow> bool \<Rightarrow> string \<Rightarrow> string \<Rightarrow> ClaimSpec
   \<Rightarrow> (nat \<Rightarrow> nat) \<Rightarrow> nat \<Rightarrow> warmCandidate list \<Rightarrow> 'w \<Rightarrow> (err + string \<times> ClaimResult) \<times> 'w" where
  "claim_loop dial nodes promoted namespace name spec rnd k cands w =
     (if cands = [] then
        (Inl (Wrap (Msg ''scale: claim %s/%s: no warm node delivered: %w'' [namespace, name]) ErrNoWarmCapacity), w)
      else
        (let best = pickPowerOfTwo (rnd (2 * k)) (rnd (2 * k + 1)) cands
         in case claim_attempt dial nodes spec best w of
              ((redirect, node, Inr res), w') \<Rightarrow> (Inr (node, res), w')
            | ((redirect, node, Inl e), w') \<Rightarrow>
                if \<not> (claimUndelivered e \<or> promoted \<and> templateGone e) then
                  (Inl (Wrap (Msg ''scale: claim %s/%s on node %q: %w'' [namespace, name, node]) e), w')
                else claim_loop dial nodes promoted namespace name spec rnd (Suc k)
                       (drop_candidates best redirect cands) w'))"
  by pat_completeness auto
termination
  by (relation "measure (\<lambda>(dial, nodes, promoted, namespace, name, spec, rnd, k, cands, w). length cands)")
    (auto intro: drop_shorter)

declare claim_loop.simps [simp del]

definition claim_spec :: "string \<Rightarrow> string \<Rightarrow> PoolKey \<Rightarrow> ClaimOptions \<Rightarrow> bool \<Rightarrow> ClaimSpec" where
  "claim_spec namespace name pool opts promoted =
     \<lparr>cs_Template = pk_Template pool, cs_Net = pk_Net pool, cs_Size = pk_Size pool,
      cs_TTLSeconds = co_TTLSeconds opts, cs_ClaimRef = namespacedName namespace name,
      cs_NoRedirect = False, cs_Metadata = co_Metadata opts, cs_OnExpire = co_OnExpire opts,
      cs_RequirePromoted = promoted, cs_Egress = (if co_NoEgress opts then Some False else None)\<rparr>"

definition Claim :: "(nat \<Rightarrow> nat) \<Rightarrow> 'w scatterGatherStore \<Rightarrow> string \<Rightarrow> string \<Rightarrow> PoolKey \<Rightarrow> ClaimOptions \<Rightarrow> 'w
   \<Rightarrow> (err + Assignment) \<times> 'w scatterGatherStore \<times> 'w" where
  "Claim rnd s namespace name pool opts w =
     (case sg_factory s of
        None \<Rightarrow> (Inl err_not_configured, s, w)
      | Some factory \<Rightarrow>
          (case src_NodeCapacities (sg_src s) w of
             Inl e \<Rightarrow> (Inl (Wrap (Msg ''scale: enumerate node capacity: %w'' []) e), s, w)
           | Inr nodes \<Rightarrow>
               (let warm = warmCandidates nodes pool;
                    promoted = (warm = [] \<and> co_Promoted opts);
                    cands = (if promoted then templateCandidates nodes pool else warm)
                in if cands = [] then
                     (Inl (Wrap (Msg ''scale: claim %s/%s: no node advertises warm capacity for template %q net %q size %q: %w''
                        [namespace, name, pk_Template pool, pk_Net pool, pk_Size pool]) ErrNoWarmCapacity), s, w)
                   else
                     (case claim_loop (\<lambda>addr. factory addr (sg_token s)) nodes promoted namespace name
                             (claim_spec namespace name pool opts promoted) rnd 0 cands w of
                        (Inl e, w') \<Rightarrow> (Inl e, s, w')
                      | (Inr (node, res), w') \<Rightarrow>
                          (Inr \<lparr>as_SandboxName = cr_ID res, as_Node = node, as_Address = cr_OwnerAddr res,
                                as_Token = cr_Token res, as_Deadline = cr_Deadline res, as_NetRoute = cr_NetRoute res\<rparr>,
                           s\<lparr>sg_index := index_remember (claimKey namespace (cr_ID res)) node
                               (index_remember (nameKey namespace name) node (sg_index s))\<rparr>, w')))))"

section \<open>A world that records the claims\<close>

text \<open>
  To speak of the requests a claim sends, the world is paired with a log: the recording client does
  what the given one does and appends one event per claim request.
\<close>

record claim_event =
  ev_addr :: string
  ev_spec :: ClaimSpec
  ev_result :: "err + ClaimResult"

type_synonym 'w logged = "'w \<times> claim_event list"

definition lift_verb :: "('w \<Rightarrow> 'r \<times> 'w) \<Rightarrow> 'w logged \<Rightarrow> 'r \<times> 'w logged" where
  "lift_verb f wl = (case f (fst wl) of (r, w') \<Rightarrow> (r, (w', snd wl)))"

definition logged_claim :: "'w SandboxdClient \<Rightarrow> string \<Rightarrow> ClaimSpec \<Rightarrow> 'w logged \<Rightarrow> (err + ClaimResult) \<times> 'w logged" where
  "logged_claim cl addr spec wl =
     (case cl_Claim cl spec (fst wl) of
        (r, w') \<Rightarrow> (r, (w', snd wl @ [\<lparr>ev_addr = addr, ev_spec = spec, ev_result = r\<rparr>])))"

definition logged_client :: "string \<Rightarrow> 'w SandboxdClient \<Rightarrow> 'w logged SandboxdClient" where
  "logged_client addr cl =
     \<lparr>cl_Claim = logged_claim cl addr,
      cl_Release = (\<lambda>i t. lift_verb (cl_Release cl i t)),
      cl_Hibernate = (\<lambda>i. lift_verb (cl_Hibernate cl i)),
      cl_Wake = (\<lambda>i. lift_verb (cl_Wake cl i)),
      cl_Renew = (\<lambda>i r. lift_verb (cl_Renew cl i r)),
      cl_Fork = (\<lambda>i f. lift_verb (cl_Fork cl i f)),
      cl_Checkpoint = (\<lambda>i c. lift_verb (cl_Checkpoint cl i c)),
      cl_Checkpoints = (\<lambda>wl. cl_Checkpoints cl (fst wl)),
      cl_DeleteCheckpoint = (\<lambda>i. lift_verb (cl_DeleteCheckpoint cl i)),
      cl_DeleteTemplate = (\<lambda>k d. lift_verb (cl_DeleteTemplate cl k d)),
      cl_Promote = (\<lambda>i t. lift_verb (cl_Promote cl i t)),
      cl_SetTemplateLabels = (\<lambda>k l d. lift_verb (cl_SetTemplateLabels cl k l d)),
      cl_Info = (\<lambda>wl. cl_Info cl (fst wl)),
      cl_DialPort = (\<lambda>i t p. lift_verb (cl_DialPort cl i t p)),
      cl_SetInstanceMetadata = (\<lambda>i d. lift_verb (cl_SetInstanceMetadata cl i d)),
      cl_Sandbox = (\<lambda>i wl. cl_Sandbox cl i (fst wl)),
      cl_SandboxesByClaimRef = (\<lambda>r wl. cl_SandboxesByClaimRef cl r (fst wl))\<rparr>"

definition logged_source :: "'w InventorySource \<Rightarrow> 'w logged InventorySource" where
  "logged_source src =
     \<lparr>src_ListNodes = (\<lambda>wl. src_ListNodes src (fst wl)),
      src_NodeInventory = (\<lambda>wl. src_NodeInventory src (fst wl)),
      src_NodeCapacity = (\<lambda>wl. src_NodeCapacity src (fst wl)),
      src_NodeCapacities = (\<lambda>wl. src_NodeCapacities src (fst wl))\<rparr>"

definition logged_store :: "'w scatterGatherStore \<Rightarrow> 'w logged scatterGatherStore" where
  "logged_store s =
     \<lparr>sg_src = logged_source (sg_src s), sg_concurrency = sg_concurrency s, sg_watchPoll = sg_watchPoll s,
      sg_index = sg_index s, sg_token = sg_token s,
      sg_factory = map_option (\<lambda>f addr tok. logged_client addr (f addr tok)) (sg_factory s)\<rparr>"

section \<open>Single attempts\<close>

definition undelivered :: "claim_event \<Rightarrow> bool" where
  "undelivered ev \<longleftrightarrow> (\<exists>e. ev_result ev = Inl e \<and> claimUndelivered e)"

text \<open>What the events \<open>ext\<close> of an attempt say about its result.\<close>

definition attempt_ok :: "claim_event list \<Rightarrow> err + ClaimResult \<Rightarrow> bool" where
  "attempt_ok ext r \<longleftrightarrow> (case r of
     Inr res \<Rightarrow> ext \<noteq> [] \<and> list_all undelivered (butlast ext) \<and> ev_result (last ext) = Inr res
   | Inl e \<Rightarrow> (claimUndelivered e \<and> list_all undelivered ext)
       \<or> (\<not> claimUndelivered e \<and> ext \<noteq> [] \<and> list_all undelivered (butlast ext) \<and> ev_result (last ext) = Inl e))"

lemma attempt_ok_Cons: "undelivered ev \<Longrightarrow> attempt_ok ext r \<Longrightarrow> attempt_ok (ev # ext) r"
  by (auto simp: attempt_ok_def split: sum.splits)

lemma redirect_at_capacity: "as_RedirectError e = Some ts \<Longrightarrow> is_ErrNodeAtCapacity e"
  by (induction e) auto

lemma redirect_undelivered: "as_RedirectError e = Some ts \<Longrightarrow> claimUndelivered e"
  by (simp add: claimUndelivered_def redirect_at_capacity)

definition inconclusive :: "err + ClaimResult \<Rightarrow> bool" where
  "inconclusive r \<longleftrightarrow> (\<exists>e. r = Inl e \<and> claimUndelivered e)"

text \<open>
  The events of a redirect: they go to targets, a conclusive one is the last and names its node, and
  an inconclusive end has tried every target that is a known node.
\<close>

definition redirect_ok :: "NodePools list \<Rightarrow> ClaimSpec \<Rightarrow> string list \<Rightarrow> string \<Rightarrow> err + ClaimResult \<Rightarrow> claim_event list \<Rightarrow> bool" where
  "redirect_ok nodes spec targets node r ext \<longleftrightarrow>
     attempt_ok ext r
     \<and> (\<forall>ev\<in>set ext. ev_spec ev = spec \<and> ev_addr ev \<in> set targets)
     \<and> (inconclusive r \<or> (ext \<noteq> [] \<and> node \<noteq> [] \<and> nodeForAddress nodes (ev_addr (last ext)) = node))
     \<and> (inconclusive r \<longrightarrow> (\<forall>t\<in>set targets. nodeForAddress nodes t = [] \<or> t \<in> ev_addr ` set ext))"

lemma redirect_ok_skip:
  "nodeForAddress nodes t = [] \<Longrightarrow> redirect_ok nodes spec targets node r ext
   \<Longrightarrow> redirect_ok nodes spec (t # targets) node r ext"
  by (auto simp: redirect_ok_def)

lemma redirect_ok_Cons:
  "undelivered ev \<Longrightarrow> ev_spec ev = spec \<Longrightarrow> ev_addr ev = t \<Longrightarrow> redirect_ok nodes spec targets node r ext
   \<Longrightarrow> redirect_ok nodes spec (t # targets) node r (ev # ext)"
  by (auto simp: redirect_ok_def attempt_ok_Cons)

lemma redirect_ok_last:
  "\<not> inconclusive r \<Longrightarrow> nodeForAddress nodes t \<noteq> []
   \<Longrightarrow> redirect_ok nodes spec (t # targets) (nodeForAddress nodes t) r [\<lparr>ev_addr = t, ev_spec = spec, ev_result = r\<rparr>]"
  by (auto simp: redirect_ok_def attempt_ok_def inconclusive_def split: sum.splits)

lemma logged_client_claim:
  "cl_Claim cl spec w = (r, w') \<Longrightarrow> cl_Claim (logged_client a cl) spec (w, l)
     = (r, (w', l @ [\<lparr>ev_addr = a, ev_spec = spec, ev_result = r\<rparr>]))"
  by (simp add: logged_client_def logged_claim_def)

lemma redirect_loop_log:
  assumes "redirect_loop (\<lambda>a. logged_client a (dial a)) nodes from (RedirectError ts) spec targets (w, l) = ((node, r), (w', l'))"
  shows "\<exists>ext. l' = l @ ext \<and> redirect_ok nodes spec targets node r ext"
  using assms
proof (induction targets arbitrary: w l)
  case Nil
  then show ?case by (auto simp: redirect_ok_def attempt_ok_def inconclusive_def claimUndelivered_def)
next
  case (Cons t targets)
  show ?case
  proof (cases "nodeForAddress nodes t = []")
    case True
    then show ?thesis using Cons.prems Cons.IH [of w l] by (auto intro: redirect_ok_skip)
  next
    case False
    obtain r1 w1 where c: "cl_Claim (dial t) spec w = (r1, w1)" by fastforce
    let ?ev = "\<lparr>ev_addr = t, ev_spec = spec, ev_result = r1\<rparr>"
    show ?thesis
    proof (cases "inconclusive r1")
      case True
      have "redirect_loop (\<lambda>a. logged_client a (dial a)) nodes from (RedirectError ts) spec targets (w1, l @ [?ev]) = ((node, r), (w', l'))"
        using Cons.prems False True by (auto simp: logged_client_claim [OF c] inconclusive_def)
      from Cons.IH [OF this] obtain ext where "l' = (l @ [?ev]) @ ext" "redirect_ok nodes spec targets node r ext" by blast
      moreover have "undelivered ?ev" using True by (auto simp: undelivered_def inconclusive_def)
      ultimately show ?thesis by (intro exI [of _ "?ev # ext"]) (simp add: redirect_ok_Cons)
    next
      case stop: False
      then have "node = nodeForAddress nodes t \<and> r = r1 \<and> w' = w1 \<and> l' = l @ [?ev]"
        using Cons.prems False by (auto simp: logged_client_claim [OF c] inconclusive_def Let_def split: sum.splits if_splits)
      then show ?thesis using redirect_ok_last [OF stop False] by auto
    qed
  qed
qed

text \<open>The events of one attempt at the candidate \<open>best\<close>.\<close>

definition attempt_at :: "NodePools list \<Rightarrow> ClaimSpec \<Rightarrow> warmCandidate \<Rightarrow> string list option \<Rightarrow> string
   \<Rightarrow> err + ClaimResult \<Rightarrow> claim_event list \<Rightarrow> bool" where
  "attempt_at nodes spec best redirect node r ext \<longleftrightarrow>
     attempt_ok ext r \<and> ext \<noteq> [] \<and> ev_addr (hd ext) = wc_addr best
     \<and> (\<forall>ev\<in>set ext. ev_spec ev \<in> {spec, spec\<lparr>cs_NoRedirect := True\<rparr>})
     \<and> (inconclusive r \<or> (node = wc_node best \<and> ev_addr (last ext) = wc_addr best)
          \<or> (node \<noteq> [] \<and> nodeForAddress nodes (ev_addr (last ext)) = node))
     \<and> (inconclusive r \<longrightarrow> (case redirect of None \<Rightarrow> True | Some targets \<Rightarrow>
          (\<forall>t\<in>set targets. nodeForAddress nodes t = [] \<or> t \<in> ev_addr ` set ext)))"

lemma claim_attempt_log:
  assumes "claim_attempt (\<lambda>a. logged_client a (dial a)) nodes spec best (w, l) = ((redirect, node, r), (w', l'))"
  shows "\<exists>ext. l' = l @ ext \<and> attempt_at nodes spec best redirect node r ext"
proof -
  obtain r1 w1 where c: "cl_Claim (dial (wc_addr best)) spec w = (r1, w1)" by fastforce
  let ?ev = "\<lparr>ev_addr = wc_addr best, ev_spec = spec, ev_result = r1\<rparr>"
  note c' = logged_client_claim [OF c, of "wc_addr best" l]
  show ?thesis
  proof (cases "redirect_targets r1")
    case None
    then have "redirect = None \<and> node = wc_node best \<and> r = r1 \<and> w' = w1 \<and> l' = l @ [?ev]"
      using assms c' by (auto simp: claim_attempt_def)
    then show ?thesis
      by (intro exI [of _ "[?ev]"]) (auto simp: attempt_at_def attempt_ok_def undelivered_def split: sum.splits)
  next
    case (Some ts)
    then have und: "undelivered ?ev"
      by (auto simp: redirect_targets_def undelivered_def dest: redirect_undelivered split: sum.splits)
    have "redirect_loop (\<lambda>a. logged_client a (dial a)) nodes (wc_node best) (RedirectError ts)
        (spec\<lparr>cs_NoRedirect := True\<rparr>) ts (w1, l @ [?ev]) = ((node, r), (w', l'))" and red: "redirect = Some ts"
      using assms c' Some by (auto simp: claim_attempt_def claimRedirected_def split: prod.splits)
    from redirect_loop_log [OF this(1)] obtain ext
      where ext: "l' = (l @ [?ev]) @ ext" "redirect_ok nodes (spec\<lparr>cs_NoRedirect := True\<rparr>) ts node r ext" by blast
    then show ?thesis
      using attempt_ok_Cons [OF und]
      by (intro exI [of _ "?ev # ext"]) (auto simp: attempt_at_def redirect_ok_def red)
  qed
qed

section \<open>The retry loop\<close>

text \<open>An event after which the claim may be sent again: nothing was delivered for it.\<close>

definition retryable :: "bool \<Rightarrow> claim_event \<Rightarrow> bool" where
  "retryable promoted ev \<longleftrightarrow> (\<exists>e. ev_result ev = Inl e \<and> (claimUndelivered e \<or> promoted \<and> templateGone e))"

lemma undelivered_retryable: "undelivered ev \<Longrightarrow> retryable promoted ev"
  by (auto simp: undelivered_def retryable_def)

text \<open>Candidates as the inventory gives them: known addresses, one per node.\<close>

definition cands_wf :: "NodePools list \<Rightarrow> warmCandidate list \<Rightarrow> bool" where
  "cands_wf nodes cands \<longleftrightarrow>
     (\<forall>c\<in>set cands. nodeForAddress nodes (wc_addr c) \<noteq> [])
     \<and> (\<forall>c\<in>set cands. \<forall>d\<in>set cands. wc_node c = wc_node d \<longrightarrow> wc_addr c = wc_addr d)"

definition loop_result :: "NodePools list \<Rightarrow> bool \<Rightarrow> string \<Rightarrow> string \<Rightarrow> warmCandidate list
   \<Rightarrow> err + string \<times> ClaimResult \<Rightarrow> claim_event list \<Rightarrow> bool" where
  "loop_result nodes promoted ns name cands r ext \<longleftrightarrow> (case r of
     Inr (node, res) \<Rightarrow> ext \<noteq> [] \<and> ev_result (last ext) = Inr res
       \<and> ((\<exists>c\<in>set cands. node = wc_node c \<and> ev_addr (last ext) = wc_addr c)
          \<or> (node \<noteq> [] \<and> nodeForAddress nodes (ev_addr (last ext)) = node))
   | Inl e \<Rightarrow>
       (e = Wrap (Msg ''scale: claim %s/%s: no warm node delivered: %w'' [ns, name]) ErrNoWarmCapacity
        \<and> list_all (retryable promoted) ext
        \<and> (\<not> promoted \<and> cands_wf nodes cands \<longrightarrow> (\<forall>c\<in>set cands. wc_addr c \<in> ev_addr ` set ext)))
       \<or> (\<exists>node e'. e = Wrap (Msg ''scale: claim %s/%s on node %q: %w'' [ns, name, node]) e'
            \<and> ext \<noteq> [] \<and> ev_result (last ext) = Inl e' \<and> \<not> retryable promoted (last ext)))"

definition loop_ok :: "NodePools list \<Rightarrow> bool \<Rightarrow> string \<Rightarrow> string \<Rightarrow> ClaimSpec \<Rightarrow> warmCandidate list
   \<Rightarrow> err + string \<times> ClaimResult \<Rightarrow> claim_event list \<Rightarrow> bool" where
  "loop_ok nodes promoted ns name spec cands r ext \<longleftrightarrow>
     list_all (retryable promoted) (butlast ext)
     \<and> (\<forall>ev\<in>set ext. ev_spec ev \<in> {spec, spec\<lparr>cs_NoRedirect := True\<rparr>})
     \<and> loop_result nodes promoted ns name cands r ext"

lemma butlast_append_all: "list_all P xs \<Longrightarrow> list_all P (butlast ys) \<Longrightarrow> list_all P (butlast (xs @ ys))"
  by (auto simp: butlast_append list_all_iff dest: in_set_butlastD)

lemma attempt_at_butlast:
  assumes "attempt_at nodes spec best redirect node r ext"
  shows "list_all (retryable promoted) (butlast ext)"
proof -
  have "list_all undelivered (butlast ext)"
    using assms by (auto simp: attempt_at_def attempt_ok_def list_all_iff split: sum.splits dest: in_set_butlastD)
  then show ?thesis by (auto simp: list_all_iff undelivered_retryable)
qed

lemma attempt_at_retry:
  assumes "attempt_at nodes spec best redirect node (Inl e) ext" "claimUndelivered e \<or> promoted \<and> templateGone e"
  shows "list_all (retryable promoted) ext"
proof -
  have ne: "ext \<noteq> []" using assms(1) by (simp add: attempt_at_def)
  have "undelivered (last ext) \<or> ev_result (last ext) = Inl e"
    using assms(1) ne by (auto simp: attempt_at_def attempt_ok_def list_all_iff)
  then have "retryable promoted (last ext)"
    using assms(2) undelivered_retryable by (auto simp: retryable_def)
  then have "list_all (retryable promoted) (butlast ext @ [last ext])"
    using attempt_at_butlast [OF assms(1)] by (simp only: list_all_append list.pred_inject simp_thms)
  then show ?thesis by (simp only: append_butlast_last_id [OF ne])
qed

lemma set_drop_candidates: "set (drop_candidates best redirect cands) \<subseteq> set cands"
  by (auto simp: drop_candidates_def)

lemma cands_wf_drop: "cands_wf nodes cands \<Longrightarrow> cands_wf nodes (drop_candidates best redirect cands)"
  using set_drop_candidates [of best redirect cands] unfolding cands_wf_def by blast

lemma dropped_tried:
  assumes at: "attempt_at nodes spec best redirect node (Inl e) ext" and und: "claimUndelivered e"
    and wf: "cands_wf nodes cands" "best \<in> set cands" "c \<in> set cands" "c \<notin> set (drop_candidates best redirect cands)"
  shows "wc_addr c \<in> ev_addr ` set ext"
proof (cases "wc_node c = wc_node best")
  case True
  then have "wc_addr c = wc_addr best" using wf unfolding cands_wf_def by blast
  then have "wc_addr c = ev_addr (hd ext)" "ext \<noteq> []" using at by (simp_all add: attempt_at_def)
  then show ?thesis by simp
next
  case False
  then obtain ts where "redirect = Some ts" "wc_addr c \<in> set ts"
    using wf(3,4) by (auto simp: drop_candidates_def split: option.splits)
  moreover have "nodeForAddress nodes (wc_addr c) \<noteq> []" using wf unfolding cands_wf_def by blast
  moreover have "inconclusive (Inl e)" using und by (simp add: inconclusive_def)
  ultimately show ?thesis using at unfolding attempt_at_def by (auto simp del: image_iff)
qed

lemma loop_ok_retry:
  assumes at: "attempt_at nodes spec best redirect node (Inl e) ext1" "best \<in> set cands"
    and e: "claimUndelivered e \<or> promoted \<and> templateGone e"
    and ok: "loop_ok nodes promoted ns name spec (drop_candidates best redirect cands) r ext2"
  shows "loop_ok nodes promoted ns name spec cands r (ext1 @ ext2)"
proof -
  let ?d = "drop_candidates best redirect cands"
  have all1: "list_all (retryable promoted) ext1" using attempt_at_retry [OF at(1) e] .
  have "loop_result nodes promoted ns name cands r (ext1 @ ext2)"
  proof (cases r)
    case (Inr p)
    then show ?thesis
      using ok set_drop_candidates [of best redirect cands]
      by (cases p) (auto simp: loop_ok_def loop_result_def)
  next
    case (Inl er)
    have "wc_addr c \<in> ev_addr ` set (ext1 @ ext2)"
      if "\<not> promoted" "cands_wf nodes cands" "c \<in> set cands"
        "\<forall>c\<in>set ?d. wc_addr c \<in> ev_addr ` set ext2" for c
      using dropped_tried [OF at(1) _ that(2) at(2) that(3)] e that by (cases "c \<in> set ?d") auto
    then show ?thesis
      using ok all1 Inl cands_wf_drop [of nodes cands best redirect]
      by (auto simp: loop_ok_def loop_result_def)
  qed
  then show ?thesis
    using ok all1 at(1) butlast_append_all [of "retryable promoted" ext1 ext2]
    by (auto simp: loop_ok_def attempt_at_def)
qed

lemma loop_ok_stop:
  assumes "attempt_at nodes spec best redirect node r1 ext" "best \<in> set cands"
    "(\<exists>res. r1 = Inr res \<and> r = Inr (node, res))
     \<or> (\<exists>e. r1 = Inl e \<and> \<not> (claimUndelivered e \<or> promoted \<and> templateGone e)
          \<and> r = Inl (Wrap (Msg ''scale: claim %s/%s on node %q: %w'' [ns, name, node]) e))"
  shows "loop_ok nodes promoted ns name spec cands r ext"
  unfolding loop_ok_def
proof (intro conjI)
  show "list_all (retryable promoted) (butlast ext)" using attempt_at_butlast [OF assms(1)] .
  show "\<forall>ev\<in>set ext. ev_spec ev \<in> {spec, spec\<lparr>cs_NoRedirect := True\<rparr>}" using assms(1) by (simp add: attempt_at_def)
  show "loop_result nodes promoted ns name cands r ext"
    using assms by (auto simp: loop_result_def attempt_at_def attempt_ok_def inconclusive_def retryable_def)
qed

lemma claim_loop_log:
  assumes "claim_loop (\<lambda>a. logged_client a (dial a)) nodes promoted ns name spec rnd k cands (w, l) = (r, (w', l'))"
  shows "\<exists>ext. l' = l @ ext \<and> loop_ok nodes promoted ns name spec cands r ext"
  using assms
proof (induction cands arbitrary: k w l rule: length_induct)
  case (1 cands)
  show ?case
  proof (cases "cands = []")
    case True
    then show ?thesis using "1.prems" by (auto simp: claim_loop.simps loop_ok_def loop_result_def)
  next
    case False
    define best where "best = pickPowerOfTwo (rnd (2 * k)) (rnd (2 * k + 1)) cands"
    have best: "best \<in> set cands" unfolding best_def using False by (rule pick_in)
    obtain redirect node r1 w1 l1 where att:
      "claim_attempt (\<lambda>a. logged_client a (dial a)) nodes spec best (w, l) = ((redirect, node, r1), (w1, l1))"
      by (metis surj_pair)
    from claim_attempt_log [OF this] obtain ext
      where ext: "l1 = l @ ext" "attempt_at nodes spec best redirect node r1 ext" by blast
    note step = "1.prems" [unfolded claim_loop.simps [of _ nodes promoted ns name spec rnd k cands "(w, l)"]
        best_def [symmetric] Let_def, simplified False if_False att prod.case]
    show ?thesis
    proof (cases r1)
      case (Inr res)
      then show ?thesis using step ext loop_ok_stop [OF ext(2) best] by auto
    next
      case (Inl e)
      show ?thesis
      proof (cases "claimUndelivered e \<or> promoted \<and> templateGone e")
        case True
        let ?d = "drop_candidates best redirect cands"
        have "claim_loop (\<lambda>a. logged_client a (dial a)) nodes promoted ns name spec rnd (Suc k) ?d (w1, l @ ext) = (r, (w', l'))"
          using step Inl True ext by auto
        moreover have "length ?d < length cands" unfolding best_def by (rule drop_shorter [OF False])
        ultimately obtain ext2 where "l' = (l @ ext) @ ext2" "loop_ok nodes promoted ns name spec ?d r ext2"
          using "1.IH" by blast
        then show ?thesis using loop_ok_retry [OF ext(2) [unfolded Inl] best True] by auto
      next
        case False
        then show ?thesis using step Inl ext loop_ok_stop [OF ext(2) best] by auto
      qed
    qed
  qed
qed

section \<open>The recording changes nothing\<close>

lemma logged_claim_fst: "cl_Claim (logged_client a cl) spec wl = (r, wl') \<Longrightarrow> cl_Claim cl spec (fst wl) = (r, fst wl')"
  by (auto simp: logged_client_def logged_claim_def split: prod.splits)

lemma redirect_loop_fst:
  "redirect_loop (\<lambda>a. logged_client a (dial a)) nodes from red spec targets wl = (r, wl')
   \<Longrightarrow> redirect_loop dial nodes from red spec targets (fst wl) = (r, fst wl')"
proof (induction targets arbitrary: wl)
  case (Cons t targets)
  obtain r1 wl1 where c: "cl_Claim (logged_client t (dial t)) spec wl = (r1, wl1)" by (metis surj_pair)
  show ?case using Cons.prems Cons.IH [of wl] Cons.IH [of wl1] c logged_claim_fst [OF c]
    by (auto simp: Let_def split: sum.splits if_splits)
qed simp

lemma claim_attempt_fst:
  assumes "claim_attempt (\<lambda>a. logged_client a (dial a)) nodes spec best wl = (r, wl')"
  shows "claim_attempt dial nodes spec best (fst wl) = (r, fst wl')"
proof -
  obtain r1 wl1 where c: "cl_Claim (logged_client (wc_addr best) (dial (wc_addr best))) spec wl = (r1, wl1)"
    by (metis surj_pair)
  show ?thesis
  proof (cases "redirect_targets r1")
    case None
    then show ?thesis using assms c logged_claim_fst [OF c] by (auto simp: claim_attempt_def)
  next
    case (Some ts)
    obtain node r2 wl2 where red: "claimRedirected (\<lambda>a. logged_client a (dial a)) nodes (wc_node best) ts spec wl1 = ((node, r2), wl2)"
      by (metis surj_pair)
    then have "claimRedirected dial nodes (wc_node best) ts spec (fst wl1) = ((node, r2), fst wl2)"
      unfolding claimRedirected_def by (rule redirect_loop_fst)
    then show ?thesis using assms c logged_claim_fst [OF c] Some red by (auto simp: claim_attempt_def)
  qed
qed

lemma claim_loop_fst:
  "claim_loop (\<lambda>a. logged_client a (dial a)) nodes promoted ns name spec rnd k cands wl = (r, wl')
   \<Longrightarrow> claim_loop dial nodes promoted ns name spec rnd k cands (fst wl) = (r, fst wl')"
proof (induction cands arbitrary: k wl rule: length_induct)
  case (1 cands)
  show ?case
  proof (cases "cands = []")
    case True
    then show ?thesis using "1.prems" by (auto simp: claim_loop.simps)
  next
    case False
    let ?best = "pickPowerOfTwo (rnd (2 * k)) (rnd (2 * k + 1)) cands"
    obtain redirect node r1 wl1 where att:
      "claim_attempt (\<lambda>a. logged_client a (dial a)) nodes spec ?best wl = ((redirect, node, r1), wl1)"
      by (metis surj_pair)
    have "length (drop_candidates ?best redirect cands) < length cands" by (rule drop_shorter [OF False])
    then have "claim_loop (\<lambda>a. logged_client a (dial a)) nodes promoted ns name spec rnd (Suc k) (drop_candidates ?best redirect cands) wl1 = (r, wl')
      \<Longrightarrow> claim_loop dial nodes promoted ns name spec rnd (Suc k) (drop_candidates ?best redirect cands) (fst wl1) = (r, fst wl')"
      using "1.IH" by blast
    then show ?thesis using "1.prems" claim_attempt_fst [OF att] att False
      by (subst claim_loop.simps) (auto simp: claim_loop.simps [of _ _ _ _ _ _ _ k] Let_def split: sum.splits if_splits)
  qed
qed

section \<open>The claim as a whole\<close>

lemma logged_store_simps [simp]:
  "sg_src (logged_store s) = logged_source (sg_src s)"
  "sg_index (logged_store s) = sg_index s"
  "sg_token (logged_store s) = sg_token s"
  "sg_factory (logged_store s) = map_option (\<lambda>f addr tok. logged_client addr (f addr tok)) (sg_factory s)"
  by (simp_all add: logged_store_def)

lemma logged_source_simps [simp]:
  "src_NodeCapacities (logged_source src) wl = src_NodeCapacities src (fst wl)"
  by (simp add: logged_source_def)

text \<open>The candidates of a claim, and whether they come from the promoted templates.\<close>

definition claim_promoted :: "NodePools list \<Rightarrow> PoolKey \<Rightarrow> ClaimOptions \<Rightarrow> bool" where
  "claim_promoted nodes pool opts = (warmCandidates nodes pool = [] \<and> co_Promoted opts)"

definition claim_candidates :: "NodePools list \<Rightarrow> PoolKey \<Rightarrow> ClaimOptions \<Rightarrow> warmCandidate list" where
  "claim_candidates nodes pool opts =
     (if claim_promoted nodes pool opts then templateCandidates nodes pool else warmCandidates nodes pool)"

definition claim_done :: "string \<Rightarrow> string \<Rightarrow> nodeIndex \<Rightarrow> err + string \<times> ClaimResult \<Rightarrow> (err + Assignment) \<times> nodeIndex" where
  "claim_done ns name x lr = (case lr of
     Inl e \<Rightarrow> (Inl e, x)
   | Inr (node, res) \<Rightarrow>
       (Inr \<lparr>as_SandboxName = cr_ID res, as_Node = node, as_Address = cr_OwnerAddr res,
             as_Token = cr_Token res, as_Deadline = cr_Deadline res, as_NetRoute = cr_NetRoute res\<rparr>,
        index_remember (claimKey ns (cr_ID res)) node (index_remember (nameKey ns name) node x)))"

lemma Claim_eq:
  assumes "sg_factory s = Some factory" "src_NodeCapacities (sg_src s) w = Inr nodes"
  shows "Claim rnd s ns name pool opts w =
    (if claim_candidates nodes pool opts = [] then
       (Inl (Wrap (Msg ''scale: claim %s/%s: no node advertises warm capacity for template %q net %q size %q: %w''
          [ns, name, pk_Template pool, pk_Net pool, pk_Size pool]) ErrNoWarmCapacity), s, w)
     else case claim_loop (\<lambda>addr. factory addr (sg_token s)) nodes (claim_promoted nodes pool opts) ns name
              (claim_spec ns name pool opts (claim_promoted nodes pool opts)) rnd 0 (claim_candidates nodes pool opts) w of
            (lr, w') \<Rightarrow> (fst (claim_done ns name (sg_index s) lr),
                         s\<lparr>sg_index := snd (claim_done ns name (sg_index s) lr)\<rparr>, w'))"
  using assms
  by (simp add: Claim_def Let_def claim_candidates_def claim_promoted_def claim_done_def split: sum.split prod.split)

lemma Claim_logged:
  assumes cl: "Claim rnd (logged_store s) ns name pool opts (w, []) = (r, s', (w', log))"
    and f: "sg_factory s = Some factory" and n: "src_NodeCapacities (sg_src s) w = Inr nodes"
    and c: "claim_candidates nodes pool opts \<noteq> []"
  obtains lr where "loop_ok nodes (claim_promoted nodes pool opts) ns name
      (claim_spec ns name pool opts (claim_promoted nodes pool opts)) (claim_candidates nodes pool opts) lr log"
    and "claim_done ns name (sg_index s) lr = (r, sg_index s')"
proof -
  let ?dial = "\<lambda>addr. factory addr (sg_token s)" and ?p = "claim_promoted nodes pool opts"
  have f': "sg_factory (logged_store s) = Some (\<lambda>addr tok. logged_client addr (factory addr tok))" using f by simp
  have n': "src_NodeCapacities (sg_src (logged_store s)) (w, []) = Inr nodes" using n by simp
  obtain lr w1 l1 where lp: "claim_loop (\<lambda>a. logged_client a (?dial a)) nodes ?p ns name
      (claim_spec ns name pool opts ?p) rnd 0 (claim_candidates nodes pool opts) (w, []) = (lr, (w1, l1))"
    by (metis surj_pair)
  have "log = l1" "claim_done ns name (sg_index s) lr = (r, sg_index s')"
    using cl lp c unfolding Claim_eq [OF f' n'] by auto
  with claim_loop_log [OF lp] show ?thesis by (intro that) auto
qed

lemma Claim_unlogged:
  assumes "Claim rnd (logged_store s) ns name pool opts (w, l) = (r, s', (w', log))"
  shows "Claim rnd s ns name pool opts w = (r, s\<lparr>sg_index := sg_index s'\<rparr>, w')"
proof (cases "\<exists>factory nodes. sg_factory s = Some factory \<and> src_NodeCapacities (sg_src s) w = Inr nodes")
  case False
  then show ?thesis using assms by (auto simp: Claim_def split: option.splits sum.splits)
next
  case True
  then obtain factory nodes where f: "sg_factory s = Some factory" and n: "src_NodeCapacities (sg_src s) w = Inr nodes" by blast
  let ?dial = "\<lambda>addr. factory addr (sg_token s)" and ?p = "claim_promoted nodes pool opts"
  have f': "sg_factory (logged_store s) = Some (\<lambda>addr tok. logged_client addr (factory addr tok))" using f by simp
  have n': "src_NodeCapacities (sg_src (logged_store s)) (w, l) = Inr nodes" using n by simp
  obtain lr wl1 where lp: "claim_loop (\<lambda>a. logged_client a (?dial a)) nodes ?p ns name
      (claim_spec ns name pool opts ?p) rnd 0 (claim_candidates nodes pool opts) (w, l) = (lr, wl1)"
    by (metis surj_pair)
  show ?thesis using assms claim_loop_fst [OF lp] lp
    unfolding Claim_eq [OF f' n'] Claim_eq [OF f n] by (auto split: if_splits)
qed

lemma warmCandidates_row:
  "c \<in> set (warmCandidates nodes pool) \<Longrightarrow> \<exists>n\<in>set nodes. wc_node c = np_Node n \<and> wc_addr c = np_Address n \<and> np_Address n \<noteq> []"
  by (auto simp: warmCandidates_def split: if_splits)

lemma templateCandidates_row:
  "c \<in> set (templateCandidates nodes pool) \<Longrightarrow> \<exists>n\<in>set nodes. wc_node c = np_Node n \<and> wc_addr c = np_Address n \<and> np_Address n \<noteq> []"
  by (auto simp: templateCandidates_def)

lemma claim_candidates_row:
  "c \<in> set (claim_candidates nodes pool opts) \<Longrightarrow> \<exists>n\<in>set nodes. wc_node c = np_Node n \<and> wc_addr c = np_Address n"
  by (auto simp: claim_candidates_def dest: warmCandidates_row templateCandidates_row split: if_splits)

lemma nodeForAddress_row:
  "nodeForAddress nodes addr = node \<Longrightarrow> node \<noteq> [] \<Longrightarrow> \<exists>n\<in>set nodes. np_Node n = node \<and> np_Address n = addr"
  by (auto simp: nodeForAddress_def find_Some_iff split: option.splits)

lemma nodeForAddress_known:
  assumes "n \<in> set nodes" "[] \<notin> np_Node ` set nodes"
  shows "nodeForAddress nodes (np_Address n) \<noteq> []"
proof (cases "find (\<lambda>m. np_Address m = np_Address n) nodes")
  case None
  then show ?thesis using assms(1) by (auto simp: find_None_iff)
next
  case (Some m)
  then have "m \<in> set nodes" by (auto simp: find_Some_iff)
  then show ?thesis using Some assms(2) by (auto simp: nodeForAddress_def) (metis image_eqI)
qed

lemma candidates_wf:
  assumes "distinct (map np_Node nodes)" "[] \<notin> np_Node ` set nodes"
  shows "cands_wf nodes (claim_candidates nodes pool opts)"
proof -
  have "nodeForAddress nodes (wc_addr c) \<noteq> []" if "c \<in> set (claim_candidates nodes pool opts)" for c
    using claim_candidates_row [OF that] nodeForAddress_known [OF _ assms(2)] by auto
  moreover have "wc_addr c = wc_addr d"
    if "c \<in> set (claim_candidates nodes pool opts)" "d \<in> set (claim_candidates nodes pool opts)" "wc_node c = wc_node d" for c d
    using claim_candidates_row [OF that(1)] claim_candidates_row [OF that(2)] that(3) assms(1)
    by (auto simp: distinct_map inj_on_def)
  ultimately show ?thesis unfolding cands_wf_def by blast
qed

lemma view_second_store:
  "k' \<noteq> k \<Longrightarrow> map_of (nx_cur x) k = Some v \<Longrightarrow> index_view (storeLocked k' n x) k = Some v"
  by (auto simp: index_view_def storeLocked_def Let_def map_of_AList_update map_add_def split: option.splits)

lemma cur_storeLocked: "map_of (nx_cur (storeLocked k n x)) k = Some n"
  by (simp add: storeLocked_def Let_def map_of_AList_update)

lemma keys_differ: "nameKey ns name \<noteq> claimKey ns' cid" "nameKey ns name \<noteq> []" "claimKey ns cid \<noteq> []"
  by (simp_all add: nameKey_def claimKey_def)

lemma remembered_twice:
  assumes "node \<noteq> []"
  shows "fst (index_lookup (nameKey ns name) (index_remember (claimKey ns' cid) node (index_remember (nameKey ns name) node x))) = Some node"
    and "fst (index_lookup (claimKey ns' cid) (index_remember (claimKey ns' cid) node (index_remember (nameKey ns name) node x))) = Some node"
  using assms view_second_store [OF keys_differ(1) [symmetric] cur_storeLocked]
  by (simp_all add: fst_index_lookup index_remember_def keys_differ view_storeLocked_self)

lemma claim_requests:
  assumes "Claim rnd (logged_store s) ns name pool opts (w, []) = (r, s', (w', log))"
  shows "Claim rnd s ns name pool opts w = (r, s\<lparr>sg_index := sg_index s'\<rparr>, w')
    \<and> (\<forall>ev\<in>set (butlast log). \<exists>e. ev_result ev = Inl e \<and> (claimUndelivered e \<or> cs_RequirePromoted (ev_spec ev) \<and> templateGone e))
    \<and> (\<forall>ev\<in>set log. cs_ClaimRef (ev_spec ev) = namespacedName ns name)
    \<and> (case r of
         Inr a \<Rightarrow> (\<exists>res. log \<noteq> [] \<and> ev_result (last log) = Inr res \<and> as_SandboxName a = cr_ID res \<and> as_Token a = cr_Token res)
       | Inl e \<Rightarrow> (\<forall>ev\<in>set log. \<exists>e'. ev_result ev = Inl e'))"
proof (cases "\<exists>factory nodes. sg_factory s = Some factory \<and> src_NodeCapacities (sg_src s) w = Inr nodes
    \<and> claim_candidates nodes pool opts \<noteq> []")
  case False
  then have "log = []" "\<exists>e. r = Inl e"
    using assms by (auto simp: Claim_def claim_candidates_def claim_promoted_def Let_def split: option.splits sum.splits)
  then show ?thesis using Claim_unlogged [OF assms] by auto
next
  case True
  then obtain factory nodes lr where ok: "loop_ok nodes (claim_promoted nodes pool opts) ns name
      (claim_spec ns name pool opts (claim_promoted nodes pool opts)) (claim_candidates nodes pool opts) lr log"
    and dn: "claim_done ns name (sg_index s) lr = (r, sg_index s')"
    using Claim_logged [OF assms] by metis
  let ?p = "claim_promoted nodes pool opts" and ?spec = "claim_spec ns name pool opts (claim_promoted nodes pool opts)"
  have specs: "cs_ClaimRef (ev_spec ev) = namespacedName ns name \<and> cs_RequirePromoted (ev_spec ev) = ?p" if "ev \<in> set log" for ev
    using ok that by (auto simp: loop_ok_def claim_spec_def)
  have retry: "\<exists>e. ev_result ev = Inl e \<and> (claimUndelivered e \<or> cs_RequirePromoted (ev_spec ev) \<and> templateGone e)"
    if "ev \<in> set log" "retryable ?p ev" for ev
    using that specs by (auto simp: retryable_def)
  have bl: "\<forall>ev\<in>set (butlast log). retryable ?p ev" using ok by (simp add: loop_ok_def list_all_iff)
  have last: "\<exists>e'. ev_result ev = Inl e'" if "ev \<in> set log" "\<exists>e'. ev_result (last log) = Inl e'" for ev
    using that bl by (cases log rule: rev_cases) (auto simp: retryable_def)
  have "case r of Inr a \<Rightarrow> (\<exists>res. log \<noteq> [] \<and> ev_result (last log) = Inr res \<and> as_SandboxName a = cr_ID res \<and> as_Token a = cr_Token res)
      | Inl e \<Rightarrow> (\<forall>ev\<in>set log. \<exists>e'. ev_result ev = Inl e')"
  proof (cases lr)
    case (Inl e)
    then have "list_all (retryable ?p) log \<or> (\<exists>e'. ev_result (last log) = Inl e')"
      using ok by (auto simp: loop_ok_def loop_result_def)
    then have "\<forall>ev\<in>set log. \<exists>e'. ev_result ev = Inl e'"
      using last retry unfolding list_all_iff by blast
    then show ?thesis using dn Inl by (auto simp: claim_done_def)
  next
    case (Inr p)
    then show ?thesis using ok dn by (cases p) (auto simp: loop_ok_def loop_result_def claim_done_def)
  qed
  moreover have "\<forall>ev\<in>set (butlast log). \<exists>e. ev_result ev = Inl e
      \<and> (claimUndelivered e \<or> cs_RequirePromoted (ev_spec ev) \<and> templateGone e)"
  proof
    fix ev
    assume ev: "ev \<in> set (butlast log)"
    show "\<exists>e. ev_result ev = Inl e \<and> (claimUndelivered e \<or> cs_RequirePromoted (ev_spec ev) \<and> templateGone e)"
      by (rule retry [OF in_set_butlastD [OF ev] bspec [OF bl ev]])
  qed
  ultimately show ?thesis using Claim_unlogged [OF assms] specs by (intro conjI) auto
qed

lemma claim_request_specs:
  assumes "Claim rnd (logged_store s) ns name pool opts (w, []) = (r, s', (w', log))"
  shows "\<exists>p. \<forall>ev\<in>set log. ev_spec ev \<in> {claim_spec ns name pool opts p, claim_spec ns name pool opts p\<lparr>cs_NoRedirect := True\<rparr>}"
proof (cases "\<exists>factory nodes. sg_factory s = Some factory \<and> src_NodeCapacities (sg_src s) w = Inr nodes
    \<and> claim_candidates nodes pool opts \<noteq> []")
  case False
  then have "log = []"
    using assms by (auto simp: Claim_def claim_candidates_def claim_promoted_def Let_def split: option.splits sum.splits)
  then show ?thesis by simp
next
  case True
  then obtain factory nodes lr where "loop_ok nodes (claim_promoted nodes pool opts) ns name
      (claim_spec ns name pool opts (claim_promoted nodes pool opts)) (claim_candidates nodes pool opts) lr log"
    using Claim_logged [OF assms] by metis
  then show ?thesis unfolding loop_ok_def by blast
qed

section \<open>Properties\<close>

text \<open>
  C1. A claim is delivered at most once. Of the requests one \<^verbatim>\<open>Claim\<close> sends, redirects included, every
  one but the last was answered in a way that hands over no microVM (at capacity, not dialled, a
  server error, or a promoted template that is gone); a success is the answer of the last request,
  and a failure means no request succeeded. Every request carries the claimed namespace and name.
  The requests are those of the claim itself: recording them changes neither result nor world.
\<close>

theorem claim_at_most_once:
  assumes "Claim rnd (logged_store s) ns name pool opts (w, []) = (r, s', (w', log))"
  shows "Claim rnd s ns name pool opts w = (r, s\<lparr>sg_index := sg_index s'\<rparr>, w')
    \<and> (\<forall>ev\<in>set (butlast log). \<exists>e. ev_result ev = Inl e \<and> (claimUndelivered e \<or> cs_RequirePromoted (ev_spec ev) \<and> templateGone e))
    \<and> (\<forall>ev\<in>set log. cs_ClaimRef (ev_spec ev) = namespacedName ns name)
    \<and> (case r of
         Inr a \<Rightarrow> (\<exists>res. log \<noteq> [] \<and> ev_result (last log) = Inr res \<and> as_SandboxName a = cr_ID res \<and> as_Token a = cr_Token res)
       | Inl e \<Rightarrow> (\<forall>ev\<in>set log. \<exists>e'. ev_result ev = Inl e'))"
  using assms by (rule claim_requests)

text \<open>
  C4. A successful claim names its node correctly: the node it reports is one the inventory lists
  under the address that answered, also after a redirect, and from then on the index resolves both
  the sandbox name and its claim id to that node.
\<close>

theorem claim_assigns_owner:
  assumes "Claim rnd (logged_store s) ns name pool opts (w, []) = (Inr a, s', (w', log))"
    "src_NodeCapacities (sg_src s) w = Inr nodes"
  shows "(\<exists>n\<in>set nodes. np_Node n = as_Node a \<and> np_Address n = ev_addr (last log))
    \<and> (as_Node a \<noteq> [] \<longrightarrow>
        fst (index_lookup (nameKey ns name) (sg_index s')) = Some (as_Node a)
        \<and> fst (index_lookup (claimKey ns (as_SandboxName a)) (sg_index s')) = Some (as_Node a))"
proof -
  obtain factory where f: "sg_factory s = Some factory"
    using assms(1) by (auto simp: Claim_def split: option.splits)
  have "claim_candidates nodes pool opts \<noteq> []"
    using assms f by (auto simp: Claim_def claim_candidates_def claim_promoted_def Let_def)
  from Claim_logged [OF assms(1) f assms(2) this] obtain lr where
    ok: "loop_ok nodes (claim_promoted nodes pool opts) ns name
      (claim_spec ns name pool opts (claim_promoted nodes pool opts)) (claim_candidates nodes pool opts) lr log"
    and dn: "claim_done ns name (sg_index s) lr = (Inr a, sg_index s')" by blast
  from dn obtain node res where lr: "lr = Inr (node, res)" by (auto simp: claim_done_def split: sum.splits prod.splits)
  then have a: "as_Node a = node" "as_SandboxName a = cr_ID res"
    and x: "sg_index s' = index_remember (claimKey ns (cr_ID res)) node (index_remember (nameKey ns name) node (sg_index s))"
    using dn by (auto simp: claim_done_def)
  have "\<exists>n\<in>set nodes. np_Node n = node \<and> np_Address n = ev_addr (last log)"
    using ok lr nodeForAddress_row [of nodes "ev_addr (last log)" node] claim_candidates_row [of _ nodes pool opts]
    by (fastforce simp: loop_ok_def loop_result_def)
  then show ?thesis using a x remembered_twice [of node] by simp
qed

text \<open>
  C3. \<^verbatim>\<open>ErrNoWarmCapacity\<close> is an honest answer: when a claim over warm candidates reports that no warm
  node delivered, every candidate the inventory advertised for the pool has been asked, directly or
  through a redirect, and delivered nothing.
\<close>

theorem claim_exhausts:
  assumes "Claim rnd (logged_store s) ns name pool opts (w, []) = (Inl e, s', (w', log))"
    "e = Wrap (Msg ''scale: claim %s/%s: no warm node delivered: %w'' [ns, name]) ErrNoWarmCapacity"
    "src_NodeCapacities (sg_src s) w = Inr nodes" "warmCandidates nodes pool \<noteq> []"
    "distinct (map np_Node nodes)" "[] \<notin> np_Node ` set nodes"
  shows "\<forall>c\<in>set (warmCandidates nodes pool). \<exists>ev\<in>set log. ev_addr ev = wc_addr c \<and> undelivered ev"
proof -
  obtain factory where f: "sg_factory s = Some factory"
    using assms(1,2) by (cases "sg_factory s") (auto simp: Claim_def err_not_configured_def)
  have cc: "claim_candidates nodes pool opts = warmCandidates nodes pool" "\<not> claim_promoted nodes pool opts"
    using assms(4) by (auto simp: claim_candidates_def claim_promoted_def)
  with Claim_logged [OF assms(1) f assms(3)] assms(4) obtain lr where
    ok: "loop_ok nodes False ns name (claim_spec ns name pool opts False) (warmCandidates nodes pool) lr log"
    and dn: "claim_done ns name (sg_index s) lr = (Inl e, sg_index s')" by auto
  have lr: "lr = Inl e" using dn by (auto simp: claim_done_def split: sum.splits prod.splits)
  have wf: "cands_wf nodes (warmCandidates nodes pool)" using candidates_wf [OF assms(5,6), of pool opts] cc by simp
  have "list_all (retryable False) log \<and> (\<forall>c\<in>set (warmCandidates nodes pool). wc_addr c \<in> ev_addr ` set log)"
    using ok lr wf assms(2) by (auto simp: loop_ok_def loop_result_def)
  then show ?thesis by (fastforce simp: list_all_iff retryable_def undelivered_def)
qed

section \<open>A concrete fleet\<close>

text \<open>
  Three nodes; the first redirects to the second, which is at capacity, and the third delivers. The
  world is the inventory itself, and every verb but the claim answers an error.
\<close>

definition demo_row :: "string \<Rightarrow> string \<Rightarrow> PoolCapacity list \<Rightarrow> PromotedTemplate list \<Rightarrow> string \<times> NodeInventory" where
  "demo_row node addr pools temps = (node, \<lparr>ni_Name = node, ni_Node = node, ni_Entries = [], ni_Address = addr,
     ni_Pools = pools, ni_Templates = temps, ni_PublishedAt = 0\<rparr>)"

definition demo_pool :: "PoolCapacity list" where
  "demo_pool = [\<lparr>pc_Template = ''img'', pc_Net = [], pc_Size = [], pc_Warm = 1, pc_Target = 1\<rparr>]"

definition demo_fleet :: StaticInventorySource where
  "demo_fleet = \<lparr>st_inv = [demo_row ''n1'' ''a1'' demo_pool [], demo_row ''n2'' ''a2'' demo_pool [],
     demo_row ''n3'' ''a3'' demo_pool []], st_partition = [], st_applies = 0\<rparr>"

definition demo_dial :: "(string \<Rightarrow> err + ClaimResult) \<Rightarrow> string \<Rightarrow> string \<Rightarrow> 'w SandboxdClient" where
  "demo_dial answer addr token = null_client\<lparr>cl_Claim := (\<lambda>spec w. (answer addr, w))\<rparr>"

definition demo_store :: "(string \<Rightarrow> err + ClaimResult) \<Rightarrow> StaticInventorySource scatterGatherStore" where
  "demo_store answer = WithClaimRouting ''tok'' (demo_dial answer) (NewScatterGatherStore static_source)"

definition demo_opts :: "bool \<Rightarrow> ClaimOptions" where
  "demo_opts promoted = \<lparr>co_TTLSeconds = 60, co_Metadata = [], co_OnExpire = ExpireKeep, co_NoEgress = False,
     co_Promoted = promoted\<rparr>"

definition demo_key :: PoolKey where
  "demo_key = \<lparr>pk_Template = ''img'', pk_Net = ''none'', pk_Size = ''small''\<rparr>"

definition demo_result :: ClaimResult where
  "demo_result = \<lparr>cr_ID = ''sb1'', cr_Token = ''t1'', cr_Deadline = 0, cr_OwnerAddr = ''a3'', cr_NetRoute = [], cr_Redirect = []\<rparr>"

definition demo_answers :: "string \<Rightarrow> err + ClaimResult" where
  "demo_answers addr = (if addr = ''a1'' then Inl (RedirectError [''a2'']) else if addr = ''a2'' then Inl ErrNodeAtCapacity
     else Inr demo_result)"

definition demo_full :: "string \<Rightarrow> err + ClaimResult" where
  "demo_full addr = Inl ErrNodeAtCapacity"

definition demo_claim :: "(string \<Rightarrow> err + ClaimResult) \<Rightarrow> (err + Assignment) \<times> StaticInventorySource logged scatterGatherStore
   \<times> StaticInventorySource logged" where
  "demo_claim answer = Claim (\<lambda>k. 0) (logged_store (demo_store answer)) ''ns'' ''a'' demo_key (demo_opts False) (demo_fleet, [])"

lemma surjective_run: "r = (fst r, fst (snd r), (fst (snd (snd r)), snd (snd (snd r))))"
  by simp

definition demo_assignment :: Assignment where
  "demo_assignment = \<lparr>as_SandboxName = ''sb1'', as_Node = ''n3'', as_Address = ''a3'', as_Token = ''t1'', as_Deadline = 0, as_NetRoute = []\<rparr>"

lemma demo_claim_success: "fst (demo_claim demo_answers) = Inr demo_assignment"
  by code_simp

theorem claim_at_most_once_witness:
  "\<exists>res. snd (snd (snd (demo_claim demo_answers))) \<noteq> []
     \<and> ev_result (last (snd (snd (snd (demo_claim demo_answers))))) = Inr res
     \<and> as_SandboxName demo_assignment = cr_ID res \<and> as_Token demo_assignment = cr_Token res"
  using claim_at_most_once [OF surjective_run [of "demo_claim demo_answers", unfolded demo_claim_def]]
    demo_claim_success
  unfolding demo_claim_def by simp

lemma demo_capacities: "\<exists>nodes. src_NodeCapacities (sg_src (demo_store answer)) demo_fleet = Inr nodes
    \<and> warmCandidates nodes demo_key \<noteq> [] \<and> distinct (map np_Node nodes) \<and> [] \<notin> np_Node ` set nodes
    \<and> map wc_addr (warmCandidates nodes demo_key) = [''a1'', ''a2'', ''a3'']"
proof -
  have "sort (map fst (st_inv demo_fleet)) = [''n1'', ''n2'', ''n3'']" by code_simp
  then have "src_NodeCapacities static_source demo_fleet = Inr (static_rows demo_fleet [''n1'', ''n2'', ''n3''])"
    by (simp add: static_source_def static_NodeCapacities_def)
  moreover have "map wc_addr (warmCandidates (static_rows demo_fleet [''n1'', ''n2'', ''n3'']) demo_key) = [''a1'', ''a2'', ''a3'']"
    by code_simp
  moreover have "map np_Node (static_rows demo_fleet [''n1'', ''n2'', ''n3'']) = [''n1'', ''n2'', ''n3'']" by code_simp
  ultimately show ?thesis
    by (auto simp: demo_store_def WithClaimRouting_def NewScatterGatherStore_def simp flip: set_map)
qed

theorem claim_assigns_owner_witness:
  "fst (index_lookup (nameKey ''ns'' ''a'') (sg_index (fst (snd (demo_claim demo_answers))))) = Some ''n3''"
proof -
  obtain nodes where n: "src_NodeCapacities (sg_src (demo_store demo_answers)) demo_fleet = Inr nodes"
    using demo_capacities by metis
  have run: "Claim (\<lambda>k. 0) (logged_store (demo_store demo_answers)) ''ns'' ''a'' demo_key (demo_opts False) (demo_fleet, [])
    = (Inr demo_assignment, fst (snd (demo_claim demo_answers)), (fst (snd (snd (demo_claim demo_answers))), snd (snd (snd (demo_claim demo_answers)))))"
    using surjective_run [of "demo_claim demo_answers"] demo_claim_success unfolding demo_claim_def by simp
  from claim_assigns_owner [OF run n] show ?thesis by (simp add: demo_assignment_def)
qed

theorem claim_exhausts_witness:
  "\<exists>nodes. map wc_addr (warmCandidates nodes demo_key) = [''a1'', ''a2'', ''a3'']
     \<and> list_all (\<lambda>c. list_ex (\<lambda>ev. ev_addr ev = wc_addr c \<and> undelivered ev) (snd (snd (snd (demo_claim demo_full)))))
          (warmCandidates nodes demo_key)"
proof -
  obtain nodes where n: "src_NodeCapacities (sg_src (demo_store demo_full)) demo_fleet = Inr nodes"
    and wf: "warmCandidates nodes demo_key \<noteq> []" "distinct (map np_Node nodes)" "[] \<notin> np_Node ` set nodes"
    and cs: "map wc_addr (warmCandidates nodes demo_key) = [''a1'', ''a2'', ''a3'']"
    using demo_capacities by metis
  let ?e = "Wrap (Msg ''scale: claim %s/%s: no warm node delivered: %w'' [''ns'', ''a'']) ErrNoWarmCapacity"
  have "fst (demo_claim demo_full) = Inl ?e" by code_simp
  then have run: "Claim (\<lambda>k. 0) (logged_store (demo_store demo_full)) ''ns'' ''a'' demo_key (demo_opts False) (demo_fleet, [])
    = (Inl ?e, fst (snd (demo_claim demo_full)), (fst (snd (snd (demo_claim demo_full))), snd (snd (snd (demo_claim demo_full)))))"
    using surjective_run [of "demo_claim demo_full"] unfolding demo_claim_def by simp
  from cs claim_exhausts [OF run refl n wf] show ?thesis unfolding list_all_iff list_ex_iff by (intro exI conjI)
qed

section \<open>A redirect that hides a holder of the template\<close>

text \<open>
  Two holders of a promoted template and a third node that redirects to both. The first target no
  longer holds the template (404); the claim then drops both targets, and reports no capacity although
  the second target, which would deliver, was never asked.
\<close>

definition demo_template :: "PromotedTemplate list" where
  "demo_template = [\<lparr>pt_Template = ''img'', pt_Net = [], pt_Size = [], pt_ContentDigest = [], pt_Tenant = [],
     pt_CreatedAt = None, pt_CPUCount = 1, pt_MemoryBytes = 1, pt_Labels = []\<rparr>]"

definition demo_promoted_fleet :: StaticInventorySource where
  "demo_promoted_fleet = \<lparr>st_inv = [demo_row ''n1'' ''a1'' [] demo_template, demo_row ''n2'' ''a2'' [] demo_template,
     demo_row ''n3'' ''a3'' [] demo_template], st_partition = [], st_applies = 0\<rparr>"

definition demo_promoted_answers :: "string \<Rightarrow> err + ClaimResult" where
  "demo_promoted_answers addr = (if addr = ''a1'' then Inl (RedirectError [''a2'', ''a3''])
     else if addr = ''a2'' then Inl (HTTPError 404 []) else Inr demo_result)"

text \<open>
  C27. A promoted claim can miss every other node that holds the template. Take any fleet with no warm node for the pool, where
  the candidate sampled first redirects to targets that cover the other candidates, and the first target is a known node
  that answers that its template is gone. Then the claim has sent exactly these two requests and fails with no warm
  capacity: the targets behind the first are never asked, however many hold the template and whatever they would answer.
\<close>

theorem promoted_redirect_gap:
  assumes "sg_factory s = Some factory" and "src_NodeCapacities (sg_src s) w = Inr nodes"
    and "warmCandidates nodes pool = []" and "co_Promoted opts" and "templateCandidates nodes pool \<noteq> []"
    and "best = pickPowerOfTwo (rnd 0) (rnd 1) (templateCandidates nodes pool)"
    and "cl_Claim (factory (wc_addr best) (sg_token s)) (claim_spec ns name pool opts True) w = (Inl moved, w1)"
    and "as_RedirectError moved = Some (t # ts)" and "nodeForAddress nodes t \<noteq> []"
    and "cl_Claim (factory t (sg_token s)) ((claim_spec ns name pool opts True)\<lparr>cs_NoRedirect := True\<rparr>) w1 = (Inl gone, w2)"
    and "templateGone gone" and "\<not> claimUndelivered gone"
    and "\<forall>c \<in> set (templateCandidates nodes pool). wc_node c = wc_node best \<or> wc_addr c \<in> set (t # ts)"
  shows "\<exists>e log. Claim rnd (logged_store s) ns name pool opts (w, []) = (Inl e, logged_store s, (w2, log)) \<and> IsNoWarmCapacity e
    \<and> map ev_addr log = [wc_addr best, t]"
proof -
  let ?spec = "claim_spec ns name pool opts True" and ?cands = "templateCandidates nodes pool"
  let ?dial = "\<lambda>a. logged_client a (factory a (sg_token s))"
  let ?log = "[\<lparr>ev_addr = wc_addr best, ev_spec = ?spec, ev_result = Inl moved\<rparr>,
    \<lparr>ev_addr = t, ev_spec = ?spec\<lparr>cs_NoRedirect := True\<rparr>, ev_result = Inl gone\<rparr>]"
  have "claimRedirected ?dial nodes (wc_node best) (t # ts) ?spec (w1, [hd ?log]) = ((nodeForAddress nodes t, Inl gone), (w2, ?log))"
    using assms(9,12) by (simp add: claimRedirected_def logged_client_claim [OF assms(10)])
  then have attempt: "claim_attempt ?dial nodes ?spec best (w, []) = ((Some (t # ts), nodeForAddress nodes t, Inl gone), (w2, ?log))"
    using assms(8) by (simp add: claim_attempt_def logged_client_claim [OF assms(7)] redirect_targets_def)
  have pick: "pickPowerOfTwo (rnd 0) (rnd (Suc 0)) ?cands = best" using assms(6) by simp
  have rest: "drop_candidates best (Some (t # ts)) ?cands = []"
    using assms(13) by (simp add: drop_candidates_def filter_empty_conv)
  let ?e = "Wrap (Msg ''scale: claim %s/%s: no warm node delivered: %w'' [ns, name]) ErrNoWarmCapacity"
  have empty: "claim_loop ?dial nodes True ns name ?spec rnd (Suc 0) [] (w2, ?log) = (Inl ?e, (w2, ?log))"
    by (subst claim_loop.simps) simp
  have "claim_loop ?dial nodes True ns name ?spec rnd 0 ?cands (w, []) = (Inl ?e, (w2, ?log))"
    using assms(5,11) by (subst claim_loop.simps) (simp add: pick attempt rest empty)
  then have "Claim rnd (logged_store s) ns name pool opts (w, []) = (Inl ?e, logged_store s, (w2, ?log))"
    using assms(1-5) by (simp add: Claim_def logged_store_def logged_source_def Let_def)
  then show ?thesis by (simp add: IsNoWarmCapacity_def)
qed

definition demo_promoted_nodes :: "NodePools list" where
  "demo_promoted_nodes = map (\<lambda>(node, addr). \<lparr>np_Node = node, np_Address = addr, np_Pools = [], np_Templates = demo_template\<rparr>)
     [(''n1'', ''a1''), (''n2'', ''a2''), (''n3'', ''a3'')]"

text \<open>Three holders of the template; the first redirects to the others, of which the first has lost it.\<close>

theorem promoted_redirect_gap_witness:
  "(\<exists>e log. Claim (\<lambda>k. 0) (logged_store (demo_store demo_promoted_answers)) ''ns'' ''a'' demo_key (demo_opts True) (demo_promoted_fleet, [])
       = (Inl e, logged_store (demo_store demo_promoted_answers), (demo_promoted_fleet, log)) \<and> IsNoWarmCapacity e
       \<and> map ev_addr log = [''a1'', ''a2''])
   \<and> demo_promoted_answers ''a3'' = Inr demo_result"
proof -
  let ?best = "\<lparr>wc_node = ''n1'', wc_addr = ''a1'', wc_warm = 1\<rparr>" and ?s = "demo_store demo_promoted_answers"
  have 1: "sg_factory ?s = Some (demo_dial demo_promoted_answers)" by (simp add: demo_store_def WithClaimRouting_def)
  have 2: "src_NodeCapacities (sg_src ?s) demo_promoted_fleet = Inr demo_promoted_nodes" by code_simp
  have 3: "warmCandidates demo_promoted_nodes demo_key = []" "co_Promoted (demo_opts True)"
    "templateCandidates demo_promoted_nodes demo_key \<noteq> []" by code_simp+
  have 4: "?best = pickPowerOfTwo 0 0 (templateCandidates demo_promoted_nodes demo_key)" by code_simp
  have 5: "cl_Claim (demo_dial demo_promoted_answers (wc_addr ?best) tok) spec w = (Inl (RedirectError [''a2'', ''a3'']), w)"
    "cl_Claim (demo_dial demo_promoted_answers ''a2'' tok) spec w = (Inl (HTTPError 404 []), w)" for tok spec w
    by (simp_all add: demo_dial_def demo_promoted_answers_def)
  have 6: "as_RedirectError (RedirectError [''a2'', ''a3'']) = Some [''a2'', ''a3'']" "nodeForAddress demo_promoted_nodes ''a2'' \<noteq> []"
    "templateGone (HTTPError 404 [])" "\<not> claimUndelivered (HTTPError 404 [])" by code_simp+
  have 7: "\<forall>c \<in> set (templateCandidates demo_promoted_nodes demo_key). wc_node c = wc_node ?best \<or> wc_addr c \<in> set [''a2'', ''a3'']" by code_simp
  show ?thesis using promoted_redirect_gap [OF 1 2 3 4 5(1) 6(1,2) 5(2) 6(3,4) 7] by (simp add: demo_promoted_answers_def)
qed

end
