(* ===== verification/Sandbox_REST.thy ===== *)
theory Sandbox_REST
  imports Claim_Routing Store_Read
begin

text \<open>
  The aggregated API server's storage (pkg/scale/apiserver/storage.go and lifecycle\_storage.go): a
  create is a claim, a delete a release, the subresources are lifecycle verbs. What an operation
  draws from outside (random numbers, answer orders, the JSON encoder, the clock, a fresh UID and the
  API machinery's name generator) is the record \<open>io\<close>; a request's context is its namespace, and a
  validation function answers an error or None.
\<close>

record io =
  io_rnd :: "nat \<Rightarrow> nat"
  io_sched :: "string list \<Rightarrow> string list"
  io_sched' :: "string list \<Rightarrow> string list"
  io_marshal :: metadata_encoder
  io_now :: time
  io_uuid :: string
  io_generate :: "string \<Rightarrow> string"

type_synonym ('w, 'a) store_result = "(err + 'a) \<times> 'w scatterGatherStore \<times> 'w"

definition AddressAnnotation :: string where "AddressAnnotation = ''sandbox.cocoonstack.io/address''"
definition TTLSecondsAnnotation :: string where "TTLSecondsAnnotation = ''sandbox.cocoonstack.io/ttl-seconds''"
definition dryRunUnsupported :: msg where "dryRunUnsupported = Msg ''dry-run is not supported for sandbox mutations'' []"

definition poolKeyForSandbox :: "Sandbox \<Rightarrow> PoolKey" where
  "poolKeyForSandbox sb =
     PoolKeyFor (sb_Containers sb) (NetForAnnotations (sb_Annotations sb) (sb_PodAnnotations sb))"

section \<open>The lease\<close>

text \<open>\<^verbatim>\<open>time.Time.Sub\<close> saturates at the range of a duration.\<close>

definition time_Sub :: "time \<Rightarrow> time \<Rightarrow> int" where
  "time_Sub t u = max (- (2 ^ 63)) (min (2 ^ 63 - 1) (t - u))"

text \<open>The exponent of a float64 with this integer part.\<close>

fun float_exponent :: "nat \<Rightarrow> nat" where
  "float_exponent n = (if n < 2 then 0 else Suc (float_exponent (n div 2)))"

declare float_exponent.simps [simp del]

text \<open>
  \<^verbatim>\<open>int(math.Ceil(d.Seconds()))\<close> of a positive duration. \<^verbatim>\<open>Seconds\<close> adds the whole seconds and the
  fraction as float64, so a fraction below half a unit in the last place of the sum is lost.
\<close>

definition ceil_Seconds :: "int \<Rightarrow> int" where
  "ceil_Seconds d =
     (let sec = d div 1000000000; nsec = d mod 1000000000
      in if nsec = 0 \<or> (sec > 0 \<and> nsec * 2 ^ (53 - float_exponent (nat sec)) < 1000000000) then sec else sec + 1)"

definition ttlSecondsForSandbox :: "Sandbox \<Rightarrow> time \<Rightarrow> msg + int" where
  "ttlSecondsForSandbox sb now =
     (case sb_ShutdownTime sb of
        Some t \<Rightarrow>
          (let left = time_Sub t now
           in if left \<le> 0 then Inl (Msg ''spec.shutdownTime %s is not in the future'' [format_RFC3339 t])
              else Inr (ceil_Seconds left))
      | None \<Rightarrow>
          (let raw = map_index (sb_Annotations sb) TTLSecondsAnnotation
           in if raw = [] then Inr 0
              else (case strconv_Atoi raw of
                      Some v \<Rightarrow>
                        if v < 0 then Inl (Msg ''invalid %s=%q: want a non-negative integer of seconds'' [TTLSecondsAnnotation, raw])
                        else Inr v
                    | None \<Rightarrow> Inl (Msg ''invalid %s=%q: want a non-negative integer of seconds'' [TTLSecondsAnnotation, raw]))))"

section \<open>Create and delete\<close>

definition synthesizeClaimedSandbox :: "io \<Rightarrow> string \<Rightarrow> string \<Rightarrow> Sandbox \<Rightarrow> Assignment \<Rightarrow> Sandbox" where
  "synthesizeClaimedSandbox env namespace name sb a =
     (let ann0 = (sb_Annotations sb)(ClaimIDAnnotation \<mapsto> as_SandboxName a);
          ann1 = (if as_Address a \<noteq> [] then ann0(AddressAnnotation \<mapsto> as_Address a) else ann0);
          ann2 = (if as_Token a \<noteq> [] then ann1(TokenAnnotation \<mapsto> as_Token a) else ann1);
          ann3 = (if \<not> time_IsZero (as_Deadline a) then ann2(DeadlineAnnotation \<mapsto> format_RFC3339 (as_Deadline a)) else ann2)
      in sb\<lparr>sb_Namespace := namespace, sb_Name := name, sb_GenerateName := [], sb_UID := io_uuid env,
            sb_CreationTimestamp := io_now env, sb_ResourceVersion := [], sb_Annotations := ann3,
            sb_NodeName := as_Node a, sb_PodIPs := AddressIPs (as_Address a),
            sb_Conditions := [\<lparr>cd_Type = SandboxConditionReady, cd_Status = ''True'', cd_Reason = SandboxReasonDependenciesReady,
              cd_Message = Msg ''warm sandbox %q delivered by node %q'' [as_SandboxName a, as_Node a]\<rparr>]\<rparr>)"

definition rest_Create :: "io \<Rightarrow> 'w scatterGatherStore \<Rightarrow> string \<Rightarrow> Sandbox \<Rightarrow> (Sandbox \<Rightarrow> err option) \<Rightarrow> bool \<Rightarrow> 'w
   \<Rightarrow> ('w, Sandbox) store_result" where
  "rest_Create env s ctxNamespace sb validate dryRun w =
     (if dryRun then (Inl (k8s_NewBadRequest dryRunUnsupported), s, w)
      else (case validate sb of
              Some e \<Rightarrow> (Inl e, s, w)
            | None \<Rightarrow>
                (let namespace = cmp_Or ctxNamespace (sb_Namespace sb);
                     name = (if sb_Name sb = [] \<and> sb_GenerateName sb \<noteq> [] then io_generate env (sb_GenerateName sb) else sb_Name sb)
                 in if name = [] then
                      (Inl (k8s_NewBadRequest (Msg ''Sandbox has neither metadata.name nor metadata.generateName'' [])), s, w)
                    else
                      (let pool = poolKeyForSandbox sb
                       in case ttlSecondsForSandbox sb (io_now env) of
                            Inl m \<Rightarrow> (Inl (k8s_NewBadRequest m), s, w)
                          | Inr ttlSeconds \<Rightarrow>
                              (case Claim (io_rnd env) s namespace name pool
                                      \<lparr>co_TTLSeconds = ttlSeconds, co_Metadata = [], co_OnExpire = ExpireKeep,
                                       co_NoEgress = False, co_Promoted = False\<rparr> w of
                                 (Inr a, s', w') \<Rightarrow> (Inr (synthesizeClaimedSandbox env namespace name sb a), s', w')
                               | (Inl e, s', w') \<Rightarrow>
                                   (Inl (if IsNoWarmCapacity e then
                                           k8s_NewServiceUnavailable (Msg ''no warm sandbox available for pool (template=%q net=%q size=%q); retry as warm capacity refills''
                                             [pk_Template pool, pk_Net pool, pk_Size pool])
                                         else k8s_NewInternalError (Msg ''claim sandbox %s/%s: %w'' [namespace, name])), s', w'))))))"

definition store_Get :: "io \<Rightarrow> 'w scatterGatherStore \<Rightarrow> 'w \<Rightarrow> string \<Rightarrow> string \<Rightarrow> (err + Sandbox) \<times> 'w scatterGatherStore" where
  "store_Get env s w namespace name = Get (io_marshal env) (io_sched env) (io_sched' env) s w namespace name"

definition rest_Delete :: "io \<Rightarrow> 'w scatterGatherStore \<Rightarrow> string \<Rightarrow> string \<Rightarrow> (Sandbox \<Rightarrow> err option) \<Rightarrow> bool \<Rightarrow> 'w
   \<Rightarrow> ('w, Sandbox) store_result" where
  "rest_Delete env s namespace name validate dryRun w =
     (if dryRun then (Inl (k8s_NewBadRequest dryRunUnsupported), s, w)
      else (case store_Get env s w namespace name of
              (Inl e, s') \<Rightarrow> (Inl e, s', w)
            | (Inr sb, s') \<Rightarrow>
                (case validate sb of
                   Some e \<Rightarrow> (Inl e, s', w)
                 | None \<Rightarrow>
                     (let node = sb_NodeName sb; claimID = map_index (sb_Annotations sb) ClaimIDAnnotation
                      in if node = [] then
                           (Inl (k8s_NewInternalError (Msg ''cannot delete sandbox %s/%s: inventory entry names no owning node; refusing to report it released'' [namespace, name])), s', w)
                         else if claimID = [] then
                           (Inl (k8s_NewInternalError (Msg ''cannot delete sandbox %s/%s: node %q inventory carries no %s (sandboxd claim id); refusing to release by name'' [namespace, name, node, ClaimIDAnnotation])), s', w)
                         else (case Release s' node claimID w of
                                 (Inl e, w') \<Rightarrow> (Inl (k8s_NewInternalError (Msg ''release sandbox %s/%s (node %q id %q): %w'' [namespace, name, node, claimID])), s', w')
                               | (Inr _, w') \<Rightarrow> (Inr sb, s', w'))))))"

text \<open>The options of a list request: the selectors' texts and whether initial events are asked for.\<close>

record list_request =
  lr_LabelSelector :: "string option"
  lr_FieldSelector :: "string option"
  lr_SendInitialEvents :: "bool option"
  lr_AllowWatchBookmarks :: bool

definition toScaleListOptions :: "string \<Rightarrow> list_request option \<Rightarrow> ListOptions" where
  "toScaleListOptions namespace options =
     (case options of
        None \<Rightarrow> \<lparr>lo_Namespace = namespace, lo_LabelSelector = [], lo_FieldSelector = [], lo_WatchList = False\<rparr>
      | Some o' \<Rightarrow>
          \<lparr>lo_Namespace = namespace,
           lo_LabelSelector = (case lr_LabelSelector o' of None \<Rightarrow> [] | Some l \<Rightarrow> l),
           lo_FieldSelector = (case lr_FieldSelector o' of None \<Rightarrow> [] | Some f \<Rightarrow> f),
           lo_WatchList = (lr_SendInitialEvents o' = Some True \<and> lr_AllowWatchBookmarks o')\<rparr>)"

definition rest_List :: "selector_lib \<Rightarrow> io \<Rightarrow> 'w scatterGatherStore \<Rightarrow> string \<Rightarrow> list_request option \<Rightarrow> 'w
   \<Rightarrow> (err + Sandbox list) \<times> 'w scatterGatherStore" where
  "rest_List lib env s namespace options w =
     store_List lib (io_marshal env) (io_sched env) (io_sched' env) s w (toScaleListOptions namespace options)"

section \<open>The lifecycle subresources\<close>

definition claimID :: "Sandbox \<Rightarrow> string" where
  "claimID sb = map_index (sb_Annotations sb) ClaimIDAnnotation"

definition verbError :: "string \<Rightarrow> Sandbox \<Rightarrow> err \<Rightarrow> err" where
  "verbError verb sb e =
     (case as_StatusError e of
        Some (code, m) \<Rightarrow>
          if code < 500 then StatusError code m
          else k8s_NewInternalError (Msg ''%s sandbox %s/%s: %w'' [verb, sb_Namespace sb, sb_Name sb])
      | None \<Rightarrow> k8s_NewInternalError (Msg ''%s sandbox %s/%s: %w'' [verb, sb_Namespace sb, sb_Name sb]))"

definition lifecycle_Create :: "io \<Rightarrow> 'w scatterGatherStore \<Rightarrow> string \<Rightarrow> string \<Rightarrow> (Sandbox \<Rightarrow> 'w scatterGatherStore \<Rightarrow> 'w \<Rightarrow> ('w, 'a) store_result)
   \<Rightarrow> err option \<Rightarrow> bool \<Rightarrow> 'w \<Rightarrow> ('w, 'a) store_result" where
  "lifecycle_Create env s namespace name verb invalid dryRun w =
     (if dryRun then (Inl (k8s_NewBadRequest dryRunUnsupported), s, w)
      else (case invalid of
              Some e \<Rightarrow> (Inl e, s, w)
            | None \<Rightarrow>
                (case store_Get env s w namespace name of
                   (Inl e, s') \<Rightarrow> (Inl e, s', w)
                 | (Inr sb, s') \<Rightarrow>
                     if sb_NodeName sb = [] then
                       (Inl (k8s_NewInternalError (Msg ''sandbox %s/%s has no owning node; cannot run a lifecycle verb against it'' [namespace, name])), s', w)
                     else if claimID sb = [] then
                       (Inl (k8s_NewInternalError (Msg ''sandbox %s/%s carries no %s (node-local claim id); refusing to act by name'' [namespace, name, ClaimIDAnnotation])), s', w)
                     else verb sb s' w)))"

definition verb_result :: "string \<Rightarrow> Sandbox \<Rightarrow> 'w scatterGatherStore \<Rightarrow> (err + 'a) \<times> 'w \<Rightarrow> ('w, 'a) store_result" where
  "verb_result verb sb s r = (case r of (Inl e, w') \<Rightarrow> (Inl (verbError verb sb e), s, w') | (Inr a, w') \<Rightarrow> (Inr a, s, w'))"

definition pause_verb :: "Sandbox \<Rightarrow> 'w scatterGatherStore \<Rightarrow> 'w \<Rightarrow> ('w, unit) store_result" where
  "pause_verb sb s w = verb_result ''pause'' sb s (Pause s (sb_NodeName sb) (claimID sb) w)"

definition resume_verb :: "Sandbox \<Rightarrow> 'w scatterGatherStore \<Rightarrow> 'w \<Rightarrow> ('w, unit) store_result" where
  "resume_verb sb s w = verb_result ''resume'' sb s (Resume s (sb_NodeName sb) (claimID sb) w)"

record ForkedSandbox =
  fk_SandboxID :: string
  fk_NodeName :: string
  fk_Address :: string
  fk_Token :: string

definition fork_verb :: "int \<Rightarrow> int \<Rightarrow> Sandbox \<Rightarrow> 'w scatterGatherStore \<Rightarrow> 'w \<Rightarrow> ('w, ForkedSandbox list) store_result" where
  "fork_verb optCount optTTL sb s w =
     (let count = cmp_OrI optCount 1
      in if count < 0 then (Inl (k8s_NewBadRequest (Msg ''count must be >= 1, got %d'' [strconv_Itoa count])), s, w)
         else (case Fork s (sb_Namespace sb) (sb_NodeName sb) (claimID sb) count optTTL w of
                 (Inl e, s', w') \<Rightarrow> (Inl (verbError ''fork'' sb e), s', w')
               | (Inr children, s', w') \<Rightarrow>
                   (Inr (map (\<lambda>c. \<lparr>fk_SandboxID = as_SandboxName c, fk_NodeName = as_Node c, fk_Address = as_Address c,
                                   fk_Token = as_Token c\<rparr>) children), s', w')))"

record SandboxSnapshotResult =
  nr_SnapshotID :: string
  nr_Name :: string
  nr_NodeName :: string
  nr_CreationTimestamp :: time

definition snapshot_verb :: "string \<Rightarrow> Sandbox \<Rightarrow> 'w scatterGatherStore \<Rightarrow> 'w \<Rightarrow> ('w, SandboxSnapshotResult) store_result" where
  "snapshot_verb optName sb s w =
     (case CheckpointName (sb_Namespace sb) optName of
        Inl e \<Rightarrow> (Inl e, s, w)
      | Inr name \<Rightarrow>
          (case store_Snapshot s (sb_NodeName sb) (claimID sb) name w of
             (Inl e, w') \<Rightarrow> (Inl (verbError ''snapshot'' sb e), s, w')
           | (Inr snap, w') \<Rightarrow>
               (Inr \<lparr>nr_SnapshotID = sn_ID snap, nr_Name = optName, nr_NodeName = sn_Node snap,
                     nr_CreationTimestamp = sn_CreatedAt snap\<rparr>, s, w')))"

section \<open>The lease in seconds\<close>

lemma float_exponent_bound: "n < 2 ^ Suc k \<Longrightarrow> float_exponent n \<le> k"
proof (induction n arbitrary: k rule: float_exponent.induct)
  case (1 n)
  show ?case
  proof (cases "n < 2")
    case True
    then show ?thesis by (simp add: float_exponent.simps)
  next
    case False
    then obtain j where k: "k = Suc j" using "1.prems" by (cases k) auto
    then have "n div 2 < 2 ^ Suc j" using "1.prems" by auto
    then have "float_exponent (n div 2) \<le> j" using "1.IH" [OF False] by blast
    then show ?thesis using False k by (subst float_exponent.simps) simp
  qed
qed

lemma dropped_fraction:
  assumes "0 \<le> sec" "sec < 2 ^ 34" "0 \<le> nsec" "nsec * 2 ^ (53 - float_exponent (nat sec)) \<le> (1000000000 :: int)"
  shows "nsec \<le> 953"
proof -
  have "nat sec < 2 ^ Suc 33" using assms(1,2) by simp
  then have "float_exponent (nat sec) \<le> 33" by (rule float_exponent_bound)
  then have "(2 :: int) ^ 20 \<le> 2 ^ (53 - float_exponent (nat sec))" by (intro power_increasing) auto
  then have "nsec * 2 ^ 20 \<le> nsec * 2 ^ (53 - float_exponent (nat sec))" using assms(3) by (intro mult_left_mono)
  then show ?thesis using assms(4) by simp
qed

text \<open>
  A shutdown time becomes a lease that lasts until it: for a shutdown time in the future the claim
  asks for a positive number of seconds, never the 0 that means the node's default, it falls short of
  the time left by less than a microsecond, and overshoots it by less than a second.
\<close>

theorem shutdown_lease:
  assumes "sb_ShutdownTime sb = Some t" "now < t" "t - now < 2 ^ 63"
  shows "\<exists>ttl. ttlSecondsForSandbox sb now = Inr ttl \<and> 0 < ttl
    \<and> (ttl - 1) * second < t - now \<and> t - now < ttl * second + 1000"
proof -
  define sec nsec where "sec = (t - now) div 1000000000" and "nsec = (t - now) mod 1000000000"
  have left: "t - now = sec * 1000000000 + nsec" "0 \<le> nsec" "nsec < 1000000000" "0 \<le> sec" "sec < 2 ^ 34"
    using assms by (simp_all add: sec_def nsec_def)
  have "time_Sub t now = t - now" using assms by (simp add: time_Sub_def)
  then have "ttlSecondsForSandbox sb now = Inr (ceil_Seconds (t - now))"
    using assms by (simp add: ttlSecondsForSandbox_def)
  moreover have "ceil_Seconds (t - now) = (if nsec = 0 \<or> (sec > 0 \<and> nsec * 2 ^ (53 - float_exponent (nat sec)) < 1000000000)
      then sec else sec + 1)"
    by (auto simp: ceil_Seconds_def sec_def nsec_def Let_def)
  ultimately show ?thesis
    using left assms(2) dropped_fraction [OF left(4,5,2)] by (auto simp: second_def)
qed

section \<open>Safety of delete and create\<close>

text \<open>
  A delete destroys only what it was asked to delete: it succeeds only by releasing, on the node the
  resolved sandbox names, the claim id that sandbox carries; and when it fails, either nothing was
  touched at all or the one release it attempted failed. It never acts by name or on a dry run.
\<close>

theorem delete_releases_claim:
  assumes "rest_Delete env s ns name validate dryRun w = (r, s', w')"
  shows "(case r of
      Inr sb \<Rightarrow> sb_Namespace sb = ns \<and> sb_Name sb = name \<and> \<not> dryRun \<and> validate sb = None \<and> claimID sb \<noteq> []
        \<and> Release s' (sb_NodeName sb) (claimID sb) w = (Inr (), w')
    | Inl e \<Rightarrow> w' = w \<or> (\<exists>sb e'. sb_Namespace sb = ns \<and> sb_Name sb = name \<and> \<not> dryRun \<and> validate sb = None \<and> claimID sb \<noteq> []
        \<and> Release s' (sb_NodeName sb) (claimID sb) w = (Inl e', w')))"
proof (cases "\<not> dryRun \<and> (\<exists>sb. fst (store_Get env s w ns name) = Inr sb)")
  case False
  then show ?thesis using assms
    by (cases "store_Get env s w ns name") (auto simp: rest_Delete_def split: if_splits sum.splits)
next
  case True
  then obtain sb s1 where get: "store_Get env s w ns name = (Inr sb, s1)" by (metis prod.collapse)
  then have nm: "sb_Namespace sb = ns" "sb_Name sb = name"
    using get_sound_lemma [of "io_marshal env" "io_sched env" "io_sched' env" s w ns name sb] by (simp_all add: store_Get_def)
  show ?thesis
  proof (cases "validate sb \<noteq> None \<or> sb_NodeName sb = [] \<or> claimID sb = []")
    case True
    then show ?thesis using assms get \<open>\<not> dryRun \<and> _\<close>
      by (auto simp: rest_Delete_def claimID_def Let_def split: option.splits if_splits)
  next
    case False
    obtain q w1 where rel: "Release s1 (sb_NodeName sb) (claimID sb) w = (q, w1)" by fastforce
    have "(r, s', w') = (case q of Inl e \<Rightarrow> (Inl (k8s_NewInternalError (Msg ''release sandbox %s/%s (node %q id %q): %w'' [ns, name, sb_NodeName sb, claimID sb])), s1, w1) | Inr _ \<Rightarrow> (Inr sb, s1, w1))"
      using assms get rel False \<open>\<not> dryRun \<and> _\<close> by (auto simp: rest_Delete_def claimID_def Let_def split: sum.splits)
    then show ?thesis using rel nm False \<open>\<not> dryRun \<and> _\<close> by (cases q) auto
  qed
qed

text \<open>How a create that reaches the claim maps its result.\<close>

definition create_options :: "int \<Rightarrow> ClaimOptions" where
  "create_options ttl = \<lparr>co_TTLSeconds = ttl, co_Metadata = [], co_OnExpire = ExpireKeep, co_NoEgress = False, co_Promoted = False\<rparr>"

lemma create_claims:
  assumes "rest_Create env s ns sb validate dryRun w = (r, s', w')"
  shows "((\<exists>e. r = Inl e) \<and> s' = s \<and> w' = w) \<or>
    (\<exists>name ttl q. ttlSecondsForSandbox sb (io_now env) = Inr ttl
       \<and> Claim (io_rnd env) s (cmp_Or ns (sb_Namespace sb)) name (poolKeyForSandbox sb) (create_options ttl) w = (q, s', w')
       \<and> (case q of Inl e \<Rightarrow> \<exists>m. r = Inl (StatusError (if IsNoWarmCapacity e then 503 else 500) m)
          | Inr a \<Rightarrow> r = Inr (synthesizeClaimedSandbox env (cmp_Or ns (sb_Namespace sb)) name sb a)))"
proof (cases "\<not> dryRun \<and> validate sb = None \<and> (\<exists>ttl. ttlSecondsForSandbox sb (io_now env) = Inr ttl)
     \<and> (sb_Name sb \<noteq> [] \<or> sb_GenerateName sb \<noteq> [] \<and> io_generate env (sb_GenerateName sb) \<noteq> [])")
  case False
  then show ?thesis using assms
    by (auto simp: rest_Create_def Let_def split: if_splits option.splits sum.splits)
next
  case True
  then obtain ttl where ttl: "ttlSecondsForSandbox sb (io_now env) = Inr ttl" by blast
  define name where "name = (if sb_Name sb = [] \<and> sb_GenerateName sb \<noteq> [] then io_generate env (sb_GenerateName sb) else sb_Name sb)"
  obtain q s1 w1 where cl: "Claim (io_rnd env) s (cmp_Or ns (sb_Namespace sb)) name (poolKeyForSandbox sb) (create_options ttl) w = (q, s1, w1)"
    by (metis surj_pair)
  have "name \<noteq> []" using True by (auto simp: name_def)
  then have "s' = s1 \<and> w' = w1 \<and> (case q of Inl e \<Rightarrow> \<exists>m. r = Inl (StatusError (if IsNoWarmCapacity e then 503 else 500) m)
          | Inr a \<Rightarrow> r = Inr (synthesizeClaimedSandbox env (cmp_Or ns (sb_Namespace sb)) name sb a))"
    using assms True ttl cl unfolding rest_Create_def name_def [symmetric] Let_def create_options_def
    by (auto simp: k8s_NewServiceUnavailable_def k8s_NewInternalError_def split: sum.splits)
  then show ?thesis using ttl cl by blast
qed

lemma synthesized_claim [simp]:
  "claimID (synthesizeClaimedSandbox env ns name sb a) = as_SandboxName a"
  "as_Token a \<noteq> [] \<Longrightarrow> map_index (sb_Annotations (synthesizeClaimedSandbox env ns name sb a)) TokenAnnotation = as_Token a"
  "sb_NodeName (synthesizeClaimedSandbox env ns name sb a) = as_Node a"
  by (auto simp: synthesizeClaimedSandbox_def claimID_def Let_def annotation_keys AddressAnnotation_def)

text \<open>
  C34. A create keeps no confirmed grant from its caller. When it returns an error, no claim request it sent was answered
  with a grant; when it returns a Sandbox, the last request was granted and the object carries that claim's id and
  token. Either way every request but the last was answered in a way that hands over no microVM, so at most the
  last one, whose reply may have been lost, is in doubt and nothing is sent after it; and the requests asked
  for the pool and the lease the submitted Sandbox stands for.
\<close>

theorem create_no_leak:
  assumes "rest_Create env (logged_store s) ns sb validate dryRun (w, []) = (r, s', (w', log))"
  shows "(case r of
      Inl e \<Rightarrow> (\<forall>ev\<in>set log. \<exists>e'. ev_result ev = Inl e')
    | Inr out \<Rightarrow> (\<exists>res. log \<noteq> [] \<and> ev_result (last log) = Inr res \<and> claimID out = cr_ID res
        \<and> (cr_Token res \<noteq> [] \<longrightarrow> map_index (sb_Annotations out) TokenAnnotation = cr_Token res)))
    \<and> (\<forall>ev\<in>set (butlast log). \<exists>e. ev_result ev = Inl e \<and> (claimUndelivered e \<or> cs_RequirePromoted (ev_spec ev) \<and> templateGone e))
    \<and> (\<forall>ev\<in>set log. cs_Template (ev_spec ev) = pk_Template (poolKeyForSandbox sb)
         \<and> cs_Net (ev_spec ev) = pk_Net (poolKeyForSandbox sb) \<and> cs_Size (ev_spec ev) = pk_Size (poolKeyForSandbox sb)
         \<and> ttlSecondsForSandbox sb (io_now env) = Inr (cs_TTLSeconds (ev_spec ev)))"
proof (cases "(\<exists>e. r = Inl e) \<and> s' = logged_store s \<and> (w', log) = (w, [])")
  case True
  then show ?thesis by auto
next
  case False
  then obtain name ttl q where ttl: "ttlSecondsForSandbox sb (io_now env) = Inr ttl"
    and cl: "Claim (io_rnd env) (logged_store s) (cmp_Or ns (sb_Namespace sb)) name (poolKeyForSandbox sb) (create_options ttl) (w, []) = (q, s', (w', log))"
    and q: "case q of Inl e \<Rightarrow> \<exists>m. r = Inl (StatusError (if IsNoWarmCapacity e then 503 else 500) m)
          | Inr a \<Rightarrow> r = Inr (synthesizeClaimedSandbox env (cmp_Or ns (sb_Namespace sb)) name sb a)"
    using create_claims [OF assms] by blast
  have specs: "\<forall>ev\<in>set log. cs_Template (ev_spec ev) = pk_Template (poolKeyForSandbox sb)
         \<and> cs_Net (ev_spec ev) = pk_Net (poolKeyForSandbox sb) \<and> cs_Size (ev_spec ev) = pk_Size (poolKeyForSandbox sb)
         \<and> ttlSecondsForSandbox sb (io_now env) = Inr (cs_TTLSeconds (ev_spec ev))"
    using claim_request_specs [OF cl] ttl by (auto simp: claim_spec_def create_options_def)
  show ?thesis
  proof (cases q)
    case (Inl e)
    then show ?thesis using claim_requests [OF cl] q specs by auto
  next
    case (Inr a)
    then show ?thesis using claim_requests [OF cl] q specs by auto
  qed
qed

text \<open>
  A node's refusal reaches the API caller with its own status: when the owning node answers a
  lifecycle verb with an HTTP status from 400 to 499, the subresource returns an error of exactly that
  status, so a conflict or a missing sandbox is never disguised as an internal error.
\<close>

theorem refusal_passes_through:
  assumes "store_Get env s w ns name = (Inr sb, s1)" "sb_NodeName sb \<noteq> []" "claimID sb \<noteq> []"
    "nodeClient s1 w (sb_NodeName sb) ''pause'' (claimID sb) = Inr cl"
    "cl_Hibernate cl (claimID sb) w = (Inl e, w1)" "as_HTTPError e = Some (code, m)" "400 \<le> code" "code < 500"
  shows "\<exists>m'. lifecycle_Create env s ns name pause_verb None False w = (Inl (StatusError code m'), s1, w1)"
proof -
  obtain m' where "as_StatusError (nodeVerbError e ''pause'' (claimID sb) (sb_NodeName sb)) = Some (code, m')"
    using nodeVerbError_status [OF assms(6-8)] by blast
  then show ?thesis
    using assms by (auto simp: lifecycle_Create_def pause_verb_def verb_result_def Pause_def with_client_def verbError_def)
qed

section \<open>Concrete requests\<close>

definition demo_io :: io where
  "demo_io = \<lparr>io_rnd = (\<lambda>k. 0), io_sched = (\<lambda>ns. ns), io_sched' = (\<lambda>ns. ns), io_marshal = (\<lambda>md. None), io_now = second,
     io_uuid = ''u'', io_generate = (\<lambda>p. p @ ''x'')\<rparr>"

definition demo_submitted :: Sandbox where
  "demo_submitted = empty_Sandbox\<lparr>sb_Name := ''a'', sb_ShutdownTime := Some (3 * second + 1), sb_Containers :=
     [\<lparr>ct_Image = ''img'', ct_RequestsCPU = 0, ct_RequestsMemory = 0, ct_LimitsCPU = 0, ct_LimitsMemory = 0\<rparr>]\<rparr>"

theorem shutdown_lease_witness:
  "\<exists>ttl. ttlSecondsForSandbox demo_submitted second = Inr ttl \<and> 0 < ttl
    \<and> (ttl - 1) * second < (3 * second + 1) - second \<and> (3 * second + 1) - second < ttl * second + 1000"
  by (rule shutdown_lease) (simp_all add: demo_submitted_def second_def)

definition demo_api :: "(StaticInventorySource SandboxdClient \<Rightarrow> StaticInventorySource SandboxdClient) \<Rightarrow> StaticInventorySource scatterGatherStore" where
  "demo_api f = WithClaimRouting ''tok'' (\<lambda>addr tok. f null_client) read_store"

lemma demo_api_get:
  "store_Get demo_io (demo_api f) read_fleet ''ns'' ''a''
     = (Inr (entryToSandbox ''n1'' (demo_entry ''ns/a'' ''c2'')),
        (demo_api f)\<lparr>sg_index := index_remember (nameKey ''ns'' ''a'') ''n1'' (newNodeIndex nodeIndexMaxEntries)\<rparr>)"
  by (simp add: store_Get_def demo_io_def demo_api_def WithClaimRouting_def Get_def found_or_404_def lookupName_def resolve_def read_store_def NewScatterGatherStore_def newNodeIndex_def
      index_lookup_def resolve_sweep_def FirstHit_def static_source_def static_ListNodes_def read_fleet_def matchOnNode_def
      static_NodeInventory_def demo_entry_def nameMatch_def splitNamespacedName_def)

lemma demo_api_client:
  "nodeClient (demo_api f) read_fleet ''n1'' verb cid = Inr (f null_client)"
  by (simp add: nodeClient_def demo_api_def WithClaimRouting_def read_store_def NewScatterGatherStore_def static_source_def
      static_NodeCapacity_def read_fleet_def)

lemma demo_claimID: "claimID (entryToSandbox ''n1'' (demo_entry ''ns/a'' ''c2'')) = ''c2''"
  by (simp add: claimID_def demo_entry_def)

definition demo_release :: "'w SandboxdClient \<Rightarrow> 'w SandboxdClient" where
  "demo_release cl = cl\<lparr>cl_Release := (\<lambda>i t w. (Inr (), w))\<rparr>"

theorem delete_releases_claim_witness:
  "\<exists>s'. Release s' ''n1'' ''c2'' read_fleet = (Inr (), read_fleet)
     \<and> fst (rest_Delete demo_io (demo_api demo_release) ''ns'' ''a'' (\<lambda>sb. None) False read_fleet)
         = Inr (entryToSandbox ''n1'' (demo_entry ''ns/a'' ''c2''))"
proof -
  let ?sb = "entryToSandbox ''n1'' (demo_entry ''ns/a'' ''c2'')"
  let ?s = "(demo_api demo_release)\<lparr>sg_index := index_remember (nameKey ''ns'' ''a'') ''n1'' (newNodeIndex nodeIndexMaxEntries)\<rparr>"
  have run: "rest_Delete demo_io (demo_api demo_release) ''ns'' ''a'' (\<lambda>sb. None) False read_fleet = (Inr ?sb, ?s, read_fleet)"
    using demo_claimID
    by (simp add: rest_Delete_def demo_api_get Let_def claimID_def Release_def with_client_def demo_api_client demo_release_def
        demo_entry_def)
  from delete_releases_claim [OF run] run demo_claimID show ?thesis by auto
qed

definition demo_create :: "(err + Sandbox) \<times> StaticInventorySource logged scatterGatherStore \<times> StaticInventorySource logged" where
  "demo_create = rest_Create demo_io (logged_store (demo_store demo_answers)) ''ns'' demo_submitted (\<lambda>sb. None) False (demo_fleet, [])"

theorem create_no_leak_witness:
  "\<exists>out res. fst demo_create = Inr out \<and> ev_result (last (snd (snd (snd demo_create)))) = Inr res \<and> claimID out = cr_ID res"
proof -
  have "\<not> isl (fst demo_create)" by code_simp
  then obtain out where out: "fst demo_create = Inr out" by (cases "fst demo_create") auto
  then have run: "rest_Create demo_io (logged_store (demo_store demo_answers)) ''ns'' demo_submitted (\<lambda>sb. None) False (demo_fleet, [])
      = (Inr out, fst (snd demo_create), (fst (snd (snd demo_create)), snd (snd (snd demo_create))))"
    using surjective_run [of demo_create] by (simp add: demo_create_def)
  from create_no_leak [OF run] out show ?thesis by auto
qed

definition demo_busy :: "'w SandboxdClient \<Rightarrow> 'w SandboxdClient" where
  "demo_busy cl = cl\<lparr>cl_Hibernate := (\<lambda>i w. (Inl (HTTPError 409 ''busy''), w))\<rparr>"

theorem refusal_passes_through_witness:
  "\<exists>m'. lifecycle_Create demo_io (demo_api demo_busy) ''ns'' ''a'' pause_verb None False read_fleet
     = (Inl (StatusError 409 m'), (demo_api demo_busy)\<lparr>sg_index := index_remember (nameKey ''ns'' ''a'') ''n1'' (newNodeIndex nodeIndexMaxEntries)\<rparr>, read_fleet)"
  by (rule refusal_passes_through [OF demo_api_get, where cl = "demo_busy null_client" and e = "HTTPError 409 ''busy''" and m = "''busy''"])
    (simp_all add: demo_claimID demo_api_client demo_busy_def)

end
