(* ===== verification/E2B_Types.thy ===== *)
theory E2B_Types
  imports Scale_Types
begin

text \<open>
  The bodies of the e2b surface (pkg/e2bcompat/types.go) and what a handler answers with. A field the
  program never sets is left out; a raw JSON value is its text; a \<^verbatim>\<open>float32\<close> is its 32 bits.
\<close>

section \<open>Requests\<close>

text \<open>A request body as the JSON decoder finds it: a value, nothing at all, or an error.\<close>

datatype 'a request_body = BadBody err | NoBody | Body 'a

record NewSandbox =
  ns_TemplateID :: string
  ns_Timeout :: "int option"
  ns_Metadata :: "(string \<times> string) list"
  ns_AutoPause :: "bool option"
  ns_EnvVars :: "(string \<times> string) list"
  ns_Secure :: "bool option"
  ns_AllowInternetAccess :: "bool option"
  ns_Network :: "(string \<times> string) list"
  ns_VolumeMounts :: "string list"
  ns_AutoPauseMemory :: "bool option"
  ns_AutoResume :: "bool option"
  ns_MCP :: "(string \<times> string) list"
  ns_IAM :: "(string \<times> string) list"

record ConnectSandbox =
  cn_Timeout :: "int option"
  cn_Memory :: "bool option"

record ResumedSandbox = ConnectSandbox +
  cn_AutoPause :: "bool option"

record SandboxForkRequest =
  fr_Timeout :: "int option"
  fr_Count :: "int option"

record AssignTemplateTagsRequest =
  at_Target :: string
  at_Tags :: "string list"

record DeleteTemplateTagsRequest =
  dt_Name :: string
  dt_Tags :: "string list"

record TemplateBuildRequestV3 =
  br_Name :: string
  br_Alias :: string
  br_Tags :: "string list"
  br_CPUCount :: int
  br_MemoryMB :: int

section \<open>Replies\<close>

record e2b_Sandbox =
  es_TemplateID :: string
  es_SandboxID :: string
  es_ClientID :: string
  es_EnvdVersion :: string
  es_EnvdAccessToken :: string
  es_Domain :: string
  es_Alias :: string

record SandboxDetail =
  sd_TemplateID :: string
  sd_SandboxID :: string
  sd_ClientID :: string
  sd_StartedAt :: string
  sd_EndAt :: string
  sd_State :: string
  sd_EnvdVersion :: string
  sd_CPUCount :: int
  sd_MemoryMB :: int
  sd_Alias :: string
  sd_Metadata :: string
  sd_Domain :: string
  sd_startedAtKey :: string

record SnapshotInfo =
  si_SnapshotID :: string
  si_Names :: "string list"

record SandboxMetric =
  sm_Timestamp :: string
  sm_TimestampUnix :: int
  sm_CPUCount :: int
  sm_CPUUsedPct :: int
  sm_MemUsed :: int
  sm_MemTotal :: int
  sm_MemCache :: int
  sm_DiskUsed :: int
  sm_DiskTotal :: int

record Template =
  tm_TemplateID :: string
  tm_BuildID :: string
  tm_CPUCount :: int
  tm_MemoryMB :: int
  tm_Public :: bool
  tm_Aliases :: "string list"
  tm_Names :: "string list"
  tm_CreatedAt :: string
  tm_UpdatedAt :: string
  tm_BuildCount :: int
  tm_EnvdVersion :: string
  tm_BuildStatus :: string

record TemplateBuild =
  tb_BuildID :: string
  tb_Status :: string
  tb_CreatedAt :: string
  tb_UpdatedAt :: string
  tb_FinishedAt :: string
  tb_CPUCount :: int
  tb_MemoryMB :: int
  tb_EnvdVersion :: string

record TemplateWithBuilds =
  tw_TemplateID :: string
  tw_Public :: bool
  tw_Aliases :: "string list"
  tw_Names :: "string list"
  tw_CreatedAt :: string
  tw_UpdatedAt :: string
  tw_Builds :: "TemplateBuild list"

record AssignedTemplateTags =
  aa_Tags :: "string list"
  aa_BuildID :: string

record TemplateTag =
  tt_Tag :: string
  tt_BuildID :: string
  tt_CreatedAt :: string

record TemplateRequestResponseV3 =
  tr_TemplateID :: string
  tr_BuildID :: string
  tr_Public :: bool
  tr_Names :: "string list"
  tr_Tags :: "string list"
  tr_Aliases :: "string list"

record BuildLogEntry =
  bl_Timestamp :: string
  bl_Message :: msg
  bl_Level :: string
  bl_Step :: string

record BuildStatusReason =
  bs_Message :: msg
  bs_Step :: string
  bs_LogEntries :: "BuildLogEntry list"

record TemplateBuildInfo =
  bi_TemplateID :: string
  bi_BuildID :: string
  bi_Status :: string
  bi_LogEntries :: "BuildLogEntry list"
  bi_Reason :: "BuildStatusReason option"

record TemplateBuildFileUpload =
  fu_Present :: bool
  fu_URL :: string
  fu_Headers :: "(string \<times> string) list"

datatype e2b_body =
    J_Sandbox e2b_Sandbox
  | J_Details "SandboxDetail list"
  | J_Detail SandboxDetail
  | J_Forks "e2b_Sandbox list"
  | J_Snapshot SnapshotInfo
  | J_Snapshots "SnapshotInfo list"
  | J_Metrics "SandboxMetric list"
  | J_MetricsOf "(string \<times> SandboxMetric) list"
  | J_Logs
  | J_LogsV2
  | J_Templates "Template list"
  | J_Template TemplateWithBuilds
  | J_Alias string bool
  | J_Assigned AssignedTemplateTags
  | J_Tags "TemplateTag list"
  | J_Build TemplateRequestResponseV3
  | J_BuildInfo TemplateBuildInfo
  | J_Upload TemplateBuildFileUpload

text \<open>What a handler writes: a bare status, a body, a body with the token of the next page, or an error.\<close>

datatype e2b_reply =
    WriteHeader int
  | WriteJSON int e2b_body
  | WritePage int e2b_body string
  | WriteErr int msg

definition reply_status :: "e2b_reply \<Rightarrow> int" where
  "reply_status r = (case r of WriteHeader c \<Rightarrow> c | WriteJSON c b \<Rightarrow> c | WritePage c b t \<Rightarrow> c | WriteErr c m \<Rightarrow> c)"

lemma reply_status_simps [simp]:
  "reply_status (WriteHeader c) = c" "reply_status (WriteJSON c b) = c"
  "reply_status (WritePage c b t) = c" "reply_status (WriteErr c m) = c"
  by (simp_all add: reply_status_def)

section \<open>Bodies\<close>

definition bad_body :: "err \<Rightarrow> e2b_reply" where
  "bad_body e = WriteErr 400 (Msg ''invalid request body: %v'' [])"

definition EOF :: err where "EOF = PlainError (Msg ''EOF'' [])"

text \<open>\<^verbatim>\<open>decodeBody\<close> needs a value; \<^verbatim>\<open>decodeOptionalBody\<close> takes nothing for the zero value.\<close>

definition decodeBody :: "'a request_body \<Rightarrow> e2b_reply + 'a" where
  "decodeBody b = (case b of BadBody e \<Rightarrow> Inl (bad_body e) | NoBody \<Rightarrow> Inl (bad_body EOF) | Body a \<Rightarrow> Inr a)"

definition decodeOptionalBody :: "'a \<Rightarrow> 'a request_body \<Rightarrow> e2b_reply + 'a" where
  "decodeOptionalBody zero b = (case b of BadBody e \<Rightarrow> Inl (bad_body e) | NoBody \<Rightarrow> Inr zero | Body a \<Rightarrow> Inr a)"

text \<open>A handler that goes on with what a step gave and answers with what it refused.\<close>

definition and_then :: "e2b_reply + 'a \<Rightarrow> ('a \<Rightarrow> e2b_reply) \<Rightarrow> e2b_reply" where
  "and_then r f = (case r of Inl e \<Rightarrow> e | Inr a \<Rightarrow> f a)"

end
