(* ===== verification/E2B_Config.thy ===== *)
theory E2B_Config
  imports E2B_Types Pool_Key E2B_Ids
begin

text \<open>
  The e2b server as it is configured (pkg/e2bcompat/server.go): the API keys with the namespaces they
  scope, the template aliases, and the authentication every handler but the health probe runs behind.
\<close>

record 'w server_options =
  so_Namespace :: string
  so_Domain :: string
  so_EnvdVersion :: string
  so_DefaultTimeoutSeconds :: int
  so_APIKeys :: "string list"
  so_AllowAnonymous :: bool
  so_Inventory :: "'w InventorySource option"
  so_TemplateAliases :: "string list"
  so_EnvdSecret :: string

record 'w Server =
  sv_opts :: "'w server_options"
  sv_keys :: "(string \<times> string) list"
  sv_aliases :: "(string \<times> PoolKey) list"
  sv_imageAliases :: "(string \<times> string list) list"

definition DefaultEnvdVersion :: string where "DefaultEnvdVersion = ''0.8.0''"
definition DefaultTimeoutSeconds :: int where "DefaultTimeoutSeconds = 300"
definition e2b_apiKeyHeader :: string where "e2b_apiKeyHeader = ''X-API-KEY''"

definition sizeClasses :: "string list" where
  "sizeClasses = [SizeClassSmall, SizeClassMedium, SizeClassLarge]"

fun parse_keys :: "string \<Rightarrow> string list \<Rightarrow> (string \<times> string) list \<Rightarrow> err + (string \<times> string) list" where
  "parse_keys ns [] keys = Inr keys"
| "parse_keys ns (entry # entries) keys =
     (case strings_Fields entry of
        [] \<Rightarrow> parse_keys ns entries keys
      | [key] \<Rightarrow> parse_keys ns entries (AList.update key ns keys)
      | [key, kns] \<Rightarrow> parse_keys ns entries (AList.update key kns keys)
      | _ \<Rightarrow> Inl (PlainError (Msg ''e2bcompat: api key entry %q: want \"key\" or \"key namespace\"'' [entry])))"

definition append_alias :: "string \<Rightarrow> string \<Rightarrow> (string \<times> string list) list \<Rightarrow> (string \<times> string list) list" where
  "append_alias img al m = AList.update img ((case map_of m img of None \<Rightarrow> [] | Some l \<Rightarrow> l) @ [al]) m"

definition alias_key :: "string \<Rightarrow> string \<Rightarrow> string list \<Rightarrow> err + PoolKey" where
  "alias_key al img sz =
     (case sz of
        [] \<Rightarrow> Inr \<lparr>pk_Template = img, pk_Net = [], pk_Size = SizeClassSmall\<rparr>
      | sz0 # _ \<Rightarrow>
          if sz0 \<notin> set sizeClasses
          then Inl (PlainError (Msg ''e2bcompat: template alias %q: size %q is not one of %v'' [al, sz0]))
          else Inr \<lparr>pk_Template = img, pk_Net = [], pk_Size = sz0\<rparr>)"

fun parse_aliases :: "string list \<Rightarrow> (string \<times> PoolKey) list \<times> (string \<times> string list) list
   \<Rightarrow> err + (string \<times> PoolKey) list \<times> (string \<times> string list) list" where
  "parse_aliases [] acc = Inr acc"
| "parse_aliases (entry # entries) (aliases, images) =
     (case strings_Fields entry of
        al # img # sz \<Rightarrow>
          if length sz > 1 then Inl (PlainError (Msg ''e2bcompat: template alias entry %q: want \"alias image [size]\"'' [entry]))
          else if map_of aliases al \<noteq> None
          then Inl (PlainError (Msg ''e2bcompat: template alias %q is named twice'' [al]))
          else (case alias_key al img sz of
                  Inl e \<Rightarrow> Inl e
                | Inr key \<Rightarrow> parse_aliases entries (AList.update al key aliases, append_alias img al images))
      | _ \<Rightarrow> Inl (PlainError (Msg ''e2bcompat: template alias entry %q: want \"alias image [size]\"'' [entry])))"

definition with_defaults :: "'w server_options \<Rightarrow> 'w server_options" where
  "with_defaults opts =
     opts\<lparr>so_Namespace := cmp_Or (so_Namespace opts) ''default'', so_EnvdVersion := cmp_Or (so_EnvdVersion opts) DefaultEnvdVersion,
          so_DefaultTimeoutSeconds := cmp_OrI (so_DefaultTimeoutSeconds opts) DefaultTimeoutSeconds\<rparr>"

definition server_New :: "'w server_options \<Rightarrow> err + 'w Server" where
  "server_New opts0 =
     (let opts = with_defaults opts0
      in case parse_keys (so_Namespace opts) (so_APIKeys opts) [] of
           Inl e \<Rightarrow> Inl e
         | Inr keys \<Rightarrow>
             if keys = [] \<and> \<not> so_AllowAnonymous opts
             then Inl (PlainError (Msg ''e2bcompat: no API key configured; set one or enable anonymous access explicitly'' []))
             else if strings_TrimSpace (so_Domain opts) = []
             then Inl (PlainError (Msg ''e2bcompat: no domain configured; the SDK cannot reach a sandbox without one'' []))
             else if so_EnvdSecret opts = []
             then Inl (PlainError (Msg ''e2bcompat: an envd secret is required: every sandbox's access token derives from it'' []))
             else (case parse_aliases (so_TemplateAliases opts) ([], []) of
                     Inl e \<Rightarrow> Inl e
                   | Inr (aliases, images) \<Rightarrow>
                       Inr \<lparr>sv_opts = opts, sv_keys = keys, sv_aliases = aliases,
                            sv_imageAliases = map (\<lambda>(img, names). (img, sort names)) images\<rparr>))"

definition namespaceForKey :: "'w Server \<Rightarrow> string \<Rightarrow> string option" where
  "namespaceForKey s presented = (if presented = [] then None else map_of (sv_keys s) presented)"

text \<open>\<^verbatim>\<open>auth\<close>: the refusal, or the namespace the handler behind it sees.\<close>

definition auth :: "'w Server \<Rightarrow> string \<Rightarrow> e2b_reply + string" where
  "auth s header =
     (if sv_keys s \<noteq> [] then
        (case namespaceForKey s header of
           None \<Rightarrow> Inl (WriteErr 401 (Msg ''invalid API key'' []))
         | Some ns \<Rightarrow> Inr ns)
      else Inr (so_Namespace (sv_opts s)))"

definition aliasOf :: "'w Server \<Rightarrow> string \<Rightarrow> string" where
  "aliasOf s img = (case map_of (sv_imageAliases s) img of Some (a # _) \<Rightarrow> a | _ \<Rightarrow> [])"

definition server_poolKey :: "'w Server \<Rightarrow> string \<Rightarrow> PoolKey" where
  "server_poolKey s templateID =
     (case map_of (sv_aliases s) templateID of
        Some key \<Rightarrow> key
      | None \<Rightarrow> \<lparr>pk_Template = templateID, pk_Net = [], pk_Size = SizeClassSmall\<rparr>)"

definition netFor :: "bool option \<Rightarrow> string" where
  "netFor allowInternet = (if allowInternet = Some True then NetEgress else NetDefault)"

definition timeoutSeconds :: "'w Server \<Rightarrow> int option \<Rightarrow> int" where
  "timeoutSeconds s v = (case v of None \<Rightarrow> so_DefaultTimeoutSeconds (sv_opts s) | Some t \<Rightarrow> t)"

section \<open>Lemmas\<close>

text \<open>No server without keys serves anyone unless it was told to.\<close>

lemma server_New_keys: "server_New opts = Inr s \<Longrightarrow> sv_keys s \<noteq> [] \<or> so_AllowAnonymous opts"
  by (auto simp: server_New_def Let_def with_defaults_def split: sum.splits prod.splits if_splits)

lemma append_alias_images:
  "map_of (append_alias img al m) i =
     (if i = img then Some ((case map_of m img of None \<Rightarrow> [] | Some l \<Rightarrow> l) @ [al]) else map_of m i)"
  by (simp add: append_alias_def update_conv')

text \<open>The image table lists exactly the aliases of each image.\<close>

definition aliases_ok :: "(string \<times> PoolKey) list \<times> (string \<times> string list) list \<Rightarrow> bool" where
  "aliases_ok t \<longleftrightarrow> (\<forall>img al. (\<exists>key. map_of (fst t) al = Some key \<and> pk_Template key = img)
     \<longleftrightarrow> (\<exists>names. map_of (snd t) img = Some names \<and> al \<in> set names))"

lemma alias_key_template: "alias_key al img sz = Inr key \<Longrightarrow> pk_Template key = img"
  by (auto simp: alias_key_def split: list.splits if_splits)

lemma parse_aliases_ok: "parse_aliases entries t = Inr t' \<Longrightarrow> aliases_ok t \<Longrightarrow> aliases_ok t'"
proof (induction entries t rule: parse_aliases.induct)
  case (2 entry entries aliases images)
  from 2(2) obtain al img sz key where f: "strings_Fields entry = al # img # sz" "map_of aliases al = None"
    "\<not> length sz > 1" "alias_key al img sz = Inr key"
    "parse_aliases entries (AList.update al key aliases, append_alias img al images) = Inr t'"
    by (auto split: list.splits if_splits sum.splits)
  have "aliases_ok (AList.update al key aliases, append_alias img al images)"
    using 2(3) f(2) alias_key_template [OF f(4)]
    by (auto simp: aliases_ok_def update_conv' append_alias_images split: option.splits if_splits) (metis option.distinct(1))+
  with 2(1) [OF f(1) refl f(3) _ f(4)] f(2,5) show ?case by simp
qed simp

end
