(* ===== verification/E2B_List.thy ===== *)
theory E2B_List
  imports Sandbox_REST E2B_Config "HOL-Library.Multiset"
begin

text \<open>
  The listing of the e2b surface (pkg/e2bcompat/server.go): the details of a live sandbox, the filter and
  the pages of a list query. What the handlers of this surface draw from outside is the record \<open>e2b_env\<close>:
  the store's \<open>io\<close>, the mapping of non-ASCII letters to lower case, the keyed hash, \<^verbatim>\<open>time.Parse\<close> of
  RFC 3339, the JSON decoder of the metadata and the selector library. One request reads one clock.
\<close>

record e2b_env = io +
  ev_lower :: "string \<Rightarrow> string"
  ev_mac :: "string \<Rightarrow> string \<Rightarrow> string"
  ev_parseTime :: "string \<Rightarrow> err + time"
  ev_unmarshal :: "string \<Rightarrow> (string \<times> string) list option"
  ev_selectors :: selector_lib

section \<open>Base64 and unescapes\<close>

definition b64_alphabet :: string where
  "b64_alphabet = ''ABCDEFGHIJKLMNOPQRSTUVWXYZabcdefghijklmnopqrstuvwxyz0123456789-_''"

definition b64_char :: "nat \<Rightarrow> char" where
  "b64_char n = b64_alphabet ! n"

definition b64_val :: "char \<Rightarrow> nat option" where
  "b64_val c = map_of (zip b64_alphabet [0..<64]) c"

text \<open>\<^verbatim>\<open>base64.RawURLEncoding\<close>: three bytes become four characters, a short last group fewer, unpadded.\<close>

fun b64_sextets :: "nat list \<Rightarrow> nat list" where
  "b64_sextets [] = []"
| "b64_sextets [a] = [a div 4, a mod 4 * 16]"
| "b64_sextets [a, b] = [a div 4, a mod 4 * 16 + b div 16, b mod 16 * 4]"
| "b64_sextets (a # b # c # rest) =
     [a div 4, a mod 4 * 16 + b div 16, b mod 16 * 4 + c div 64, c mod 64] @ b64_sextets rest"

fun b64_groups :: "nat list \<Rightarrow> nat list option" where
  "b64_groups [] = Some []"
| "b64_groups [w] = None"
| "b64_groups [w, x] = Some [w * 4 + x div 16]"
| "b64_groups [w, x, y] = Some [w * 4 + x div 16, x mod 16 * 16 + y div 4]"
| "b64_groups (w # x # y # z # rest) =
     map_option (\<lambda>t. [w * 4 + x div 16, x mod 16 * 16 + y div 4, y mod 4 * 64 + z] @ t) (b64_groups rest)"

fun b64_vals :: "string \<Rightarrow> nat list option" where
  "b64_vals [] = Some []"
| "b64_vals (c # cs) =
     (case b64_val c of None \<Rightarrow> None | Some v \<Rightarrow> map_option ((#) v) (b64_vals cs))"

text \<open>The decoder skips line breaks and does not mind the unused bits of a short last group.\<close>

definition base64_Encode :: "string \<Rightarrow> string" where
  "base64_Encode s = map b64_char (b64_sextets (map of_char s))"

definition base64_Decode :: "string \<Rightarrow> string option" where
  "base64_Decode s =
     (case b64_vals (filter (\<lambda>c. c \<noteq> CHR 0x0A \<and> c \<noteq> CHR 0x0D) s) of
        None \<Rightarrow> None
      | Some vs \<Rightarrow> map_option (map char_of) (b64_groups vs))"

definition hex_digit_val :: "char \<Rightarrow> nat option" where
  "hex_digit_val c =
     (if is_digit c then Some (digit_val c)
      else if CHR ''a'' \<le> c \<and> c \<le> CHR ''f'' then Some (of_char c - 87)
      else if CHR ''A'' \<le> c \<and> c \<le> CHR ''F'' then Some (of_char c - 55) else None)"

text \<open>\<^verbatim>\<open>url.QueryUnescape\<close> and \<^verbatim>\<open>url.PathUnescape\<close>, which differ in the plus sign.\<close>

fun url_unescape :: "bool \<Rightarrow> string \<Rightarrow> string option" where
  "url_unescape form [] = Some []"
| "url_unescape form (c # cs) =
     (if c = CHR ''%'' then
        (case cs of
           a # b # rest \<Rightarrow>
             (case (hex_digit_val a, hex_digit_val b) of
                (Some x, Some y) \<Rightarrow> map_option ((#) (char_of (16 * x + y))) (url_unescape form rest)
              | _ \<Rightarrow> None)
         | _ \<Rightarrow> None)
      else map_option ((#) (if form \<and> c = CHR ''+'' then CHR '' '' else c)) (url_unescape form cs))"

definition unescapeTwice :: "string \<Rightarrow> string option" where
  "unescapeTwice s = (case url_unescape True s of None \<Rightarrow> None | Some once \<Rightarrow> url_unescape False once)"

section \<open>Details\<close>

definition StateRunning :: string where "StateRunning = ''running''"
definition StatePaused :: string where "StatePaused = ''paused''"
definition templatePrefix :: string where "templatePrefix = ''e2b/''"
definition maxListLimit :: int where "maxListLimit = 100"

text \<open>\<^verbatim>\<open>strconv.ParseInt\<close> with its error ignored: 0 for no number, the nearest bound out of range.\<close>

definition parse_int64 :: "string \<Rightarrow> int" where
  "parse_int64 s =
     (let (neg, t) = (case s of
        [] \<Rightarrow> (False, [])
      | c # cs \<Rightarrow> if c = CHR ''-'' then (True, cs) else if c = CHR ''+'' then (False, cs) else (False, s))
      in case parse_digits t of
           None \<Rightarrow> 0
         | Some n \<Rightarrow> if neg then max (- (2 ^ 63)) (- int n) else min (2 ^ 63 - 1) (int n))"

definition annotationInt :: "Sandbox \<Rightarrow> string \<Rightarrow> int" where
  "annotationInt sb key =
     (let raw = map_index (sb_Annotations sb) key
      in if raw = [] then 0 else parse_int64 raw)"

definition claimIDOf :: "Sandbox \<Rightarrow> string" where
  "claimIDOf sb = map_index (sb_Annotations sb) ClaimIDAnnotation"

definition templateOf :: "Sandbox \<Rightarrow> string" where
  "templateOf sb =
     (let t = map_index (sb_Labels sb) TemplateLabel
      in case strings_CutPrefix t (templatePrefix @ sb_Namespace sb @ ''/'') of Some name \<Rightarrow> name | None \<Rightarrow> t)"

definition detailFor :: "e2b_env \<Rightarrow> 'w Server \<Rightarrow> Sandbox \<Rightarrow> SandboxDetail" where
  "detailFor env s sb =
     (let started = (if time_IsZero (sb_CreationTimestamp sb) then io_now env else sb_CreationTimestamp sb);
          state = (if map_index (sb_Labels sb) PhaseLabel = PhaseHibernated then StatePaused else StateRunning);
          endAt = (case ev_parseTime env (map_index (sb_Annotations sb) DeadlineAnnotation) of
                     Inr deadline \<Rightarrow> deadline
                   | Inl _ \<Rightarrow> started + wrap64 (so_DefaultTimeoutSeconds (sv_opts s) * second))
      in \<lparr>sd_TemplateID = templateOf sb, sd_SandboxID = PublicID (ev_lower env) (claimIDOf sb), sd_ClientID = sb_NodeName sb,
          sd_StartedAt = format_RFC3339 started, sd_EndAt = format_RFC3339 endAt, sd_State = state,
          sd_EnvdVersion = so_EnvdVersion (sv_opts s), sd_CPUCount = wrap32 (annotationInt sb CPUCountAnnotation),
          sd_MemoryMB = wrap32 (annotationInt sb MemoryBytesAnnotation div 2 ^ 20), sd_Alias = aliasOf s (templateOf sb),
          sd_Metadata = map_index (sb_Annotations sb) MetadataAnnotation, sd_Domain = so_Domain (sv_opts s),
          sd_startedAtKey = format_RFC3339 (sb_CreationTimestamp sb)\<rparr>)"

section \<open>Filters\<close>

text \<open>\<^verbatim>\<open>url.Values\<close>: the values of each key in order.\<close>

type_synonym url_values = "string \<Rightarrow> string list"

definition query_Get :: "url_values \<Rightarrow> string \<Rightarrow> string" where
  "query_Get q k = (case q k of [] \<Rightarrow> [] | v # _ \<Rightarrow> v)"

record listFilter =
  lf_states :: "string list"
  lf_template :: string
  lf_startedAfter :: time
  lf_metadata :: "(string \<times> string) list"

fun metadata_pairs :: "string \<Rightarrow> string list \<Rightarrow> (string \<times> string) list \<Rightarrow> msg + (string \<times> string) list" where
  "metadata_pairs query [] md = Inr md"
| "metadata_pairs query (pair # pairs) md =
     (let bad = Inl (Msg ''metadata filter %q must be URL-encoded key=value pairs joined by &'' [query])
      in case strings_Cut pair ''='' of
           None \<Rightarrow> bad
         | Some (rawKey, rawValue) \<Rightarrow>
             (case (unescapeTwice rawKey, unescapeTwice rawValue) of
                (Some key, Some val) \<Rightarrow>
                  if key = [] then bad
                  else if map_of md key \<noteq> None then Inl (Msg ''metadata filter repeats key %q'' [key])
                  else metadata_pairs query pairs (AList.update key val md)
              | _ \<Rightarrow> bad))"

definition metadataFilterOf :: "string \<Rightarrow> msg + (string \<times> string) list" where
  "metadataFilterOf query = metadata_pairs query (strings_Split query (CHR ''&'')) []"

fun known_states :: "string list \<Rightarrow> msg + string list" where
  "known_states [] = Inr []"
| "known_states (state # states) =
     (if state \<noteq> StateRunning \<and> state \<noteq> StatePaused then Inl (Msg ''unknown state %q'' [state])
      else (case known_states states of Inl m \<Rightarrow> Inl m | Inr l \<Rightarrow> Inr (state # l)))"

definition listFilterOf :: "e2b_env \<Rightarrow> url_values \<Rightarrow> msg + listFilter" where
  "listFilterOf env q =
     (let md = query_Get q ''metadata''; after = query_Get q ''startedAfter''
      in case (if md = [] then Inr [] else metadataFilterOf md) of
           Inl m \<Rightarrow> Inl m
         | Inr metadata \<Rightarrow>
             (case known_states (concat (map (\<lambda>v. strings_Split v (CHR '','')) (q ''state''))) of
                Inl m \<Rightarrow> Inl m
              | Inr states \<Rightarrow>
                  (case (if after = [] then Inr 0 else ev_parseTime env after) of
                     Inl e \<Rightarrow> Inl (Msg ''startedAfter: %w'' [after])
                   | Inr t \<Rightarrow> Inr \<lparr>lf_states = states, lf_template = query_Get q ''template'',
                                   lf_startedAfter = t, lf_metadata = metadata\<rparr>)))"

definition keeps :: "e2b_env \<Rightarrow> listFilter \<Rightarrow> SandboxDetail \<Rightarrow> bool" where
  "keeps env f d =
     ((lf_states f = [] \<or> sd_State d \<in> set (lf_states f))
      \<and> (lf_template f = [] \<or> sd_TemplateID d = lf_template f)
      \<and> (time_IsZero (lf_startedAfter f)
         \<or> (case ev_parseTime env (sd_StartedAt d) of Inl _ \<Rightarrow> 0 | Inr t \<Rightarrow> t)
            \<ge> lf_startedAfter f - lf_startedAfter f mod second))"

definition matchesMetadata :: "e2b_env \<Rightarrow> listFilter \<Rightarrow> Sandbox \<Rightarrow> bool" where
  "matchesMetadata env f sb =
     (let md = (case MetadataOf (ev_unmarshal env) sb of None \<Rightarrow> [] | Some l \<Rightarrow> l)
      in list_all (\<lambda>(k, v). map_of md k = Some v) (lf_metadata f))"

section \<open>Pages\<close>

type_synonym pageKey = "string \<times> string"

record listPage =
  lp_limit :: int
  lp_desc :: bool
  lp_after :: pageKey

definition listPageOf :: "url_values \<Rightarrow> msg + listPage" where
  "listPageOf q =
     (let v = query_Get q ''limit''; ord = query_Get q ''order''; token = query_Get q ''nextToken''
      in case (if v = [] then Some maxListLimit
               else (case strconv_Atoi v of
                       None \<Rightarrow> None
                     | Some n \<Rightarrow> if n < 1 \<or> n > maxListLimit then None else Some n)) of
           None \<Rightarrow> Inl (Msg ''limit must be between 1 and %d, got %q'' [strconv_Itoa maxListLimit, v])
         | Some limit \<Rightarrow>
             if ord \<notin> {[], ''desc'', ''asc''} then Inl (Msg ''order must be asc or desc, got %q'' [ord])
             else if token = [] then Inr \<lparr>lp_limit = limit, lp_desc = (ord \<noteq> ''asc''), lp_after = ([], [])\<rparr>
             else (case base64_Decode token of
                     None \<Rightarrow> Inl (Msg ''nextToken %q was not issued by this server'' [token])
                   | Some raw \<Rightarrow>
                       (case strings_Cut raw '' '' of
                          None \<Rightarrow> Inl (Msg ''nextToken %q was not issued by this server'' [token])
                        | Some after \<Rightarrow> Inr \<lparr>lp_limit = limit, lp_desc = (ord \<noteq> ''asc''), lp_after = after\<rparr>)))"

definition strings_Compare :: "string \<Rightarrow> string \<Rightarrow> int" where
  "strings_Compare a b = (if a = b then 0 else if a < b then - 1 else 1)"

definition page_compare :: "listPage \<Rightarrow> pageKey \<Rightarrow> pageKey \<Rightarrow> int" where
  "page_compare p a b =
     (let c = cmp_OrI (strings_Compare (fst a) (fst b)) (strings_Compare (snd a) (snd b))
      in if lp_desc p then - c else c)"

definition keyOf :: "SandboxDetail \<Rightarrow> pageKey" where
  "keyOf d = (sd_startedAtKey d, sd_SandboxID d)"

text \<open>\<^verbatim>\<open>slices.SortFunc\<close>; the order it leaves equal items in is not specified.\<close>

fun insort_by :: "('a \<Rightarrow> 'a \<Rightarrow> int) \<Rightarrow> 'a \<Rightarrow> 'a list \<Rightarrow> 'a list" where
  "insort_by cmp x [] = [x]"
| "insort_by cmp x (y # ys) = (if cmp x y \<le> 0 then x # y # ys else y # insort_by cmp x ys)"

definition slices_SortFunc :: "('a \<Rightarrow> 'a \<Rightarrow> int) \<Rightarrow> 'a list \<Rightarrow> 'a list" where
  "slices_SortFunc cmp xs = foldr (insort_by cmp) xs []"

definition page_token :: "SandboxDetail \<Rightarrow> string" where
  "page_token d = base64_Encode (sd_startedAtKey d @ '' '' @ sd_SandboxID d)"

definition page_cut :: "listPage \<Rightarrow> SandboxDetail list \<Rightarrow> SandboxDetail list \<times> string" where
  "page_cut p items0 =
     (let items1 = (if lp_after p \<noteq> ([], []) then filter (\<lambda>d. \<not> page_compare p (keyOf d) (lp_after p) \<le> 0) items0 else items0);
          items = slices_SortFunc (\<lambda>a b. page_compare p (keyOf a) (keyOf b)) items1
      in if int (length items) \<le> lp_limit p then (items, [])
         else (take (nat (lp_limit p)) items, page_token (items ! nat (lp_limit p - 1))))"

section \<open>The handlers\<close>

definition listed :: "e2b_env \<Rightarrow> 'w Server \<Rightarrow> 'w scatterGatherStore \<Rightarrow> string \<Rightarrow> url_values \<Rightarrow> 'w
   \<Rightarrow> (e2b_reply + SandboxDetail list) \<times> 'w scatterGatherStore" where
  "listed env s st ns q w =
     (case listFilterOf env q of
        Inl m \<Rightarrow> (Inl (WriteErr 400 m), st)
      | Inr f0 \<Rightarrow>
          (let f = f0\<lparr>lf_template := pk_Template (server_poolKey s (lf_template f0))\<rparr>
           in case store_List (ev_selectors env) (io_marshal env) (io_sched env) (io_sched' env) st w
                \<lparr>lo_Namespace = ns, lo_LabelSelector = [], lo_FieldSelector = [], lo_WatchList = False\<rparr> of
                (Inl e, st') \<Rightarrow> (Inl (WriteErr 500 (Msg ''failed to list sandboxes'' [])), st')
              | (Inr items, st') \<Rightarrow>
                  (Inr (filter (keeps env f) (map (detailFor env s) (filter (matchesMetadata env f) items))), st')))"

definition e2b_listSandboxes :: "e2b_env \<Rightarrow> 'w Server \<Rightarrow> 'w scatterGatherStore \<Rightarrow> string \<Rightarrow> url_values \<Rightarrow> 'w
   \<Rightarrow> e2b_reply \<times> 'w scatterGatherStore" where
  "e2b_listSandboxes env s st ns q w =
     (case listed env s st ns q w of
        (Inl r, st') \<Rightarrow> (r, st')
      | (Inr out, st') \<Rightarrow> (WriteJSON 200 (J_Details out), st'))"

definition listSandboxesV2 :: "e2b_env \<Rightarrow> 'w Server \<Rightarrow> 'w scatterGatherStore \<Rightarrow> string \<Rightarrow> url_values \<Rightarrow> 'w
   \<Rightarrow> e2b_reply \<times> 'w scatterGatherStore" where
  "listSandboxesV2 env s st ns q w =
     (case listPageOf q of
        Inl m \<Rightarrow> (WriteErr 400 m, st)
      | Inr page \<Rightarrow>
          (case listed env s st ns q w of
             (Inl r, st') \<Rightarrow> (r, st')
           | (Inr out, st') \<Rightarrow> (let (items, next) = page_cut page out in (WritePage 200 (J_Details items) next, st'))))"

section \<open>Base64 round trip\<close>

lemma b64_val_char: "n < 64 \<Longrightarrow> b64_val (b64_char n) = Some n"
proof -
  have "\<forall>n \<in> set [0..<64]. b64_val (b64_char n) = Some n" by code_simp
  then show "n < 64 \<Longrightarrow> b64_val (b64_char n) = Some n" by simp
qed

lemma b64_char_visible: "n < 64 \<Longrightarrow> b64_char n \<noteq> CHR 0x0A \<and> b64_char n \<noteq> CHR 0x0D"
proof -
  have "\<forall>n \<in> set [0..<64]. b64_char n \<noteq> CHR 0x0A \<and> b64_char n \<noteq> CHR 0x0D" by code_simp
  then show "n < 64 \<Longrightarrow> b64_char n \<noteq> CHR 0x0A \<and> b64_char n \<noteq> CHR 0x0D" by simp
qed

lemma b64_vals_chars: "\<forall>n \<in> set ns. n < 64 \<Longrightarrow> b64_vals (map b64_char ns) = Some ns"
  by (induction ns) (auto simp: b64_val_char)

lemma byte_sextets:
  fixes a b c :: nat
  shows "a < 256 \<Longrightarrow> a div 4 < 64" and "b < 256 \<Longrightarrow> a mod 4 * 16 + b div 16 < 64"
    and "c < 256 \<Longrightarrow> b mod 16 * 4 + c div 64 < 64"
  using mod_less_divisor [of 4 a] mod_less_divisor [of 16 b] by linarith+

lemma split_digit: "(x :: nat) < m \<Longrightarrow> (y * m + x) div m = y" "(x :: nat) < m \<Longrightarrow> (y * m + x) mod m = x"
  by (simp_all add: div_mult_self3)

lemma high_bits: "(b :: nat) < 256 \<Longrightarrow> b div 16 < 16" "(c :: nat) < 256 \<Longrightarrow> c div 64 < 4"
  by linarith+

lemma sextet_bytes:
  fixes a b c :: nat
  shows "a div 4 * 4 + a mod 4 * 16 div 16 = a"
    and "b < 256 \<Longrightarrow> a div 4 * 4 + (a mod 4 * 16 + b div 16) div 16 = a"
    and "b < 256 \<Longrightarrow> (a mod 4 * 16 + b div 16) mod 16 * 16 + b mod 16 = b"
    and "b < 256 \<Longrightarrow> c < 256 \<Longrightarrow> (a mod 4 * 16 + b div 16) mod 16 * 16 + (b mod 16 * 4 + c div 64) div 4 = b"
    and "c < 256 \<Longrightarrow> (b mod 16 * 4 + c div 64) mod 4 * 64 + c mod 64 = c"
  by (simp_all only: split_digit high_bits div_mult_mod_eq nonzero_mult_div_cancel_right zero_neq_numeral not_False_eq_True)

lemma b64_sextets_range: "\<forall>n \<in> set ns. n < 256 \<Longrightarrow> \<forall>n \<in> set (b64_sextets ns). n < 64"
proof (induction ns rule: b64_sextets.induct)
  case (2 a)
  then show ?case using byte_sextets(1) [of a] byte_sextets(2) [of 0 a] by simp
next
  case (3 a b)
  then show ?case using byte_sextets(1) [of a] byte_sextets(2) [of b a] byte_sextets(3) [of 0 b] by simp
next
  case (4 a b c rest)
  then show ?case using byte_sextets(1) [of a] byte_sextets(2) [of b a] byte_sextets(3) [of c b] by simp
qed simp

lemma b64_groups_sextets: "\<forall>n \<in> set ns. n < 256 \<Longrightarrow> b64_groups (b64_sextets ns) = Some ns"
proof (induction ns rule: b64_sextets.induct)
  case (2 a)
  show ?case using sextet_bytes(1) [of a] by simp
next
  case (3 a b)
  then show ?case using sextet_bytes(2,3) [of b a] by simp
next
  case (4 a b c rest)
  then show ?case using sextet_bytes(2) [of b a] sextet_bytes(4) [of b c a] sextet_bytes(5) [of c b] by simp
qed simp

lemma base64_roundtrip: "base64_Decode (base64_Encode s) = Some s"
proof -
  define ns where "ns = b64_sextets (map of_char s)"
  have b: "\<forall>n \<in> set (map of_char s). n < (256 :: nat)" by auto
  note r = b64_sextets_range [OF b, folded ns_def]
  have "filter (\<lambda>c. c \<noteq> CHR 0x0A \<and> c \<noteq> CHR 0x0D) (map b64_char ns) = map b64_char ns"
    using r by (auto simp: filter_id_conv dest!: b64_char_visible)
  then show ?thesis
    using b64_vals_chars [OF r] b64_groups_sextets [OF b]
    by (simp add: base64_Decode_def base64_Encode_def ns_def [symmetric] comp_def)
qed

lemma base64_Encode_Nil [simp]: "base64_Encode s = [] \<longleftrightarrow> s = []"
  using base64_roundtrip [of s] by (auto simp: base64_Encode_def base64_Decode_def)

section \<open>Sorting and cutting\<close>

lemma page_compare_less:
  "page_compare p a b < 0 \<longleftrightarrow>
     (if lp_desc p then fst b < fst a \<or> fst b = fst a \<and> snd b < snd a else fst a < fst b \<or> fst a = fst b \<and> snd a < snd b)"
  by (auto simp: page_compare_def strings_Compare_def cmp_OrI_def Let_def)

lemma page_compare_zero: "page_compare p a b = 0 \<longleftrightarrow> a = b"
  by (auto simp: page_compare_def strings_Compare_def cmp_OrI_def Let_def prod_eq_iff)

lemma page_compare_flip: "page_compare p b a = - page_compare p a b"
  by (auto simp: page_compare_def strings_Compare_def cmp_OrI_def Let_def)

lemma page_compare_trans: "page_compare p a b \<le> 0 \<Longrightarrow> page_compare p b c \<le> 0 \<Longrightarrow> page_compare p a c \<le> 0"
  using page_compare_less [of p a b] page_compare_less [of p b c] page_compare_less [of p a c]
    page_compare_zero [of p a b] page_compare_zero [of p b c]
  by (cases "page_compare p a b = 0"; cases "page_compare p b c = 0") (auto simp: order.order_iff_strict split: if_splits)

text \<open>The order of a page's items.\<close>

abbreviation item_compare :: "listPage \<Rightarrow> SandboxDetail \<Rightarrow> SandboxDetail \<Rightarrow> int" where
  "item_compare p a b \<equiv> page_compare p (keyOf a) (keyOf b)"

lemma mset_insort_by [simp]: "mset (insort_by cmp x xs) = add_mset x (mset xs)"
  by (induction xs) auto

lemma mset_SortFunc [simp]: "mset (slices_SortFunc cmp xs) = mset xs"
  by (induction xs) (auto simp: slices_SortFunc_def)

lemma set_SortFunc [simp]: "set (slices_SortFunc cmp xs) = set xs"
  by (metis mset_SortFunc set_mset_mset)

lemma length_SortFunc [simp]: "length (slices_SortFunc cmp xs) = length xs"
  by (metis mset_SortFunc size_mset)

lemma set_insort_by [simp]: "set (insort_by cmp x xs) = insert x (set xs)"
  by (induction xs) auto

abbreviation item_sorted :: "listPage \<Rightarrow> SandboxDetail list \<Rightarrow> bool" where
  "item_sorted p \<equiv> sorted_wrt (\<lambda>a b. item_compare p a b \<le> 0)"

lemma item_compare_linear: "\<not> item_compare p a b \<le> 0 \<Longrightarrow> item_compare p b a \<le> 0"
  using page_compare_flip [of p "keyOf b" "keyOf a"] by linarith

lemma sorted_insort_by: "item_sorted p xs \<Longrightarrow> item_sorted p (insort_by (item_compare p) x xs)"
  by (induction xs) (auto dest: item_compare_linear page_compare_trans)

lemma sorted_SortFunc: "item_sorted p (slices_SortFunc (item_compare p) xs)"
  by (induction xs) (auto simp: slices_SortFunc_def sorted_insort_by)

lemma insort_by_least: "\<forall>y \<in> set ys. cmp x y \<le> 0 \<Longrightarrow> insort_by cmp x ys = x # ys"
  by (cases ys) auto

lemma filter_insort_by:
  "item_sorted p ys \<Longrightarrow> filter P (insort_by (item_compare p) x ys)
     = (if P x then insort_by (item_compare p) x (filter P ys) else filter P ys)"
proof (induction ys)
  case (Cons y ys)
  then show ?case by (auto intro!: insort_by_least [symmetric] dest: page_compare_trans)
qed simp

lemma filter_SortFunc:
  "filter P (slices_SortFunc (item_compare p) xs) = slices_SortFunc (item_compare p) (filter P xs)"
proof (induction xs)
  case (Cons x xs)
  have "slices_SortFunc (item_compare p) (x # xs) = insort_by (item_compare p) x (slices_SortFunc (item_compare p) xs)"
    by (simp add: slices_SortFunc_def)
  then show ?case using Cons filter_insort_by [OF sorted_SortFunc, of P p x xs] by (simp add: slices_SortFunc_def)
qed (simp add: slices_SortFunc_def)

text \<open>What comes after the last item of a page is what is left to fetch.\<close>

lemma after_last:
  assumes "item_sorted p S" "distinct (map keyOf S)" "k < length S"
  shows "filter (\<lambda>d. \<not> item_compare p d (S ! k) \<le> 0) S = drop (Suc k) S"
proof -
  have strict: "0 < item_compare p (S ! j) (S ! i)" if "i < j" "j < length S" for i j
    using assms(1,2) that page_compare_flip [of p "keyOf (S ! j)" "keyOf (S ! i)"]
      page_compare_zero [of p "keyOf (S ! i)" "keyOf (S ! j)"]
    by (force simp: sorted_wrt_iff_nth_less distinct_conv_nth dest: spec [of _ i])
  have "\<forall>x \<in> set (take (Suc k) S). item_compare p x (S ! k) \<le> 0"
    using assms(1,3) page_compare_zero [of p "keyOf (S ! k)" "keyOf (S ! k)"]
    by (auto simp: in_set_conv_nth sorted_wrt_iff_nth_less less_Suc_eq)
  moreover have "\<forall>x \<in> set (drop (Suc k) S). \<not> item_compare p x (S ! k) \<le> 0"
    using strict [of k] by (auto simp: in_set_conv_nth not_le)
  ultimately have "filter (\<lambda>d. \<not> item_compare p d (S ! k) \<le> 0) (take (Suc k) S @ drop (Suc k) S) = drop (Suc k) S"
    by (simp only: filter_append) (simp add: filter_empty_conv filter_id_conv)
  then show ?thesis by simp
qed

section \<open>Following the pages\<close>

text \<open>A client that follows the page tokens of an unchanged listing, at most \<open>n\<close> requests long.\<close>

definition page_query :: "int \<Rightarrow> string \<Rightarrow> string \<Rightarrow> url_values" where
  "page_query limit ord token k =
     (if k = ''limit'' then [strconv_Itoa limit] else if k = ''order'' then [ord] else if k = ''nextToken'' then [token] else [])"

fun fetch_pages :: "nat \<Rightarrow> int \<Rightarrow> string \<Rightarrow> string \<Rightarrow> SandboxDetail list \<Rightarrow> SandboxDetail list list option" where
  "fetch_pages 0 limit ord token items = None"
| "fetch_pages (Suc n) limit ord token items =
     (case listPageOf (page_query limit ord token) of
        Inl m \<Rightarrow> None
      | Inr p \<Rightarrow>
          (let (page, next) = page_cut p items
           in if next = [] then Some [page] else map_option ((#) page) (fetch_pages n limit ord next items)))"

lemma Itoa_no_space: "c \<in> set (strconv_Itoa n) \<Longrightarrow> c \<noteq> CHR '' ''"
  using format_nat_digits [of "nat \<bar>n\<bar>"] format_nat_digits [of "nat n"] format_nat_digits [of "nat (- n)"]
  by (auto simp: strconv_Itoa_def list_all_iff is_digit_def split: if_splits)

lemma RFC3339_no_space: "CHR '' '' \<notin> set (format_RFC3339 t)"
  by (auto simp: format_RFC3339_def pad_def Let_def split: prod.splits dest: Itoa_no_space)

lemma listPageOf_query:
  assumes "1 \<le> limit" "limit \<le> 100" "ord \<in> {[], ''desc'', ''asc''}"
  shows "listPageOf (page_query limit ord [])
      = Inr \<lparr>lp_limit = limit, lp_desc = (ord \<noteq> ''asc''), lp_after = ([], [])\<rparr>"
    and "CHR '' '' \<notin> set (sd_startedAtKey d) \<Longrightarrow> listPageOf (page_query limit ord (page_token d))
      = Inr \<lparr>lp_limit = limit, lp_desc = (ord \<noteq> ''asc''), lp_after = keyOf d\<rparr>"
proof -
  have "strconv_Atoi (strconv_Itoa limit) = Some limit" "strconv_Itoa limit \<noteq> []"
    using strconv_Atoi_Itoa [of limit] assms(1,2) by (auto simp: strconv_Itoa_def)
  note q = this assms
  show "listPageOf (page_query limit ord []) = Inr \<lparr>lp_limit = limit, lp_desc = (ord \<noteq> ''asc''), lp_after = ([], [])\<rparr>"
    using q by (simp add: listPageOf_def page_query_def query_Get_def maxListLimit_def)
  show "listPageOf (page_query limit ord (page_token d))
      = Inr \<lparr>lp_limit = limit, lp_desc = (ord \<noteq> ''asc''), lp_after = keyOf d\<rparr>" if "CHR '' '' \<notin> set (sd_startedAtKey d)"
    using q that
    by (simp add: listPageOf_def page_query_def query_Get_def maxListLimit_def page_token_def base64_roundtrip
        strings_Cut_char_append keyOf_def)
qed

text \<open>The page after an item, and the token it leaves.\<close>

lemma page_cut_after:
  assumes "S = slices_SortFunc (item_compare p) items" "distinct (map keyOf items)" "1 \<le> lp_limit p"
    "lp_after p = ([], []) \<and> k = 0 \<or> 0 < k \<and> k \<le> length S \<and> lp_after p = keyOf (S ! (k - 1)) \<and> lp_after p \<noteq> ([], [])"
  shows "page_cut p items =
     (if length S - k \<le> nat (lp_limit p) then (drop k S, [])
      else (take (nat (lp_limit p)) (drop k S), page_token (S ! (k + nat (lp_limit p) - 1))))"
proof -
  have "distinct (map keyOf S)"
    using assms(1,2) by (metis mset_SortFunc mset_map mset_eq_imp_distinct_iff)
  then have after: "filter (\<lambda>d. \<not> item_compare p d (S ! (k - 1)) \<le> 0) S = drop k S" if "0 < k" "k \<le> length S"
    using after_last [of p S "k - 1"] that sorted_SortFunc [of p items] assms(1) by simp
  have rest: "slices_SortFunc (item_compare p) (if lp_after p \<noteq> ([], [])
      then filter (\<lambda>d. \<not> page_compare p (keyOf d) (lp_after p) \<le> 0) items else items) = drop k S"
    using assms(4) after by (auto simp: assms(1) filter_SortFunc [symmetric])
  have "(int (length (drop k S)) \<le> lp_limit p) = (length S - k \<le> nat (lp_limit p))"
    using assms(3) by (simp add: nat_le_eq_zle) linarith
  moreover have "drop k S ! nat (lp_limit p - 1) = S ! (k + nat (lp_limit p) - 1)" if "\<not> length S - k \<le> nat (lp_limit p)"
    using that assms(3) by (simp add: nat_diff_distrib)
  ultimately show ?thesis unfolding page_cut_def Let_def rest by simp
qed

lemma fetch_rest:
  assumes "1 \<le> limit" "limit \<le> 100" "ord \<in> {[], ''desc'', ''asc''}" "distinct (map keyOf items)"
    "\<forall>d \<in> set items. sd_startedAtKey d \<noteq> [] \<and> CHR '' '' \<notin> set (sd_startedAtKey d)"
    "S = slices_SortFunc (item_compare \<lparr>lp_limit = limit, lp_desc = (ord \<noteq> ''asc''), lp_after = ([], [])\<rparr>) items"
    "k \<le> length S" "token = (if k = 0 then [] else page_token (S ! (k - 1)))" "length S - k < n"
  shows "\<exists>pages. fetch_pages n limit ord token items = Some pages \<and> concat pages = drop k S
    \<and> (\<forall>page \<in> set pages. int (length page) \<le> limit)"
  using assms(7-9)
proof (induction n arbitrary: k token)
  case (Suc n)
  define after where "after = (if k = 0 then ([], []) else keyOf (S ! (k - 1)))"
  define p where "p = \<lparr>lp_limit = limit, lp_desc = (ord \<noteq> ''asc''), lp_after = after\<rparr>"
  have S: "S = slices_SortFunc (item_compare p) items" by (simp add: assms(6) p_def page_compare_def)
  have member: "d \<in> set S \<Longrightarrow> sd_startedAtKey d \<noteq> [] \<and> CHR '' '' \<notin> set (sd_startedAtKey d)" for d
    using assms(5) by (simp add: S)
  have page: "listPageOf (page_query limit ord token) = Inr p"
    using listPageOf_query [OF assms(1-3)] Suc.prems(1,2) member [of "S ! (k - 1)"] by (auto simp: p_def after_def)
  have cut: "page_cut p items = (if length S - k \<le> nat limit then (drop k S, [])
      else (take (nat limit) (drop k S), page_token (S ! (k + nat limit - 1))))"
    using page_cut_after [OF S assms(4), of k] assms(1) Suc.prems(1) member [of "S ! (k - 1)"]
    by (auto simp: p_def after_def keyOf_def)
  show ?case
  proof (cases "length S - k \<le> nat limit")
    case True
    then show ?thesis using assms(1) by (simp add: page cut)
  next
    case False
    then have "length S - (k + nat limit) < n" "k + nat limit \<le> length S" "k + nat limit \<noteq> 0"
      using Suc.prems assms(1) by linarith+
    from Suc.IH [OF this(2) _ this(1), of "page_token (S ! (k + nat limit - 1))"] this(3) obtain pages where
      "fetch_pages n limit ord (page_token (S ! (k + nat limit - 1))) items = Some pages"
      "concat pages = drop (k + nat limit) S" "\<forall>page \<in> set pages. int (length page) \<le> limit" by auto
    then show ?thesis using False assms(1)
      by (simp add: page cut page_token_def) (simp add: add.commute [of k] drop_drop [symmetric] del: drop_drop)
  qed
qed simp

definition page_order :: "string \<Rightarrow> SandboxDetail \<Rightarrow> SandboxDetail \<Rightarrow> bool" where
  "page_order ord a b \<longleftrightarrow> (if ord = ''asc'' then sd_startedAtKey a < sd_startedAtKey b
       \<or> sd_startedAtKey a = sd_startedAtKey b \<and> sd_SandboxID a \<le> sd_SandboxID b
     else sd_startedAtKey b < sd_startedAtKey a \<or> sd_startedAtKey a = sd_startedAtKey b \<and> sd_SandboxID b \<le> sd_SandboxID a)"

lemma item_compare_order:
  "page_compare \<lparr>lp_limit = limit, lp_desc = (ord \<noteq> ''asc''), lp_after = x\<rparr> (keyOf a) (keyOf b) \<le> 0 \<longleftrightarrow> page_order ord a b"
  using page_compare_less [of "\<lparr>lp_limit = limit, lp_desc = (ord \<noteq> ''asc''), lp_after = x\<rparr>" "keyOf a" "keyOf b"]
    page_compare_zero [of "\<lparr>lp_limit = limit, lp_desc = (ord \<noteq> ''asc''), lp_after = x\<rparr>" "keyOf a" "keyOf b"]
  by (auto simp: page_order_def keyOf_def order.order_iff_strict)

section \<open>Properties\<close>

text \<open>
  C18. Following the page tokens of an unchanged listing ends, after at most one request more than there
  are sandboxes, with every listed sandbox exactly once, in the order asked for and in pages of at most the
  limit, for every valid limit and order; no two sandboxes may share both their creation second and their
  published id.
\<close>

theorem paging_complete:
  assumes "1 \<le> limit" "limit \<le> 100" "ord \<in> {[], ''desc'', ''asc''}" and "items = map (detailFor env s) sbs"
    and "distinct (map keyOf items)"
  shows "\<exists>pages. fetch_pages (Suc (length items)) limit ord [] items = Some pages \<and> mset (concat pages) = mset items
    \<and> sorted_wrt (page_order ord) (concat pages) \<and> (\<forall>page \<in> set pages. int (length page) \<le> limit)"
proof -
  define p where "p = \<lparr>lp_limit = limit, lp_desc = (ord \<noteq> ''asc''), lp_after = ([] :: string, [] :: string)\<rparr>"
  define S where "S = slices_SortFunc (item_compare p) items"
  have "\<forall>d \<in> set items. sd_startedAtKey d \<noteq> [] \<and> CHR '' '' \<notin> set (sd_startedAtKey d)"
    using RFC3339_no_space by (auto simp: assms(4) detailFor_def Let_def) (auto simp: format_RFC3339_def Let_def split: prod.splits)
  from fetch_rest [OF assms(1-3,5) this S_def [unfolded p_def], of 0 "[]" "Suc (length items)"]
  obtain pages where "fetch_pages (Suc (length items)) limit ord [] items = Some pages" "concat pages = S"
    "\<forall>page \<in> set pages. int (length page) \<le> limit" by (auto simp: S_def)
  moreover have "sorted_wrt (page_order ord) S"
    using sorted_SortFunc [of p items] by (simp add: S_def p_def item_compare_order)
  ultimately show ?thesis by (auto simp: S_def)
qed

section \<open>Concrete listings\<close>

definition e2b_demo_env :: e2b_env where
  "e2b_demo_env = io.extend demo_io \<lparr>ev_lower = (\<lambda>t. t), ev_mac = (\<lambda>k t. k @ t),
     ev_parseTime = (\<lambda>t. Inl (PlainError (Msg t []))), ev_unmarshal = (\<lambda>t. None),
     ev_selectors = \<lparr>lib_Labels = (\<lambda>t. Inl t), lib_Fields = (\<lambda>t. Inl t)\<rparr>\<rparr>"

definition e2b_demo_server :: "'w Server" where
  "e2b_demo_server =
     \<lparr>sv_opts = \<lparr>so_Namespace = ''ns'', so_Domain = ''d'', so_EnvdVersion = DefaultEnvdVersion,
        so_DefaultTimeoutSeconds = 300, so_APIKeys = [], so_AllowAnonymous = True, so_Inventory = None,
        so_TemplateAliases = [], so_EnvdSecret = ''k''\<rparr>,
      sv_keys = [], sv_aliases = [], sv_imageAliases = []\<rparr>"

definition demo_claimed :: "string \<Rightarrow> Sandbox" where
  "demo_claimed cid = empty_Sandbox\<lparr>sb_Annotations := Map.empty(ClaimIDAnnotation \<mapsto> cid)\<rparr>"

definition demo_details :: "SandboxDetail list" where
  "demo_details = map (detailFor e2b_demo_env (e2b_demo_server :: unit Server)) (map demo_claimed [''b'', ''c'', ''a''])"

theorem paging_complete_witness:
  "\<exists>pages. fetch_pages (Suc (length demo_details)) 2 ''asc'' [] demo_details = Some pages
    \<and> mset (concat pages) = mset demo_details \<and> sorted_wrt (page_order ''asc'') (concat pages)
    \<and> list_all (\<lambda>page. int (length page) \<le> 2) pages"
proof -
  have ids: "PublicID f [c] = [c]" if "c \<in> set ''abc''" for f c
    using that by (auto simp: PublicID_def needsRewrite_def isDNSSafe_def)
  have "distinct (map keyOf demo_details)"
    by (simp add: demo_details_def keyOf_def detailFor_def claimIDOf_def demo_claimed_def empty_Sandbox_def Let_def ids)
  from paging_complete [OF _ _ _ demo_details_def this, of 2 "''asc''"] show ?thesis by (auto simp: list_all_iff)
qed

end
