(* ===== verification/Build_Shell.thy ===== *)
theory Build_Shell
  imports Scale_Types
begin

text \<open>
  What a template build hands to the guest's shell (pkg/e2bbuild/copy.go and the quoting of executor.go):
  its instructions, the checks they pass before a build starts, the single-quoted words, the escapes of an
  ENV value and the script of a COPY step. A reader of POSIX single quotes states what the quoting is for.
\<close>

section \<open>Instructions\<close>

record build_Step =
  st_Type :: string
  st_Args :: "string list"
  st_FilesHash :: string

record build_Command =
  cm_Line :: string
  cm_User :: string
  cm_Workdir :: string
  cm_Envs :: "(string \<times> string) list"

definition stepRun :: string where "stepRun = ''RUN''"
definition stepEnv :: string where "stepEnv = ''ENV''"
definition stepWorkdir :: string where "stepWorkdir = ''WORKDIR''"
definition stepUser :: string where "stepUser = ''USER''"
definition stepCopy :: string where "stepCopy = ''COPY''"

lemmas step_types = stepRun_def stepEnv_def stepWorkdir_def stepUser_def stepCopy_def

text \<open>An argument by its index; \<open>step_problem\<close> refuses a step that lacks one the build reads.\<close>

definition step_arg :: "build_Step \<Rightarrow> nat \<Rightarrow> string" where
  "step_arg s i = (if i < length (st_Args s) then st_Args s ! i else [])"

text \<open>The regular expression \<^verbatim>\<open>^[0-9a-f]{64}$\<close>.\<close>

definition FilesHash :: "string \<Rightarrow> bool" where
  "FilesHash h = (length h = 64 \<and> list_all (\<lambda>c. is_digit c \<or> CHR ''a'' \<le> c \<and> c \<le> CHR ''f'') h)"

definition step_problem :: "bool \<Rightarrow> build_Step \<Rightarrow> string" where
  "step_problem canCopy s =
     (if st_Type s \<in> {stepRun, stepWorkdir, stepUser} then
        (if st_Args s = [] \<or> step_arg s 0 = [] then ''needs an argument'' else [])
      else if st_Type s = stepEnv then
        (if st_Args s = [] \<or> length (st_Args s) mod 2 \<noteq> 0 then ''needs key and value pairs'' else [])
      else if st_Type s = stepCopy then
        (if \<not> canCopy then ''no upload store is configured''
         else if length (st_Args s) < 2 \<or> step_arg s 0 = [] \<or> step_arg s 1 = [] then ''needs a source and a destination''
         else if \<not> FilesHash (st_FilesHash s) then ''needs the filesHash of its upload''
         else [])
      else ''not a supported step type'')"

fun invalid_from :: "nat \<Rightarrow> build_Step list \<Rightarrow> bool \<Rightarrow> msg option" where
  "invalid_from i [] canCopy = None"
| "invalid_from i (s # ss) canCopy =
     (let p = step_problem canCopy s
      in if p \<noteq> [] then Some (Msg ''step %d (%s): %s'' [strconv_Itoa (int i + 1), st_Type s, p])
         else invalid_from (Suc i) ss canCopy)"

definition Invalid :: "build_Step list \<Rightarrow> bool \<Rightarrow> msg option" where
  "Invalid steps canCopy = invalid_from 0 steps canCopy"

definition withLine :: "build_Command \<Rightarrow> string \<Rightarrow> build_Command" where
  "withLine state line = state\<lparr>cm_Line := line\<rparr>"

section \<open>Quoting\<close>

definition shellQuote :: "string \<Rightarrow> string" where
  "shellQuote s = CHR 0x27 # concat (map (\<lambda>c. if c = CHR 0x27 then [CHR 0x27, CHR 0x5C, CHR 0x27, CHR 0x27] else [c]) s) @ [CHR 0x27]"

text \<open>The replacer of ENV values: a backslash before backslash, double quote, backquote and \<^verbatim>\<open>$(\<close>.\<close>

fun envEscaper :: "string \<Rightarrow> string" where
  "envEscaper [] = []"
| "envEscaper (c # cs) =
     (if c = CHR 0x5C \<or> c = CHR 0x22 \<or> c = CHR 0x60 then CHR 0x5C # c # envEscaper cs
      else if c = CHR ''$'' \<and> cs \<noteq> [] \<and> hd cs = CHR ''('' then CHR 0x5C # CHR ''$'' # CHR ''('' # envEscaper (tl cs)
      else c # envEscaper cs)"

section \<open>Paths\<close>

definition path_IsAbs :: "string \<Rightarrow> bool" where
  "path_IsAbs p = strings_HasPrefix p ''/''"

text \<open>\<^verbatim>\<open>path.Clean\<close> element by element: what is kept is a stack, \<^verbatim>\<open>..\<close> pops it or stays at the front of a relative path.\<close>

fun clean_elems :: "bool \<Rightarrow> string list \<Rightarrow> string list \<Rightarrow> string list" where
  "clean_elems rooted kept [] = rev kept"
| "clean_elems rooted kept (e # es) =
     (if e = [] \<or> e = ''.'' then clean_elems rooted kept es
      else if e = ''..'' then
        (if kept \<noteq> [] \<and> hd kept \<noteq> ''..'' then clean_elems rooted (tl kept) es
         else if rooted then clean_elems rooted kept es
         else clean_elems rooted (e # kept) es)
      else clean_elems rooted (e # kept) es)"

definition path_Clean :: "string \<Rightarrow> string" where
  "path_Clean p =
     (let rooted = path_IsAbs p; es = clean_elems rooted [] (strings_Split p (CHR ''/''))
      in if rooted then ''/'' @ strings_Join es ''/'' else if es = [] then ''.'' else strings_Join es ''/'')"

definition path_Join :: "string \<Rightarrow> string \<Rightarrow> string" where
  "path_Join a b =
     (let es = filter (\<lambda>e. e \<noteq> []) [a, b] in if es = [] then [] else path_Clean (strings_Join es ''/''))"

section \<open>The COPY script\<close>

definition archivePath :: "string \<Rightarrow> string" where
  "archivePath h = ''/tmp/'' @ h @ ''.tar''"

definition globBase :: "string \<Rightarrow> string" where
  "globBase src =
     strings_Join (takeWhile (\<lambda>seg. \<not> strings_ContainsAny seg ''*?[{'') (strings_Split (strings_TrimSuffix src ''/'') (CHR ''/''))) ''/''"

definition copyMove :: string where
  "copyMove = strings_Join
     [''set -o pipefail'',
      ''mkdir -p \"$unpack\" && tar -xf \"$archive\" -C \"$unpack\" || exit 1'',
      ''[ -n \"$workdir\" ] || workdir=$(getent passwd \"$user\" | cut -d: -f6)'',
      ''cd \"$workdir\" || exit 1'',
      ''case \"$target\" in /*) ;; *) target=\"$(pwd)/$target\" ;; esac'',
      ''cd \"$(dirname \"$source\")\" || exit 1'',
      ''entry=$(basename \"$source\")'',
      ''if [ ! -e \"$entry\" ] && [ ! -L \"$entry\" ]; then echo \"source path does not exist: $src\"; exit 1; fi'',
      ''[ -d \"$entry\" ] || case \"$target\" in */) mkdir -p \"$target\" ;; *) mkdir -p \"$(dirname \"$target\")\" ;; esac'',
      ''if [ -L \"$entry\" ]; then'',
      CHR 0x09 # ''chown -h \"$owner\" \"$entry\" && mv \"$entry\" \"$target\" || exit 1'',
      ''elif [ -f \"$entry\" ]; then'',
      CHR 0x09 # ''chown \"$owner\" \"$entry\" && { [ -z \"$mode\" ] || chmod \"$mode\" \"$entry\"; } && mv \"$entry\" \"$target\" || exit 1'',
      ''elif [ -d \"$entry\" ]; then'',
      CHR 0x09 # ''chown -R \"$owner\" \"$entry\" && { [ -z \"$mode\" ] || chmod -R \"$mode\" \"$entry\"; } || exit 1'',
      CHR 0x09 # ''if [ ! -e \"$target\" ]; then'',
      CHR 0x09 # CHR 0x09 # ''mkdir -p \"$(dirname \"${target%/}\")\" && mv \"$entry\" \"${target%/}\" || exit 1'',
      CHR 0x09 # ''else'',
      CHR 0x09 # CHR 0x09 # ''(cd \"$entry\" && tar -cf - .) | tar -xf - -C \"$target\" --keep-directory-symlink --no-overwrite-dir || exit 1'',
      CHR 0x09 # ''fi'',
      ''else'',
      CHR 0x09 # ''echo \"source is neither a file, a directory nor a symlink: $src\"; exit 1'',
      ''fi'',
      ''rm -rf \"$archive\" \"$scratch\"''] [CHR 0x0A]"

definition copy_vars :: "build_Command \<Rightarrow> build_Step \<Rightarrow> (string \<times> string) list" where
  "copy_vars state s =
     (let asked = step_arg s 2;
          owner = (if asked = [] then cm_User state @ '':'' @ cm_User state
                   else if strings_Contains asked '':'' then asked else asked @ '':'' @ asked);
          mode = step_arg s 3;
          scratch = ''/tmp/'' @ st_FilesHash s;
          unpack = scratch @ ''/unpack''
      in [(''archive'', archivePath (st_FilesHash s)), (''scratch'', scratch), (''unpack'', unpack), (''src'', step_arg s 0),
          (''source'', path_Join unpack (globBase (step_arg s 0))), (''target'', step_arg s 1), (''owner'', owner),
          (''mode'', mode), (''workdir'', cm_Workdir state), (''user'', cm_User state)])"

definition copyScript :: "build_Command \<Rightarrow> build_Step \<Rightarrow> string" where
  "copyScript state s =
     concat (map (\<lambda>(k, v). k @ ''='' @ shellQuote v @ [CHR 0x0A]) (copy_vars state s)) @ copyMove"

section \<open>What a shell reads back\<close>

text \<open>
  One word as a POSIX shell reads it, as far as these scripts use it: single-quoted text is literal, a
  backslash outside quotes makes the next character literal, and an unquoted blank, newline or the end
  ends the word; any other unquoted character that is special to the shell is not accepted.
\<close>

fun sh_quoted :: "string \<Rightarrow> (string \<times> string) option" where
  "sh_quoted [] = None"
| "sh_quoted (c # cs) = (if c = CHR 0x27 then Some ([], cs) else map_option (apfst ((#) c)) (sh_quoted cs))"

lemma sh_quoted_length: "sh_quoted s = Some (w, r) \<Longrightarrow> length r < length s"
  by (induction s arbitrary: w) (fastforce split: if_splits)+

definition sh_plain :: "char \<Rightarrow> bool" where
  "sh_plain c = (is_letter c \<or> is_digit c \<or> c \<in> set ''_/.,:+@%-='')"

function sh_word :: "string \<Rightarrow> (string \<times> string) option" where
  "sh_word s =
     (case s of
        [] \<Rightarrow> Some ([], [])
      | c # cs \<Rightarrow>
          if c = CHR 0x0A \<or> c = CHR '' '' then Some ([], s)
          else if c = CHR 0x27 then
            (case sh_quoted cs of None \<Rightarrow> None | Some (w, r) \<Rightarrow> map_option (apfst ((@) w)) (sh_word r))
          else if c = CHR 0x5C then
            (case cs of [] \<Rightarrow> None | d # ds \<Rightarrow> if d = CHR 0x0A then None else map_option (apfst ((#) d)) (sh_word ds))
          else if sh_plain c then map_option (apfst ((#) c)) (sh_word cs)
          else None)"
  by auto
termination by (relation "measure length") (auto dest: sh_quoted_length)

declare sh_word.simps [simp del]

lemma sh_word_quote: "sh_word (CHR 0x27 # cs) = (case sh_quoted cs of None \<Rightarrow> None | Some (w, r) \<Rightarrow> map_option (apfst ((@) w)) (sh_word r))"
  by (subst sh_word.simps) simp

lemma sh_word_escape: "d \<noteq> CHR 0x0A \<Longrightarrow> sh_word (CHR 0x5C # d # ds) = map_option (apfst ((#) d)) (sh_word ds)"
  by (subst sh_word.simps) simp

lemma sh_word_newline [simp]: "sh_word (CHR 0x0A # s) = Some ([], CHR 0x0A # s)"
  by (subst sh_word.simps) simp

abbreviation quote_body :: "string \<Rightarrow> string" where
  "quote_body s \<equiv> concat (map (\<lambda>c. if c = CHR 0x27 then [CHR 0x27, CHR 0x5C, CHR 0x27, CHR 0x27] else [c]) s)"

lemma sh_quoted_plain: "CHR 0x27 \<notin> set t \<Longrightarrow> sh_quoted (t @ CHR 0x27 # r) = Some (t, r)"
  by (induction t) auto

lemma sh_word_body:
  "CHR 0x27 \<notin> set t \<Longrightarrow> sh_word (CHR 0x27 # t @ quote_body s @ CHR 0x27 # rest) = map_option (apfst ((@) (t @ s))) (sh_word rest)"
proof (induction s arbitrary: t)
  case Nil
  then show ?case by (simp add: sh_word_quote sh_quoted_plain)
next
  case (Cons c s)
  show ?case
  proof (cases "c = CHR 0x27")
    case True
    have "sh_word (CHR 0x27 # t @ quote_body (c # s) @ CHR 0x27 # rest)
        = map_option (apfst ((@) t)) (sh_word (CHR 0x5C # CHR 0x27 # CHR 0x27 # [] @ quote_body s @ CHR 0x27 # rest))"
      using Cons(2) True by (simp add: sh_word_quote sh_quoted_plain)
    also have "\<dots> = map_option (apfst ((@) (t @ c # s))) (sh_word rest)"
      using Cons(1) [of "[]"] True by (cases "sh_word rest") (auto simp: sh_word_escape)
    finally show ?thesis .
  next
    case False
    then show ?thesis using Cons(1) [of "t @ [c]"] Cons(2) by simp
  qed
qed

lemma shellQuote_read: "sh_word (shellQuote s @ rest) = map_option (apfst ((@) s)) (sh_word rest)"
  using sh_word_body [of "[]" s rest] by (simp add: shellQuote_def)

text \<open>A line \<open>name=word\<close> as an assignment.\<close>

fun sh_assignments :: "nat \<Rightarrow> string \<Rightarrow> ((string \<times> string) list \<times> string) option" where
  "sh_assignments 0 s = Some ([], s)"
| "sh_assignments (Suc n) s =
     (case strings_Cut s ''='' of
        None \<Rightarrow> None
      | Some (k, v) \<Rightarrow>
          (case sh_word v of
             Some (w, c # r) \<Rightarrow> if c = CHR 0x0A then map_option (apfst ((#) (k, w))) (sh_assignments n r) else None
           | _ \<Rightarrow> None))"

lemma sh_assignments_read:
  "\<forall>(k, v) \<in> set vars. CHR ''='' \<notin> set k \<Longrightarrow>
     sh_assignments (length vars) (concat (map (\<lambda>(k, v). k @ ''='' @ shellQuote v @ [CHR 0x0A]) vars) @ rest) = Some (vars, rest)"
proof (induction vars)
  case (Cons x vars)
  obtain k v where x: "x = (k, v)" by (cases x)
  let ?t = "concat (map (\<lambda>(k, v). k @ ''='' @ shellQuote v @ [CHR 0x0A]) vars) @ rest"
  have "strings_Cut (k @ CHR ''='' # shellQuote v @ CHR 0x0A # ?t) ''='' = Some (k, shellQuote v @ CHR 0x0A # ?t)"
    using Cons(2) x by (intro strings_Cut_char_append) auto
  then show ?case using Cons by (simp add: x shellQuote_read)
qed simp

section \<open>Properties\<close>

text \<open>
  C22. Whatever a COPY step's arguments hold, quotes, newlines and shell syntax included, a shell that runs
  the script first assigns exactly the ten values the build computed and then runs the fixed rest of the
  script: no argument reaches the shell as code.
\<close>

theorem copy_script_inert:
  "sh_assignments 10 (copyScript state s) = Some (copy_vars state s, copyMove)"
proof -
  have "\<forall>(k, v) \<in> set (copy_vars state s). CHR ''='' \<notin> set k" "length (copy_vars state s) = 10"
    by (auto simp: copy_vars_def Let_def)
  with sh_assignments_read [OF this(1), of copyMove] show ?thesis by (simp only: copyScript_def)
qed

text \<open>Every step a build is started with has the arguments the build reads.\<close>

lemma valid_step_args:
  assumes "step_problem canCopy s = []"
  shows "st_Type s \<in> {stepRun, stepWorkdir, stepUser, stepEnv, stepCopy}" "0 < length (st_Args s)"
    "st_Type s = stepCopy \<Longrightarrow> 1 < length (st_Args s) \<and> FilesHash (st_FilesHash s)"
    "st_Type s = stepEnv \<Longrightarrow> even (length (st_Args s))"
  using assms by (auto simp: step_problem_def step_types split: if_splits)

lemma invalid_from_None: "invalid_from i steps canCopy = None \<longleftrightarrow> (\<forall>s \<in> set steps. step_problem canCopy s = [])"
  by (induction steps arbitrary: i) (auto simp: Let_def)

end
