(* ===== verification/Build_Executor.thy ===== *)
theory Build_Executor
  imports Sandbox_REST Sandboxd_Client Build_Shell
begin

text \<open>
  The build executor (pkg/e2bbuild/executor.go). A build's goroutine never reads the executor's records: it
  only writes log lines, its outcome and, on return, its slot. So \<open>run\<close> gives the list of these writes
  next to what it does to the world, and the executor's state is driven by the writes of all running
  builds in any interleaving. The guest is the interface \<^verbatim>\<open>Guest\<close>; a command's output is the list of its
  lines in the order they reach the callbacks, the flag telling standard error. The build's context allows
  \<open>polls\<close> more polls before its timeout ends it.
\<close>

section \<open>Types\<close>

definition StatusWaiting :: string where "StatusWaiting = ''waiting''"
definition StatusBuilding :: string where "StatusBuilding = ''building''"
definition StatusReady :: string where "StatusReady = ''ready''"
definition StatusErrored :: string where "StatusErrored = ''error''"

lemmas build_status = StatusWaiting_def StatusBuilding_def StatusReady_def StatusErrored_def

definition PhaseClaim :: string where "PhaseClaim = ''claim''"
definition PhaseFinalize :: string where "PhaseFinalize = ''finalize''"
definition PhasePromote :: string where "PhasePromote = ''promote''"
definition PhasePublish :: string where "PhasePublish = ''publish''"

definition build_defaultUser :: string where "build_defaultUser = ''user''"
definition rootUser :: string where "rootUser = ''root''"
definition recordTTL :: int where "recordTTL = 3600 * second"

definition ErrBusy :: err where "ErrBusy = PlainError (Msg ''e2bbuild: every build slot is busy'' [])"
definition ErrUnknownBuild :: err where "ErrUnknownBuild = PlainError (Msg ''e2bbuild: build not found'' [])"

definition NetRouteRelay :: string where "NetRouteRelay = ''relay''"

definition RelayEnv :: "(string \<times> string) list" where
  "RelayEnv = [(''http_proxy'', ''http://127.0.0.1:3128''), (''https_proxy'', ''http://127.0.0.1:3128''),
     (''no_proxy'', ''localhost,127.0.0.1,::1,169.254.169.254'')]"

text \<open>\<^verbatim>\<open>maps.Copy\<close>.\<close>

definition maps_Copy :: "(string \<times> string) list \<Rightarrow> (string \<times> string) list \<Rightarrow> (string \<times> string) list" where
  "maps_Copy dst src = fold (\<lambda>(k, v). AList.update k v) src dst"

record build_Request =
  bq_Size :: string
  bq_Tags :: "string list"

record 'w build_Spec =
  sp_Namespace :: string
  sp_ClaimName :: string
  sp_Pool :: PoolKey
  sp_Template :: string
  sp_Steps :: "build_Step list"
  sp_StartCmd :: string
  sp_ReadyCmd :: string
  sp_Archive :: "string \<Rightarrow> 'w \<Rightarrow> err + string"
  sp_Publish :: "(string \<Rightarrow> PoolKey \<Rightarrow> string \<Rightarrow> 'w \<Rightarrow> err option \<times> 'w) option"

record 'w Guest =
  gu_Run :: "Assignment \<Rightarrow> build_Command \<Rightarrow> 'w \<Rightarrow> (err + int) \<times> (bool \<times> string) list \<times> 'w"
  gu_Start :: "Assignment \<Rightarrow> build_Command \<Rightarrow> 'w \<Rightarrow> err option \<times> 'w"
  gu_Init :: "Assignment \<Rightarrow> build_Command \<Rightarrow> 'w \<Rightarrow> err option \<times> 'w"
  gu_Write :: "Assignment \<Rightarrow> string \<Rightarrow> string \<Rightarrow> 'w \<Rightarrow> err option \<times> 'w"

record LogEntry =
  le_Time :: time
  le_Level :: string
  le_Message :: msg
  le_Phase :: string

record build_Info =
  if_Status :: string
  if_Logs :: "LogEntry list"
  if_FailedPhase :: string
  if_Failure :: msg

record build_record =
  rc_req :: build_Request
  rc_info :: build_Info
  rc_registered :: time
  rc_finished :: time

text \<open>\<open>ex_slots\<close> counts the tokens in the slot channel, whose capacity is \<open>ex_parallel\<close>.\<close>

record executor =
  ex_parallel :: nat
  ex_slots :: nat
  ex_timeout :: int
  ex_logLines :: int
  ex_builds :: "string \<rightharpoonup> build_record"

section \<open>The records\<close>

definition executor_New :: "nat \<Rightarrow> int \<Rightarrow> int \<Rightarrow> executor" where
  "executor_New parallel timeout logLines =
     \<lparr>ex_parallel = parallel, ex_slots = 0, ex_timeout = timeout, ex_logLines = logLines, ex_builds = Map.empty\<rparr>"

definition expired :: "time \<Rightarrow> build_record \<Rightarrow> bool" where
  "expired now r =
     (\<not> time_IsZero (rc_finished r) \<and> time_Sub now (rc_finished r) > recordTTL
      \<or> if_Status (rc_info r) = StatusWaiting \<and> time_Sub now (rc_registered r) > recordTTL)"

definition build_sweep :: "time \<Rightarrow> executor \<Rightarrow> executor" where
  "build_sweep now e =
     e\<lparr>ex_builds := (\<lambda>i. case ex_builds e i of None \<Rightarrow> None | Some r \<Rightarrow> if expired now r then None else Some r)\<rparr>"

definition no_message :: msg where "no_message = Msg [] []"

definition build_Register :: "time \<Rightarrow> string \<Rightarrow> build_Request \<Rightarrow> executor \<Rightarrow> executor" where
  "build_Register now i req e =
     (let e' = build_sweep now e
      in e'\<lparr>ex_builds := (ex_builds e')(i \<mapsto>
           \<lparr>rc_req = req, rc_info = \<lparr>if_Status = StatusWaiting, if_Logs = [], if_FailedPhase = [], if_Failure = no_message\<rparr>,
            rc_registered = now, rc_finished = 0\<rparr>)\<rparr>)"

definition build_Requested :: "string \<Rightarrow> executor \<Rightarrow> build_Request option" where
  "build_Requested i e = map_option rc_req (ex_builds e i)"

text \<open>Start answers its error, and whether it launched the build's goroutine.\<close>

definition build_Start :: "string \<Rightarrow> executor \<Rightarrow> err option \<times> bool \<times> executor" where
  "build_Start i e =
     (case ex_builds e i of
        None \<Rightarrow> (Some ErrUnknownBuild, False, e)
      | Some r \<Rightarrow>
          if if_Status (rc_info r) \<noteq> StatusWaiting then (None, False, e)
          else if ex_slots e \<ge> ex_parallel e then (Some ErrBusy, False, e)
          else (None, True, e\<lparr>ex_slots := Suc (ex_slots e),
                 ex_builds := (ex_builds e)(i \<mapsto> r\<lparr>rc_info := (rc_info r)\<lparr>if_Status := StatusBuilding\<rparr>\<rparr>)\<rparr>))"

definition build_Status :: "time \<Rightarrow> string \<Rightarrow> executor \<Rightarrow> build_Info option \<times> executor" where
  "build_Status now i e = (let e' = build_sweep now e in (map_option rc_info (ex_builds e' i), e'))"

definition build_finish :: "time \<Rightarrow> string \<Rightarrow> string \<Rightarrow> string \<Rightarrow> msg \<Rightarrow> executor \<Rightarrow> executor" where
  "build_finish now i status phase failure e =
     (case ex_builds e i of
        None \<Rightarrow> e
      | Some r \<Rightarrow> e\<lparr>ex_builds := (ex_builds e)(i \<mapsto>
          r\<lparr>rc_info := (rc_info r)\<lparr>if_Status := status, if_FailedPhase := phase, if_Failure := failure\<rparr>, rc_finished := now\<rparr>)\<rparr>)"

definition build_log :: "time \<Rightarrow> string \<Rightarrow> string \<Rightarrow> string \<Rightarrow> msg \<Rightarrow> executor \<Rightarrow> executor" where
  "build_log now i phase level message e =
     (case ex_builds e i of
        None \<Rightarrow> e
      | Some r \<Rightarrow>
          if int (length (if_Logs (rc_info r))) \<ge> ex_logLines e then e
          else e\<lparr>ex_builds := (ex_builds e)(i \<mapsto> r\<lparr>rc_info := (rc_info r)\<lparr>if_Logs := if_Logs (rc_info r) @
                 [\<lparr>le_Time = now, le_Level = level, le_Message = message, le_Phase = phase\<rparr>]\<rparr>\<rparr>)\<rparr>)"

section \<open>A build\<close>

text \<open>What a build's goroutine writes: a log line, its outcome, its slot on return.\<close>

datatype run_op =
    OpLog string string msg
  | OpFinish string string msg
  | OpReturn

definition logf :: "string \<Rightarrow> msg \<Rightarrow> run_op" where
  "logf phase m = OpLog phase ''info'' m"

definition run_fail :: "string \<Rightarrow> msg \<Rightarrow> run_op list" where
  "run_fail phase m = [OpLog phase ''error'' m, OpFinish StatusErrored phase m]"

definition log_lines :: "string \<Rightarrow> (bool \<times> string) list \<Rightarrow> run_op list" where
  "log_lines phase ls = map (\<lambda>(_, l). OpLog phase ''info'' (Msg l [])) ls"

definition run_sh :: "'w Guest \<Rightarrow> Assignment \<Rightarrow> build_Command \<Rightarrow> 'w \<Rightarrow> (msg \<times> err) option \<times> (bool \<times> string) list \<times> 'w" where
  "run_sh g a cmd w =
     (case gu_Run g a cmd w of
        (Inl e, ls, w') \<Rightarrow> (Some (Msg ''could not run a command in the build sandbox'' [], e), ls, w')
      | (Inr code, ls, w') \<Rightarrow>
          if code \<noteq> 0 then
            (let m = Msg ''%q exited with code %d'' [cm_Line cmd, strconv_Itoa code] in (Some (m, PlainError m), ls, w'))
          else (None, ls, w'))"

definition run_expand :: "'w Guest \<Rightarrow> Assignment \<Rightarrow> build_Command \<Rightarrow> string \<Rightarrow> string \<Rightarrow> 'w
   \<Rightarrow> ((msg \<times> err) + string) \<times> run_op list \<times> 'w" where
  "run_expand g a root phase val w =
     (case run_sh g a (withLine root (''printf \"%s\" \"'' @ envEscaper val @ ''\"'')) w of
        (r, ls, w') \<Rightarrow>
          (case r of
             Some (_, e) \<Rightarrow> Inl (Msg ''could not evaluate the value %q'' [val], e)
           | None \<Rightarrow> Inr (strings_Join (map snd (filter (\<lambda>(stderr, _). \<not> stderr) ls)) [CHR 0x0A]),
           log_lines phase (filter fst ls), w'))"

text \<open>The loop of an ENV step over its key and value pairs.\<close>

fun env_pairs :: "'w Guest \<Rightarrow> Assignment \<Rightarrow> build_Command \<Rightarrow> string \<Rightarrow> string list \<Rightarrow> (string \<times> string) list \<Rightarrow> 'w
   \<Rightarrow> ((msg \<times> err) + (string \<times> string) list) \<times> run_op list \<times> 'w" where
  "env_pairs g a root phase (k # v # args) envs w =
     (case run_expand g a root phase v w of
        (Inl f, ops, w') \<Rightarrow> (Inl f, ops, w')
      | (Inr x, ops, w') \<Rightarrow>
          (case env_pairs g a root phase args (AList.update k x envs) w' of (r, ops', w'') \<Rightarrow> (r, ops @ ops', w'')))"
| "env_pairs g a root phase args envs w = (Inr envs, [], w)"

definition copyIn :: "'w Guest \<Rightarrow> Assignment \<Rightarrow> 'w build_Spec \<Rightarrow> string \<Rightarrow> 'w \<Rightarrow> (msg \<times> err) option \<times> 'w" where
  "copyIn g a spec h w =
     (case sp_Archive spec h w of
        Inl e \<Rightarrow> (Some (Msg ''could not read the uploaded files'' [], e), w)
      | Inr archive \<Rightarrow>
          (case gu_Write g a (archivePath h) archive w of
             (Some e, w') \<Rightarrow> (Some (Msg ''could not copy the uploaded files into the build sandbox'' [], e), w')
           | (None, w') \<Rightarrow> (None, w')))"

definition workdir_script :: "string \<Rightarrow> string \<Rightarrow> string" where
  "workdir_script dir user =
     ''t='' @ shellQuote dir @ ''; [ -d \"$t\" ] && exit 0; n=$t; while [ ! -d \"$(dirname \"$n\")\" ]; do n=$(dirname \"$n\"); done; mkdir -p \"$t\" && chown -R ''
     @ shellQuote user @ '': \"$n\"''"

definition user_script :: "string \<Rightarrow> string" where
  "user_script name =
     ''id -u '' @ shellQuote name @ '' >/dev/null 2>&1 || useradd --create-home --shell /bin/bash '' @ shellQuote name"

text \<open>One step: the commands' state after it, or the failure.\<close>

definition run_step :: "'w Guest \<Rightarrow> string \<Rightarrow> Assignment \<Rightarrow> 'w build_Spec \<Rightarrow> build_Command \<Rightarrow> build_Step \<Rightarrow> 'w
   \<Rightarrow> ((msg \<times> err) + build_Command) \<times> run_op list \<times> 'w" where
  "run_step g phase a spec state s w =
     (let root = \<lparr>cm_Line = [], cm_User = rootUser, cm_Workdir = [], cm_Envs = cm_Envs state\<rparr>
      in if st_Type s = stepRun then
           (let cmd = withLine state (step_arg s 0);
                cmd' = (if length (st_Args s) > 1 then cmd\<lparr>cm_User := step_arg s 1\<rparr> else cmd)
            in case run_sh g a cmd' w of
                 (Some f, ls, w') \<Rightarrow> (Inl f, log_lines phase ls, w')
               | (None, ls, w') \<Rightarrow> (Inr state, log_lines phase ls, w'))
         else if st_Type s = stepEnv then
           (case env_pairs g a root phase (st_Args s) (cm_Envs state) w of
              (Inl f, ops, w') \<Rightarrow> (Inl f, ops, w')
            | (Inr envs, ops, w') \<Rightarrow> (Inr (state\<lparr>cm_Envs := envs\<rparr>), ops, w'))
         else if st_Type s = stepWorkdir then
           (let arg = step_arg s 0;
                dir = (if path_IsAbs arg then arg else path_Join (cmp_Or (cm_Workdir state) ''/'') arg)
            in case run_sh g a (withLine root (workdir_script dir (cm_User state))) w of
                 (Some f, ls, w') \<Rightarrow> (Inl f, log_lines phase ls, w')
               | (None, ls, w') \<Rightarrow> (Inr (state\<lparr>cm_Workdir := dir\<rparr>), log_lines phase ls, w'))
         else if st_Type s = stepUser then
           (case run_sh g a (withLine root (user_script (step_arg s 0))) w of
              (Some f, ls, w') \<Rightarrow> (Inl f, log_lines phase ls, w')
            | (None, ls, w') \<Rightarrow> (Inr (state\<lparr>cm_User := step_arg s 0\<rparr>), log_lines phase ls, w'))
         else if st_Type s = stepCopy then
           (case copyIn g a spec (st_FilesHash s) w of
              (Some f, w') \<Rightarrow> (Inl f, [], w')
            | (None, w') \<Rightarrow>
                (case run_sh g a (withLine root (copyScript state s)) w' of
                   (Some (_, e), ls, w'') \<Rightarrow>
                     (Inl (Msg ''could not copy %s to %s'' [step_arg s 0, step_arg s 1], e), log_lines phase ls, w'')
                 | (None, ls, w'') \<Rightarrow> (Inr state, log_lines phase ls, w'')))
         else (Inr state, [], w))"

text \<open>A message inside another, and a failure with the phase it names.\<close>

definition msg_in :: "string \<Rightarrow> string list \<Rightarrow> msg \<Rightarrow> msg" where
  "msg_in prefix args m = (case m of Msg f l \<Rightarrow> Msg (prefix @ f) (args @ l))"

type_synonym build_failure = "string \<times> msg \<times> err"

fun run_steps :: "'w Guest \<Rightarrow> nat \<Rightarrow> Assignment \<Rightarrow> 'w build_Spec \<Rightarrow> build_Command \<Rightarrow> build_Step list \<Rightarrow> 'w
   \<Rightarrow> (build_failure + build_Command) \<times> run_op list \<times> 'w" where
  "run_steps g i a spec state [] w = (Inr state, [], w)"
| "run_steps g i a spec state (s # ss) w =
     (let phase = strconv_Itoa (int i + 1)
      in case run_step g phase a spec state s w of
           (Inl (m, e), ops, w') \<Rightarrow>
             (Inl (phase, msg_in ''step %s (%s) failed: '' [phase, st_Type s] m, e), ops, w')
         | (Inr next, ops, w') \<Rightarrow>
             (case run_steps g (Suc i) a spec next ss w' of (r, ops', w'') \<Rightarrow> (r, ops @ ops', w'')))"

fun awaitReady :: "nat \<Rightarrow> 'w Guest \<Rightarrow> Assignment \<Rightarrow> build_Command \<Rightarrow> 'w \<Rightarrow> err option \<times> 'w" where
  "awaitReady polls g a cmd w =
     (case gu_Run g a cmd w of
        (r, _, w') \<Rightarrow>
          if r = Inr 0 then (None, w')
          else (case polls of
                  0 \<Rightarrow> (Some (PlainError (Msg ''context deadline exceeded'' [])), w')
                | Suc n \<Rightarrow> awaitReady n g a cmd w'))"

declare awaitReady.simps [simp del]

definition run_finalize :: "nat \<Rightarrow> 'w Guest \<Rightarrow> Assignment \<Rightarrow> 'w build_Spec \<Rightarrow> build_Command \<Rightarrow> 'w
   \<Rightarrow> build_failure option \<times> run_op list \<times> 'w" where
  "run_finalize polls g a spec state w =
     (case gu_Init g a state w of
        (Some e, w1) \<Rightarrow> (Some (PhaseFinalize, Msg ''could not set the template's user, workdir and environment'' [], e), [], w1)
      | (None, w1) \<Rightarrow>
          (let ops = (if sp_StartCmd spec \<noteq> [] then [logf PhaseFinalize (Msg ''starting %s'' [sp_StartCmd spec])] else [])
           in case (if sp_StartCmd spec \<noteq> [] then gu_Start g a (withLine state (sp_StartCmd spec)) w1 else (None, w1)) of
                (Some e, w2) \<Rightarrow> (Some (PhaseFinalize, Msg ''could not start the start command'' [], e), ops, w2)
              | (None, w2) \<Rightarrow>
                  if sp_ReadyCmd spec = [] then (None, ops, w2)
                  else (case awaitReady polls g a (withLine state (sp_ReadyCmd spec)) w2 of
                          (Some e, w3) \<Rightarrow>
                            (Some (PhaseFinalize, Msg ''the ready command %q did not exit 0 before the build timed out'' [sp_ReadyCmd spec], e), ops, w3)
                        | (None, w3) \<Rightarrow>
                            (None, ops @ [logf PhaseFinalize (Msg ''ready: %s exited 0'' [sp_ReadyCmd spec])], w3))))"

definition run_prepare :: "nat \<Rightarrow> 'w Guest \<Rightarrow> Assignment \<Rightarrow> 'w build_Spec \<Rightarrow> 'w
   \<Rightarrow> build_failure option \<times> run_op list \<times> 'w" where
  "run_prepare polls g a spec w =
     (let state = \<lparr>cm_Line = [], cm_User = build_defaultUser, cm_Workdir = [],
                   cm_Envs = (if as_NetRoute a = NetRouteRelay then maps_Copy [] RelayEnv else [])\<rparr>
      in case run_steps g 0 a spec state (sp_Steps spec) w of
           (Inl f, ops, w') \<Rightarrow> (Some f, ops, w')
         | (Inr state', ops, w') \<Rightarrow>
             (case run_finalize polls g a spec state' w' of (r, ops', w'') \<Rightarrow> (r, ops @ ops', w'')))"

definition run_promote :: "'w scatterGatherStore \<Rightarrow> Assignment \<Rightarrow> 'w build_Spec \<Rightarrow> 'w
   \<Rightarrow> build_failure option \<times> run_op list \<times> 'w" where
  "run_promote st a spec w =
     (case Promote st (as_Node a) (as_SandboxName a) (sp_Template spec) w of
        (Inl e, w1) \<Rightarrow> (Some (PhasePromote, Msg ''could not promote the build's sandbox'' [], e), [], w1)
      | (Inr (key, digest), w1) \<Rightarrow>
          (let ops = [logf PhasePromote (Msg ''promoted as %s, content digest %s'' [pk_Template key, digest])]
           in case sp_Publish spec of
                None \<Rightarrow> (None, ops, w1)
              | Some publish \<Rightarrow>
                  (case publish (as_Node a) key digest w1 of
                     (Some e, w2) \<Rightarrow> (Some (PhasePublish, Msg ''could not publish the build over the previous one'' [], e), ops, w2)
                   | (None, w2) \<Rightarrow> (None, ops, w2))))"

text \<open>\<^verbatim>\<open>release\<close> only logs what the store answers.\<close>

definition run_release :: "'w scatterGatherStore \<Rightarrow> Assignment \<Rightarrow> 'w \<Rightarrow> 'w" where
  "run_release st a w = snd (Release st (as_Node a) (as_SandboxName a) w)"

definition run_claimed :: "nat \<Rightarrow> 'w Guest \<Rightarrow> 'w scatterGatherStore \<Rightarrow> Assignment \<Rightarrow> 'w build_Spec \<Rightarrow> 'w
   \<Rightarrow> build_failure option \<times> run_op list \<times> 'w" where
  "run_claimed polls g st a spec w =
     (case run_prepare polls g a spec w of
        (Some f, ops, w') \<Rightarrow> (Some f, ops, w')
      | (None, ops, w') \<Rightarrow> (case run_promote st a spec w' of (r, ops', w'') \<Rightarrow> (r, ops @ ops', w'')))"

definition build_run :: "(nat \<Rightarrow> nat) \<Rightarrow> nat \<Rightarrow> 'w Guest \<Rightarrow> int \<Rightarrow> 'w scatterGatherStore \<Rightarrow> 'w build_Spec \<Rightarrow> 'w
   \<Rightarrow> run_op list \<times> 'w scatterGatherStore \<times> 'w" where
  "build_run rnd polls g timeout st spec w =
     (let pool = [pk_Template (sp_Pool spec), pk_Net (sp_Pool spec), pk_Size (sp_Pool spec)];
          start = logf PhaseClaim (Msg ''claiming a sandbox from %s (%s, %s)'' pool)
      in case Claim rnd st (sp_Namespace spec) (sp_ClaimName spec) (sp_Pool spec)
                \<lparr>co_TTLSeconds = go_quot timeout second, co_Metadata = [], co_OnExpire = ExpireKeep, co_NoEgress = False, co_Promoted = False\<rparr> w of
           (Inl e, st', w') \<Rightarrow>
             ([start] @ run_fail PhaseClaim
                (if IsNoWarmCapacity e then Msg ''no warm sandbox of %s (%s, %s); a pool must serve the build's image and size'' pool
                 else Msg ''could not claim a sandbox of %s (%s, %s)'' pool) @ [OpReturn], st', w')
         | (Inr a, st', w') \<Rightarrow>
             (case run_claimed polls g st' a spec w' of
                (r, ops, w'') \<Rightarrow>
                  ([start, logf PhaseClaim (Msg ''claimed %s on %s'' [as_SandboxName a, as_Node a])] @ ops
                   @ (case r of Some (phase, m, e) \<Rightarrow> run_fail phase m | None \<Rightarrow> [OpFinish StatusReady [] no_message])
                   @ [OpReturn], st', run_release st' a w'')))"

section \<open>What a build writes\<close>

fun is_log :: "run_op \<Rightarrow> bool" where
  "is_log (OpLog p l m) = True"
| "is_log _ = False"

text \<open>Log lines, then one outcome, ready without a failure or an error with a phase, then the slot.\<close>

fun run_shape :: "run_op list \<Rightarrow> bool" where
  "run_shape (OpLog p l m # ops) = run_shape ops"
| "run_shape (OpFinish status p m # ops) = (ops = [OpReturn] \<and> (status = StatusReady \<and> p = [] \<or> status = StatusErrored \<and> p \<noteq> []))"
| "run_shape _ = False"

lemma run_shape_logs: "list_all is_log logs \<Longrightarrow> run_shape (logs @ ops) = run_shape ops"
proof (induction logs)
  case (Cons x xs)
  then show ?case by (cases x) auto
qed simp

lemma log_lines_logs [simp]: "list_all is_log (log_lines phase ls)"
  by (auto simp: log_lines_def list_all_iff)

lemma is_log_logf [simp]: "is_log (logf p m)"
  by (simp add: logf_def)

lemma run_expand_logs: "run_expand g a root phase v w = (r, ops, w') \<Longrightarrow> list_all is_log ops"
  by (auto simp: run_expand_def split: prod.splits)

lemma env_pairs_logs: "env_pairs g a root phase args envs w = (r, ops, w') \<Longrightarrow> list_all is_log ops"
  by (induction g a root phase args envs w arbitrary: r ops w' rule: env_pairs.induct)
    (auto split: prod.splits sum.splits dest: run_expand_logs)

lemma run_step_logs: "run_step g phase a spec state s w = (r, ops, w') \<Longrightarrow> list_all is_log ops"
  by (auto simp: run_step_def Let_def split: go_splits dest: env_pairs_logs)

lemma run_steps_logs:
  "run_steps g i a spec state ss w = (r, ops, w') \<Longrightarrow> list_all is_log ops \<and> (\<forall>p m e. r = Inl (p, m, e) \<longrightarrow> p \<noteq> [])"
  by (induction g i a spec state ss w arbitrary: r ops w' rule: run_steps.induct)
    (auto simp: Let_def strconv_Itoa_def split: prod.splits sum.splits dest: run_step_logs)

lemmas phase_names = PhaseClaim_def PhaseFinalize_def PhasePromote_def PhasePublish_def

lemma run_finalize_logs:
  "run_finalize polls g a spec state w = (r, ops, w') \<Longrightarrow> list_all is_log ops \<and> (\<forall>p m e. r = Some (p, m, e) \<longrightarrow> p \<noteq> [])"
  by (auto simp: run_finalize_def Let_def phase_names split: if_splits prod.splits option.splits)

lemma run_prepare_logs:
  "run_prepare polls g a spec w = (r, ops, w') \<Longrightarrow> list_all is_log ops \<and> (\<forall>p m e. r = Some (p, m, e) \<longrightarrow> p \<noteq> [])"
  by (auto simp: run_prepare_def Let_def split: prod.splits sum.splits dest!: run_steps_logs run_finalize_logs)

lemma run_promote_logs:
  "run_promote st a spec w = (r, ops, w') \<Longrightarrow> list_all is_log ops \<and> (\<forall>p m e. r = Some (p, m, e) \<longrightarrow> p \<noteq> [])"
  by (auto simp: run_promote_def Let_def phase_names split: prod.splits sum.splits option.splits)

lemma run_claimed_logs:
  "run_claimed polls g st a spec w = (r, ops, w') \<Longrightarrow> list_all is_log ops \<and> (\<forall>p m e. r = Some (p, m, e) \<longrightarrow> p \<noteq> [])"
  by (auto simp: run_claimed_def split: prod.splits option.splits dest!: run_prepare_logs run_promote_logs)

lemma build_run_shape: "run_shape (fst (build_run rnd polls g timeout st spec w))"
  by (auto simp: build_run_def Let_def run_fail_def logf_def run_shape_logs phase_names
      split: prod.splits sum.splits option.splits dest!: run_claimed_logs)

text \<open>The outcome a build writes.\<close>

fun outcome :: "run_op list \<Rightarrow> (string \<times> string) option" where
  "outcome [] = None"
| "outcome (OpFinish status p m # ops) = Some (status, p)"
| "outcome (op # ops) = outcome ops"

lemma outcome_logs: "list_all is_log logs \<Longrightarrow> outcome (logs @ ops) = outcome ops"
proof (induction logs)
  case (Cons x xs)
  then show ?case by (cases x) auto
qed simp

lemma outcome_rest: "run_shape (sofar @ ops) \<Longrightarrow> run_shape ops \<Longrightarrow> outcome (sofar @ ops) = outcome ops"
proof (induction sofar)
  case (Cons x sofar)
  then show ?case by (cases x) (auto simp: append_eq_Cons_conv)
qed simp

section \<open>The executor as a state machine\<close>

text \<open>
  The executor with the goroutines it launched, each with the writes it has still to make. Every move is
  one critical section of the executor's mutex, or a goroutine handing back its slot; a registration's
  id is fresh, being made of a random UUID. A launched goroutine has any writes of the shape that \<open>build_run_shape\<close>
  shows of every run, so the runs of all specs over all worlds are among them.
\<close>

record build_system =
  sy_exec :: executor
  sy_running :: "(string \<times> run_op list) list"

inductive build_move :: "build_system \<Rightarrow> build_system \<Rightarrow> bool" where
  Register: "ex_builds (sy_exec S) i = None \<Longrightarrow> i \<notin> fst ` set (sy_running S) \<Longrightarrow>
    build_move S (S\<lparr>sy_exec := build_Register now i req (sy_exec S)\<rparr>)"
| Launch: "build_Start i (sy_exec S) = (None, True, e) \<Longrightarrow> run_shape ops \<Longrightarrow>
    build_move S \<lparr>sy_exec = e, sy_running = (i, ops) # sy_running S\<rparr>"
| Refuse: "build_Start i (sy_exec S) = (r, False, e) \<Longrightarrow> build_move S (S\<lparr>sy_exec := e\<rparr>)"
| Poll: "build_Status now i (sy_exec S) = (info, e) \<Longrightarrow> build_move S (S\<lparr>sy_exec := e\<rparr>)"
| Log: "sy_running S = xs @ (i, OpLog phase level m # ops) # ys \<Longrightarrow>
    build_move S \<lparr>sy_exec = build_log now i phase level m (sy_exec S), sy_running = xs @ (i, ops) # ys\<rparr>"
| Finish: "sy_running S = xs @ (i, OpFinish status phase m # ops) # ys \<Longrightarrow> now \<noteq> 0 \<Longrightarrow>
    build_move S \<lparr>sy_exec = build_finish now i status phase m (sy_exec S), sy_running = xs @ (i, ops) # ys\<rparr>"
| Return: "sy_running S = xs @ (i, OpReturn # ops) # ys \<Longrightarrow>
    build_move S \<lparr>sy_exec = (sy_exec S)\<lparr>ex_slots := ex_slots (sy_exec S) - 1\<rparr>, sy_running = xs @ ys\<rparr>"

definition building :: "build_record \<Rightarrow> bool" where
  "building r \<longleftrightarrow> if_Status (rc_info r) = StatusBuilding"

definition over :: "build_record \<Rightarrow> bool" where
  "over r \<longleftrightarrow> if_Status (rc_info r) \<in> {StatusReady, StatusErrored}"

text \<open>A record: a known status, a bounded log, an end time exactly when it is over, a failed phase exactly on an error.\<close>

definition record_ok :: "int \<Rightarrow> build_record \<Rightarrow> bool" where
  "record_ok cap r \<longleftrightarrow> if_Status (rc_info r) \<in> {StatusWaiting, StatusBuilding, StatusReady, StatusErrored}
     \<and> int (length (if_Logs (rc_info r))) \<le> max 0 cap \<and> (rc_finished r \<noteq> 0 \<longleftrightarrow> over r)
     \<and> (if_FailedPhase (rc_info r) \<noteq> [] \<longleftrightarrow> if_Status (rc_info r) = StatusErrored)"

text \<open>A goroutine with its outcome still to write has a building record; one that only returns has none or one that is over.\<close>

definition goroutine_ok :: "executor \<Rightarrow> string \<times> run_op list \<Rightarrow> bool" where
  "goroutine_ok e g \<longleftrightarrow>
     (run_shape (snd g) \<and> (\<exists>r. ex_builds e (fst g) = Some r \<and> building r)
      \<or> snd g = [OpReturn] \<and> (\<forall>r. ex_builds e (fst g) = Some r \<longrightarrow> over r))"

definition slots_ok :: "build_system \<Rightarrow> bool" where
  "slots_ok S \<longleftrightarrow> ex_slots (sy_exec S) = length (sy_running S) \<and> ex_slots (sy_exec S) \<le> ex_parallel (sy_exec S)
     \<and> distinct (map fst (sy_running S))"

definition records_ok :: "build_system \<Rightarrow> bool" where
  "records_ok S \<longleftrightarrow> (\<forall>i r. ex_builds (sy_exec S) i = Some r \<longrightarrow> record_ok (ex_logLines (sy_exec S)) r
     \<and> (building r \<longrightarrow> i \<in> fst ` set (sy_running S)))"

definition system_ok :: "build_system \<Rightarrow> bool" where
  "system_ok S \<longleftrightarrow> slots_ok S \<and> records_ok S \<and> list_all (goroutine_ok (sy_exec S)) (sy_running S)"

lemma sweep_builds:
  "ex_builds (build_sweep now e) i = Some r \<Longrightarrow> ex_builds e i = Some r"
  "ex_builds e i = Some r \<Longrightarrow> building r \<Longrightarrow> record_ok cap r \<Longrightarrow> ex_builds (build_sweep now e) i = Some r"
  by (auto simp: build_sweep_def expired_def building_def record_ok_def over_def time_IsZero_def build_status
      split: option.splits if_splits)

lemma sweep_fields [simp]:
  "ex_slots (build_sweep now e) = ex_slots e" "ex_parallel (build_sweep now e) = ex_parallel e"
  "ex_logLines (build_sweep now e) = ex_logLines e"
  by (simp_all add: build_sweep_def)

lemma goroutine_sweep:
  assumes "records_ok S" "goroutine_ok (sy_exec S) g"
  shows "goroutine_ok (build_sweep now (sy_exec S)) g"
  using assms sweep_builds(1) [of now "sy_exec S" "fst g"] sweep_builds(2) [of "sy_exec S" "fst g"]
  unfolding goroutine_ok_def records_ok_def by blast

lemma system_ok_sweep: "system_ok S \<Longrightarrow> system_ok (S\<lparr>sy_exec := build_sweep now (sy_exec S)\<rparr>)"
  using goroutine_sweep [of S]
  by (auto simp: system_ok_def slots_ok_def records_ok_def list_all_iff dest: sweep_builds(1))

text \<open>Changing one build's record disturbs no other goroutine.\<close>

lemma goroutine_other:
  "i \<noteq> fst g \<Longrightarrow> goroutine_ok (e\<lparr>ex_builds := b(i \<mapsto> r)\<rparr>) g = goroutine_ok (e\<lparr>ex_builds := b\<rparr>) g"
  by (simp add: goroutine_ok_def)

lemma goroutine_fields [simp]:
  "goroutine_ok (e\<lparr>ex_slots := n\<rparr>) = goroutine_ok e" "goroutine_ok (e\<lparr>ex_builds := ex_builds e\<rparr>) = goroutine_ok e"
  by (auto simp: goroutine_ok_def fun_eq_iff)

lemma system_ok_register:
  assumes "system_ok S" "i \<notin> fst ` set (sy_running S)"
  shows "system_ok (S\<lparr>sy_exec := build_Register now i req (sy_exec S)\<rparr>)"
proof -
  let ?S = "S\<lparr>sy_exec := build_sweep now (sy_exec S)\<rparr>"
  have "system_ok ?S" by (rule system_ok_sweep [OF assms(1)])
  moreover have "record_ok cap \<lparr>rc_req = req, rc_info = \<lparr>if_Status = StatusWaiting, if_Logs = [], if_FailedPhase = [], if_Failure = no_message\<rparr>,
      rc_registered = now, rc_finished = 0\<rparr>" for cap
    by (simp add: record_ok_def over_def build_status)
  moreover have "g \<in> set (sy_running S) \<Longrightarrow> i \<noteq> fst g" for g using assms(2) by auto
  ultimately show ?thesis
    by (auto simp: system_ok_def slots_ok_def records_ok_def list_all_iff build_Register_def Let_def goroutine_other
        building_def build_status simp del: fun_upd_apply split: if_splits)
      (auto simp: building_def build_status split: if_splits)
qed

lemma start_launched:
  assumes "build_Start i e = (None, True, e')"
  obtains r where "ex_builds e i = Some r" "if_Status (rc_info r) = StatusWaiting" "ex_slots e < ex_parallel e"
    "e' = e\<lparr>ex_slots := Suc (ex_slots e), ex_builds := (ex_builds e)(i \<mapsto> r\<lparr>rc_info := (rc_info r)\<lparr>if_Status := StatusBuilding\<rparr>\<rparr>)\<rparr>"
  using assms by (auto simp: build_Start_def split: option.splits if_splits)

lemma system_ok_launch:
  assumes "system_ok S" "build_Start i (sy_exec S) = (None, True, e)" "run_shape ops"
  shows "system_ok \<lparr>sy_exec = e, sy_running = (i, ops) # sy_running S\<rparr>"
proof -
  obtain r where r: "ex_builds (sy_exec S) i = Some r" "if_Status (rc_info r) = StatusWaiting"
    "ex_slots (sy_exec S) < ex_parallel (sy_exec S)"
    and e: "e = (sy_exec S)\<lparr>ex_slots := Suc (ex_slots (sy_exec S)),
      ex_builds := (ex_builds (sy_exec S))(i \<mapsto> r\<lparr>rc_info := (rc_info r)\<lparr>if_Status := StatusBuilding\<rparr>\<rparr>)\<rparr>"
    by (rule start_launched [OF assms(2)])
  have fresh: "i \<notin> fst ` set (sy_running S)"
    using assms(1) r(1,2) by (auto simp: system_ok_def list_all_iff goroutine_ok_def building_def over_def build_status)
  have "record_ok cap r \<Longrightarrow> record_ok cap (r\<lparr>rc_info := (rc_info r)\<lparr>if_Status := StatusBuilding\<rparr>\<rparr>)" for cap
    using r(2) by (auto simp: record_ok_def over_def build_status)
  moreover have "goroutine_ok e (i, ops)" using assms(3) by (simp add: goroutine_ok_def e building_def)
  moreover have "goroutine_ok e g" if "g \<in> set (sy_running S)" for g
    using that assms(1) fresh by (auto simp: system_ok_def list_all_iff e goroutine_ok_def)
  ultimately show ?thesis
    using assms(1) r fresh by (auto simp: system_ok_def slots_ok_def records_ok_def list_all_iff e split: if_splits)
qed

lemma running_split:
  assumes "system_ok S" "sy_running S = xs @ (i, ops) # ys"
  shows "goroutine_ok (sy_exec S) (i, ops)" "g \<in> set xs \<union> set ys \<Longrightarrow> i \<noteq> fst g \<and> goroutine_ok (sy_exec S) g"
proof -
  have all: "list_all (goroutine_ok (sy_exec S)) (xs @ (i, ops) # ys)" "distinct (map fst (xs @ (i, ops) # ys))"
    using assms by (auto simp: system_ok_def slots_ok_def)
  show "goroutine_ok (sy_exec S) (i, ops)" using all(1) by simp
  show "g \<in> set xs \<union> set ys \<Longrightarrow> i \<noteq> fst g \<and> goroutine_ok (sy_exec S) g"
    using all by (auto simp: list_all_iff)
qed

lemma system_ok_log:
  assumes "system_ok S" "sy_running S = xs @ (i, OpLog phase level m # ops) # ys"
  shows "system_ok \<lparr>sy_exec = build_log now i phase level m (sy_exec S), sy_running = xs @ (i, ops) # ys\<rparr>"
proof -
  obtain r where r: "ex_builds (sy_exec S) i = Some r" "building r" "run_shape ops"
    using running_split(1) [OF assms] by (auto simp: goroutine_ok_def)
  show ?thesis
    using assms r running_split(2) [OF assms]
    by (auto simp: system_ok_def slots_ok_def records_ok_def list_all_iff build_log_def goroutine_ok_def record_ok_def
        building_def over_def)
qed

lemma system_ok_finish:
  assumes "system_ok S" "sy_running S = xs @ (i, OpFinish status phase m # ops) # ys" "now \<noteq> 0"
  shows "system_ok \<lparr>sy_exec = build_finish now i status phase m (sy_exec S), sy_running = xs @ (i, ops) # ys\<rparr>"
proof -
  obtain r where r: "ex_builds (sy_exec S) i = Some r" "building r" "ops = [OpReturn]"
    "status = StatusReady \<and> phase = [] \<or> status = StatusErrored \<and> phase \<noteq> []"
    using running_split(1) [OF assms(1,2)] by (auto simp: goroutine_ok_def)
  show ?thesis
    using assms r running_split(2) [OF assms(1,2)]
    by (auto simp: system_ok_def slots_ok_def records_ok_def list_all_iff build_finish_def goroutine_ok_def record_ok_def
        building_def over_def build_status)
qed

lemma system_ok_return:
  assumes "system_ok S" "sy_running S = xs @ (i, OpReturn # ops) # ys"
  shows "system_ok \<lparr>sy_exec = (sy_exec S)\<lparr>ex_slots := ex_slots (sy_exec S) - 1\<rparr>, sy_running = xs @ ys\<rparr>"
proof -
  have "\<not> building r" if "ex_builds (sy_exec S) i = Some r" for r
    using that running_split(1) [OF assms] by (auto simp: goroutine_ok_def building_def over_def build_status)
  then show ?thesis
    using assms running_split(2) [OF assms]
    by (auto simp: system_ok_def slots_ok_def records_ok_def list_all_iff) blast
qed

lemma system_ok_move: "build_move S S' \<Longrightarrow> system_ok S \<Longrightarrow> system_ok S'"
proof (induction rule: build_move.induct)
  case (Refuse i S r e)
  then have "e = sy_exec S" by (auto simp: build_Start_def split: option.splits if_splits)
  then show ?case using Refuse by simp
next
  case (Poll now i S info e)
  then have "e = build_sweep now (sy_exec S)" by (auto simp: build_Status_def Let_def)
  then show ?case using Poll system_ok_sweep by auto
next
  case (Register S i now req)
  then show ?case by (intro system_ok_register)
next
  case (Finish S xs i status phase m ops ys now)
  then show ?case by (intro system_ok_finish)
qed (simp_all only: system_ok_launch system_ok_log system_ok_return)

definition build_init :: "nat \<Rightarrow> int \<Rightarrow> int \<Rightarrow> build_system" where
  "build_init parallel timeout logLines = \<lparr>sy_exec = executor_New parallel timeout logLines, sy_running = []\<rparr>"

lemma system_ok_reachable: "build_move\<^sup>*\<^sup>* (build_init parallel timeout logLines) S \<Longrightarrow> system_ok S"
proof (induction rule: rtranclp_induct)
  case base
  show ?case by (simp add: build_init_def executor_New_def system_ok_def slots_ok_def records_ok_def)
qed (rule system_ok_move)

lemma move_limits:
  "build_move S S' \<Longrightarrow> ex_parallel (sy_exec S') = ex_parallel (sy_exec S) \<and> ex_logLines (sy_exec S') = ex_logLines (sy_exec S)"
  by (induction rule: build_move.induct)
    (auto simp: build_Register_def build_Start_def build_Status_def build_log_def build_finish_def Let_def
      split: option.splits if_splits)

lemma reachable_limits:
  "build_move\<^sup>*\<^sup>* (build_init parallel timeout logLines) S \<Longrightarrow>
     ex_parallel (sy_exec S) = parallel \<and> ex_logLines (sy_exec S) = logLines"
  by (induction rule: rtranclp_induct) (auto simp: build_init_def executor_New_def dest: move_limits)

text \<open>
  A goroutine alone reaches its end: its own writes, one after the other, lead to a state where it is gone with
  its slot and its record holds the outcome, and nothing of the other builds has changed.
\<close>

definition ends_alone :: "string \<Rightarrow> run_op list \<Rightarrow> build_system \<Rightarrow> (string \<times> run_op list) list \<Rightarrow> build_system \<Rightarrow> bool" where
  "ends_alone i ops S rest S' \<longleftrightarrow> sy_running S' = rest \<and> ex_slots (sy_exec S) = Suc (ex_slots (sy_exec S'))
     \<and> (\<forall>j. j \<noteq> i \<longrightarrow> ex_builds (sy_exec S') j = ex_builds (sy_exec S) j)
     \<and> (\<exists>r. ex_builds (sy_exec S') i = Some r \<and> over r \<and> outcome ops = Some (if_Status (rc_info r), if_FailedPhase (rc_info r)))"

lemma goroutine_ends:
  assumes "system_ok S" "sy_running S = xs @ (i, ops) # ys" "run_shape ops"
  shows "\<exists>S'. build_move\<^sup>*\<^sup>* S S' \<and> ends_alone i ops S (xs @ ys) S'"
  using assms
proof (induction ops arbitrary: S rule: run_shape.induct)
  case (1 p l m ops)
  let ?S = "\<lparr>sy_exec = build_log 0 i p l m (sy_exec S), sy_running = xs @ (i, ops) # ys\<rparr>"
  have move: "build_move S ?S" using 1(3) by (rule build_move.Log)
  have ok: "system_ok ?S" by (rule system_ok_move [OF move 1(2)])
  have "run_shape ops" using 1(4) by simp
  with 1(1) [OF ok] obtain S' where S': "build_move\<^sup>*\<^sup>* ?S S'" "ends_alone i ops ?S (xs @ ys) S'" by auto
  moreover have "ends_alone i (OpLog p l m # ops) S (xs @ ys) S'"
    using S'(2) by (auto simp: ends_alone_def build_log_def split: option.splits if_splits)
  ultimately show ?case using move by (meson converse_rtranclp_into_rtranclp)
next
  case (2 status p m ops)
  then have ops: "ops = [OpReturn]" by simp
  obtain r where r: "ex_builds (sy_exec S) i = Some r"
    using running_split(1) [OF 2(1,2)] by (auto simp: goroutine_ok_def)
  let ?S = "\<lparr>sy_exec = build_finish 1 i status p m (sy_exec S), sy_running = xs @ (i, ops) # ys\<rparr>"
  let ?T = "\<lparr>sy_exec = (sy_exec ?S)\<lparr>ex_slots := ex_slots (sy_exec ?S) - 1\<rparr>, sy_running = xs @ ys\<rparr>"
  have "build_move S ?S" using 2(2) by (rule build_move.Finish) simp
  moreover have "build_move ?S ?T" by (rule build_move.Return [of _ _ i "[]"]) (simp add: ops)
  ultimately have "build_move\<^sup>*\<^sup>* S ?T" by (meson converse_rtranclp_into_rtranclp r_into_rtranclp)
  moreover have "ends_alone i (OpFinish status p m # ops) S (xs @ ys) ?T"
    using r 2 by (auto simp: ends_alone_def build_finish_def over_def system_ok_def slots_ok_def)
  ultimately show ?case by blast
qed simp_all

section \<open>Properties\<close>

text \<open>
  C16. In every interleaving of requests, status polls and running builds, a slot is taken for each
  running goroutine and never more than the configured number, so at most that many builds are in the
  state building; every record has a known status, a log within the cap, an end time exactly when the build
  is over, and a failed phase exactly when it is an error.
\<close>

theorem executor_invariant:
  assumes "build_move\<^sup>*\<^sup>* (build_init parallel timeout logLines) S"
  shows "ex_slots (sy_exec S) = length (sy_running S) \<and> length (sy_running S) \<le> parallel
    \<and> card {i. \<exists>r. ex_builds (sy_exec S) i = Some r \<and> building r} \<le> parallel
    \<and> (\<forall>i r. ex_builds (sy_exec S) i = Some r \<longrightarrow> record_ok logLines r)"
proof -
  have ok: "system_ok S" by (rule system_ok_reachable [OF assms])
  note lim = reachable_limits [OF assms]
  define B where "B = {i. \<exists>r. ex_builds (sy_exec S) i = Some r \<and> building r}"
  have "B \<subseteq> set (map fst (sy_running S))" using ok by (auto simp: B_def system_ok_def records_ok_def)
  then have "card B \<le> length (map fst (sy_running S))" by (meson List.finite_set card_length card_mono le_trans)
  then show ?thesis using ok lim by (auto simp: B_def [symmetric] system_ok_def slots_ok_def records_ok_def)
qed

text \<open>
  A build that is over stays as it is: in every reachable state, whatever happens next either leaves its
  record, log and outcome included, untouched or drops it whole.
\<close>

theorem build_outcome_final:
  assumes "build_move\<^sup>*\<^sup>* (build_init parallel timeout logLines) S" and "build_move S S'"
    and "ex_builds (sy_exec S) i = Some r" and "over r"
  shows "ex_builds (sy_exec S') i \<in> {None, Some r}"
proof -
  have ok: "system_ok S" by (rule system_ok_reachable [OF assms(1)])
  have idle: "j \<noteq> i" if "sy_running S = xs @ (j, op # ops) # ys" "op \<noteq> OpReturn" for xs j op ops ys
    using running_split(1) [OF ok that(1)] that(2) assms(3,4)
    by (auto simp: goroutine_ok_def building_def over_def build_status)
  show ?thesis using assms(2)
  proof (cases rule: build_move.cases)
    case (Launch j e ops)
    from Launch(2) obtain q where "ex_builds (sy_exec S) j = Some q" "if_Status (rc_info q) = StatusWaiting"
      "ex_builds e = (ex_builds (sy_exec S))(j \<mapsto> q\<lparr>rc_info := (rc_info q)\<lparr>if_Status := StatusBuilding\<rparr>\<rparr>)"
      by (auto elim: start_launched)
    then show ?thesis using assms(3,4) Launch(1) by (cases "i = j") (auto simp: over_def build_status)
  next
    case (Refuse j q e)
    then show ?thesis using assms(3) by (auto simp: build_Start_def split: option.splits if_splits)
  next
    case (Log xs j phase level m ops ys now)
    then show ?thesis using idle [OF Log(2)] assms(3) by (auto simp: build_log_def split: option.splits)
  next
    case (Finish xs j status phase m ops ys now)
    then show ?thesis using idle [OF Finish(2)] assms(3) by (auto simp: build_finish_def split: option.splits)
  next
    case (Register j now req)
    then show ?thesis using assms(3) by (auto simp: build_Register_def build_sweep_def Let_def)
  next
    case (Poll now j info e)
    then show ?thesis using assms(3) by (auto simp: build_Status_def build_sweep_def Let_def split: if_splits)
  next
    case (Return xs j ops ys)
    then show ?thesis using assms(3) by simp
  qed
qed

text \<open>
  C17. A started build can always end on its own. From every reachable state, the writes that a run of the build
  has still to make lead to a state where its goroutine is gone, exactly one slot is free again, the other
  goroutines stand where they stood, the other records are unchanged, and its own record is over, with the
  status and the failed phase of that run; if only the return was left, its record stays as it is.
\<close>

theorem build_completes:
  assumes "build_move\<^sup>*\<^sup>* (build_init parallel timeout logLines) S" and "sy_running S = xs @ (i, ops) # ys"
    and "sofar @ ops = fst (build_run rnd polls g limit st spec w)"
  shows "\<exists>S'. build_move\<^sup>*\<^sup>* S S' \<and> sy_running S' = xs @ ys \<and> ex_slots (sy_exec S) = Suc (ex_slots (sy_exec S'))
    \<and> (\<forall>j. j \<noteq> i \<longrightarrow> ex_builds (sy_exec S') j = ex_builds (sy_exec S) j)
    \<and> (ops = [OpReturn] \<and> ex_builds (sy_exec S') i = ex_builds (sy_exec S) i
       \<or> (\<exists>r. ex_builds (sy_exec S') i = Some r \<and> over r
            \<and> outcome (fst (build_run rnd polls g limit st spec w)) = Some (if_Status (rc_info r), if_FailedPhase (rc_info r))))"
proof (cases "run_shape ops")
  case True
  have "outcome (fst (build_run rnd polls g limit st spec w)) = outcome ops"
    using outcome_rest [OF _ True, of sofar] build_run_shape [of rnd polls g limit st spec w] assms(3) by simp
  then show ?thesis
    using goroutine_ends [OF system_ok_reachable [OF assms(1)] assms(2) True] by (auto simp: ends_alone_def)
next
  case False
  note ok = system_ok_reachable [OF assms(1)]
  have ops: "ops = [OpReturn]" using running_split(1) [OF ok assms(2)] False by (simp add: goroutine_ok_def)
  let ?S = "\<lparr>sy_exec = (sy_exec S)\<lparr>ex_slots := ex_slots (sy_exec S) - 1\<rparr>, sy_running = xs @ ys\<rparr>"
  have "build_move S ?S" using assms(2) [unfolded ops] by (rule build_move.Return)
  moreover have "ex_slots (sy_exec S) = Suc (ex_slots (sy_exec ?S))" using ok assms(2) by (simp add: system_ok_def slots_ok_def)
  ultimately show ?thesis using ops by (intro exI [of _ ?S]) auto
qed

text \<open>
  A build holds its claim only while it runs: if its claim was granted, whatever happens to the steps, the
  start and ready commands, the promote and the publication, the last thing it does is to release exactly
  that claim, and it reports ready only when all of them succeeded; if the claim was refused it does nothing
  else and reports an error of the claim phase. Either way it writes one outcome and returns its slot.
\<close>

theorem build_releases_claim:
  assumes "Claim rnd st (sp_Namespace spec) (sp_ClaimName spec) (sp_Pool spec) \<lparr>co_TTLSeconds = go_quot timeout second, co_Metadata = [],
      co_OnExpire = ExpireKeep, co_NoEgress = False, co_Promoted = False\<rparr> w = (c, st1, w1)"
    and "build_run rnd polls g timeout st spec w = (ops, st', w')"
  shows "run_shape ops \<and> st' = st1 \<and>
    (case c of
       Inl e \<Rightarrow> w' = w1 \<and> outcome ops = Some (StatusErrored, PhaseClaim)
     | Inr a \<Rightarrow> (\<exists>r logs w2. run_claimed polls g st1 a spec w1 = (r, logs, w2)
         \<and> w' = snd (Release st1 (as_Node a) (as_SandboxName a) w2)
         \<and> outcome ops = Some (case r of None \<Rightarrow> (StatusReady, []) | Some (phase, m, e) \<Rightarrow> (StatusErrored, phase))))"
proof -
  have "run_shape ops" using build_run_shape [of rnd polls g timeout st spec w] assms(2) by simp
  moreover obtain r logs w2 where run: "run_claimed polls g st1 (projr c) spec w1 = (r, logs, w2)" by (metis surj_pair)
  note outcome_logs [OF conjunct1 [OF run_claimed_logs [OF this]]]
  ultimately show ?thesis
    using assms run
    by (cases c) (auto simp: build_run_def Let_def run_fail_def logf_def run_release_def split: option.splits prod.splits)
qed

section \<open>Concrete builds\<close>

definition demo_request :: build_Request where
  "demo_request = \<lparr>bq_Size = [], bq_Tags = []\<rparr>"

definition demo_ops :: "run_op list" where
  "demo_ops = [OpLog PhaseClaim ''info'' no_message, OpFinish StatusReady [] no_message, OpReturn]"

definition demo_registered :: build_system where
  "demo_registered = \<lparr>sy_exec = build_Register 5 ''b'' demo_request (executor_New 1 60 10), sy_running = []\<rparr>"

definition demo_launched :: build_system where
  "demo_launched = \<lparr>sy_exec = snd (snd (build_Start ''b'' (sy_exec demo_registered))), sy_running = [(''b'', demo_ops)]\<rparr>"

definition demo_logged :: build_system where
  "demo_logged = \<lparr>sy_exec = build_log 6 ''b'' PhaseClaim ''info'' no_message (sy_exec demo_launched), sy_running = [(''b'', tl demo_ops)]\<rparr>"

definition demo_finished :: build_system where
  "demo_finished = \<lparr>sy_exec = build_finish 7 ''b'' StatusReady [] no_message (sy_exec demo_logged), sy_running = [(''b'', [OpReturn])]\<rparr>"

definition demo_returned :: build_system where
  "demo_returned = \<lparr>sy_exec = (sy_exec demo_finished)\<lparr>ex_slots := ex_slots (sy_exec demo_finished) - 1\<rparr>, sy_running = []\<rparr>"

lemmas demo_systems = demo_registered_def demo_launched_def demo_logged_def demo_finished_def demo_ops_def
  build_Register_def build_Start_def build_log_def build_finish_def build_sweep_def executor_New_def Let_def

lemma demo_moves:
  "build_move (build_init 1 60 10) demo_registered" "build_move demo_registered demo_launched"
  "build_move demo_launched demo_logged" "build_move demo_logged demo_finished" "build_move demo_finished demo_returned"
proof -
  show "build_move (build_init 1 60 10) demo_registered"
    using build_move.Register [of "build_init 1 60 10" "''b''" 5 demo_request]
    by (simp add: build_init_def demo_registered_def executor_New_def)
  show "build_move demo_registered demo_launched"
    using build_move.Launch [of "''b''" demo_registered "sy_exec demo_launched" demo_ops]
    by (simp add: demo_systems build_status)
  show "build_move demo_launched demo_logged"
    using build_move.Log [of demo_launched "[]" "''b''" PhaseClaim "''info''" no_message "tl demo_ops" "[]" 6]
    by (simp add: demo_launched_def demo_logged_def demo_ops_def)
  show "build_move demo_logged demo_finished"
    using build_move.Finish [of demo_logged "[]" "''b''" StatusReady "[]" no_message "[OpReturn]" "[]" 7]
    by (simp add: demo_logged_def demo_finished_def demo_ops_def)
  show "build_move demo_finished demo_returned"
    using build_move.Return [of demo_finished "[]" "''b''" "[]" "[]"] by (simp add: demo_finished_def demo_returned_def)
qed

lemma demo_reach:
  "build_move\<^sup>*\<^sup>* (build_init 1 60 10) demo_launched" "build_move\<^sup>*\<^sup>* (build_init 1 60 10) demo_finished"
proof -
  note step = rtranclp.rtrancl_into_rtrancl [where r = build_move]
  note one = step [OF r_into_rtranclp [where r = build_move, OF demo_moves(1)] demo_moves(2)]
  show "build_move\<^sup>*\<^sup>* (build_init 1 60 10) demo_launched" by (rule one)
  show "build_move\<^sup>*\<^sup>* (build_init 1 60 10) demo_finished" by (rule step [OF step [OF one demo_moves(3)] demo_moves(4)])
qed

lemma demo_over: "\<exists>r. ex_builds (sy_exec demo_finished) ''b'' = Some r \<and> over r"
  by (simp add: demo_systems over_def build_status)

theorem executor_invariant_witness:
  "ex_slots (sy_exec demo_launched) = 1
   \<and> card {i. \<exists>r. ex_builds (sy_exec demo_launched) i = Some r \<and> building r} \<le> 1"
  using executor_invariant [OF demo_reach(1)] by (simp add: demo_launched_def)

theorem build_outcome_final_witness:
  "\<exists>r. over r \<and> ex_builds (sy_exec demo_returned) ''b'' \<in> {None, Some r}"
  using demo_over build_outcome_final [OF demo_reach(2) demo_moves(5)] by blast

definition demo_build :: "StaticInventorySource build_Spec" where
  "demo_build = \<lparr>sp_Namespace = ''ns'', sp_ClaimName = ''b'', sp_Pool = demo_key, sp_Template = ''t'', sp_Steps = [],
     sp_StartCmd = [], sp_ReadyCmd = [], sp_Archive = (\<lambda>h w. Inr []), sp_Publish = None\<rparr>"

definition demo_guest :: "'w Guest" where
  "demo_guest = \<lparr>gu_Run = (\<lambda>a c w. (Inr 0, [], w)), gu_Start = (\<lambda>a c w. (None, w)), gu_Init = (\<lambda>a c w. (None, w)),
     gu_Write = (\<lambda>a p d w. (None, w))\<rparr>"

definition exec_demo_run :: "run_op list" where
  "exec_demo_run = fst (build_run (\<lambda>k. 0) 0 demo_guest (60 * second) (demo_store demo_answers) demo_build demo_fleet)"

definition demo_running :: build_system where
  "demo_running = \<lparr>sy_exec = sy_exec demo_launched, sy_running = [(''b'', exec_demo_run)]\<rparr>"

lemma demo_running_reach: "build_move\<^sup>*\<^sup>* (build_init 1 60 10) demo_running"
proof -
  have "build_move demo_registered demo_running"
    using build_move.Launch [of "''b''" demo_registered "sy_exec demo_launched" exec_demo_run]
    by (simp add: demo_running_def exec_demo_run_def build_run_shape) (simp add: demo_systems build_status)
  with demo_moves(1) show ?thesis by (rule rtranclp.rtrancl_into_rtrancl [OF r_into_rtranclp])
qed

theorem build_completes_witness:
  "\<exists>S' r. build_move\<^sup>*\<^sup>* demo_running S' \<and> sy_running S' = [] \<and> ex_slots (sy_exec demo_running) = Suc (ex_slots (sy_exec S'))
    \<and> ex_builds (sy_exec S') ''b'' = Some r \<and> over r
    \<and> outcome exec_demo_run = Some (if_Status (rc_info r), if_FailedPhase (rc_info r))"
proof -
  have "run_shape exec_demo_run" "\<not> run_shape [OpReturn]" by (simp_all add: exec_demo_run_def build_run_shape)
  then have "exec_demo_run \<noteq> [OpReturn]" by metis
  moreover have run: "sy_running demo_running = [] @ (''b'', exec_demo_run) # []" by (simp add: demo_running_def)
  moreover have ops: "[] @ exec_demo_run = fst (build_run (\<lambda>k. 0) 0 demo_guest (60 * second) (demo_store demo_answers) demo_build demo_fleet)"
    by (simp add: exec_demo_run_def)
  ultimately show ?thesis using build_completes [OF demo_running_reach run ops] by (auto simp: exec_demo_run_def)
qed

theorem build_releases_claim_witness:
  "\<exists>c st1 w1 ops st' w'. run_shape ops \<and> build_run (\<lambda>k. 0) 0 demo_guest (60 * second) (demo_store demo_answers) demo_build demo_fleet = (ops, st', w')
    \<and> Claim (\<lambda>k. 0) (demo_store demo_answers) ''ns'' ''b'' demo_key \<lparr>co_TTLSeconds = go_quot (60 * second) second, co_Metadata = [],
        co_OnExpire = ExpireKeep, co_NoEgress = False, co_Promoted = False\<rparr> demo_fleet = (c, st1, w1)
    \<and> (case c of Inl e \<Rightarrow> w' = w1
       | Inr a \<Rightarrow> (\<exists>w2. w' = snd (Release st1 (as_Node a) (as_SandboxName a) w2)))"
proof -
  obtain c st1 w1 where c: "Claim (\<lambda>k. 0) (demo_store demo_answers) (sp_Namespace demo_build) (sp_ClaimName demo_build) (sp_Pool demo_build)
      \<lparr>co_TTLSeconds = go_quot (60 * second) second, co_Metadata = [], co_OnExpire = ExpireKeep, co_NoEgress = False, co_Promoted = False\<rparr>
      demo_fleet = (c, st1, w1)" by (rule prod_cases3)
  obtain ops st' w' where r: "build_run (\<lambda>k. 0) 0 demo_guest (60 * second) (demo_store demo_answers) demo_build demo_fleet = (ops, st', w')"
    by (rule prod_cases3)
  from build_releases_claim [OF c r] c r show ?thesis
    by (intro exI [of _ c] exI [of _ st1] exI [of _ w1] exI [of _ ops] exI [of _ st'] exI [of _ w'])
      (auto simp: demo_build_def split: sum.splits)
qed

end
