(* ===== verification/E2B_Envd.thy ===== *)
theory E2B_Envd
  imports E2B_List Build_Executor
begin

text \<open>
  The calls into envd, the agent inside a guest (pkg/e2bcompat/envd.go), over the connection the store
  opens to its port. What travels over a connection and the JSON codecs of the bodies are the record
  \<open>envd_io\<close>; a reply is read whole, with the error its body ends in, if any. The deadlines of a call's
  context are left out: a call that runs into one fails like a broken connection.
\<close>

record envd_request = http_request +
  hq_AccessToken :: "string option"

record envdMetrics =
  em_Timestamp :: int
  em_CPUCount :: int
  em_CPUUsedPct :: int
  em_MemTotal :: int
  em_MemUsed :: int
  em_MemCache :: int
  em_DiskUsed :: int
  em_DiskTotal :: int

record envdInit =
  ei_AccessToken :: string
  ei_EnvVars :: "(string \<times> string) list"
  ei_DefaultUser :: string
  ei_DefaultWorkdir :: string
  ei_Timestamp :: time

record envd_process =
  ep_Cmd :: string
  ep_Args :: "string list"
  ep_Envs :: "(string \<times> string) list"
  ep_Cwd :: string

record envdStart =
  ep_Process :: envd_process
  ep_Stdin :: bool

text \<open>One message of a process stream; the unit marks a start.\<close>

record envdEvent =
  ee_Start :: "unit option"
  ee_Data :: "(string \<times> string) option"
  ee_End :: "int option"
  ee_Error :: "string option"

record 'w envd_io =
  eo_Write :: "nat \<Rightarrow> envd_request \<Rightarrow> 'w \<Rightarrow> err option \<times> 'w"
  eo_ReadResponse :: "nat \<Rightarrow> 'w \<Rightarrow> (err + http_response) \<times> 'w"
  eo_Close :: "nat \<Rightarrow> 'w \<Rightarrow> 'w"
  eo_init :: "envdInit \<Rightarrow> string"
  eo_start :: "envdStart \<Rightarrow> string"
  eo_metrics :: "string \<Rightarrow> err + envdMetrics"
  eo_envs :: "string \<Rightarrow> err + (string \<times> string) list option"
  eo_event :: "string \<Rightarrow> err + envdEvent"
  eo_sha512 :: "string \<Rightarrow> string"

definition e2b_envdPort :: nat where "e2b_envdPort = 49983"
definition envdReplyMax :: nat where "envdReplyMax = 64 * 2 ^ 10"
definition envdHostAlias :: string where "envdHostAlias = ''envd''"
definition envdDefaultUser :: string where "envdDefaultUser = ''user''"
definition envdDefaultWorkdir :: string where "envdDefaultWorkdir = ''/home/user''"
definition envdProcessStart :: string where "envdProcessStart = ''/process.Process/Start''"
definition connectFrameMax :: nat where "connectFrameMax = 2 ^ 20"
definition logLineMax :: nat where "logLineMax = 64 * 2 ^ 10"

section \<open>Lines of output\<close>

text \<open>A splitter's buffer and the lines it hands out.\<close>

fun split_lines :: "string \<Rightarrow> string \<Rightarrow> string list \<times> string" where
  "split_lines acc [] = ([], acc)"
| "split_lines acc (c # cs) =
     (if c = CHR 0x0A then (case split_lines [] cs of (ls, rest) \<Rightarrow> (acc # ls, rest)) else split_lines (acc @ [c]) cs)"

definition splitter_flush :: "string \<Rightarrow> string list \<times> string" where
  "splitter_flush buf = (if buf \<noteq> [] then ([buf], []) else ([], buf))"

definition splitter_write :: "string \<Rightarrow> string \<Rightarrow> string list \<times> string" where
  "splitter_write buf p =
     (case split_lines [] (buf @ p) of
        (ls, rest) \<Rightarrow>
          if length rest > logLineMax then (case splitter_flush rest of (l, rest') \<Rightarrow> (ls @ l, rest')) else (ls, rest))"

section \<open>One call\<close>

text \<open>A round trip gives the connection with the reply: closing the body closes the connection.\<close>

definition envdRoundTrip :: "'w envd_io \<Rightarrow> 'w scatterGatherStore \<Rightarrow> string \<Rightarrow> string \<Rightarrow> string \<Rightarrow> envd_request \<Rightarrow> 'w
   \<Rightarrow> (err + nat \<times> http_response) \<times> 'w" where
  "envdRoundTrip o' st node i relay req w =
     (case DialGuestPort st node i relay e2b_envdPort w of
        (Inl e, w1) \<Rightarrow> (Inl e, w1)
      | (Inr conn, w1) \<Rightarrow>
          (case eo_Write o' conn req w1 of
             (Some e, w2) \<Rightarrow> (Inl e, eo_Close o' conn w2)
           | (None, w2) \<Rightarrow>
               (case eo_ReadResponse o' conn w2 of
                  (Inl e, w3) \<Rightarrow> (Inl e, eo_Close o' conn w3)
                | (Inr resp, w3) \<Rightarrow> (Inr (conn, resp), w3))))"

definition envdCallOver :: "'w envd_io \<Rightarrow> 'w scatterGatherStore \<Rightarrow> string \<Rightarrow> string \<Rightarrow> string \<Rightarrow> string \<Rightarrow> string \<Rightarrow> string
   \<Rightarrow> string option \<Rightarrow> 'w \<Rightarrow> (err + int \<times> string) \<times> 'w" where
  "envdCallOver o' st node i relay verb path token body w =
     (let req = \<lparr>hq_Method = verb, hq_URL = ''http://'' @ envdHostAlias @ path,
                 hq_ContentType = (if body \<noteq> None then Some ''application/json'' else None), hq_Authorization = None,
                 hq_Body = body, hq_AccessToken = (if token \<noteq> [] then Some token else None)\<rparr>
      in case envdRoundTrip o' st node i relay req w of
           (Inl e, w1) \<Rightarrow> (Inl e, w1)
         | (Inr (conn, resp), w1) \<Rightarrow>
             (case read_limited envdReplyMax resp of
                (reply, Some e) \<Rightarrow> (Inl e, eo_Close o' conn w1)
              | (reply, None) \<Rightarrow> (Inr (hp_StatusCode resp, reply), eo_Close o' conn w1)))"

definition envdCall :: "'w envd_io \<Rightarrow> 'w scatterGatherStore \<Rightarrow> string \<Rightarrow> string \<Rightarrow> string \<Rightarrow> string \<Rightarrow> string
   \<Rightarrow> string option \<Rightarrow> 'w \<Rightarrow> (err + int \<times> string) \<times> 'w" where
  "envdCall o' st node i = envdCallOver o' st node i []"

section \<open>What the server asks of envd\<close>

text \<open>The metrics of a live sandbox; None for a paused one.\<close>

definition readEnvdMetrics :: "e2b_env \<Rightarrow> 'w envd_io \<Rightarrow> 'w Server \<Rightarrow> 'w scatterGatherStore \<Rightarrow> string \<Rightarrow> string \<Rightarrow> 'w
   \<Rightarrow> (err + envdMetrics option) \<times> 'w" where
  "readEnvdMetrics env o' s st node i w =
     (case store_Read st node i w of
        Inl e \<Rightarrow> (Inl e, w)
      | Inr rec' \<Rightarrow>
          if sr_Paused rec' then (Inr None, w)
          else (case envdCall o' st node i ''GET'' ''/metrics'' (AccessToken (ev_mac env) (so_EnvdSecret (sv_opts s)) (sr_Token rec')) None w of
                  (Inl e, w') \<Rightarrow>
                    if k8s_IsConflict e then (Inr None, w')
                    else (Inl (Wrap (Msg ''envd metrics of %s: %w'' [i]) e), w')
                | (Inr (status, body), w') \<Rightarrow>
                    if status \<noteq> 200 then (Inl (PlainError (Msg ''envd metrics of %s: envd answered %d'' [i, strconv_Itoa status])), w')
                    else (case eo_metrics o' body of
                            Inl e \<Rightarrow> (Inl (Wrap (Msg ''decode envd metrics of %s: %w'' [i]) e), w')
                          | Inr m \<Rightarrow> (Inr (Some m), w'))))"

definition initEnvd :: "e2b_env \<Rightarrow> 'w envd_io \<Rightarrow> 'w scatterGatherStore \<Rightarrow> string \<Rightarrow> string \<Rightarrow> string \<Rightarrow> envdInit \<Rightarrow> 'w
   \<Rightarrow> err option \<times> 'w" where
  "initEnvd env o' st node i relay req w =
     (case envdCallOver o' st node i relay ''POST'' ''/init'' [] (Some (eo_init o' (req\<lparr>ei_Timestamp := io_now env\<rparr>))) w of
        (Inl e, w') \<Rightarrow> (Some (Wrap (Msg ''envd init of %s: %w'' [i]) e), w')
      | (Inr (status, _), w') \<Rightarrow>
          if status \<noteq> 204 then (Some (PlainError (Msg ''envd init of %s: envd answered %d'' [i, strconv_Itoa status])), w')
          else (None, w'))"

definition templateEnvs :: "'w envd_io \<Rightarrow> 'w scatterGatherStore \<Rightarrow> Assignment \<Rightarrow> (string \<times> string) list \<Rightarrow> 'w
   \<Rightarrow> (err + (string \<times> string) list) \<times> 'w" where
  "templateEnvs o' st a envs w =
     (if envs = [] then (Inr [], w)
      else (case envdCall o' st (as_Node a) (as_SandboxName a) ''GET'' ''/envs'' [] None w of
              (Inl e, w') \<Rightarrow> (Inl (Wrap (Msg ''envd envs of %s: %w'' [as_SandboxName a]) e), w')
            | (Inr (status, body), w') \<Rightarrow>
                if status \<noteq> 200 then (Inl (PlainError (Msg ''envd envs of %s: envd answered %d'' [as_SandboxName a, strconv_Itoa status])), w')
                else (case eo_envs o' body of
                        Inl e \<Rightarrow> (Inl (Wrap (Msg ''decode envd envs of %s: %w'' [as_SandboxName a]) e), w')
                      | Inr out \<Rightarrow> (Inr (maps_Copy (case out of None \<Rightarrow> [] | Some l \<Rightarrow> l) envs), w'))))"

definition no_init :: envdInit where
  "no_init = \<lparr>ei_AccessToken = [], ei_EnvVars = [], ei_DefaultUser = [], ei_DefaultWorkdir = [], ei_Timestamp = 0\<rparr>"

definition handOver :: "e2b_env \<Rightarrow> 'w envd_io \<Rightarrow> 'w scatterGatherStore \<Rightarrow> Assignment \<Rightarrow> string \<Rightarrow> 'w \<Rightarrow> err option \<times> 'w" where
  "handOver env o' st child token w =
     (let doc = ''{\"accessTokenHash\":\"'' @ hex_EncodeToString (eo_sha512 o' token) @ ''\"}''
      in case SetInstanceMetadata st (as_Node child) (as_SandboxName child) doc w of
           (Inl e, w') \<Rightarrow> (Some e, w')
         | (Inr _, w') \<Rightarrow> initEnvd env o' st (as_Node child) (as_SandboxName child) [] (no_init\<lparr>ei_AccessToken := token\<rparr>) w')"

fun releaseAll :: "'w scatterGatherStore \<Rightarrow> Assignment list \<Rightarrow> 'w \<Rightarrow> 'w" where
  "releaseAll st [] w = w"
| "releaseAll st (a # as) w = releaseAll st as (snd (Release st (as_Node a) (as_SandboxName a) w))"

definition withRelay :: "string \<Rightarrow> (string \<times> string) list \<Rightarrow> (string \<times> string) list" where
  "withRelay route envs = (if route \<noteq> NetRouteRelay then envs else maps_Copy RelayEnv envs)"

section \<open>Processes\<close>

text \<open>\<^verbatim>\<open>base64.StdEncoding\<close>.\<close>

definition base64_StdEncode :: "string \<Rightarrow> string" where
  "base64_StdEncode s =
     map (\<lambda>n. ''ABCDEFGHIJKLMNOPQRSTUVWXYZabcdefghijklmnopqrstuvwxyz0123456789+/'' ! n) (b64_sextets (map of_char s))
     @ replicate ((3 - length s mod 3) mod 3) (CHR ''='')"

text \<open>\<^verbatim>\<open>binary.BigEndian.AppendUint32\<close> and \<^verbatim>\<open>Uint32\<close>.\<close>

definition be32 :: "nat \<Rightarrow> string" where
  "be32 n = map char_of [n div 2 ^ 24 mod 256, n div 2 ^ 16 mod 256, n div 2 ^ 8 mod 256, n mod 256]"

definition be32_val :: "string \<Rightarrow> nat" where
  "be32_val s = foldl (\<lambda>n c. n * 256 + of_char c) 0 s"

definition connectFrame :: "char \<Rightarrow> string \<Rightarrow> string" where
  "connectFrame flags m = [flags] @ be32 (length m mod 2 ^ 32) @ m"

text \<open>\<^verbatim>\<open>io.ReadFull\<close> of \<open>n\<close> bytes from what is left of a body.\<close>

definition ErrUnexpectedEOF :: err where "ErrUnexpectedEOF = PlainError (Msg ''unexpected EOF'' [])"

definition read_full :: "nat \<Rightarrow> string \<Rightarrow> err option \<Rightarrow> err + string \<times> string" where
  "read_full n body broken =
     (if length body \<ge> n then Inr (take n body, drop n body)
      else Inl (case broken of Some e \<Rightarrow> e | None \<Rightarrow> if body = [] then EOF else ErrUnexpectedEOF))"

text \<open>
  The frames of a process stream: what they passed to the output callback, if there is one, and how the
  call ends, with an exit code or running.
\<close>

function read_frames :: "'w envd_io \<Rightarrow> string \<Rightarrow> bool \<Rightarrow> string \<Rightarrow> err option \<Rightarrow> (string \<times> string) list \<times> (err + int \<times> bool)" where
  "read_frames o' name wants body broken =
     (let fail = (\<lambda>m e. Inl (Wrap (Msg m [name]) e))
      in case read_full 5 body broken of
           Inl e \<Rightarrow> ([], fail ''envd process stream in %s: %w'' e)
         | Inr (head, rest) \<Rightarrow>
             (let n = be32_val (tl head)
              in if n > connectFrameMax then
                   ([], Inl (PlainError (Msg ''envd process stream in %s: a %d-byte frame'' [name, format_nat n])))
                 else (case read_full n rest broken of
                         Inl e \<Rightarrow> ([], fail ''envd process stream in %s: %w'' e)
                       | Inr (payload, rest') \<Rightarrow>
                           (case eo_event o' payload of
                              Inl e \<Rightarrow> ([], fail ''decode envd process stream in %s: %w'' e)
                            | Inr ev \<Rightarrow>
                                if odd ((of_char (hd head) :: nat) div 2) then
                                  ([], Inl (PlainError (case ee_Error ev of
                                     Some m \<Rightarrow> Msg ''envd process in %s: %s'' [name, m]
                                   | None \<Rightarrow> Msg ''envd process stream in %s ended before the process'' [name])))
                                else (case ee_End ev of
                                        Some code \<Rightarrow> ([], Inr (code, False))
                                      | None \<Rightarrow>
                                          if ee_Start ev \<noteq> None \<and> \<not> wants then ([], Inr (0, True))
                                          else (case read_frames o' name wants rest' broken of
                                                  (out, r) \<Rightarrow>
                                                    ((case ee_Data ev of Some d \<Rightarrow> if wants then [d] else [] | None \<Rightarrow> []) @ out, r)))))))"
  by auto
termination
  by (relation "measure (\<lambda>(o', name, wants, body, broken). length body)")
    (auto simp: read_full_def split: if_splits)

declare read_frames.simps [simp del]

text \<open>The request that starts a command: a login shell for the line, as the command's user.\<close>

definition process_request :: "'w envd_io \<Rightarrow> build_Command \<Rightarrow> envd_request" where
  "process_request o' cmd =
     (let m = eo_start o' \<lparr>ep_Process = \<lparr>ep_Cmd = ''/bin/bash'', ep_Args = [''-l'', ''-c'', cm_Line cmd], ep_Envs = cm_Envs cmd,
                              ep_Cwd = cm_Workdir cmd\<rparr>, ep_Stdin = False\<rparr>
      in \<lparr>hq_Method = ''POST'', hq_URL = ''http://'' @ envdHostAlias @ envdProcessStart,
          hq_ContentType = Some ''application/connect+json'',
          hq_Authorization = Some (''Basic '' @ base64_StdEncode (cm_User cmd @ '':'')),
          hq_Body = Some (connectFrame (CHR 0x00) m), hq_AccessToken = None\<rparr>)"

definition run_envdProcess :: "'w envd_io \<Rightarrow> 'w scatterGatherStore \<Rightarrow> Assignment \<Rightarrow> build_Command \<Rightarrow> bool \<Rightarrow> 'w
   \<Rightarrow> (string \<times> string) list \<times> (err + int \<times> bool) \<times> 'w" where
  "run_envdProcess o' st a cmd wants w =
     (case envdRoundTrip o' st (as_Node a) (as_SandboxName a) (as_Token a) (process_request o' cmd) w of
           (Inl e, w1) \<Rightarrow> ([], Inl e, w1)
         | (Inr (conn, resp), w1) \<Rightarrow>
             if hp_StatusCode resp \<noteq> 200 then
               ([], Inl (PlainError (Msg ''envd process start in %s: envd answered %d'' [as_SandboxName a, strconv_Itoa (hp_StatusCode resp)])),
                eo_Close o' conn w1)
             else (case read_frames o' (as_SandboxName a) wants (hp_Body resp) (hp_Broken resp) of
                     (out, r) \<Rightarrow> (out, r, eo_Close o' conn w1)))"

section \<open>The guest of a build\<close>

text \<open>Each output event goes to the two splitters in turn, standard output first.\<close>

fun split_output :: "string \<Rightarrow> string \<Rightarrow> (string \<times> string) list \<Rightarrow> (bool \<times> string) list" where
  "split_output ob eb [] = map (Pair False) (fst (splitter_flush ob)) @ map (Pair True) (fst (splitter_flush eb))"
| "split_output ob eb ((p, q) # evs) =
     (let (ol, ob') = splitter_write ob p; (el, eb') = splitter_write eb q
      in map (Pair False) ol @ map (Pair True) el @ split_output ob' eb' evs)"

definition guest_Run :: "'w envd_io \<Rightarrow> 'w scatterGatherStore \<Rightarrow> Assignment \<Rightarrow> build_Command \<Rightarrow> 'w
   \<Rightarrow> (err + int) \<times> (bool \<times> string) list \<times> 'w" where
  "guest_Run o' st a cmd w =
     (case run_envdProcess o' st a cmd True w of
        (out, r, w') \<Rightarrow> (case r of Inl e \<Rightarrow> Inl e | Inr (code, _) \<Rightarrow> Inr code, split_output [] [] out, w'))"

definition guest_Start :: "'w envd_io \<Rightarrow> 'w scatterGatherStore \<Rightarrow> Assignment \<Rightarrow> build_Command \<Rightarrow> 'w \<Rightarrow> err option \<times> 'w" where
  "guest_Start o' st a cmd w =
     (case run_envdProcess o' st a cmd False w of
        (_, Inl e, w') \<Rightarrow> (Some e, w')
      | (_, Inr (_, running), w') \<Rightarrow>
          (if running then None else Some (PlainError (Msg ''the start command exited at once'' [])), w'))"

definition guest_Init :: "e2b_env \<Rightarrow> 'w envd_io \<Rightarrow> 'w scatterGatherStore \<Rightarrow> Assignment \<Rightarrow> build_Command \<Rightarrow> 'w \<Rightarrow> err option \<times> 'w" where
  "guest_Init env o' st a defaults =
     initEnvd env o' st (as_Node a) (as_SandboxName a) (as_Token a)
       (no_init\<lparr>ei_EnvVars := cm_Envs defaults, ei_DefaultUser := cm_User defaults, ei_DefaultWorkdir := cm_Workdir defaults\<rparr>)"

definition guest_Write :: "'w envd_io \<Rightarrow> 'w scatterGatherStore \<Rightarrow> Assignment \<Rightarrow> string \<Rightarrow> string \<Rightarrow> 'w \<Rightarrow> err option \<times> 'w" where
  "guest_Write o' st a path data w =
     (let req = \<lparr>hq_Method = ''POST'', hq_URL = ''http://'' @ envdHostAlias @ ''/files?'' @ url_Encode [(''path'', path), (''username'', ''root'')],
                 hq_ContentType = Some ''application/octet-stream'', hq_Authorization = None, hq_Body = Some data, hq_AccessToken = None\<rparr>
      in case envdRoundTrip o' st (as_Node a) (as_SandboxName a) (as_Token a) req w of
           (Inl e, w1) \<Rightarrow> (Some e, w1)
         | (Inr (conn, resp), w1) \<Rightarrow>
             (if hp_StatusCode resp \<noteq> 200 then
                Some (PlainError (Msg ''envd file write in %s: envd answered %d'' [as_SandboxName a, strconv_Itoa (hp_StatusCode resp)]))
              else None, eo_Close o' conn w1))"

definition envdGuest :: "e2b_env \<Rightarrow> 'w envd_io \<Rightarrow> 'w scatterGatherStore \<Rightarrow> 'w Guest" where
  "envdGuest env o' st =
     \<lparr>gu_Run = guest_Run o' st, gu_Start = guest_Start o' st, gu_Init = guest_Init env o' st, gu_Write = guest_Write o' st\<rparr>"

section \<open>Connections\<close>

text \<open>
  What the calls rely on: opening a guest port adds exactly the returned handle to the open connections,
  or none on an error, and closing a handle removes it.
\<close>

locale guest_connections =
  fixes st :: "'w scatterGatherStore" and o' :: "'w envd_io" and opened :: "'w \<Rightarrow> nat list"
  assumes dial: "opened (snd (DialGuestPort st node i token port w)) =
      (case fst (DialGuestPort st node i token port w) of Inl e \<Rightarrow> opened w | Inr h \<Rightarrow> h # opened w)"
    and talk: "opened (snd (eo_Write o' h req w)) = opened w" "opened (snd (eo_ReadResponse o' h w)) = opened w"
    and close: "opened (eo_Close o' h w) = remove1 h (opened w)"
begin

lemma round_trip:
  "envdRoundTrip o' st node i relay req w = (r, w') \<Longrightarrow>
     opened w' = (case r of Inl e \<Rightarrow> opened w | Inr (h, resp) \<Rightarrow> h # opened w)"
proof -
  assume run: "envdRoundTrip o' st node i relay req w = (r, w')"
  obtain d w1 where d: "DialGuestPort st node i relay e2b_envdPort w = (d, w1)" by (metis surj_pair)
  show ?thesis
  proof (cases d)
    case (Inr h)
    obtain e w2 where e: "eo_Write o' h req w1 = (e, w2)" by (metis surj_pair)
    obtain q w3 where q: "eo_ReadResponse o' h w2 = (q, w3)" by (metis surj_pair)
    have "opened w1 = h # opened w" "opened w2 = opened w1" "opened w3 = opened w2"
      using dial [of node i relay e2b_envdPort w] talk(1) [of h req w1] talk(2) [of h w2] d e q Inr by simp_all
    then show ?thesis using run d e q Inr by (cases e; cases q) (auto simp: envdRoundTrip_def close)
  qed (use run d dial [of node i relay e2b_envdPort w] in \<open>auto simp: envdRoundTrip_def\<close>)
qed

lemma call: "envdCallOver o' st node i relay verb path token body w = (r, w') \<Longrightarrow> opened w' = opened w"
  by (auto simp: envdCallOver_def Let_def close split: sum.splits prod.splits option.splits dest!: round_trip)

lemma init: "initEnvd env o' st node i relay req w = (r, w') \<Longrightarrow> opened w' = opened w"
  by (auto simp: initEnvd_def split: sum.splits prod.splits if_splits dest!: call)

lemma metrics: "readEnvdMetrics env o' s st node i w = (r, w') \<Longrightarrow> opened w' = opened w"
  by (auto simp: readEnvdMetrics_def envdCall_def split: sum.splits prod.splits if_splits dest!: call)

lemma envs: "templateEnvs o' st a e w = (r, w') \<Longrightarrow> opened w' = opened w"
  by (auto simp: templateEnvs_def envdCall_def split: sum.splits prod.splits if_splits dest!: call)

lemma process: "run_envdProcess o' st a cmd wants w = (out, r, w') \<Longrightarrow> opened w' = opened w"
  by (auto simp: run_envdProcess_def Let_def close split: sum.splits prod.splits if_splits dest!: round_trip)

lemma files: "guest_Write o' st a path data w = (r, w') \<Longrightarrow> opened w' = opened w"
  by (auto simp: guest_Write_def Let_def close split: sum.splits prod.splits if_splits dest!: round_trip)

end

text \<open>The store over sandboxd clients on a network that keeps its open handles, and envd's traffic over it.\<close>

definition tracked_store :: "wire \<Rightarrow> 'w network \<Rightarrow> (string \<Rightarrow> string \<Rightarrow> ('w \<times> nat list) Client) \<Rightarrow> ('w \<times> nat list) scatterGatherStore
   \<Rightarrow> ('w \<times> nat list) scatterGatherStore" where
  "tracked_store j n mk st = st\<lparr>sg_factory := Some (\<lambda>addr token. sandboxd_client j (tracked n) (mk addr token))\<rparr>"

definition tracked_envd :: "'w network \<Rightarrow> 'w envd_io \<Rightarrow> ('w \<times> nat list) envd_io" where
  "tracked_envd n o' =
     \<lparr>eo_Write = (\<lambda>h req (w, opened). case eo_Write o' h req w of (r, w') \<Rightarrow> (r, w', opened)),
      eo_ReadResponse = (\<lambda>h (w, opened). case eo_ReadResponse o' h w of (r, w') \<Rightarrow> (r, w', opened)),
      eo_Close = nt_Close (tracked n), eo_init = eo_init o', eo_start = eo_start o', eo_metrics = eo_metrics o',
      eo_envs = eo_envs o', eo_event = eo_event o', eo_sha512 = eo_sha512 o'\<rparr>"

lemma tracked_store_dial:
  "snd (snd (DialGuestPort (tracked_store j n mk st) node i token port w)) =
     (case fst (DialGuestPort (tracked_store j n mk st) node i token port w) of Inl e \<Rightarrow> snd w | Inr h \<Rightarrow> h # snd w)"
proof -
  obtain u opened where w: "w = (u, opened)" by (cases w)
  show ?thesis
  proof (cases "nodeClient (tracked_store j n mk st) w node ''port'' i")
    case (Inr cl)
    then obtain addr tok where cl: "cl = sandboxd_client j (tracked n) (mk addr tok)"
      by (auto simp: nodeClient_def tracked_store_def split: if_splits sum.splits prod.splits)
    obtain r w' where "DialPort j (tracked n) (c_baseURL (mk addr tok)) i (cmp_Or token (c_token (mk addr tok))) port (u, opened) = (r, w')"
      by (metis surj_pair)
    with dial_port_tracked [of j n "c_baseURL (mk addr tok)" i "cmp_Or token (c_token (mk addr tok))" port u opened] Inr cl w
    show ?thesis by (cases r) (simp_all add: DialGuestPort_def with_client_def sandboxd_client_def client_DialPort_def)
  qed (simp add: DialGuestPort_def with_client_def)
qed

interpretation tracked_conns: guest_connections "tracked_store j n mk st" "tracked_envd n o'" snd for j n mk st o'
proof unfold_locales
  fix node i token port w
  show "snd (snd (DialGuestPort (tracked_store j n mk st) node i token port w)) =
      (case fst (DialGuestPort (tracked_store j n mk st) node i token port w) of Inl e \<Rightarrow> snd w | Inr h \<Rightarrow> h # snd w)"
    by (rule tracked_store_dial)
qed (auto simp: tracked_envd_def tracked_def split: prod.splits)

section \<open>Lines and frames\<close>

abbreviation newline :: char where "newline \<equiv> CHR 0x0A"

lemma Split_plain: "sep \<notin> set a \<Longrightarrow> strings_Split a sep = [a]"
  by (induction a) auto

lemma Split_sep_append: "sep \<notin> set a \<Longrightarrow> strings_Split (a @ sep # s) sep = a # strings_Split s sep"
  by (induction a) auto

lemma Split_append:
  "strings_Split (a @ b) sep = butlast (strings_Split a sep) @ strings_Split (last (strings_Split a sep) @ b) sep"
proof (induction a)
  case (Cons c a)
  show ?case
  proof (cases "c = sep")
    case False
    obtain w ws where a: "strings_Split a sep = w # ws" by (metis list.exhaust strings_Split_nonempty)
    show ?thesis
    proof (cases ws)
      case Nil
      then have "strings_Split (a @ b) sep = strings_Split (w @ b) sep" using Cons a by simp
      then show ?thesis using False a Nil by simp
    qed (use Cons False a in simp)
  qed (use Cons in simp)
qed simp

lemma split_lines_Split:
  "newline \<notin> set acc \<Longrightarrow> split_lines acc s = (butlast (strings_Split (acc @ s) newline), last (strings_Split (acc @ s) newline))"
proof (induction acc s rule: split_lines.induct)
  case (1 acc)
  then show ?case by (simp add: Split_plain)
next
  case (2 acc c cs)
  then show ?case by (cases "c = newline") (simp_all add: Split_sep_append)
qed

text \<open>A line's start within the bytes seen so far is no longer than the line.\<close>

lemma Split_hd_prefix: "sep \<notin> set a \<Longrightarrow> length a \<le> length (hd (strings_Split (a @ b) sep))"
  by (induction a) (auto split: list.splits)

lemma last_Split_short:
  assumes "\<forall>l \<in> set (strings_Split (a @ b) sep). length l \<le> m"
  shows "length (last (strings_Split a sep)) \<le> m"
proof -
  let ?l = "last (strings_Split a sep)"
  have "sep \<notin> set ?l" by (meson last_in_set strings_Split_nonempty strings_Split_sep)
  then have "length ?l \<le> length (hd (strings_Split (?l @ b) sep))" by (rule Split_hd_prefix)
  moreover have "hd (strings_Split (?l @ b) sep) \<in> set (strings_Split (a @ b) sep)"
    by (subst Split_append) (simp add: hd_in_set)
  ultimately show ?thesis using assms by fastforce
qed

text \<open>The lines of a whole output: a last one without its newline counts, an empty rest does not.\<close>

definition output_lines :: "string \<Rightarrow> string list" where
  "output_lines s = (let ls = strings_Split s newline in if last ls = [] then butlast ls else ls)"

fun feed_splitter :: "string \<Rightarrow> string list \<Rightarrow> string list" where
  "feed_splitter buf [] = fst (splitter_flush buf)"
| "feed_splitter buf (p # ps) = (case splitter_write buf p of (ls, buf') \<Rightarrow> ls @ feed_splitter buf' ps)"

lemma feed_splitter_lines:
  assumes "newline \<notin> set buf" "\<forall>l \<in> set (strings_Split (buf @ concat ps) newline). length l \<le> logLineMax"
  shows "feed_splitter buf ps = output_lines (buf @ concat ps)"
  using assms
proof (induction ps arbitrary: buf)
  case Nil
  then show ?case by (simp add: output_lines_def Split_plain splitter_flush_def)
next
  case (Cons p ps)
  let ?L = "strings_Split (buf @ p) newline"
  have split: "strings_Split (buf @ p @ concat ps) newline = butlast ?L @ strings_Split (last ?L @ concat ps) newline"
    using Split_append [of "buf @ p" "concat ps" newline] by simp
  have "length (last ?L) \<le> logLineMax" using Cons(3) last_Split_short [of "buf @ p" "concat ps"] by simp
  then have "splitter_write buf p = (butlast ?L, last ?L)" using split_lines_Split [of "[]"] by (simp add: splitter_write_def)
  moreover have "newline \<notin> set (last ?L)" by (meson last_in_set strings_Split_nonempty strings_Split_sep)
  moreover have "\<forall>l \<in> set (strings_Split (last ?L @ concat ps) newline). length l \<le> logLineMax"
    using Cons(3) by (simp add: split)
  ultimately show ?case using Cons(1) [of "last ?L"]
    by (simp add: output_lines_def split Let_def butlast_append)
qed

lemma be32_roundtrip: "n < 2 ^ 32 \<Longrightarrow> be32_val (be32 n) = n"
proof -
  assume n: "n < 2 ^ 32"
  have "n div 2 ^ 24 < 256" using n by (simp add: less_mult_imp_div_less)
  moreover have "n div 2 ^ 24 * 2 ^ 8 + n div 2 ^ 16 mod 256 = n div 2 ^ 16"
    "n div 2 ^ 16 * 2 ^ 8 + n div 2 ^ 8 mod 256 = n div 2 ^ 8" "n div 2 ^ 8 * 2 ^ 8 + n mod 256 = n"
    using div_mult_mod_eq [of "n div 2 ^ 16" 256] div_mult_mod_eq [of "n div 2 ^ 8" 256] div_mult_mod_eq [of n 256]
    by (simp_all add: div_mult2_eq [symmetric])
  ultimately show ?thesis by (simp add: be32_def be32_val_def)
qed

lemma frame_read:
  assumes "length m \<le> connectFrameMax"
  shows "\<exists>h t. read_full 5 (connectFrame fl m @ rest) broken = Inr (h, t) \<and> be32_val (tl h) = length m \<and> hd h = fl
    \<and> read_full (length m) t broken = Inr (m, rest)"
proof -
  have "length m < 2 ^ 32" using assms by (simp add: connectFrameMax_def)
  then show ?thesis using be32_roundtrip [of "length m"]
    by (simp add: connectFrame_def read_full_def be32_def)
qed

lemma read_frame:
  assumes "length p \<le> connectFrameMax" "eo_event o' p = Inr ev"
  shows "read_frames o' name wants (connectFrame (CHR 0x00) p @ rest) broken =
     (case ee_End ev of
        Some code \<Rightarrow> ([], Inr (code, False))
      | None \<Rightarrow>
          if ee_Start ev \<noteq> None \<and> \<not> wants then ([], Inr (0, True))
          else (case read_frames o' name wants rest broken of
                  (out, r) \<Rightarrow> ((case ee_Data ev of Some d \<Rightarrow> if wants then [d] else [] | None \<Rightarrow> []) @ out, r)))"
proof -
  from frame_read [OF assms(1), of "CHR 0x00" rest broken] obtain h t where
    "read_full 5 (connectFrame (CHR 0x00) p @ rest) broken = Inr (h, t)" "be32_val (tl h) = length p" "hd h = CHR 0x00"
    "read_full (length p) t broken = Inr (p, rest)" by blast
  with assms show ?thesis by (subst read_frames.simps) (simp add: Let_def)
qed

text \<open>What the events of a stream carry for the output callback.\<close>

definition event_data :: "envdEvent list \<Rightarrow> (string \<times> string) list" where
  "event_data evs = concat (map (\<lambda>ev. case ee_Data ev of Some d \<Rightarrow> [d] | None \<Rightarrow> []) evs)"

lemma read_stream:
  assumes "map (eo_event o') ps = map Inr evs" "\<forall>ev \<in> set evs. ee_End ev = None"
    "eo_event o' q = Inr final" "ee_End final = Some code" "\<forall>p \<in> set (q # ps). length p \<le> connectFrameMax"
  shows "read_frames o' name wants (concat (map (connectFrame (CHR 0x00)) (ps @ [q])) @ rest) broken =
    (if wants then (event_data evs, Inr (code, False))
     else ([], Inr (if \<exists>ev \<in> set evs. ee_Start ev \<noteq> None then (0, True) else (code, False))))"
  using assms
proof (induction ps arbitrary: evs)
  case Nil
  then show ?case by (simp add: read_frame event_data_def)
next
  case (Cons p ps)
  then obtain ev evs' where ev: "evs = ev # evs'" "eo_event o' p = Inr ev" "map (eo_event o') ps = map Inr evs'" by (cases evs) auto
  then have "read_frames o' name wants (concat (map (connectFrame (CHR 0x00)) (ps @ [q])) @ rest) broken =
    (if wants then (event_data evs', Inr (code, False))
     else ([], Inr (if \<exists>ev \<in> set evs'. ee_Start ev \<noteq> None then (0, True) else (code, False))))"
    using Cons by simp
  with ev Cons.prems show ?case by (auto simp: read_frame event_data_def split: option.splits)
qed

lemma split_output_lines:
  "map snd (filter (\<lambda>(err, _). \<not> err) (split_output ob eb evs)) = feed_splitter ob (map fst evs)"
  "map snd (filter fst (split_output ob eb evs)) = feed_splitter eb (map snd evs)"
  by (induction ob eb evs rule: split_output.induct) (simp_all add: Let_def filter_map comp_def split: prod.splits)

section \<open>Properties\<close>

lemma surjective_triple: "t = (fst t, fst (snd t), snd (snd t))"
  by simp

text \<open>
  C19. No call into a guest leaks a connection: over the sandboxd client and whatever the network answers,
  reading metrics, initialising envd, reading a template's environment, running a process and writing a file
  leave exactly the connections open that were open before, on success and on every error.
\<close>

theorem envd_calls_no_leak:
  "snd (snd (readEnvdMetrics env (tracked_envd n o') s (tracked_store j n mk st) node i w)) = snd w
   \<and> snd (snd (initEnvd env (tracked_envd n o') (tracked_store j n mk st) node i relay req w)) = snd w
   \<and> snd (snd (templateEnvs (tracked_envd n o') (tracked_store j n mk st) a envs w)) = snd w
   \<and> snd (snd (snd (run_envdProcess (tracked_envd n o') (tracked_store j n mk st) a cmd wants w))) = snd w
   \<and> snd (snd (guest_Write (tracked_envd n o') (tracked_store j n mk st) a path data w)) = snd w"
  by (intro conjI tracked_conns.metrics [OF surjective_pairing] tracked_conns.init [OF surjective_pairing]
      tracked_conns.envs [OF surjective_pairing] tracked_conns.files [OF surjective_pairing]
      tracked_conns.process [OF surjective_triple])

text \<open>
  C20. A build command's output arrives line by line however envd cuts it into events. Let envd answer 200 to
  the start of a command with a stream of events, start events and ones that carry nothing among them, up to
  the one that ends the process. Then the command's exit code is the one that event names, the lines its two output
  callbacks get are the lines of all standard output bytes joined and of all standard error bytes joined, a last
  unfinished line included, as long as no line outgrows the splitter's bound; the connection is closed and the bytes
  behind the end are never read. A background start over the same answer returns at once, running, exactly when an
  event said the process started.
\<close>

theorem process_output_lines:
  assumes "envdRoundTrip o' st (as_Node a) (as_SandboxName a) (as_Token a) (process_request o' cmd) w = (Inr (conn, resp), w1)"
    and "hp_StatusCode resp = 200" and "hp_Body resp = concat (map (connectFrame (CHR 0x00)) (ps @ [q])) @ rest"
    and "map (eo_event o') ps = map Inr evs" and "\<forall>ev \<in> set evs. ee_End ev = None"
    and "eo_event o' q = Inr final" and "ee_End final = Some code"
    and "\<forall>p \<in> set (q # ps). length p \<le> connectFrameMax"
    and "\<forall>l \<in> set (strings_Split (concat (map fst (event_data evs))) newline). length l \<le> logLineMax"
    and "\<forall>l \<in> set (strings_Split (concat (map snd (event_data evs))) newline). length l \<le> logLineMax"
  shows "(\<exists>out. guest_Run o' st a cmd w = (Inr code, out, eo_Close o' conn w1)
      \<and> map snd (filter (\<lambda>(err, _). \<not> err) out) = output_lines (concat (map fst (event_data evs)))
      \<and> map snd (filter fst out) = output_lines (concat (map snd (event_data evs))))
    \<and> snd (guest_Start o' st a cmd w) = eo_Close o' conn w1
    \<and> (fst (guest_Start o' st a cmd w) = None \<longleftrightarrow> (\<exists>ev \<in> set evs. ee_Start ev \<noteq> None))"
proof -
  note read = read_stream [OF assms(4-8), of "as_SandboxName a" _ rest "hp_Broken resp"]
  note run = run_envdProcess_def [of o' st a cmd _ w, unfolded assms(1), simplified, unfolded assms(2,3) read]
  show ?thesis
    using feed_splitter_lines [of "[]" "map fst (event_data evs)"] feed_splitter_lines [of "[]" "map snd (event_data evs)"] assms(9,10)
    by (simp add: guest_Run_def guest_Start_def run split_output_lines)
qed

text \<open>A codec of events for a concrete stream: a digit ends the process, a bang marks an error output.\<close>

definition demo_event :: "string \<Rightarrow> err + envdEvent" where
  "demo_event p =
     (let ev = \<lparr>ee_Start = None, ee_Data = None, ee_End = None, ee_Error = None\<rparr>
      in case strconv_Atoi p of
           Some code \<Rightarrow> Inr (ev\<lparr>ee_End := Some code\<rparr>)
         | None \<Rightarrow>
             if p = ''start'' then Inr (ev\<lparr>ee_Start := Some ()\<rparr>)
             else Inr (ev\<lparr>ee_Data := Some (if take 1 p = ''!'' then ([], tl p) else (p, []))\<rparr>))"

definition demo_payloads :: "string list" where
  "demo_payloads = [''start'', ''ab'', ''!err'', ''c'' @ [newline] @ ''d'']"

definition demo_response :: http_response where
  "demo_response = \<lparr>hp_StatusCode = 200, hp_Body = concat (map (connectFrame (CHR 0x00)) (demo_payloads @ [''3''])) @ ''z'', hp_Broken = None\<rparr>"

definition demo_envd :: "unit envd_io" where
  "demo_envd = \<lparr>eo_Write = (\<lambda>h req w. (None, w)), eo_ReadResponse = (\<lambda>h w. (Inl EOF, w)), eo_Close = (\<lambda>h w. w),
     eo_init = (\<lambda>i. []), eo_start = (\<lambda>p. []), eo_metrics = (\<lambda>b. Inl EOF), eo_envs = (\<lambda>b. Inl EOF), eo_event = demo_event,
     eo_sha512 = (\<lambda>t. t)\<rparr>"

definition stream_envd :: "'w envd_io" where
  "stream_envd = \<lparr>eo_Write = (\<lambda>h req w. (None, w)), eo_ReadResponse = (\<lambda>h w. (Inr demo_response, w)), eo_Close = (\<lambda>h w. w),
     eo_init = (\<lambda>i. []), eo_start = (\<lambda>p. []), eo_metrics = (\<lambda>b. Inl EOF), eo_envs = (\<lambda>b. Inl EOF), eo_event = demo_event,
     eo_sha512 = (\<lambda>t. t)\<rparr>"

definition demo_target :: Assignment where
  "demo_target = \<lparr>as_SandboxName = ''c2'', as_Node = ''n1'', as_Address = [], as_Token = [], as_Deadline = 0, as_NetRoute = []\<rparr>"

definition demo_command :: build_Command where
  "demo_command = \<lparr>cm_Line = ''make'', cm_User = ''user'', cm_Workdir = [], cm_Envs = []\<rparr>"

theorem process_output_lines_witness:
  "\<exists>out. guest_Run stream_envd (demo_api (\<lambda>cl. cl\<lparr>cl_DialPort := (\<lambda>i t p w. (Inr 7, w))\<rparr>)) demo_target demo_command read_fleet
      = (Inr 3, out, read_fleet)
    \<and> map snd (filter (\<lambda>(err, _). \<not> err) out) = output_lines (''abc'' @ [newline] @ ''d'')
    \<and> map snd (filter fst out) = output_lines ''err''"
proof -
  let ?st = "demo_api (\<lambda>cl. cl\<lparr>cl_DialPort := (\<lambda>i t p w. (Inr 7, w))\<rparr>)"
  let ?ev = "\<lparr>ee_Start = None, ee_Data = None, ee_End = None, ee_Error = None\<rparr>"
  let ?evs = "[?ev\<lparr>ee_Start := Some ()\<rparr>, ?ev\<lparr>ee_Data := Some (''ab'', [])\<rparr>, ?ev\<lparr>ee_Data := Some ([], ''err'')\<rparr>,
    ?ev\<lparr>ee_Data := Some (''c'' @ [newline] @ ''d'', [])\<rparr>]"
  have 1: "envdRoundTrip stream_envd ?st (as_Node demo_target) (as_SandboxName demo_target) (as_Token demo_target)
      (process_request stream_envd demo_command) read_fleet = (Inr (7, demo_response), read_fleet)"
    by (simp add: envdRoundTrip_def DialGuestPort_def with_client_def demo_target_def demo_api_client stream_envd_def)
  have 2: "map (eo_event stream_envd) demo_payloads = map Inr ?evs" "eo_event stream_envd ''3'' = Inr (?ev\<lparr>ee_End := Some 3\<rparr>)"
    by (simp_all add: demo_payloads_def stream_envd_def demo_event_def strconv_Atoi_def parse_digits_def is_digit_def digits_val_def digit_val_def)
  have 3: "\<forall>p \<in> set (''3'' # demo_payloads). length p \<le> connectFrameMax" by (simp add: demo_payloads_def connectFrameMax_def)
  have data: "concat (map fst (event_data ?evs)) = ''abc'' @ [newline] @ ''d''" "concat (map snd (event_data ?evs)) = ''err''"
    by (simp_all add: event_data_def)
  show ?thesis
    using process_output_lines [OF 1 _ _ 2(1) _ 2(2) _ 3, of "''z''" 3] unfolding data
    by (simp add: demo_response_def logLineMax_def) (simp add: stream_envd_def)
qed

end
