(* ===== verification/E2B_Templates.thy ===== *)
theory E2B_Templates
  imports E2B_Envd
begin

text \<open>
  The templates of the e2b surface (pkg/e2bcompat/templates.go): the pool images the fleet advertises and
  the templates built in a namespace, grouped from what the nodes report, with their tags. A fan-out over the
  holders runs every call; it is taken to run them in the holders' order and reports the first failure in
  that order. \<open>uuid5\<close> is the UUID library's name-based UUID of a digest.
\<close>

definition buildReady :: string where "buildReady = ''ready''"
definition defaultTag :: string where "defaultTag = ''default''"

record templateHolder =
  th_node :: string
  th_key :: PoolKey
  th_digest :: string
  th_labels :: "(string \<times> string) list"
  th_created :: time

record builtTemplate =
  bt_name :: string
  bt_holders :: "templateHolder list"
  bt_digests :: "(string \<times> nat) list"
  bt_created :: time
  bt_cpuCount :: int
  bt_memoryMB :: int

section \<open>Grouping what the nodes report\<close>

definition holder_of :: "string \<Rightarrow> PromotedTemplate \<Rightarrow> templateHolder" where
  "holder_of node t =
     \<lparr>th_node = node, th_key = \<lparr>pk_Template = pt_Template t, pk_Net = pt_Net t, pk_Size = pt_Size t\<rparr>,
      th_digest = pt_ContentDigest t, th_labels = pt_Labels t,
      th_created = (case pt_CreatedAt t of None \<Rightarrow> 0 | Some c \<Rightarrow> c)\<rparr>"

definition add_holder :: "templateHolder \<Rightarrow> builtTemplate \<Rightarrow> builtTemplate" where
  "add_holder h b =
     b\<lparr>bt_holders := bt_holders b @ [h],
       bt_digests := AList.update (th_digest h) (Suc (case map_of (bt_digests b) (th_digest h) of None \<Rightarrow> 0 | Some n \<Rightarrow> n)) (bt_digests b),
       bt_created := (if th_created h > bt_created b then th_created h else bt_created b)\<rparr>"

text \<open>One reported template: skipped, or added to the group of its bare name.\<close>

definition group_template :: "string \<Rightarrow> string \<Rightarrow> string \<times> PromotedTemplate \<Rightarrow> (string \<times> builtTemplate) list \<Rightarrow> (string \<times> builtTemplate) list" where
  "group_template scope only nt out =
     (case nt of (node, t) \<Rightarrow>
        (case strings_CutPrefix (pt_Template t) scope of
           None \<Rightarrow> out
         | Some name \<Rightarrow>
             if pt_Tenant t \<noteq> [] \<or> only \<noteq> [] \<and> name \<noteq> only then out
             else (let b = (case map_of out name of
                              Some b \<Rightarrow> b
                            | None \<Rightarrow> \<lparr>bt_name = name, bt_holders = [], bt_digests = [], bt_created = 0,
                                       bt_cpuCount = pt_CPUCount t, bt_memoryMB = wrap32 (pt_MemoryBytes t div 2 ^ 20)\<rparr>)
                   in AList.update name (add_holder (holder_of node t) b) out)))"

definition reported_templates :: "NodePools list \<Rightarrow> (string \<times> PromotedTemplate) list" where
  "reported_templates nodes = concat (map (\<lambda>n. map (Pair (np_Node n)) (np_Templates n)) nodes)"

definition builtTemplates :: "NodePools list \<Rightarrow> string \<Rightarrow> string \<Rightarrow> (string \<times> builtTemplate) list" where
  "builtTemplates nodes scope only = fold (group_template scope only) (reported_templates nodes) []"

text \<open>\<^verbatim>\<open>current\<close> would panic without a holder of the template's own creation time, which the grouping rules out.\<close>

definition bt_current :: "builtTemplate \<Rightarrow> templateHolder" where
  "bt_current b = hd (filter (\<lambda>h. th_created h = bt_created b) (bt_holders b))"

definition bt_digest :: "builtTemplate \<Rightarrow> string" where
  "bt_digest b = th_digest (bt_current b)"

definition liveOnly :: "builtTemplate \<Rightarrow> (string \<times> string) list \<Rightarrow> (string \<times> string) list" where
  "liveOnly b labels = filter (\<lambda>(tag, d). case map_of (bt_digests b) d of None \<Rightarrow> False | Some n \<Rightarrow> n > 0) labels"

definition sorted_keys :: "(string \<times> 'a) list \<Rightarrow> string list" where
  "sorted_keys m = sort (remdups (map fst m))"

definition taggedNames :: "string \<Rightarrow> string list \<Rightarrow> string list" where
  "taggedNames name tags = name # map (\<lambda>tag. name @ '':'' @ tag) tags"

definition bt_names :: "builtTemplate \<Rightarrow> string list" where
  "bt_names b = taggedNames (bt_name b) (sorted_keys (liveOnly b (th_labels (bt_current b))))"

definition advertisedIn :: "NodePools list \<Rightarrow> string \<Rightarrow> bool" where
  "advertisedIn nodes img = list_ex (\<lambda>n. list_ex (\<lambda>pc. pc_Template pc = img) (np_Pools n)) nodes"

section \<open>Lookups\<close>

definition err_no_inventory :: err where
  "err_no_inventory = PlainError (Msg ''e2bcompat: no inventory source configured'' [])"

definition inventories :: "'w Server \<Rightarrow> 'w \<Rightarrow> err + NodePools list" where
  "inventories s w = (case so_Inventory (sv_opts s) of None \<Rightarrow> Inl err_no_inventory | Some src \<Rightarrow> src_NodeCapacities src w)"

definition templateScope :: "string \<Rightarrow> string" where
  "templateScope ns = templatePrefix @ ns @ ''/''"

definition cut_tag :: "string \<Rightarrow> string \<times> string" where
  "cut_tag ref = (case strings_Cut ref '':'' of Some (name, tag) \<Rightarrow> (name, tag) | None \<Rightarrow> (ref, []))"

text \<open>The built template a reference names, and whether an alias or a pool image has that name.\<close>

definition resolveTemplate :: "'w Server \<Rightarrow> string \<Rightarrow> string \<Rightarrow> 'w \<Rightarrow> err + builtTemplate option \<times> bool" where
  "resolveTemplate s ns ref w =
     (let aliased = (map_of (sv_aliases s) ref \<noteq> None)
      in case inventories s w of
           Inl e \<Rightarrow> Inl e
         | Inr nodes \<Rightarrow>
             (let (name, tag) = cut_tag ref;
                  b = map_of (builtTemplates nodes (templateScope ns) name) name;
                  b' = (case b of
                          None \<Rightarrow> None
                        | Some t \<Rightarrow>
                            if tag \<noteq> [] \<and> tag \<noteq> defaultTag \<and> map_index (map_of (liveOnly t (th_labels (bt_current t)))) tag = [] then None
                            else Some t)
              in Inr (b', aliased \<or> advertisedIn nodes ref)))"

definition e2b_builtTemplate :: "'w Server \<Rightarrow> string \<Rightarrow> string \<Rightarrow> 'w \<Rightarrow> e2b_reply + builtTemplate" where
  "e2b_builtTemplate s ns name w =
     (case resolveTemplate s ns name w of
        Inl e \<Rightarrow> Inl (WriteErr 500 (Msg ''failed to look up the template'' []))
      | Inr (Some b, _) \<Rightarrow> Inr b
      | Inr (None, True) \<Rightarrow> Inl (WriteErr 404 (Msg ''template %q is a pool image, not a built template'' [name]))
      | Inr (None, False) \<Rightarrow> Inl (WriteErr 404 (Msg ''template %q not found'' [name])))"

definition liveTags :: "'w scatterGatherStore \<Rightarrow> builtTemplate \<Rightarrow> 'w \<Rightarrow> err + (string \<times> string) list" where
  "liveTags st b w =
     (let h = bt_current b
      in case NodeTemplates st (th_node h) w of
           Inl e \<Rightarrow> Inl e
         | Inr held \<Rightarrow>
             (case find (\<lambda>t. pt_Template t = pk_Template (th_key h) \<and> pt_Net t = pk_Net (th_key h) \<and> pt_Size t = pk_Size (th_key h)) held of
                None \<Rightarrow> Inr []
              | Some t \<Rightarrow> Inr (liveOnly b (pt_Labels t))))"

fun forEachHolder :: "(templateHolder \<Rightarrow> 'w \<Rightarrow> err option \<times> 'w) \<Rightarrow> templateHolder list \<Rightarrow> 'w \<Rightarrow> err option \<times> 'w" where
  "forEachHolder f [] w = (None, w)"
| "forEachHolder f (h # hs) w =
     (case f h w of
        (e, w') \<Rightarrow>
          (case forEachHolder f hs w' of
             (e', w'') \<Rightarrow> (case e of Some x \<Rightarrow> Some (Wrap (Msg ''node %s: %w'' [th_node h]) x) | None \<Rightarrow> e', w'')))"

definition unit_err :: "(err + unit) \<times> 'w \<Rightarrow> err option \<times> 'w" where
  "unit_err r = (case fst r of Inl e \<Rightarrow> Some e | Inr _ \<Rightarrow> None, snd r)"

definition writeTags :: "'w scatterGatherStore \<Rightarrow> builtTemplate \<Rightarrow> (string \<times> string) list \<Rightarrow> 'w \<Rightarrow> err option \<times> 'w" where
  "writeTags st b tags = forEachHolder (\<lambda>h w. unit_err (SetTemplateLabels st (th_node h) (th_key h) tags (th_digest h) w)) (bt_holders b)"

definition writeTagError :: "err \<Rightarrow> e2b_reply" where
  "writeTagError e =
     (case as_StatusError e of
        Some (code, m) \<Rightarrow> if code \<ge> 400 \<and> code < 500 then WriteErr code m else WriteErr 500 (Msg ''failed to update the template's tags'' [])
      | None \<Rightarrow> WriteErr 500 (Msg ''failed to update the template's tags'' []))"

section \<open>The handlers\<close>

fun pool_templates :: "'w Server \<Rightarrow> string list \<Rightarrow> PoolCapacity list \<Rightarrow> Template list" where
  "pool_templates s seen [] = []"
| "pool_templates s seen (pc # pcs) =
     (if pc_Template pc = [] \<or> pc_Template pc \<in> set seen then pool_templates s seen pcs
      else \<lparr>tm_TemplateID = pc_Template pc, tm_BuildID = pc_Template pc, tm_CPUCount = 0, tm_MemoryMB = 0, tm_Public = True,
            tm_Aliases = (case map_of (sv_imageAliases s) (pc_Template pc) of None \<Rightarrow> [] | Some l \<Rightarrow> l),
            tm_Names = [pc_Template pc], tm_CreatedAt = [], tm_UpdatedAt = [], tm_BuildCount = 0,
            tm_EnvdVersion = so_EnvdVersion (sv_opts s), tm_BuildStatus = buildReady\<rparr> # pool_templates s (pc_Template pc # seen) pcs)"

definition built_row :: "(string \<Rightarrow> string) \<Rightarrow> 'w Server \<Rightarrow> builtTemplate \<Rightarrow> Template" where
  "built_row uuid5 s b =
     (let created = format_RFC3339 (bt_created b)
      in \<lparr>tm_TemplateID = bt_name b, tm_BuildID = uuid5 (bt_digest b), tm_CPUCount = bt_cpuCount b, tm_MemoryMB = bt_memoryMB b,
          tm_Public = True, tm_Aliases = [bt_name b], tm_Names = bt_names b, tm_CreatedAt = created, tm_UpdatedAt = created,
          tm_BuildCount = wrap32 (int (length (bt_digests b))), tm_EnvdVersion = so_EnvdVersion (sv_opts s), tm_BuildStatus = buildReady\<rparr>)"

definition listTemplates :: "(string \<Rightarrow> string) \<Rightarrow> 'w Server \<Rightarrow> string \<Rightarrow> 'w \<Rightarrow> e2b_reply" where
  "listTemplates uuid5 s ns w =
     (case inventories s w of
        Inl e \<Rightarrow> WriteErr 500 (Msg ''failed to list templates'' [])
      | Inr nodes \<Rightarrow>
          (let built = builtTemplates nodes (templateScope ns) []
           in WriteJSON 200 (J_Templates (pool_templates s [] (concat (map np_Pools nodes))
                @ map (\<lambda>name. built_row uuid5 s (the (map_of built name))) (sorted_keys built)))))"

definition templateSub :: "(string \<Rightarrow> string) \<Rightarrow> 'w Server \<Rightarrow> 'w scatterGatherStore \<Rightarrow> string \<Rightarrow> string \<Rightarrow> string \<Rightarrow> 'w \<Rightarrow> e2b_reply" where
  "templateSub uuid5 s st ns name sub w =
     (if sub \<noteq> ''tags'' then WriteErr 404 (Msg ''not found'' [])
      else and_then (e2b_builtTemplate s ns name w) (\<lambda>b.
        (case liveTags st b w of
           Inl e \<Rightarrow> writeTagError e
         | Inr tags \<Rightarrow>
             WriteJSON 200 (J_Tags (map (\<lambda>tag. \<lparr>tt_Tag = tag, tt_BuildID = uuid5 (map_index (map_of tags) tag),
                                              tt_CreatedAt = format_RFC3339 (bt_created b)\<rparr>) (sorted_keys tags))))))"

definition templateAlias :: "'w Server \<Rightarrow> string \<Rightarrow> string \<Rightarrow> 'w \<Rightarrow> e2b_reply" where
  "templateAlias s ns al w =
     (case map_of (sv_aliases s) al of
        Some key \<Rightarrow> WriteJSON 200 (J_Alias (pk_Template key) True)
      | None \<Rightarrow>
          (case resolveTemplate s ns al w of
             Inr (b, pool) \<Rightarrow>
               if b \<noteq> None \<or> pool then WriteJSON 200 (J_Alias al True) else WriteErr 404 (Msg ''template alias %q not found'' [al])
           | Inl e \<Rightarrow> WriteErr 404 (Msg ''template alias %q not found'' [al])))"

definition getTemplate :: "(string \<Rightarrow> string) \<Rightarrow> 'w Server \<Rightarrow> string \<Rightarrow> string \<Rightarrow> 'w \<Rightarrow> e2b_reply" where
  "getTemplate uuid5 s ns name w =
     and_then (e2b_builtTemplate s ns name w) (\<lambda>b.
       (let created = format_RFC3339 (bt_created b)
        in WriteJSON 200 (J_Template
             \<lparr>tw_TemplateID = bt_name b, tw_Public = True, tw_Aliases = [bt_name b], tw_Names = bt_names b, tw_CreatedAt = created,
              tw_UpdatedAt = created,
              tw_Builds = map (\<lambda>d. \<lparr>tb_BuildID = uuid5 d, tb_Status = buildReady, tb_CreatedAt = created, tb_UpdatedAt = created,
                                     tb_FinishedAt = created, tb_CPUCount = bt_cpuCount b, tb_MemoryMB = bt_memoryMB b,
                                     tb_EnvdVersion = so_EnvdVersion (sv_opts s)\<rparr>) (sorted_keys (bt_digests b))\<rparr>)))"

definition patchTemplate :: "'w Server \<Rightarrow> string \<Rightarrow> string \<Rightarrow> bool option request_body \<Rightarrow> 'w \<Rightarrow> e2b_reply" where
  "patchTemplate s ns name body w =
     and_then (decodeOptionalBody None body) (\<lambda>_. and_then (e2b_builtTemplate s ns name w) (\<lambda>b. WriteHeader 200))"

text \<open>The digest a tag request points at: the current build's, or the one an existing tag names.\<close>

definition tag_target :: "builtTemplate \<Rightarrow> string \<Rightarrow> (string \<times> string) list \<Rightarrow> string option" where
  "tag_target b tag tags = (if tag \<noteq> [] \<and> tag \<noteq> defaultTag then map_of tags tag else Some (bt_digest b))"

definition assignTemplateTags :: "(string \<Rightarrow> string) \<Rightarrow> 'w Server \<Rightarrow> 'w scatterGatherStore \<Rightarrow> string
   \<Rightarrow> AssignTemplateTagsRequest request_body \<Rightarrow> 'w \<Rightarrow> e2b_reply \<times> 'w" where
  "assignTemplateTags uuid5 s st ns body w =
     (case decodeBody body of
        Inl r \<Rightarrow> (r, w)
      | Inr req \<Rightarrow>
          if at_Tags req = [] \<or> [] \<in> set (at_Tags req) then (WriteErr 400 (Msg ''tags must name at least one non-empty tag'' []), w)
          else (let (name, tag) = cut_tag (at_Target req)
                in case e2b_builtTemplate s ns name w of
                     Inl r \<Rightarrow> (r, w)
                   | Inr b \<Rightarrow>
                       (case liveTags st b w of
                          Inl e \<Rightarrow> (writeTagError e, w)
                        | Inr tags \<Rightarrow>
                            (case tag_target b tag tags of
                               None \<Rightarrow> (WriteErr 404 (Msg ''template %q has no tag %q'' [name, tag]), w)
                             | Some digest \<Rightarrow>
                                 (case writeTags st b (fold (\<lambda>t. AList.update t digest) (at_Tags req) tags) w of
                                    (Some e, w') \<Rightarrow> (writeTagError e, w')
                                  | (None, w') \<Rightarrow>
                                      (WriteJSON 201 (J_Assigned \<lparr>aa_Tags = at_Tags req, aa_BuildID = uuid5 digest\<rparr>), w'))))))"

definition deleteTemplateTags :: "'w Server \<Rightarrow> 'w scatterGatherStore \<Rightarrow> string \<Rightarrow> DeleteTemplateTagsRequest request_body \<Rightarrow> 'w
   \<Rightarrow> e2b_reply \<times> 'w" where
  "deleteTemplateTags s st ns body w =
     (case decodeBody body of
        Inl r \<Rightarrow> (r, w)
      | Inr req \<Rightarrow>
          (let (name, _) = cut_tag (dt_Name req)
           in case e2b_builtTemplate s ns name w of
                Inl r \<Rightarrow> (r, w)
              | Inr b \<Rightarrow>
                  (case liveTags st b w of
                     Inl e \<Rightarrow> (writeTagError e, w)
                   | Inr tags \<Rightarrow>
                       (case writeTags st b (filter (\<lambda>(t, d). t \<notin> set (dt_Tags req)) tags) w of
                          (Some e, w') \<Rightarrow> (writeTagError e, w')
                        | (None, w') \<Rightarrow> (WriteHeader 204, w')))))"

section \<open>Lemmas\<close>

text \<open>A group: some holders, one of them of the group's creation time, each counted under its digest.\<close>

definition group_ok :: "string \<Rightarrow> string \<times> builtTemplate \<Rightarrow> bool" where
  "group_ok scope g \<longleftrightarrow> bt_name (snd g) = fst g \<and> (\<exists>h \<in> set (bt_holders (snd g)). th_created h = bt_created (snd g))
     \<and> (\<forall>h \<in> set (bt_holders (snd g)). th_created h \<le> bt_created (snd g) \<and> pk_Template (th_key h) = scope @ fst g
          \<and> (\<exists>n > 0. map_of (bt_digests (snd g)) (th_digest h) = Some n))
     \<and> (\<forall>d n. map_of (bt_digests (snd g)) d = Some n \<longrightarrow> (\<exists>h \<in> set (bt_holders (snd g)). th_digest h = d))"

definition created_ok :: "NodePools list \<Rightarrow> bool" where
  "created_ok nodes \<longleftrightarrow> (\<forall>n \<in> set nodes. \<forall>t \<in> set (np_Templates n). case pt_CreatedAt t of None \<Rightarrow> True | Some c \<Rightarrow> 0 \<le> c)"

lemma add_holder_ok:
  assumes "pk_Template (th_key h) = scope @ name" "0 \<le> th_created h"
    and "b = \<lparr>bt_name = name, bt_holders = [], bt_digests = [], bt_created = 0, bt_cpuCount = c, bt_memoryMB = m\<rparr> \<or> group_ok scope (name, b)"
  shows "group_ok scope (name, add_holder h b)"
  using assms(3)
proof
  assume "group_ok scope (name, b)"
  then show ?thesis using assms(1,2)
    by (auto simp: group_ok_def add_holder_def update_conv' split: if_splits option.splits)
qed (use assms(1,2) in \<open>auto simp: group_ok_def add_holder_def update_conv' split: if_splits\<close>)

text \<open>What a reported template does to the group of one name.\<close>

definition name_step :: "string \<Rightarrow> string \<Rightarrow> string \<Rightarrow> string \<times> PromotedTemplate \<Rightarrow> builtTemplate option \<Rightarrow> builtTemplate option" where
  "name_step scope only name nt ob =
     (case nt of (node, t) \<Rightarrow>
        if pt_Template t = scope @ name \<and> pt_Tenant t = [] \<and> (only = [] \<or> only = name)
        then Some (add_holder (holder_of node t) (case ob of
               Some b \<Rightarrow> b
             | None \<Rightarrow> \<lparr>bt_name = name, bt_holders = [], bt_digests = [], bt_created = 0,
                         bt_cpuCount = pt_CPUCount t, bt_memoryMB = wrap32 (pt_MemoryBytes t div 2 ^ 20)\<rparr>))
        else ob)"

lemma group_template_map_of: "map_of (group_template scope only nt out) name = name_step scope only name nt (map_of out name)"
  by (cases nt)
    (auto simp: group_template_def name_step_def Let_def update_conv' strings_CutPrefix_Some split: option.splits)

lemma fold_group_map_of:
  "map_of (fold (group_template scope only) xs out) name = fold (name_step scope only name) xs (map_of out name)"
  by (induction xs arbitrary: out) (simp_all add: group_template_map_of)

text \<open>The templates of one name a namespace owns.\<close>

definition owned :: "string \<Rightarrow> string \<Rightarrow> NodePools list \<Rightarrow> (string \<times> PromotedTemplate) list" where
  "owned scope name nodes = filter (\<lambda>(node, t). pt_Template t = scope @ name \<and> pt_Tenant t = []) (reported_templates nodes)"

lemma name_steps:
  assumes "\<forall>(node, t) \<in> set xs. case pt_CreatedAt t of None \<Rightarrow> True | Some c \<Rightarrow> 0 \<le> c"
    and "ob = None \<and> hs = [] \<or> (\<exists>b. ob = Some b \<and> group_ok scope (name, b) \<and> bt_holders b = hs)"
    and "mine = map (\<lambda>(node, t). holder_of node t) (filter (\<lambda>(node, t). pt_Template t = scope @ name \<and> pt_Tenant t = []) xs)"
  shows "case fold (name_step scope [] name) xs ob of
      None \<Rightarrow> hs @ mine = []
    | Some b \<Rightarrow> group_ok scope (name, b) \<and> bt_holders b = hs @ mine \<and> bt_holders b \<noteq> []"
  using assms
proof (induction xs arbitrary: ob hs mine)
  case Nil
  then show ?case by (auto simp: group_ok_def)
next
  case (Cons x xs)
  obtain node t where x: "x = (node, t)" by (cases x)
  let ?rest = "map (\<lambda>(node, t). holder_of node t) (filter (\<lambda>(node, t). pt_Template t = scope @ name \<and> pt_Tenant t = []) xs)"
  show ?case
  proof (cases "pt_Template t = scope @ name \<and> pt_Tenant t = []")
    case False
    then have "name_step scope [] name x ob = ob" "mine = ?rest" using Cons.prems(3) by (auto simp: name_step_def x)
    then show ?thesis using Cons.IH [of ob hs ?rest] Cons.prems(1,2) by (simp split: option.splits)
  next
    case True
    let ?h = "holder_of node t"
    obtain b where b: "name_step scope [] name x ob = Some (add_holder ?h b)"
      "b = \<lparr>bt_name = name, bt_holders = [], bt_digests = [], bt_created = 0, bt_cpuCount = pt_CPUCount t,
          bt_memoryMB = wrap32 (pt_MemoryBytes t div 2 ^ 20)\<rparr> \<or> group_ok scope (name, b)" "bt_holders b = hs"
      using Cons.prems(2) True by (auto simp: name_step_def x split: option.splits)
    have "pk_Template (th_key ?h) = scope @ name" "0 \<le> th_created ?h"
      using True Cons.prems(1) by (auto simp: holder_of_def x split: option.splits)
    from add_holder_ok [OF this b(2)] have "group_ok scope (name, add_holder ?h b)" .
    moreover have "bt_holders (add_holder ?h b) = hs @ [?h]" by (simp add: add_holder_def b(3))
    ultimately show ?thesis
      using Cons.IH [of "Some (add_holder ?h b)" "hs @ [?h]" ?rest] Cons.prems(1,3) True b(1) by (simp add: x split: option.splits)
  qed
qed

lemma group_of_name:
  assumes "created_ok nodes"
  shows "case map_of (builtTemplates nodes scope []) name of
      None \<Rightarrow> owned scope name nodes = []
    | Some b \<Rightarrow> group_ok scope (name, b) \<and> bt_holders b = map (\<lambda>(node, t). holder_of node t) (owned scope name nodes)"
proof -
  have "\<forall>(node, t) \<in> set (reported_templates nodes). case pt_CreatedAt t of None \<Rightarrow> True | Some c \<Rightarrow> 0 \<le> c"
    using assms by (auto simp: created_ok_def reported_templates_def)
  from name_steps [OF this, of None "[]" scope name, OF _ refl] show ?thesis
    by (simp add: builtTemplates_def fold_group_map_of owned_def split: option.splits)
qed

lemma bt_current_newest:
  assumes "group_ok scope (name, b)"
  shows "bt_current b \<in> set (bt_holders b) \<and> (\<forall>h \<in> set (bt_holders b). th_created h \<le> th_created (bt_current b))"
proof -
  have "filter (\<lambda>h. th_created h = bt_created b) (bt_holders b) \<noteq> []" using assms by (auto simp: group_ok_def filter_empty_conv)
  then have "bt_current b \<in> set (filter (\<lambda>h. th_created h = bt_created b) (bt_holders b))"
    unfolding bt_current_def by (rule hd_in_set)
  then show ?thesis using assms by (auto simp: group_ok_def)
qed

section \<open>Properties\<close>

text \<open>
  C21. Looking one built template up gives the same group as listing them all: it exists exactly when some node
  reports an untenanted template of that name in the caller's namespace, its holders are exactly those
  reports, its current holder is one of them and none is newer (so the lookup of the current holder cannot
  fail), and a tag is live only when a holder still reports its digest. Creation times before year one are excluded.
\<close>

theorem built_template_group:
  assumes "created_ok nodes" and "name \<noteq> []" and "scope = templateScope ns"
  shows "map_of (builtTemplates nodes scope name) name = map_of (builtTemplates nodes scope []) name
    \<and> (case map_of (builtTemplates nodes scope name) name of
         None \<Rightarrow> owned scope name nodes = []
       | Some b \<Rightarrow> bt_holders b = map (\<lambda>(node, t). holder_of node t) (owned scope name nodes)
           \<and> bt_current b \<in> set (bt_holders b) \<and> (\<forall>h \<in> set (bt_holders b). th_created h \<le> th_created (bt_current b))
           \<and> (\<forall>(tag, d) \<in> set (liveOnly b labels). (tag, d) \<in> set labels \<and> (\<exists>h \<in> set (bt_holders b). th_digest h = d)))"
proof -
  have "name_step scope name name = name_step scope [] name" by (simp add: name_step_def fun_eq_iff)
  then have same: "map_of (builtTemplates nodes scope name) name = map_of (builtTemplates nodes scope []) name"
    by (simp add: builtTemplates_def fold_group_map_of)
  show ?thesis
  proof (cases "map_of (builtTemplates nodes scope []) name")
    case (Some b)
    then have ok: "group_ok scope (name, b)" "bt_holders b = map (\<lambda>(node, t). holder_of node t) (owned scope name nodes)"
      using group_of_name [OF assms(1), of scope name] by simp_all
    have "\<forall>(tag, d) \<in> set (liveOnly b labels). (tag, d) \<in> set labels \<and> (\<exists>h \<in> set (bt_holders b). th_digest h = d)"
      using ok(1) by (auto simp: liveOnly_def group_ok_def split: option.splits)
    then show ?thesis using same Some ok bt_current_newest [OF ok(1)] by (simp only: option.case simp_thms) blast
  qed (use same group_of_name [OF assms(1), of scope name] in simp)
qed

text \<open>Two nodes hold a template: the second holds the newer build, and the tag of the first still lives.\<close>

definition demo_report :: "string \<Rightarrow> string \<Rightarrow> time \<Rightarrow> NodePools" where
  "demo_report node digest at = \<lparr>np_Node = node, np_Address = node, np_Pools = [],
     np_Templates = [\<lparr>pt_Template = ''e2b/ns/t'', pt_Net = [], pt_Size = ''small'', pt_ContentDigest = digest, pt_Tenant = [],
       pt_CreatedAt = Some at, pt_CPUCount = 1, pt_MemoryBytes = 2 ^ 30, pt_Labels = []\<rparr>]\<rparr>"

definition template_demo_nodes :: "NodePools list" where
  "template_demo_nodes = [demo_report ''n1'' ''d1'' 5, demo_report ''n2'' ''d2'' 9]"

theorem built_template_group_witness:
  "\<exists>b. map_of (builtTemplates template_demo_nodes (templateScope ''ns'') ''t'') ''t'' = Some b \<and> map th_node (bt_holders b) = [''n1'', ''n2'']
     \<and> th_node (bt_current b) = ''n2'' \<and> liveOnly b [(''old'', ''d1''), (''gone'', ''d0'')] = [(''old'', ''d1'')]"
proof -
  have "created_ok template_demo_nodes" by (simp add: created_ok_def template_demo_nodes_def demo_report_def)
  from built_template_group [OF this, of "''t''" "templateScope ''ns''" "''ns''" "[]"]
  have "bt_holders b = map (\<lambda>(node, t). holder_of node t) (owned (templateScope ''ns'') ''t'' template_demo_nodes)"
    if "map_of (builtTemplates template_demo_nodes (templateScope ''ns'') ''t'') ''t'' = Some b" for b using that by simp
  moreover have "map (th_node \<circ> (\<lambda>(node, t). holder_of node t)) (owned (templateScope ''ns'') ''t'' template_demo_nodes) = [''n1'', ''n2'']"
    by code_simp
  moreover have "(case map_of (builtTemplates template_demo_nodes (templateScope ''ns'') ''t'') ''t'' of None \<Rightarrow> False
      | Some b \<Rightarrow> th_node (bt_current b) = ''n2'' \<and> liveOnly b [(''old'', ''d1''), (''gone'', ''d0'')] = [(''old'', ''d1'')])"
    by code_simp
  ultimately show ?thesis by (fastforce split: option.splits)
qed

end
