(* ===== verification/E2B_Server.thy ===== *)
theory E2B_Server
  imports E2B_Templates
begin

text \<open>
  The sandbox handlers of the e2b surface (pkg/e2bcompat/server.go and lifecycle.go). A handler runs behind
  \<^verbatim>\<open>auth\<close>, so it is given the caller's namespace; it answers a reply, the store with what its index has
  learnt, and the world. The goroutines of a fan-out are taken to run in the order they are started.
\<close>

definition errSandboxNotFound :: err where "errSandboxNotFound = PlainError (Msg ''sandbox not found'' [])"
definition connectFailure :: msg where "connectFailure = Msg ''failed to connect the sandbox'' []"
definition namePrefix :: string where "namePrefix = ''e2b-''"
definition maxMetricsIDs :: nat where "maxMetricsIDs = 100"

type_synonym 'w handled = "e2b_reply \<times> 'w scatterGatherStore \<times> 'w"

section \<open>Finding a sandbox\<close>

definition lookup :: "e2b_env \<Rightarrow> 'w scatterGatherStore \<Rightarrow> string \<Rightarrow> string \<Rightarrow> 'w \<Rightarrow> (err + Sandbox) \<times> 'w scatterGatherStore" where
  "lookup env st ns i w =
     (if strings_TrimSpace i = [] then (Inl errSandboxNotFound, st)
      else (case GetByClaimID (io_marshal env) (io_sched env) (io_sched' env) st w ns (ClaimID i)
              (\<lambda>cid. MatchesID (ev_lower env) cid i) of
              (Inl e, st') \<Rightarrow> (Inl (if k8s_IsNotFound e then errSandboxNotFound else e), st')
            | (Inr sb, st') \<Rightarrow> (Inr sb, st')))"

definition writeVerbError :: "string \<Rightarrow> err \<Rightarrow> msg \<Rightarrow> e2b_reply" where
  "writeVerbError i e m =
     (if k8s_IsNotFound e \<or> err_Is e errSandboxNotFound then WriteErr 404 (Msg ''sandbox %q not found'' [i])
      else (case as_StatusError e of
              Some (code, em) \<Rightarrow> if code \<ge> 400 \<and> code < 500 then WriteErr code em else WriteErr 500 m
            | None \<Rightarrow> WriteErr 500 m))"

definition writeLookupError :: "string \<Rightarrow> err \<Rightarrow> e2b_reply" where
  "writeLookupError i e = writeVerbError i e (Msg ''failed to resolve the sandbox'' [])"

text \<open>The handlers that start by finding the sandbox the path names.\<close>

definition with_sandbox :: "e2b_env \<Rightarrow> 'w scatterGatherStore \<Rightarrow> string \<Rightarrow> string \<Rightarrow> 'w
   \<Rightarrow> (Sandbox \<Rightarrow> 'w scatterGatherStore \<Rightarrow> 'w handled) \<Rightarrow> 'w handled" where
  "with_sandbox env st ns i w f =
     (case lookup env st ns i w of
        (Inl e, st') \<Rightarrow> (writeLookupError i e, st', w)
      | (Inr sb, st') \<Rightarrow> f sb st')"

definition e2b_isPaused :: "'w scatterGatherStore \<Rightarrow> Sandbox \<Rightarrow> 'w \<Rightarrow> err + bool" where
  "e2b_isPaused st sb w =
     (let node = sb_NodeName sb; i = claimIDOf sb; published = Inr (map_index (sb_Labels sb) PhaseLabel = PhaseHibernated)
      in if node \<noteq> [] \<and> i \<noteq> [] then
           (case store_Read st node i w of
              Inr r \<Rightarrow> Inr (sr_Paused r)
            | Inl e \<Rightarrow> if k8s_IsNotFound e then Inl errSandboxNotFound else published)
         else published)"

definition sandboxOf :: "e2b_env \<Rightarrow> 'w Server \<Rightarrow> string \<Rightarrow> string \<Rightarrow> string \<Rightarrow> string \<Rightarrow> e2b_Sandbox" where
  "sandboxOf env s template sandboxName node token =
     \<lparr>es_TemplateID = template, es_SandboxID = PublicID (ev_lower env) sandboxName, es_ClientID = node,
      es_EnvdVersion = so_EnvdVersion (sv_opts s), es_EnvdAccessToken = token, es_Domain = so_Domain (sv_opts s),
      es_Alias = aliasOf s template\<rparr>"

definition access_token :: "e2b_env \<Rightarrow> 'w Server \<Rightarrow> string \<Rightarrow> string" where
  "access_token env s claimToken = AccessToken (ev_mac env) (so_EnvdSecret (sv_opts s)) claimToken"

section \<open>Create\<close>

definition unsupportedCreateOption :: "NewSandbox \<Rightarrow> msg option" where
  "unsupportedCreateOption req =
     (if ns_Secure req = Some False then
        Some (Msg ''secure=false is not supported; every sandbox this backend hands out is reachable only with its own access token'' [])
      else if ns_AutoPause req = Some True \<and> ns_AllowInternetAccess req = Some True then
        Some (Msg ''autoPause is not supported with allow_internet_access: the internet lane cannot pause'' [])
      else if ns_Network req \<noteq> [] then
        Some (Msg ''network rules are not supported; allow_internet_access picks the pool's lane and nothing else is enforced'' [])
      else if ns_VolumeMounts req \<noteq> [] then Some (Msg ''volumeMounts are not supported'' [])
      else if ns_AutoPauseMemory req \<noteq> None then Some (Msg ''autoPauseMemory is not supported; a pause always keeps memory'' [])
      else if ns_AutoResume req = Some True then Some (Msg ''autoResume is not supported; resume explicitly with connect'' [])
      else if ns_MCP req \<noteq> [] then Some (Msg ''mcp is not supported'' [])
      else if ns_IAM req \<noteq> [] then Some (Msg ''iam is not supported'' [])
      else None)"

definition create_refusal :: "NewSandbox \<Rightarrow> e2b_reply option" where
  "create_refusal req =
     (if strings_TrimSpace (ns_TemplateID req) = [] then Some (WriteErr 400 (Msg ''templateID is required'' []))
      else if strings_HasPrefix (ns_TemplateID req) templatePrefix then
        Some (WriteErr 404 (Msg ''template %q not found'' [ns_TemplateID req]))
      else if (case ns_Timeout req of None \<Rightarrow> False | Some t \<Rightarrow> t < 0) then Some (WriteErr 400 (Msg ''timeout must be >= 0'' []))
      else map_option (WriteErr 400) (unsupportedCreateOption req))"

definition e2b_create_options :: "'w Server \<Rightarrow> NewSandbox \<Rightarrow> ClaimOptions" where
  "e2b_create_options s req =
     \<lparr>co_TTLSeconds = timeoutSeconds s (ns_Timeout req), co_Metadata = ns_Metadata req,
      co_OnExpire = (if ns_AutoPause req = Some True then ExpireArchive else ExpireKeep),
      co_NoEgress = (ns_AllowInternetAccess req = Some False), co_Promoted = False\<rparr>"

definition create_pool :: "'w Server \<Rightarrow> NewSandbox \<Rightarrow> PoolKey" where
  "create_pool s req = (server_poolKey s (ns_TemplateID req))\<lparr>pk_Net := netFor (ns_AllowInternetAccess req)\<rparr>"

text \<open>The claim, and when no pool is warm the claim of the built template of that name: whether the template is known and whether it was built.\<close>

definition create_claim :: "e2b_env \<Rightarrow> 'w Server \<Rightarrow> 'w scatterGatherStore \<Rightarrow> string \<Rightarrow> NewSandbox \<Rightarrow> 'w
   \<Rightarrow> bool \<times> bool \<times> (err + Assignment) \<times> 'w scatterGatherStore \<times> 'w" where
  "create_claim env s st ns req w =
     (let name = io_generate env namePrefix; opts = e2b_create_options s req
      in case Claim (io_rnd env) st ns name (create_pool s req) opts w of
           (Inl e, st1, w1) \<Rightarrow>
             if IsNoWarmCapacity e then
               (case resolveTemplate s ns (ns_TemplateID req) w1 of
                  Inl _ \<Rightarrow> (True, False, Inl e, st1, w1)
                | Inr (b, pooled) \<Rightarrow>
                    (case b of
                       Some t \<Rightarrow>
                         if pooled then (True, False, Inl e, st1, w1)
                         else (True, True, Claim (io_rnd env) st1 ns name (th_key (bt_current t)) (opts\<lparr>co_Promoted := True\<rparr>) w1)
                     | None \<Rightarrow> (pooled, False, Inl e, st1, w1)))
             else (True, False, Inl e, st1, w1)
         | r \<Rightarrow> (True, False, r))"

definition create_claim_error :: "NewSandbox \<Rightarrow> bool \<Rightarrow> err \<Rightarrow> e2b_reply" where
  "create_claim_error req known e =
     (if IsNoWarmCapacity e then
        (if \<not> known then WriteErr 404 (Msg ''template %q not found'' [ns_TemplateID req])
         else WriteErr 503 (Msg ''no warm sandbox available for template %q; retry as warm capacity refills'' [ns_TemplateID req]))
      else (case as_HTTPError e of
              Some (code, m) \<Rightarrow>
                if code = 400 \<or> code = 409 then WriteErr code (Msg m []) else WriteErr 500 (Msg ''failed to claim a sandbox'' [])
            | None \<Rightarrow> WriteErr 500 (Msg ''failed to claim a sandbox'' [])))"

text \<open>What envd of a new claim is set up with.\<close>

definition create_init :: "e2b_env \<Rightarrow> 'w envd_io \<Rightarrow> 'w scatterGatherStore \<Rightarrow> Assignment \<Rightarrow> NewSandbox \<Rightarrow> string \<Rightarrow> bool \<Rightarrow> 'w
   \<Rightarrow> err option \<times> 'w" where
  "create_init env o' st a req token built w =
     (case (if built then templateEnvs o' st a (ns_EnvVars req) w else (Inr (withRelay (as_NetRoute a) (ns_EnvVars req)), w)) of
        (Inl e, w') \<Rightarrow> (Some e, w')
      | (Inr envs, w') \<Rightarrow>
          initEnvd env o' st (as_Node a) (as_SandboxName a) []
            \<lparr>ei_AccessToken = token, ei_EnvVars = envs, ei_DefaultUser = (if built then [] else envdDefaultUser),
             ei_DefaultWorkdir = (if built then [] else envdDefaultWorkdir), ei_Timestamp = 0\<rparr> w')"

definition createSandbox :: "e2b_env \<Rightarrow> 'w envd_io \<Rightarrow> 'w Server \<Rightarrow> 'w scatterGatherStore \<Rightarrow> string \<Rightarrow> NewSandbox request_body \<Rightarrow> 'w
   \<Rightarrow> 'w handled" where
  "createSandbox env o' s st ns body w =
     (case decodeBody body of
        Inl r \<Rightarrow> (r, st, w)
      | Inr req \<Rightarrow>
          (case create_refusal req of
             Some r \<Rightarrow> (r, st, w)
           | None \<Rightarrow>
               (case create_claim env s st ns req w of
                  (known, built, Inl e, st1, w1) \<Rightarrow> (create_claim_error req known e, st1, w1)
                | (known, built, Inr a, st1, w1) \<Rightarrow>
                    (let token = access_token env s (as_Token a)
                     in case create_init env o' st1 a req token built w1 of
                          (Some e, w2) \<Rightarrow> (WriteErr 500 (Msg ''failed to start the sandbox'' []), st1, releaseAll st1 [a] w2)
                        | (None, w2) \<Rightarrow>
                            (WriteJSON 201 (J_Sandbox (sandboxOf env s (pk_Template (create_pool s req)) (as_SandboxName a) (as_Node a) token)), st1, w2)))))"

section \<open>Get, delete and leases\<close>

definition getSandbox :: "e2b_env \<Rightarrow> 'w Server \<Rightarrow> 'w scatterGatherStore \<Rightarrow> string \<Rightarrow> string \<Rightarrow> 'w \<Rightarrow> 'w handled" where
  "getSandbox env s st ns i w = with_sandbox env st ns i w (\<lambda>sb st'.
     (case store_Read st' (sb_NodeName sb) (claimIDOf sb) w of
        Inl e \<Rightarrow> (writeVerbError i e (Msg ''failed to read the sandbox'' []), st', w)
      | Inr r \<Rightarrow>
          (let d = (detailFor env s sb)\<lparr>sd_State := (if sr_Paused r then StatePaused else StateRunning)\<rparr>
           in (WriteJSON 200 (J_Detail (if time_IsZero (sr_Deadline r) then d else d\<lparr>sd_EndAt := format_RFC3339 (sr_Deadline r)\<rparr>)), st', w))))"

definition deleteSandbox :: "e2b_env \<Rightarrow> 'w scatterGatherStore \<Rightarrow> string \<Rightarrow> string \<Rightarrow> 'w \<Rightarrow> 'w handled" where
  "deleteSandbox env st ns i w = with_sandbox env st ns i w (\<lambda>sb st'.
     (if sb_NodeName sb = [] then (WriteErr 500 (Msg ''failed to release the sandbox'' []), st', w)
      else (case Release st' (sb_NodeName sb) (claimIDOf sb) w of
              (Inl e, w') \<Rightarrow> (WriteErr 500 (Msg ''failed to release the sandbox'' []), st', w')
            | (Inr _, w') \<Rightarrow> (WriteHeader 204, st', w'))))"

definition e2b_renew :: "e2b_env \<Rightarrow> 'w scatterGatherStore \<Rightarrow> string \<Rightarrow> string \<Rightarrow> int \<Rightarrow> 'w \<Rightarrow> 'w handled" where
  "e2b_renew env st ns i ttl w = with_sandbox env st ns i w (\<lambda>sb st'.
     (case Renew st' (sb_NodeName sb) (claimIDOf sb) ttl ExpireKeep w of
        (Inl e, w') \<Rightarrow> (writeVerbError i e (Msg ''failed to extend the sandbox lease'' []), st', w')
      | (Inr _, w') \<Rightarrow> (WriteHeader 204, st', w')))"

definition setTimeout :: "e2b_env \<Rightarrow> 'w scatterGatherStore \<Rightarrow> string \<Rightarrow> string \<Rightarrow> int request_body \<Rightarrow> 'w \<Rightarrow> 'w handled" where
  "setTimeout env st ns i body w =
     (case decodeBody body of
        Inl r \<Rightarrow> (r, st, w)
      | Inr timeout \<Rightarrow>
          if timeout < 0 then (WriteErr 400 (Msg ''timeout must be >= 0'' []), st, w) else e2b_renew env st ns i timeout w)"

definition e2b_refresh :: "e2b_env \<Rightarrow> 'w Server \<Rightarrow> 'w scatterGatherStore \<Rightarrow> string \<Rightarrow> string \<Rightarrow> int option request_body \<Rightarrow> 'w \<Rightarrow> 'w handled" where
  "e2b_refresh env s st ns i body w =
     (case decodeOptionalBody None body of
        Inl r \<Rightarrow> (r, st, w)
      | Inr duration \<Rightarrow>
          e2b_renew env st ns i
            (case duration of Some d \<Rightarrow> if d > 0 then d else so_DefaultTimeoutSeconds (sv_opts s)
             | None \<Rightarrow> so_DefaultTimeoutSeconds (sv_opts s)) w)"

section \<open>Pause, connect and fork\<close>

definition pauseSandbox :: "e2b_env \<Rightarrow> 'w scatterGatherStore \<Rightarrow> string \<Rightarrow> string \<Rightarrow> bool option request_body \<Rightarrow> 'w \<Rightarrow> 'w handled" where
  "pauseSandbox env st ns i body w =
     (case decodeOptionalBody None body of
        Inl r \<Rightarrow> (r, st, w)
      | Inr memory \<Rightarrow>
          if memory = Some False then
            (WriteErr 400 (Msg ''filesystem-only pause (memory=false) is not supported; this backend always snapshots memory'' []), st, w)
          else with_sandbox env st ns i w (\<lambda>sb st'.
            (case e2b_isPaused st' sb w of
               Inl e \<Rightarrow> (writeLookupError i e, st', w)
             | Inr True \<Rightarrow> (WriteErr 409 (Msg ''sandbox %q is already paused'' [i]), st', w)
             | Inr False \<Rightarrow>
                 (case Pause st' (sb_NodeName sb) (claimIDOf sb) w of
                    (Inl e, w') \<Rightarrow> (writeVerbError i e (Msg ''failed to pause the sandbox'' []), st', w')
                  | (Inr _, w') \<Rightarrow> (WriteHeader 204, st', w')))))"

definition expireFor :: "bool option \<Rightarrow> ExpireAction" where
  "expireFor autoPause = (case autoPause of None \<Rightarrow> ExpireKeep | Some True \<Rightarrow> ExpireArchive | Some False \<Rightarrow> ExpireDestroy)"

text \<open>
  \<^verbatim>\<open>int(math.Ceil(d.Seconds()))\<close> of any duration; of a negative one the sum of seconds and fraction may
  round to the next whole second.
\<close>

definition int_ceil_Seconds :: "int \<Rightarrow> int" where
  "int_ceil_Seconds d =
     (if d > 0 then ceil_Seconds d
      else (let sec = (- d) div 1000000000; nsec = (- d) mod 1000000000
            in if nsec \<noteq> 0 \<and> (1000000000 - nsec) * 2 ^ (53 - float_exponent (nat sec)) \<le> 1000000000 then - sec - 1 else - sec))"

definition connect_lease :: "'w Server \<Rightarrow> ConnectSandbox \<Rightarrow> time \<Rightarrow> time \<Rightarrow> int \<times> int" where
  "connect_lease s req now deadline = (timeoutSeconds s (cn_Timeout req), int_ceil_Seconds (time_Sub deadline now))"

text \<open>The record to connect to, resumed if it was paused, with the status of the reply.\<close>

definition connect_awake :: "string \<Rightarrow> 'w scatterGatherStore \<Rightarrow> string \<Rightarrow> string \<Rightarrow> bool \<Rightarrow> 'w \<Rightarrow> (e2b_reply + int \<times> SandboxRecord) \<times> 'w" where
  "connect_awake i st node cid refuseRunning w =
     (case store_Read st node cid w of
        Inl e \<Rightarrow> (Inl (writeVerbError i e connectFailure), w)
      | Inr r \<Rightarrow>
          if \<not> sr_Paused r \<and> refuseRunning then (Inl (WriteErr 409 (Msg ''sandbox %q is already running'' [i])), w)
          else if sr_Paused r then
            (case Resume st node cid w of
               (Inl e, w1) \<Rightarrow> (Inl (writeVerbError i e (Msg ''failed to resume the sandbox'' [])), w1)
             | (Inr _, w1) \<Rightarrow>
                 (case store_Read st node cid w1 of
                    Inl e \<Rightarrow> (Inl (writeVerbError i e connectFailure), w1)
                  | Inr r' \<Rightarrow> (Inr (201, r'), w1)))
          else (Inr (200, r), w))"

definition e2b_connect :: "e2b_env \<Rightarrow> 'w Server \<Rightarrow> 'w scatterGatherStore \<Rightarrow> string \<Rightarrow> string \<Rightarrow> 'a ConnectSandbox_scheme \<Rightarrow> bool \<Rightarrow> bool option
   \<Rightarrow> 'w \<Rightarrow> 'w handled" where
  "e2b_connect env s st ns i req refuseRunning autoPause w =
     (if cn_Memory req = Some False then
        (WriteErr 400 (Msg ''memory=false is not supported; a paused sandbox resumes from its memory snapshot'' []), st, w)
      else with_sandbox env st ns i w (\<lambda>sb st'.
        (let node = sb_NodeName sb; cid = claimIDOf sb
         in case connect_awake i st' node cid refuseRunning w of
              (Inl r, w1) \<Rightarrow> (r, st', w1)
            | (Inr (status, rec'), w1) \<Rightarrow>
                (let (ttl, left) = connect_lease s \<lparr>cn_Timeout = cn_Timeout req, cn_Memory = cn_Memory req\<rparr> (io_now env) (sr_Deadline rec');
                     onExpire = expireFor autoPause;
                     reply = WriteJSON status (J_Sandbox (sandboxOf env s (templateOf sb) cid node (access_token env s (sr_Token rec'))))
                 in if ttl > left \<or> onExpire \<noteq> ExpireKeep then
                      (case Renew st' node cid (max ttl left) onExpire w1 of
                         (Inl e, w2) \<Rightarrow> (writeVerbError i e connectFailure, st', w2)
                       | (Inr _, w2) \<Rightarrow> (reply, st', w2))
                    else (reply, st', w1)))))"

definition connectSandbox :: "e2b_env \<Rightarrow> 'w Server \<Rightarrow> 'w scatterGatherStore \<Rightarrow> string \<Rightarrow> string \<Rightarrow> ConnectSandbox request_body \<Rightarrow> 'w \<Rightarrow> 'w handled" where
  "connectSandbox env s st ns i body w =
     (case decodeOptionalBody \<lparr>cn_Timeout = None, cn_Memory = None\<rparr> body of
        Inl r \<Rightarrow> (r, st, w)
      | Inr req \<Rightarrow> e2b_connect env s st ns i req False None w)"

definition resumeSandbox :: "e2b_env \<Rightarrow> 'w Server \<Rightarrow> 'w scatterGatherStore \<Rightarrow> string \<Rightarrow> string \<Rightarrow> ResumedSandbox request_body \<Rightarrow> 'w \<Rightarrow> 'w handled" where
  "resumeSandbox env s st ns i body w =
     (case decodeOptionalBody \<lparr>cn_Timeout = None, cn_Memory = None, cn_AutoPause = None\<rparr> body of
        Inl r \<Rightarrow> (r, st, w)
      | Inr req \<Rightarrow> e2b_connect env s st ns i req True (cn_AutoPause req) w)"

text \<open>Every child is handed over, whatever happens to the others; the first failure counts.\<close>

fun hand_over_all :: "e2b_env \<Rightarrow> 'w envd_io \<Rightarrow> 'w Server \<Rightarrow> 'w scatterGatherStore \<Rightarrow> Assignment list \<Rightarrow> 'w \<Rightarrow> err option \<times> 'w" where
  "hand_over_all env o' s st [] w = (None, w)"
| "hand_over_all env o' s st (c # cs) w =
     (case handOver env o' st c (access_token env s (as_Token c)) w of
        (e, w') \<Rightarrow>
          (case hand_over_all env o' s st cs w' of (e', w'') \<Rightarrow> (case e of Some x \<Rightarrow> Some x | None \<Rightarrow> e', w'')))"

definition forkSandbox :: "e2b_env \<Rightarrow> 'w envd_io \<Rightarrow> 'w Server \<Rightarrow> 'w scatterGatherStore \<Rightarrow> string \<Rightarrow> string \<Rightarrow> SandboxForkRequest request_body \<Rightarrow> 'w
   \<Rightarrow> 'w handled" where
  "forkSandbox env o' s st ns i body w =
     (case decodeOptionalBody \<lparr>fr_Timeout = None, fr_Count = None\<rparr> body of
        Inl r \<Rightarrow> (r, st, w)
      | Inr req \<Rightarrow>
          (let count = (case fr_Count req of None \<Rightarrow> 1 | Some c \<Rightarrow> c)
           in if count < 1 then (WriteErr 400 (Msg ''count must be >= 1, got %d'' [strconv_Itoa count]), st, w)
              else if (case fr_Timeout req of None \<Rightarrow> False | Some t \<Rightarrow> t < 0) then (WriteErr 400 (Msg ''timeout must be >= 0'' []), st, w)
              else with_sandbox env st ns i w (\<lambda>sb st'.
                (case e2b_isPaused st' sb w of
                   Inl e \<Rightarrow> (writeLookupError i e, st', w)
                 | Inr True \<Rightarrow> (WriteErr 409 (Msg ''sandbox %q is paused and cannot be forked; resume it first'' [i]), st', w)
                 | Inr False \<Rightarrow>
                     (case Fork st' ns (sb_NodeName sb) (claimIDOf sb) count (timeoutSeconds s (fr_Timeout req)) w of
                        (Inl e, st1, w1) \<Rightarrow> (writeVerbError i e (Msg ''failed to fork the sandbox'' []), st1, w1)
                      | (Inr children, st1, w1) \<Rightarrow>
                          (case hand_over_all env o' s st1 children w1 of
                             (Some e, w2) \<Rightarrow>
                               (writeVerbError i e (Msg ''failed to fork the sandbox'' []), st1, releaseAll st1 children w2)
                           | (None, w2) \<Rightarrow>
                               (WriteJSON 201 (J_Forks (map (\<lambda>c. sandboxOf env s (templateOf sb) (as_SandboxName c) (as_Node c)
                                  (access_token env s (as_Token c))) children)), st1, w2)))))))"

section \<open>Snapshots\<close>

definition snapshotInfo :: "Snapshot \<Rightarrow> SnapshotInfo" where
  "snapshotInfo snap = \<lparr>si_SnapshotID = sn_ID snap, si_Names = (if sn_Name snap \<noteq> [] then [sn_Name snap] else [])\<rparr>"

definition createSnapshot :: "e2b_env \<Rightarrow> 'w scatterGatherStore \<Rightarrow> string \<Rightarrow> string \<Rightarrow> string request_body \<Rightarrow> 'w \<Rightarrow> 'w handled" where
  "createSnapshot env st ns i body w =
     (case decodeOptionalBody [] body of
        Inl r \<Rightarrow> (r, st, w)
      | Inr name \<Rightarrow> with_sandbox env st ns i w (\<lambda>sb st'.
          (case CheckpointName ns name of
             Inl e \<Rightarrow> (writeVerbError i e (Msg ''failed to snapshot the sandbox'' []), st', w)
           | Inr stamped \<Rightarrow>
               (case store_Snapshot st' (sb_NodeName sb) (claimIDOf sb) stamped w of
                  (Inl e, w') \<Rightarrow> (writeVerbError i e (Msg ''failed to snapshot the sandbox'' []), st', w')
                | (Inr snap, w') \<Rightarrow> (WriteJSON 201 (J_Snapshot (snapshotInfo (snap\<lparr>sn_Name := name\<rparr>))), st', w')))))"

definition nodesWithSandboxes :: "'w Server \<Rightarrow> 'w \<Rightarrow> err + string list" where
  "nodesWithSandboxes s w = (case so_Inventory (sv_opts s) of None \<Rightarrow> Inl err_no_inventory | Some src \<Rightarrow> src_ListNodes src w)"

text \<open>The caller's checkpoints by node, with the namespace stamp stripped, and whether every node answered.\<close>

definition own_snapshots :: "string \<Rightarrow> Snapshot list \<Rightarrow> Snapshot list" where
  "own_snapshots ns snaps =
     List.map_filter (\<lambda>snap. map_option (\<lambda>name. snap\<lparr>sn_Name := name\<rparr>) (CheckpointNameIn ns (sn_Name snap))) snaps"

definition snapshotsOf :: "'w Server \<Rightarrow> 'w scatterGatherStore \<Rightarrow> string \<Rightarrow> 'w \<Rightarrow> err + Snapshot list \<times> bool" where
  "snapshotsOf s st ns w =
     (case nodesWithSandboxes s w of
        Inl e \<Rightarrow> Inl e
      | Inr nodes \<Rightarrow>
          Inr (concat (map (\<lambda>node. case Snapshots st node w of Inl _ \<Rightarrow> [] | Inr snaps \<Rightarrow> own_snapshots ns snaps) nodes),
               list_all (\<lambda>node. case Snapshots st node w of Inl _ \<Rightarrow> False | Inr _ \<Rightarrow> True) nodes))"

definition listSnapshots :: "e2b_env \<Rightarrow> 'w Server \<Rightarrow> 'w scatterGatherStore \<Rightarrow> string \<Rightarrow> url_values \<Rightarrow> 'w \<Rightarrow> e2b_reply" where
  "listSnapshots env s st ns q w =
     (case snapshotsOf s st ns w of
        Inl e \<Rightarrow> WriteErr 500 (Msg ''failed to list snapshots'' [])
      | Inr (snaps, _) \<Rightarrow>
          (let sandboxID = query_Get q ''sandboxID''; name = query_Get q ''name''
           in WriteJSON 200 (J_Snapshots (map snapshotInfo (filter (\<lambda>snap.
                (sandboxID = [] \<or> MatchesID (ev_lower env) (sn_SandboxID snap) sandboxID) \<and> (name = [] \<or> sn_Name snap = name)) snaps)))))"

definition deleteSnapshot :: "'w Server \<Rightarrow> 'w scatterGatherStore \<Rightarrow> string \<Rightarrow> string \<Rightarrow> 'w \<Rightarrow> e2b_reply \<times> 'w" where
  "deleteSnapshot s st ns snapshotID w =
     (case snapshotsOf s st ns w of
        Inl e \<Rightarrow> (WriteErr 500 (Msg ''failed to delete the snapshot'' []), w)
      | Inr (snaps, complete) \<Rightarrow>
          (case find (\<lambda>snap. sn_ID snap = snapshotID) snaps of
             None \<Rightarrow>
               if \<not> complete then (WriteErr 500 (Msg ''failed to delete the snapshot: a node did not answer'' []), w)
               else (WriteErr 404 (Msg ''snapshot not found'' []), w)
           | Some snap \<Rightarrow>
               (case DeleteSnapshot st (sn_Node snap) snapshotID w of
                  (Inl e, w') \<Rightarrow> (WriteErr 500 (Msg ''failed to delete the snapshot'' []), w')
                | (Inr _, w') \<Rightarrow> (WriteHeader 204, w'))))"

definition deleteTemplate :: "'w Server \<Rightarrow> 'w scatterGatherStore \<Rightarrow> string \<Rightarrow> string \<Rightarrow> 'w \<Rightarrow> e2b_reply \<times> 'w" where
  "deleteTemplate s st ns name w =
     (case resolveTemplate s ns name w of
        Inl e \<Rightarrow> (WriteErr 500 (Msg ''failed to delete the template'' []), w)
      | Inr (None, _) \<Rightarrow> deleteSnapshot s st ns name w
      | Inr (Some b, _) \<Rightarrow>
          (case forEachHolder (\<lambda>h w. unit_err (DeleteTemplate st (th_node h) (th_key h) [] w)) (bt_holders b) w of
             (Some e, w') \<Rightarrow> (WriteErr 500 (Msg ''failed to delete the template'' []), w')
           | (None, w') \<Rightarrow> (WriteHeader 204, w')))"

section \<open>Metrics and logs\<close>

definition metricOf :: "e2b_env \<Rightarrow> envdMetrics \<Rightarrow> SandboxMetric" where
  "metricOf env m =
     (let at = (if em_Timestamp m = 0 then io_now env else unix_epoch + em_Timestamp m * second)
      in \<lparr>sm_Timestamp = format_RFC3339 at, sm_TimestampUnix = time_Unix at, sm_CPUCount = em_CPUCount m, sm_CPUUsedPct = em_CPUUsedPct m,
          sm_MemUsed = em_MemUsed m, sm_MemTotal = em_MemTotal m, sm_MemCache = em_MemCache m, sm_DiskUsed = em_DiskUsed m,
          sm_DiskTotal = em_DiskTotal m\<rparr>)"

definition sandboxMetrics :: "e2b_env \<Rightarrow> 'w envd_io \<Rightarrow> 'w Server \<Rightarrow> 'w scatterGatherStore \<Rightarrow> string \<Rightarrow> string \<Rightarrow> 'w \<Rightarrow> 'w handled" where
  "sandboxMetrics env o' s st ns i w = with_sandbox env st ns i w (\<lambda>sb st'.
     (case readEnvdMetrics env o' s st' (sb_NodeName sb) (claimIDOf sb) w of
        (Inl e, w') \<Rightarrow> (writeVerbError i e (Msg ''failed to read sandbox metrics'' []), st', w')
      | (Inr m, w') \<Rightarrow> (WriteJSON 200 (J_Metrics (case m of None \<Rightarrow> [] | Some x \<Rightarrow> [metricOf env x])), st', w')))"

fun ids_from :: "string list \<Rightarrow> string list \<Rightarrow> msg + string list" where
  "ids_from [] ids = Inr ids"
| "ids_from (raw # raws) ids =
     (let i = strings_TrimSpace raw
      in if i = [] then Inl (Msg ''sandbox_ids must list comma-separated sandbox ids'' [])
         else if length ids = maxMetricsIDs then Inl (Msg ''sandbox_ids must list at most %d ids'' [strconv_Itoa (int maxMetricsIDs)])
         else if i \<in> set ids then Inl (Msg ''sandbox_ids repeats %q'' [i])
         else ids_from raws (ids @ [i]))"

definition sandboxIDsOf :: "string \<Rightarrow> msg + string list" where
  "sandboxIDsOf raw = ids_from (strings_Split raw (CHR '','')) []"

fun metrics_each :: "e2b_env \<Rightarrow> 'w envd_io \<Rightarrow> 'w Server \<Rightarrow> string \<Rightarrow> string list \<Rightarrow> 'w scatterGatherStore \<Rightarrow> 'w
   \<Rightarrow> (string \<times> SandboxMetric) list \<times> 'w scatterGatherStore \<times> 'w" where
  "metrics_each env o' s ns [] st w = ([], st, w)"
| "metrics_each env o' s ns (i # is) st w =
     (case lookup env st ns i w of
        (Inl e, st') \<Rightarrow> metrics_each env o' s ns is st' w
      | (Inr sb, st') \<Rightarrow>
          (case readEnvdMetrics env o' s st' (sb_NodeName sb) (claimIDOf sb) w of
             (r, w') \<Rightarrow>
               (case metrics_each env o' s ns is st' w' of
                  (out, st'', w'') \<Rightarrow> (case r of Inr (Some m) \<Rightarrow> (i, metricOf env m) # out | _ \<Rightarrow> out, st'', w''))))"

definition sandboxesMetrics :: "e2b_env \<Rightarrow> 'w envd_io \<Rightarrow> 'w Server \<Rightarrow> 'w scatterGatherStore \<Rightarrow> string \<Rightarrow> url_values \<Rightarrow> 'w \<Rightarrow> 'w handled" where
  "sandboxesMetrics env o' s st ns q w =
     (case sandboxIDsOf (query_Get q ''sandbox_ids'') of
        Inl m \<Rightarrow> (WriteErr 400 m, st, w)
      | Inr ids \<Rightarrow> (case metrics_each env o' s ns ids st w of (out, st', w') \<Rightarrow> (WriteJSON 200 (J_MetricsOf out), st', w')))"

definition sandboxLogs :: "e2b_env \<Rightarrow> 'w scatterGatherStore \<Rightarrow> string \<Rightarrow> e2b_body \<Rightarrow> string \<Rightarrow> 'w \<Rightarrow> 'w handled" where
  "sandboxLogs env st ns reply i w = with_sandbox env st ns i w (\<lambda>sb st'. (WriteJSON 200 reply, st', w))"

section \<open>Lemmas\<close>

lemma fields_nonempty: "[] \<notin> set (fields_from acc s)"
proof (induction acc s rule: fields_from.induct)
  case (1 acc s)
  then show ?case by (subst fields_from.simps) (auto simp: Let_def split: list.splits)
qed

definition keys_scoped :: "(string \<times> string) list \<Rightarrow> bool" where
  "keys_scoped keys \<longleftrightarrow> (\<forall>k v. map_of keys k = Some v \<longrightarrow> v \<noteq> [])"

lemma keys_scoped_update: "keys_scoped keys \<Longrightarrow> v \<noteq> [] \<Longrightarrow> keys_scoped (AList.update k v keys)"
  by (simp add: keys_scoped_def update_conv')

lemma parse_keys_namespaces: "parse_keys ns entries keys = Inr out \<Longrightarrow> ns \<noteq> [] \<Longrightarrow> keys_scoped keys \<Longrightarrow> keys_scoped out"
proof (induction entries arbitrary: keys)
  case (Cons entry entries)
  have f: "[] \<notin> set (strings_Fields entry)" by (simp add: strings_Fields_def fields_nonempty)
  consider "strings_Fields entry = []" | key where "strings_Fields entry = [key]"
    | key kns where "strings_Fields entry = [key, kns]" | a b c d where "strings_Fields entry = a # b # c # d"
    by (metis list.exhaust)
  then show ?case using Cons.prems Cons.IH f by cases (auto simp: keys_scoped_update)
qed simp

text \<open>A server never serves a caller the empty namespace, which would match every sandbox.\<close>

lemma auth_namespace:
  assumes "server_New opts = Inr s" "auth s key = Inr ns"
  shows "ns \<noteq> []"
proof -
  have o: "so_Namespace (with_defaults opts) \<noteq> []" by (auto simp: with_defaults_def cmp_Or_def)
  obtain keys where k: "parse_keys (so_Namespace (with_defaults opts)) (so_APIKeys (with_defaults opts)) [] = Inr keys"
    and s: "sv_keys s = keys" "sv_opts s = with_defaults opts"
    using assms(1) by (auto simp: server_New_def Let_def split: sum.splits if_splits prod.splits)
  show ?thesis using assms(2) s o parse_keys_namespaces [OF k o]
    by (auto simp: auth_def namespaceForKey_def keys_scoped_def split: if_splits option.splits)
qed

text \<open>
  What the fleet says of an id, apart from how the store finds it: \<open>e\<close> is an entry of an inventory that \<open>node\<close> publishes,
  or the row \<open>node\<close> itself answers with when it is asked for that id.
\<close>

definition reported_on :: "e2b_env \<Rightarrow> 'w scatterGatherStore \<Rightarrow> 'w \<Rightarrow> string \<Rightarrow> string \<Rightarrow> InventoryEntry \<Rightarrow> bool" where
  "reported_on env st w i node e \<longleftrightarrow>
     (\<exists>n iv. src_NodeInventory (sg_src st) w n = Inr iv \<and> e \<in> set (ni_Entries iv) \<and> node = ni_Node iv)
   \<or> (\<exists>cl row. nodeClient st w node ''claim-id get'' [] = Inr cl \<and> cl_Sandbox cl (ClaimID i) w = Inr row
        \<and> e = EntryFromSummary (io_marshal env) row)"

lemma rowByID_Inr: "rowByID cid cl w = Inr got \<Longrightarrow> row \<in> set got \<Longrightarrow> cl_Sandbox cl cid w = Inr row"
  by (auto simp: rowByID_def split: sum.splits option.splits if_splits)

lemma lookup_reported:
  assumes "lookup env st ns i w = (Inr sb, st')"
  obtains e where "reported_on env st w i (sb_NodeName sb) e" "ns = [] \<or> fst (splitNamespacedName (ie_Name e)) = ns"
    "claimIDOf sb = ie_ID e" "ie_ID e \<noteq> []" "MatchesID (ev_lower env) (ie_ID e) i"
proof -
  have "fst (resolve (io_marshal env) (io_sched env) (io_sched' env) st w ''claim-id get'' (claimKey ns (ClaimID i)) (rowByID (ClaimID i))
      (claimMatch ns (\<lambda>cid. MatchesID (ev_lower env) cid i))) = Inr (Some sb)"
    using assms by (auto simp: lookup_def GetByClaimID_def found_or_404_def split: go_splits)
  from resolve_origin [OF this] obtain node e where "reported_on env st w i node e" "sb = entryToSandbox node e"
      "claimMatch ns (\<lambda>cid. MatchesID (ev_lower env) cid i) e"
    unfolding published_def live_def reported_on_def by (blast dest: rowByID_Inr)
  then show thesis by (auto intro: that simp: claimMatch_def claimIDOf_def)
qed

lemma verb_error_reply: "writeVerbError i e m \<noteq> WriteJSON code b" "writeVerbError i e m \<noteq> WriteHeader code"
  by (auto simp: writeVerbError_def split: option.splits if_splits)

lemma connect_awake_status:
  assumes "connect_awake i st node cid refuseRunning w = (Inr (status, r), w1)"
  shows "store_Read st node cid w1 = Inr r
    \<and> (status = 200 \<and> w1 = w \<and> \<not> sr_Paused r \<or> status = 201 \<and> (\<exists>u. Resume st node cid w = (Inr u, w1)))"
  using assms by (auto simp: connect_awake_def split: if_splits sum.splits prod.splits)

lemma int_ceil_bounds:
  assumes "- (2 ^ 63) \<le> d" "d < 2 ^ 63"
  shows "(int_ceil_Seconds d - 1) * second < d \<and> d < int_ceil_Seconds d * second + 1000"
proof (cases "d > 0")
  case True
  define sec nsec where "sec = d div 1000000000" and "nsec = d mod 1000000000"
  have d: "d = sec * 1000000000 + nsec" "0 \<le> nsec" "nsec < 1000000000" "0 \<le> sec" "sec < 2 ^ 34"
    using assms True by (simp_all add: sec_def nsec_def)
  have "int_ceil_Seconds d = (if nsec = 0 \<or> (sec > 0 \<and> nsec * 2 ^ (53 - float_exponent (nat sec)) < 1000000000) then sec else sec + 1)"
    using True by (auto simp: int_ceil_Seconds_def ceil_Seconds_def sec_def nsec_def Let_def)
  then show ?thesis using d dropped_fraction [OF d(4,5,2)] by (auto simp: second_def)
next
  case False
  define sec nsec where "sec = (- d) div 1000000000" and "nsec = (- d) mod 1000000000"
  have d: "- d = sec * 1000000000 + nsec" "0 \<le> nsec" "nsec < 1000000000" "0 \<le> sec" "sec < 2 ^ 34"
    using assms False by (simp_all add: sec_def nsec_def)
  have "int_ceil_Seconds d = (if nsec \<noteq> 0 \<and> (1000000000 - nsec) * 2 ^ (53 - float_exponent (nat sec)) \<le> 1000000000 then - sec - 1 else - sec)"
    using False by (simp add: int_ceil_Seconds_def sec_def nsec_def Let_def)
  then show ?thesis using d dropped_fraction [OF d(4,5), of "1000000000 - nsec"] by (auto simp: second_def algebra_simps)
qed

section \<open>Properties\<close>

text \<open>
  C12. A delete stays inside its caller's namespace: whatever key the server accepted and whatever id was asked
  for, the handler either sends no release at all, or one, to a node of the fleet for a claim that this node's
  inventory or the node itself reports under the key's own namespace and under the asked id; it answers 204
  exactly when that release was confirmed.
\<close>

theorem delete_within_namespace:
  assumes "server_New opts = Inr s" and "auth s key = Inr ns"
    and "deleteSandbox env st ns i w = (reply, st', w')"
  shows "(w' = w \<and> reply \<noteq> WriteHeader 204)
    \<or> (\<exists>node e r. reported_on env st w i node e \<and> fst (splitNamespacedName (ie_Name e)) = ns
         \<and> ie_ID e \<noteq> [] \<and> MatchesID (ev_lower env) (ie_ID e) i
         \<and> Release st' node (ie_ID e) w = (r, w') \<and> (reply = WriteHeader 204 \<longleftrightarrow> r = Inr ()))"
proof (cases "lookup env st ns i w")
  case (Pair q st1)
  show ?thesis
  proof (cases q)
    case (Inl e)
    then show ?thesis using assms(3) Pair
      by (auto simp: deleteSandbox_def with_sandbox_def writeLookupError_def verb_error_reply)
  next
    case (Inr sb)
    from Pair [unfolded Inr] obtain e where e: "reported_on env st w i (sb_NodeName sb) e" "ns = [] \<or> fst (splitNamespacedName (ie_Name e)) = ns"
        "claimIDOf sb = ie_ID e" "ie_ID e \<noteq> []" "MatchesID (ev_lower env) (ie_ID e) i"
      by (rule lookup_reported)
    obtain r w1 where r: "Release st1 (sb_NodeName sb) (ie_ID e) w = (r, w1)" by (metis surj_pair)
    have "(w' = w \<and> reply \<noteq> WriteHeader 204) \<or> st1 = st' \<and> w1 = w' \<and> (reply = WriteHeader 204 \<longleftrightarrow> r = Inr ())"
      using assms(3) Pair Inr r e(3) by (cases r) (auto simp: deleteSandbox_def with_sandbox_def split: if_splits)
    then show ?thesis using r e auth_namespace [OF assms(1,2)] by blast
  qed
qed

text \<open>
  C13. Connecting never shortens a lease. When connect or resume answers with a sandbox, it is one that a node's
  inventory or a node reports under the asked id, in the caller's namespace when there is one; it runs already
  (200) or a confirmed resume woke it (201). Of the lease the node then shows, either nothing is sent, and what
  is left falls short of the asked time by less than a second if at all, or the lease was renewed for at least
  the asked time and for no less than a microsecond below what was left, even for a deadline in the past or so far
  away that the duration saturates.
\<close>

theorem connect_keeps_lease:
  assumes "e2b_connect env s st ns i req refuseRunning autoPause w = (WriteJSON status body, st', w')"
  shows "\<exists>node e r w1. reported_on env st w i node e \<and> (ns = [] \<or> fst (splitNamespacedName (ie_Name e)) = ns)
    \<and> MatchesID (ev_lower env) (ie_ID e) i
    \<and> (status = 200 \<and> w1 = w \<and> \<not> sr_Paused r \<or> status = 201 \<and> (\<exists>u. Resume st' node (ie_ID e) w = (Inr u, w1)))
    \<and> store_Read st' node (ie_ID e) w1 = Inr r
    \<and> (w' = w1 \<and> (timeoutSeconds s (cn_Timeout req) - 1) * second < time_Sub (sr_Deadline r) (io_now env)
       \<or> (\<exists>ttl d. Renew st' node (ie_ID e) ttl (expireFor autoPause) w1 = (Inr d, w')
            \<and> timeoutSeconds s (cn_Timeout req) \<le> ttl \<and> time_Sub (sr_Deadline r) (io_now env) < ttl * second + 1000))"
proof -
  obtain sb where l: "lookup env st ns i w = (Inr sb, st')"
    using assms by (auto simp: e2b_connect_def with_sandbox_def writeLookupError_def verb_error_reply Let_def
        split: if_splits prod.splits sum.splits)
  from l obtain e where e: "reported_on env st w i (sb_NodeName sb) e" "ns = [] \<or> fst (splitNamespacedName (ie_Name e)) = ns"
      "claimIDOf sb = ie_ID e" "MatchesID (ev_lower env) (ie_ID e) i"
    by (rule lookup_reported)
  let ?node = "sb_NodeName sb" and ?cid = "ie_ID e" and ?ttl = "timeoutSeconds s (cn_Timeout req)"
  obtain q w1 where q: "connect_awake i st' ?node ?cid refuseRunning w = (q, w1)" by (metis surj_pair)
  obtain code r where r: "q = Inr (code, r)"
    using assms l q e(3) by (cases q) (auto simp: e2b_connect_def with_sandbox_def connect_awake_def verb_error_reply
        split: if_splits sum.splits prod.splits)
  note awake = connect_awake_status [OF q [unfolded r]]
  define left where "left = time_Sub (sr_Deadline r) (io_now env)"
  have ceil: "(int_ceil_Seconds left - 1) * second < left \<and> left < int_ceil_Seconds left * second + 1000"
    by (rule int_ceil_bounds) (simp_all add: left_def time_Sub_def)
  have "status = code \<and> (w' = w1 \<and> ?ttl \<le> int_ceil_Seconds left
      \<or> (\<exists>d. Renew st' ?node ?cid (max ?ttl (int_ceil_Seconds left)) (expireFor autoPause) w1 = (Inr d, w')))"
    using assms l q r e(3) by (auto simp: e2b_connect_def with_sandbox_def connect_lease_def Let_def verb_error_reply left_def [symmetric]
        split: if_splits sum.splits prod.splits)
  moreover have "(?ttl - 1) * second < left" if "?ttl \<le> int_ceil_Seconds left" using that ceil by (simp add: second_def)
  moreover have "left < max ?ttl (int_ceil_Seconds left) * second + 1000" using ceil by (auto simp: second_def max_def)
  ultimately have "status = code \<and> (w' = w1 \<and> (?ttl - 1) * second < left
      \<or> (\<exists>ttl d. Renew st' ?node ?cid ttl (expireFor autoPause) w1 = (Inr d, w') \<and> ?ttl \<le> ttl \<and> left < ttl * second + 1000))"
    by (meson max.cobounded1)
  then show ?thesis using e awake unfolding left_def by blast
qed

section \<open>Concrete requests\<close>

definition srv_demo_env :: e2b_env where
  "srv_demo_env = io.extend demo_io \<lparr>ev_lower = (\<lambda>s. s), ev_mac = (\<lambda>k m. m), ev_parseTime = (\<lambda>s. Inl EOF), ev_unmarshal = (\<lambda>s. None),
     ev_selectors = \<lparr>lib_Labels = (\<lambda>s. Inl []), lib_Fields = (\<lambda>s. Inl [])\<rparr>\<rparr>"

definition srv_demo_opts :: "'w server_options" where
  "srv_demo_opts = \<lparr>so_Namespace = [], so_Domain = ''d'', so_EnvdVersion = [], so_DefaultTimeoutSeconds = 0, so_APIKeys = [''k ns''],
     so_AllowAnonymous = False, so_Inventory = None, so_TemplateAliases = [], so_EnvdSecret = ''s''\<rparr>"

definition srv_demo_server :: "'w Server" where
  "srv_demo_server = \<lparr>sv_opts = with_defaults srv_demo_opts, sv_keys = [(''k'', ''ns'')], sv_aliases = [], sv_imageAliases = []\<rparr>"

definition srv_demo_row :: SandboxSummary where
  "srv_demo_row = \<lparr>ss_ID = ''c2'', ss_Key = demo_key, ss_Deadline = 61 * second, ss_ClaimedAt = 0, ss_Hibernated = False, ss_Archived = False,
     ss_ClaimRef = ''ns/a'', ss_Token = ''t'', ss_Metadata = [], ss_CPUCount = 1, ss_MemTotalBytes = 1\<rparr>"

definition srv_demo_store :: "StaticInventorySource scatterGatherStore" where
  "srv_demo_store = demo_api (\<lambda>cl. cl\<lparr>cl_Sandbox := (\<lambda>i w. Inr srv_demo_row),
     cl_Renew := (\<lambda>i r w. (Inr (rs_TTLSeconds r * second), w)), cl_Release := (\<lambda>i t w. (Inr (), w))\<rparr>)"

lemma srv_demo_new: "server_New srv_demo_opts = Inr srv_demo_server"
proof -
  have "strings_Fields ''k ns'' = [''k'', ''ns'']" "strings_TrimSpace ''d'' = ''d''" by code_simp+
  then show ?thesis by (simp add: server_New_def srv_demo_opts_def srv_demo_server_def with_defaults_def)
qed

lemma srv_demo_auth: "auth srv_demo_server ''k'' = Inr ''ns''"
  by (simp add: auth_def srv_demo_server_def namespaceForKey_def)

abbreviation srv_demo_found :: "StaticInventorySource scatterGatherStore" where
  "srv_demo_found \<equiv> srv_demo_store\<lparr>sg_index := index_remember (claimKey ''ns'' ''c2'') ''n1'' (newNodeIndex nodeIndexMaxEntries)\<rparr>"

lemma srv_demo_lookup:
  "lookup srv_demo_env srv_demo_store ''ns'' ''c2'' read_fleet = (Inr (entryToSandbox ''n1'' (demo_entry ''ns/a'' ''c2'')), srv_demo_found)"
proof -
  have "MatchesID (\<lambda>s. s) ''c2'' ''c2''" "\<not> MatchesID (\<lambda>s. s) ''c1'' ''c2''" "strings_TrimSpace ''c2'' = ''c2''" "ClaimID ''c2'' = ''c2''"
    by code_simp+
  then show ?thesis
    by (simp add: lookup_def srv_demo_env_def demo_io_def io.defs srv_demo_store_def demo_api_def WithClaimRouting_def
      GetByClaimID_def found_or_404_def resolve_def read_store_def NewScatterGatherStore_def newNodeIndex_def
      index_lookup_def resolve_sweep_def FirstHit_def static_source_def static_ListNodes_def read_fleet_def matchOnNode_def
      static_NodeInventory_def demo_entry_def claimMatch_def splitNamespacedName_def)
qed

lemma srv_demo_client:
  "nodeClient srv_demo_store read_fleet ''n1'' verb cid = Inr (null_client\<lparr>cl_Sandbox := (\<lambda>i w. Inr srv_demo_row),
     cl_Renew := (\<lambda>i r w. (Inr (rs_TTLSeconds r * second), w)), cl_Release := (\<lambda>i t w. (Inr (), w))\<rparr>)"
  by (simp add: nodeClient_def srv_demo_store_def demo_api_def WithClaimRouting_def read_store_def NewScatterGatherStore_def static_source_def
      static_NodeCapacity_def read_fleet_def)

lemma srv_demo_claim: "claimIDOf (entryToSandbox ''n1'' (demo_entry ''ns/a'' ''c2'')) = ''c2''"
  by (simp add: claimIDOf_def demo_entry_def)

theorem delete_within_namespace_witness:
  "\<exists>node e. reported_on srv_demo_env srv_demo_store read_fleet ''c2'' node e \<and> fst (splitNamespacedName (ie_Name e)) = ''ns''
     \<and> MatchesID (ev_lower srv_demo_env) (ie_ID e) ''c2'' \<and> Release srv_demo_found node (ie_ID e) read_fleet = (Inr (), read_fleet)"
proof -
  have run: "deleteSandbox srv_demo_env srv_demo_store ''ns'' ''c2'' read_fleet = (WriteHeader 204, srv_demo_found, read_fleet)"
    by (simp add: deleteSandbox_def with_sandbox_def srv_demo_lookup srv_demo_claim Release_def with_client_def srv_demo_client)
  from delete_within_namespace [OF srv_demo_new srv_demo_auth run] show ?thesis by auto
qed

theorem connect_keeps_lease_witness:
  "\<exists>node e r. reported_on srv_demo_env srv_demo_store read_fleet ''c2'' node e \<and> fst (splitNamespacedName (ie_Name e)) = ''ns''
    \<and> store_Read srv_demo_found node (ie_ID e) read_fleet = Inr r
    \<and> ((90 - 1) * second < time_Sub (sr_Deadline r) second
       \<or> (\<exists>ttl d. Renew srv_demo_found node (ie_ID e) ttl ExpireKeep read_fleet = (Inr d, read_fleet)
            \<and> 90 \<le> ttl \<and> time_Sub (sr_Deadline r) second < ttl * second + 1000))"
proof -
  let ?req = "\<lparr>cn_Timeout = Some 90, cn_Memory = None\<rparr>"
  have renew: "Renew srv_demo_found ''n1'' ''c2'' ttl e read_fleet = (Inr (ttl * second), read_fleet)" for ttl e
    by (simp add: Renew_def with_client_def srv_demo_client)
  have left: "int_ceil_Seconds (time_Sub (61 * second) (io_now srv_demo_env)) = 60" by code_simp
  obtain b where run: "e2b_connect srv_demo_env srv_demo_server srv_demo_store ''ns'' ''c2'' ?req False None read_fleet
      = (WriteJSON 200 b, srv_demo_found, read_fleet)"
    by (simp add: e2b_connect_def with_sandbox_def srv_demo_lookup srv_demo_claim connect_awake_def store_Read_def srv_demo_client Let_def
        isPaused_def srv_demo_row_def connect_lease_def left renew timeoutSeconds_def)
  have now: "io_now srv_demo_env = second" by (simp add: srv_demo_env_def demo_io_def io.defs)
  have ttl: "timeoutSeconds srv_demo_server (Some 90) = 90" "expireFor None = ExpireKeep"
    by (simp_all add: timeoutSeconds_def expireFor_def)
  from connect_keeps_lease [OF run] show ?thesis by (simp add: now ttl) blast
qed

end
