(* ===== verification/Claim_Ledger.thy ===== *)
theory Claim_Ledger
  imports Claim_Routing
begin

text \<open>
  The claims a process holds. The world is paired with a ledger of address and claim id: a granted claim
  or fork adds its entries, a release that the node confirmed removes one, every other verb leaves it alone.
  The locale states this of any store and derives what the store's own claims, releases and forks do to
  the ledger; the store over the recording client is its instance, and the surfaces that claim and
  release on a caller's behalf are checked against it.
\<close>

section \<open>The contract\<close>

definition same_fleet :: "'w scatterGatherStore \<Rightarrow> 'w scatterGatherStore \<Rightarrow> bool" where
  "same_fleet st st' \<longleftrightarrow> sg_factory st' = sg_factory st \<and> sg_src st' = sg_src st"

lemma same_fleet_refl [simp]: "same_fleet st st"
  by (simp add: same_fleet_def)

lemma same_fleet_index [simp]: "same_fleet st (st'\<lparr>sg_index := x\<rparr>) = same_fleet st st'"
  by (simp add: same_fleet_def)

text \<open>A source whose addresses do not change while a request runs.\<close>

definition stable_source :: "'w InventorySource \<Rightarrow> bool" where
  "stable_source src \<longleftrightarrow>
     (\<forall>w w' nodes. \<forall>n \<in> set nodes. src_NodeCapacities src w = Inr nodes \<longrightarrow>
        (\<exists>pools. src_NodeCapacity src w' (np_Node n) = Inr (np_Address n, pools)))
     \<and> (\<forall>w w' node addr pools. src_NodeCapacity src w node = Inr (addr, pools) \<longrightarrow>
        (\<exists>pools'. src_NodeCapacity src w' node = Inr (addr, pools')))"

text \<open>A node found under the same address at every moment.\<close>

definition lives_at :: "'w scatterGatherStore \<Rightarrow> string \<Rightarrow> string \<Rightarrow> bool" where
  "lives_at st node addr \<longleftrightarrow> (\<forall>w. \<exists>pools. src_NodeCapacity (sg_src st) w node = Inr (addr, pools))"

lemma stable_lives:
  assumes "stable_source (sg_src st)"
  shows "src_NodeCapacities (sg_src st) w = Inr nodes \<Longrightarrow> n \<in> set nodes \<Longrightarrow> lives_at st (np_Node n) (np_Address n)"
    and "src_NodeCapacity (sg_src st) w node = Inr (addr, pools) \<Longrightarrow> lives_at st node addr"
  using assms unfolding stable_source_def lives_at_def by blast+

text \<open>A verb either never reached a node, or its client answered.\<close>

lemma with_client_answer:
  assumes "with_client s node verb i call h w = (r, w')"
  obtains e where "r = Inl e" "w' = w"
  | f addr pools q where "sg_factory s = Some f" "src_NodeCapacity (sg_src s) w node = Inr (addr, pools)"
      "call (f addr (sg_token s)) w = (q, w')" "r = (case q of Inl e \<Rightarrow> Inl (h e) | Inr a \<Rightarrow> Inr a)"
proof (cases "nodeClient s w node verb i")
  case (Inl e)
  then have "r = Inl e" "w' = w" using assms by (simp_all add: with_client_def)
  then show ?thesis by (rule that(1))
next
  case (Inr cl)
  then obtain f addr pools where "sg_factory s = Some f" "src_NodeCapacity (sg_src s) w node = Inr (addr, pools)"
    "cl = f addr (sg_token s)"
    by (auto simp: nodeClient_def split: go_splits)
  moreover obtain q w1 where "call cl w = (q, w1)" by (metis surj_pair)
  ultimately show ?thesis using assms Inr that(2) by (cases q) (auto simp: with_client_def)
qed

locale claim_ledger =
  fixes held :: "'w \<Rightarrow> (string \<times> string) list" and st :: "'w scatterGatherStore"
  assumes claims: "sg_factory st = Some f \<Longrightarrow> held (snd (cl_Claim (f addr tok) spec w)) =
      (case fst (cl_Claim (f addr tok) spec w) of Inr res \<Rightarrow> (addr, cr_ID res) # held w | Inl e \<Rightarrow> held w)"
    and releases: "sg_factory st = Some f \<Longrightarrow> held (snd (cl_Release (f addr tok) i t w)) =
      (case fst (cl_Release (f addr tok) i t w) of Inr u \<Rightarrow> remove1 (addr, i) (held w) | Inl e \<Rightarrow> held w)"
    and forks: "sg_factory st = Some f \<Longrightarrow> held (snd (cl_Fork (f addr tok) i fs w)) =
      (case fst (cl_Fork (f addr tok) i fs w) of Inr cs \<Rightarrow> map (\<lambda>c. (addr, cr_ID c)) cs @ held w | Inl e \<Rightarrow> held w)"
    and quiet: "sg_factory st = Some f \<Longrightarrow> held (snd (cl_DialPort (f addr tok) i t p w)) = held w"
      "sg_factory st = Some f \<Longrightarrow> held (snd (cl_SetInstanceMetadata (f addr tok) i d w)) = held w"
      "sg_factory st = Some f \<Longrightarrow> held (snd (cl_Promote (f addr tok) i d w)) = held w"
      "sg_factory st = Some f \<Longrightarrow> held (snd (cl_DeleteTemplate (f addr tok) k d w)) = held w"
      "sg_factory st = Some f \<Longrightarrow> held (snd (cl_SetTemplateLabels (f addr tok) k l d w)) = held w"
begin

lemma redirect_held:
  assumes "sg_factory st = Some f" "redirect_loop (\<lambda>addr. f addr tok) nodes from rd spec targets w = ((node, r), w')"
  shows "case r of Inr res \<Rightarrow> (\<exists>n \<in> set nodes. np_Node n = node \<and> held w' = (np_Address n, cr_ID res) # held w) | Inl e \<Rightarrow> held w' = held w"
  using assms(2)
proof (induction targets arbitrary: w)
  case (Cons t ts)
  obtain q w1 where q: "cl_Claim (f t tok) spec w = (q, w1)" by (metis surj_pair)
  have "held w1 = (case q of Inr res \<Rightarrow> (t, cr_ID res) # held w | Inl e \<Rightarrow> held w)"
    using claims [OF assms(1), of t tok spec w] q by simp
  then show ?case
    using Cons.IH [of w] Cons.IH [of w1] Cons.prems nodeForAddress_row [of nodes t] q
    by (auto simp: Let_def split: if_splits sum.splits)
qed auto

lemma attempt_held:
  assumes "sg_factory st = Some f" "claim_attempt (\<lambda>addr. f addr tok) nodes spec best w = ((rd, node, r), w')"
    and "\<exists>n \<in> set nodes. wc_node best = np_Node n \<and> wc_addr best = np_Address n"
  shows "case r of Inr res \<Rightarrow> (\<exists>n \<in> set nodes. np_Node n = node \<and> held w' = (np_Address n, cr_ID res) # held w) | Inl e \<Rightarrow> held w' = held w"
proof -
  obtain q w1 where q: "cl_Claim (f (wc_addr best) tok) spec w = (q, w1)" by (metis surj_pair)
  have h: "held w1 = (case q of Inr res \<Rightarrow> (wc_addr best, cr_ID res) # held w | Inl e \<Rightarrow> held w)"
    using claims [OF assms(1), of "wc_addr best" tok spec w] q by simp
  show ?thesis
  proof (cases "redirect_targets q")
    case None
    then show ?thesis using assms(2,3) q h by (auto simp: claim_attempt_def split: sum.splits)
  next
    case (Some ts)
    then have same: "held w1 = held w" using h by (auto simp: redirect_targets_def split: sum.splits)
    have "redirect_loop (\<lambda>addr. f addr tok) nodes (wc_node best) (RedirectError ts) (spec\<lparr>cs_NoRedirect := True\<rparr>) ts w1 = ((node, r), w')"
      using assms(2) q Some by (auto simp: claim_attempt_def claimRedirected_def split: prod.splits)
    from redirect_held [OF assms(1) this] show ?thesis unfolding same .
  qed
qed

lemma loop_held:
  assumes "sg_factory st = Some f" "claim_loop (\<lambda>addr. f addr tok) nodes promoted ns name spec rnd k cands w = (r, w')"
    and "\<forall>c \<in> set cands. \<exists>n \<in> set nodes. wc_node c = np_Node n \<and> wc_addr c = np_Address n"
  shows "case r of Inr (node, res) \<Rightarrow> (\<exists>n \<in> set nodes. np_Node n = node \<and> held w' = (np_Address n, cr_ID res) # held w) | Inl e \<Rightarrow> held w' = held w"
  using assms(2,3)
proof (induction "length cands" arbitrary: k cands w rule: less_induct)
  case less
  show ?case
  proof (cases "cands = []")
    case True
    then show ?thesis using less.prems by (auto simp: claim_loop.simps)
  next
    case False
    define best where "best = pickPowerOfTwo (rnd (2 * k)) (rnd (2 * k + 1)) cands"
    obtain rd node q w1 where at: "claim_attempt (\<lambda>addr. f addr tok) nodes spec best w = ((rd, node, q), w1)" by (metis surj_pair)
    have row: "\<exists>n \<in> set nodes. wc_node best = np_Node n \<and> wc_addr best = np_Address n"
      using less.prems(2) pick_in [OF False] by (simp add: best_def)
    note h = attempt_held [OF assms(1) at row]
    show ?thesis
    proof (cases q)
      case (Inl e)
      let ?next = "claim_loop (\<lambda>addr. f addr tok) nodes promoted ns name spec rnd (Suc k) (drop_candidates best rd cands) w1"
      have loop: "(r, w') = (if \<not> (claimUndelivered e \<or> promoted \<and> templateGone e)
          then (Inl (Wrap (Msg ''scale: claim %s/%s on node %q: %w'' [ns, name, node]) e), w1) else ?next)"
        using less.prems(1) False at Inl by (subst (asm) claim_loop.simps) (auto simp: best_def Let_def)
      have "held w1 = held w" using h Inl by simp
      moreover have "\<forall>c \<in> set (drop_candidates best rd cands). \<exists>n \<in> set nodes. wc_node c = np_Node n \<and> wc_addr c = np_Address n"
        using less.prems(2) set_drop_candidates [of best rd cands] by blast
      ultimately show ?thesis
        using loop less.hyps [OF drop_shorter [OF False, of "rnd (2 * k)" "rnd (2 * k + 1)" rd], folded best_def, of "Suc k" w1]
        by (cases "claimUndelivered e \<or> promoted \<and> templateGone e") (auto split: sum.splits)
    next
      case (Inr res)
      then have "r = Inr (node, res) \<and> w' = w1"
        using less.prems(1) False at by (subst (asm) claim_loop.simps) (simp add: best_def Let_def)
      then show ?thesis using h Inr by simp
    qed
  qed
qed

text \<open>A claim adds one entry under its node's address, or none; a confirmed release of it takes that entry back.\<close>

lemma claim_held:
  assumes "same_fleet st s" "Claim rnd s ns name pool opts w = (r, s', w')"
  shows "same_fleet st s'"
    "case r of Inl e \<Rightarrow> held w' = held w
     | Inr a \<Rightarrow> (\<exists>nodes. \<exists>n \<in> set nodes. src_NodeCapacities (sg_src st) w = Inr nodes \<and> np_Node n = as_Node a
         \<and> held w' = (np_Address n, as_SandboxName a) # held w)"
proof -
  have f: "sg_factory s = sg_factory st" "sg_src s = sg_src st" using assms(1) by (simp_all add: same_fleet_def)
  show "same_fleet st s'" using assms
    by (auto simp: Claim_def Let_def split: go_splits)
  show "case r of Inl e \<Rightarrow> held w' = held w
     | Inr a \<Rightarrow> (\<exists>nodes. \<exists>n \<in> set nodes. src_NodeCapacities (sg_src st) w = Inr nodes \<and> np_Node n = as_Node a
         \<and> held w' = (np_Address n, as_SandboxName a) # held w)"
  proof (cases "\<exists>fac nodes. sg_factory st = Some fac \<and> src_NodeCapacities (sg_src st) w = Inr nodes")
    case True
    then obtain fac nodes where fac: "sg_factory st = Some fac" and n: "src_NodeCapacities (sg_src st) w = Inr nodes" by blast
    let ?p = "claim_promoted nodes pool opts"
    obtain lr w1 where lp: "claim_loop (\<lambda>addr. fac addr (sg_token s)) nodes ?p ns name (claim_spec ns name pool opts ?p) rnd 0
        (claim_candidates nodes pool opts) w = (lr, w1)" by (metis surj_pair)
    have "\<forall>c \<in> set (claim_candidates nodes pool opts). \<exists>n \<in> set nodes. wc_node c = np_Node n \<and> wc_addr c = np_Address n"
      using claim_candidates_row by blast
    note h = loop_held [OF fac lp this]
    show ?thesis using assms(2) h n lp unfolding Claim_eq [of s fac w nodes rnd ns name pool opts, unfolded f, OF fac n]
      by (cases lr) (auto simp: claim_done_def split: if_splits)
  qed (use assms(2) f in \<open>auto simp: Claim_def split: option.splits sum.splits\<close>)
qed

lemma verb_held:
  assumes "same_fleet st s" "with_client s node verb i call h w = (r, w')"
    and "\<And>f addr tok w. sg_factory st = Some f \<Longrightarrow> held (snd (call (f addr tok) w)) = held w"
  shows "held w' = held w"
  using assms(2)
proof (cases rule: with_client_answer)
  case (2 f addr pools q)
  then show ?thesis using assms(1) assms(3) [of f addr "sg_token s" w] by (simp add: same_fleet_def)
qed simp

lemma release_held:
  assumes "same_fleet st s" "Release s node i w = (r, w')"
  shows "case r of Inl e \<Rightarrow> held w' = held w
    | Inr u \<Rightarrow> (\<exists>addr pools. src_NodeCapacity (sg_src st) w node = Inr (addr, pools) \<and> held w' = remove1 (addr, i) (held w))"
proof (cases "i = []")
  case False
  then have "with_client s node ''release'' i (\<lambda>cl. cl_Release cl i (sg_token s))
      (\<lambda>e. Wrap (Msg ''scale: sandboxd release of %q on node %q: %w'' [i, node]) e) w = (r, w')"
    using assms(2) by (simp add: Release_def)
  then show ?thesis
  proof (cases rule: with_client_answer)
    case (2 f addr pools q)
    then have "held w' = (case q of Inr u \<Rightarrow> remove1 (addr, i) (held w) | Inl e \<Rightarrow> held w)"
      using releases [of f addr "sg_token s" i "sg_token s" w] assms(1) by (simp add: same_fleet_def)
    then show ?thesis using 2 assms(1) by (cases q) (auto simp: same_fleet_def)
  qed simp
qed (use assms(2) in \<open>auto simp: Release_def\<close>)

lemma quiet_verbs:
  assumes "same_fleet st s"
  shows "held (snd (DialGuestPort s node i t p w)) = held w \<and> held (snd (SetInstanceMetadata s node i d w)) = held w
    \<and> held (snd (Promote s node i d w)) = held w \<and> held (snd (DeleteTemplate s node k d w)) = held w
    \<and> held (snd (SetTemplateLabels s node k l d w)) = held w"
  unfolding DialGuestPort_def SetInstanceMetadata_def Promote_def DeleteTemplate_def SetTemplateLabels_def
  by (intro conjI; rule verb_held [OF assms surjective_pairing]) (rule quiet, assumption)+

lemma fork_children_names:
  "fork_children ns node cs x = (out, x') \<Longrightarrow> map as_SandboxName out = map cr_ID cs \<and> (\<forall>a \<in> set out. as_Node a = node)"
  by (induction cs arbitrary: x out x') (auto simp: Let_def split: prod.splits)

lemma map_named: "map f xs = map g ys \<Longrightarrow> map (\<lambda>x. (a, f x)) xs = map (\<lambda>y. (a, g y)) ys"
  by (induction xs arbitrary: ys) (auto simp: Cons_eq_map_conv)

lemma fork_held:
  assumes "same_fleet st s" "Fork s ns node i count ttl w = (r, s', w')"
  shows "same_fleet st s'"
    "case r of Inl e \<Rightarrow> held w' = held w
     | Inr as \<Rightarrow> (\<exists>addr pools. src_NodeCapacity (sg_src st) w node = Inr (addr, pools) \<and> (\<forall>a \<in> set as. as_Node a = node)
         \<and> held w' = map (\<lambda>a. (addr, as_SandboxName a)) as @ held w)"
proof -
  show "same_fleet st s'" using assms by (auto simp: Fork_def Let_def split: if_splits prod.splits sum.splits)
  let ?spec = "\<lparr>fs_Token = [], fs_Count = count, fs_TTLSeconds = ttl, fs_ClaimRefPrefix = namespacedName ns []\<rparr>"
  obtain q w1 where q: "with_client s node ''fork'' i (\<lambda>cl. cl_Fork cl i ?spec) (\<lambda>e. nodeVerbError e ''fork'' i node) w = (q, w1)"
    by (metis surj_pair)
  then have h: "case q of Inl e \<Rightarrow> held w1 = held w
     | Inr cs \<Rightarrow> (\<exists>addr pools. src_NodeCapacity (sg_src st) w node = Inr (addr, pools) \<and> held w1 = map (\<lambda>c. (addr, cr_ID c)) cs @ held w)"
  proof (cases rule: with_client_answer)
    case (2 f addr pools p)
    then show ?thesis using forks [of f addr "sg_token s" i ?spec w] assms(1) by (cases p) (auto simp: same_fleet_def)
  qed simp
  show "case r of Inl e \<Rightarrow> held w' = held w
     | Inr as \<Rightarrow> (\<exists>addr pools. src_NodeCapacity (sg_src st) w node = Inr (addr, pools) \<and> (\<forall>a \<in> set as. as_Node a = node)
         \<and> held w' = map (\<lambda>a. (addr, as_SandboxName a)) as @ held w)"
  proof (cases q)
    case (Inr cs)
    obtain out x where c: "fork_children ns node cs (sg_index s) = (out, x)" by (metis surj_pair)
    then have "map (\<lambda>c. (addr, cr_ID c)) cs = map (\<lambda>a. (addr, as_SandboxName a)) out" for addr
      by (metis fork_children_names map_named)
    moreover have "\<forall>a \<in> set out. as_Node a = node" using c by (simp add: fork_children_names)
    ultimately show ?thesis using assms(2) q c Inr h by (auto simp: Fork_def Let_def split: if_splits)
  qed (use assms(2) q h in \<open>auto simp: Fork_def Let_def split: if_splits\<close>)
qed

end

section \<open>The recording client\<close>

text \<open>
  A client whose world carries a log next to it. \<open>carrying_client\<close> only passes the log on; a recording client
  replaces the verbs it records, by what an answer does to the log.
\<close>

definition ledger_verb :: "('r \<Rightarrow> 'l \<Rightarrow> 'l) \<Rightarrow> ('w \<Rightarrow> (err + 'r) \<times> 'w) \<Rightarrow> 'w \<times> 'l \<Rightarrow> (err + 'r) \<times> 'w \<times> 'l" where
  "ledger_verb f verb wl =
     (case verb (fst wl) of (r, w') \<Rightarrow> (r, w', case r of Inl e \<Rightarrow> snd wl | Inr a \<Rightarrow> f a (snd wl)))"

definition quiet_verb :: "('w \<Rightarrow> (err + 'r) \<times> 'w) \<Rightarrow> 'w \<times> 'l \<Rightarrow> (err + 'r) \<times> 'w \<times> 'l" where
  "quiet_verb = ledger_verb (\<lambda>_ l. l)"

definition carrying_client :: "'w SandboxdClient \<Rightarrow> ('w \<times> 'l) SandboxdClient" where
  "carrying_client cl =
     \<lparr>cl_Claim = (\<lambda>spec. quiet_verb (cl_Claim cl spec)),
      cl_Release = (\<lambda>i t. quiet_verb (cl_Release cl i t)),
      cl_Hibernate = (\<lambda>i. quiet_verb (cl_Hibernate cl i)),
      cl_Wake = (\<lambda>i. quiet_verb (cl_Wake cl i)),
      cl_Renew = (\<lambda>i r. quiet_verb (cl_Renew cl i r)),
      cl_Fork = (\<lambda>i fs. quiet_verb (cl_Fork cl i fs)),
      cl_Checkpoint = (\<lambda>i c. quiet_verb (cl_Checkpoint cl i c)),
      cl_Checkpoints = (\<lambda>wl. cl_Checkpoints cl (fst wl)),
      cl_DeleteCheckpoint = (\<lambda>i. quiet_verb (cl_DeleteCheckpoint cl i)),
      cl_DeleteTemplate = (\<lambda>k d. quiet_verb (cl_DeleteTemplate cl k d)),
      cl_Promote = (\<lambda>i t. quiet_verb (cl_Promote cl i t)),
      cl_SetTemplateLabels = (\<lambda>k ls d. quiet_verb (cl_SetTemplateLabels cl k ls d)),
      cl_Info = (\<lambda>wl. cl_Info cl (fst wl)),
      cl_DialPort = (\<lambda>i t p. quiet_verb (cl_DialPort cl i t p)),
      cl_SetInstanceMetadata = (\<lambda>i d. quiet_verb (cl_SetInstanceMetadata cl i d)),
      cl_Sandbox = (\<lambda>i wl. cl_Sandbox cl i (fst wl)),
      cl_SandboxesByClaimRef = (\<lambda>r wl. cl_SandboxesByClaimRef cl r (fst wl))\<rparr>"

definition carrying_source :: "'w InventorySource \<Rightarrow> ('w \<times> 'l) InventorySource" where
  "carrying_source src =
     \<lparr>src_ListNodes = (\<lambda>wl. src_ListNodes src (fst wl)), src_NodeInventory = (\<lambda>wl. src_NodeInventory src (fst wl)),
      src_NodeCapacity = (\<lambda>wl. src_NodeCapacity src (fst wl)), src_NodeCapacities = (\<lambda>wl. src_NodeCapacities src (fst wl))\<rparr>"

definition carrying_store :: "(string \<Rightarrow> 'w SandboxdClient \<Rightarrow> ('w \<times> 'l) SandboxdClient) \<Rightarrow> 'w scatterGatherStore \<Rightarrow> ('w \<times> 'l) scatterGatherStore" where
  "carrying_store rec' s =
     \<lparr>sg_src = carrying_source (sg_src s), sg_concurrency = sg_concurrency s, sg_watchPoll = sg_watchPoll s,
      sg_index = sg_index s, sg_token = sg_token s,
      sg_factory = map_option (\<lambda>f addr tok. rec' addr (f addr tok)) (sg_factory s)\<rparr>"

text \<open>The ledger of claims.\<close>

type_synonym 'w ledgered = "'w \<times> (string \<times> string) list"

definition ledgered_client :: "string \<Rightarrow> 'w SandboxdClient \<Rightarrow> 'w ledgered SandboxdClient" where
  "ledgered_client addr cl =
     (carrying_client cl)\<lparr>cl_Claim := (\<lambda>spec. ledger_verb (\<lambda>res l. (addr, cr_ID res) # l) (cl_Claim cl spec)),
      cl_Release := (\<lambda>i t. ledger_verb (\<lambda>_. remove1 (addr, i)) (cl_Release cl i t)),
      cl_Fork := (\<lambda>i fs. ledger_verb (\<lambda>cs l. map (\<lambda>c. (addr, cr_ID c)) cs @ l) (cl_Fork cl i fs))\<rparr>"

definition ledgered_store :: "'w scatterGatherStore \<Rightarrow> 'w ledgered scatterGatherStore" where
  "ledgered_store = carrying_store ledgered_client"

lemma ledger_verb_simps [simp]:
  "fst (ledger_verb f v wl) = fst (v (fst wl))"
  "snd (snd (ledger_verb f v wl)) = (case fst (v (fst wl)) of Inl e \<Rightarrow> snd wl | Inr a \<Rightarrow> f a (snd wl))"
  by (simp_all add: ledger_verb_def split: prod.splits)

lemma quiet_verb_simps [simp]: "fst (quiet_verb v wl) = fst (v (fst wl))" "snd (snd (quiet_verb v wl)) = snd wl"
  by (simp_all add: quiet_verb_def split: sum.splits)

interpretation ledger: claim_ledger snd "ledgered_store st" for st
  by unfold_locales (auto simp: ledgered_store_def carrying_store_def ledgered_client_def carrying_client_def split: sum.splits)

lemma carrying_stable: "stable_source (sg_src st) \<Longrightarrow> stable_source (sg_src (carrying_store rec' st))"
  unfolding stable_source_def by (simp add: carrying_store_def carrying_source_def)

lemma ledgered_stable: "stable_source (sg_src st) \<Longrightarrow> stable_source (sg_src (ledgered_store st))"
  unfolding ledgered_store_def by (rule carrying_stable)

text \<open>A source read at one moment is stable.\<close>

definition pinned_source :: "'v InventorySource \<Rightarrow> 'v \<Rightarrow> 'w InventorySource" where
  "pinned_source src v =
     \<lparr>src_ListNodes = (\<lambda>_. src_ListNodes src v), src_NodeInventory = (\<lambda>_. src_NodeInventory src v),
      src_NodeCapacity = (\<lambda>_. src_NodeCapacity src v), src_NodeCapacities = (\<lambda>_. src_NodeCapacities src v)\<rparr>"

lemma pinned_stable: "static_ok v \<Longrightarrow> stable_source (pinned_source static_source v)"
  by (auto simp: stable_source_def pinned_source_def dest: static_inventory.capacities_capacity)

end
