(* ===== verification/E2B_Accounting.thy ===== *)
theory E2B_Accounting
  imports E2B_Server Claim_Ledger "HOL-Library.Multiset"
begin

text \<open>
  What the e2b surface claims, it publishes or gives back: the ledger of held claims across the handlers
  that claim and fork, and across a build.
\<close>

section \<open>The traffic with envd\<close>

locale guest_ledger = claim_ledger held st for held :: "'w \<Rightarrow> (string \<times> string) list" and st :: "'w scatterGatherStore" +
  fixes o' :: "'w envd_io"
  assumes talk: "held (snd (eo_Write o' h req w)) = held w" "held (snd (eo_ReadResponse o' h w)) = held w"
    and close: "held (eo_Close o' h w) = held w"
begin

lemma round_trip_held:
  assumes "same_fleet st s" "envdRoundTrip o' s node i relay req w = (r, w')"
  shows "held w' = held w"
proof -
  obtain d w1 where d: "DialGuestPort s node i relay e2b_envdPort w = (d, w1)" by (metis surj_pair)
  then have w1: "held w1 = held w" using quiet_verbs [OF assms(1)] by (metis snd_conv)
  show ?thesis
  proof (cases d)
    case (Inr h)
    obtain e w2 where e: "eo_Write o' h req w1 = (e, w2)" by (metis surj_pair)
    obtain q w3 where q: "eo_ReadResponse o' h w2 = (q, w3)" by (metis surj_pair)
    have "held w2 = held w1" "held w3 = held w2" using talk(1) [of h req w1] talk(2) [of h w2] e q by simp_all
    then show ?thesis using assms(2) d e q Inr w1 by (cases e; cases q) (auto simp: envdRoundTrip_def close)
  qed (use assms(2) d w1 in \<open>auto simp: envdRoundTrip_def\<close>)
qed

lemma call_held:
  assumes "same_fleet st s" "envdCallOver o' s node i relay verb path token body w = (r, w')"
  shows "held w' = held w"
  using assms(2)
  by (auto simp: envdCallOver_def Let_def close split: sum.splits prod.splits option.splits dest!: round_trip_held [OF assms(1)])

lemma init_held:
  assumes "same_fleet st s" "initEnvd env o' s node i relay req w = (r, w')"
  shows "held w' = held w"
  using assms(2) by (auto simp: initEnvd_def split: sum.splits prod.splits if_splits dest!: call_held [OF assms(1)])

lemma envs_held:
  assumes "same_fleet st s" "templateEnvs o' s a e w = (r, w')"
  shows "held w' = held w"
  using assms(2)
  by (auto simp: templateEnvs_def envdCall_def split: sum.splits prod.splits if_splits dest!: call_held [OF assms(1)])

lemma process_held:
  assumes "same_fleet st s" "run_envdProcess o' s a cmd wants w = (out, r, w')"
  shows "held w' = held w"
  using assms(2)
  by (auto simp: run_envdProcess_def Let_def close split: sum.splits prod.splits if_splits dest!: round_trip_held [OF assms(1)])

lemma create_init_held:
  assumes "same_fleet st s" "create_init env o' s a req token built w = (r, w')"
  shows "held w' = held w"
  using assms(2)
  by (auto simp: create_init_def split: sum.splits prod.splits if_splits dest!: init_held [OF assms(1)] envs_held [OF assms(1)])

lemma hand_over_held:
  assumes "same_fleet st s" "handOver env o' s c token w = (r, w')"
  shows "held w' = held w"
proof -
  have "held w1 = held w" if "SetInstanceMetadata s (as_Node c) (as_SandboxName c) doc w = (q, w1)" for doc q w1
    using quiet_verbs [OF assms(1)] that by (metis snd_conv)
  then show ?thesis using assms(2)
    by (auto simp: handOver_def Let_def split: sum.splits prod.splits dest!: init_held [OF assms(1)])
qed

lemma hand_over_all_held:
  assumes "same_fleet st s"
  shows "hand_over_all env o' sv s cs w = (r, w') \<Longrightarrow> held w' = held w"
  by (induction cs arbitrary: r w w') (auto split: prod.splits dest!: hand_over_held [OF assms])

end

section \<open>Releases\<close>

text \<open>The claims whose release was not confirmed.\<close>

fun release_refused :: "'w scatterGatherStore \<Rightarrow> Assignment list \<Rightarrow> 'w \<Rightarrow> Assignment list" where
  "release_refused st [] w = []"
| "release_refused st (a # as) w =
     (case Release st (as_Node a) (as_SandboxName a) w of
        (Inl e, w') \<Rightarrow> a # release_refused st as w'
      | (Inr _, w') \<Rightarrow> release_refused st as w')"

context claim_ledger
begin

lemma release_all_held:
  assumes "same_fleet st s" "\<forall>a \<in> set as. lives_at st (as_Node a) addr"
    and "mset (held w) = mset (map (\<lambda>a. (addr, as_SandboxName a)) as) + rest"
  shows "mset (held (releaseAll s as w)) = mset (map (\<lambda>a. (addr, as_SandboxName a)) (release_refused s as w)) + rest"
  using assms(2,3)
proof (induction as arbitrary: w rest)
  case (Cons a as)
  obtain r w1 where r: "Release s (as_Node a) (as_SandboxName a) w = (r, w1)" by (metis surj_pair)
  have at: "lives_at st (as_Node a) addr" using Cons.prems(1) by simp
  show ?case
  proof (cases r)
    case (Inl e)
    then have "mset (held w1) = mset (map (\<lambda>a. (addr, as_SandboxName a)) as) + add_mset (addr, as_SandboxName a) rest"
      using release_held [OF assms(1) r] Cons.prems(2) by simp
    from Cons.IH [OF _ this] Cons.prems(1) show ?thesis by (simp add: r Inl)
  next
    case (Inr u)
    moreover obtain pools where "src_NodeCapacity (sg_src st) w (as_Node a) = Inr (addr, pools)"
      using at by (auto simp: lives_at_def)
    ultimately have "held w1 = remove1 (addr, as_SandboxName a) (held w)" using release_held [OF assms(1) r] by auto
    then have "mset (held w1) = mset (map (\<lambda>a. (addr, as_SandboxName a)) as) + rest" using Cons.prems(2) by simp
    from Cons.IH [OF _ this] Cons.prems(1) show ?thesis by (simp add: r Inr)
  qed
qed simp

lemma create_claim_held:
  assumes "same_fleet st s" "stable_source (sg_src st)" "create_claim env sv s ns req w = (known, built, r, s', w')"
  shows "same_fleet st s'"
    "case r of Inl e \<Rightarrow> held w' = held w | Inr a \<Rightarrow> (\<exists>addr. lives_at st (as_Node a) addr \<and> held w' = (addr, as_SandboxName a) # held w)"
proof -
  let ?name = "io_generate env namePrefix" and ?opts = "e2b_create_options sv req"
  have once: "same_fleet st t' \<and> (case q of Inl e \<Rightarrow> held v' = held v
      | Inr a \<Rightarrow> (\<exists>addr. lives_at st (as_Node a) addr \<and> held v' = (addr, as_SandboxName a) # held v))"
    if "same_fleet st t" "Claim (io_rnd env) t ns ?name pool opts v = (q, t', v')" for t pool opts v q t' v'
    using claim_held [OF that] stable_lives(1) [OF assms(2)] by (cases q) (simp_all, metis)
  obtain q1 s1 w1 where c1: "Claim (io_rnd env) s ns ?name (create_pool sv req) ?opts w = (q1, s1, w1)" by (rule prod_cases3)
  note o1 = once [OF assms(1) c1]
  have "same_fleet st s' \<and> (case r of Inl e \<Rightarrow> held w' = held w
      | Inr a \<Rightarrow> (\<exists>addr. lives_at st (as_Node a) addr \<and> held w' = (addr, as_SandboxName a) # held w))"
  proof (cases q1)
    case (Inl e)
    then show ?thesis using assms(3) c1 o1
      by (auto simp: create_claim_def Let_def split: go_splits
          dest!: once [OF o1 [THEN conjunct1]])
  next
    case (Inr a)
    then show ?thesis using assms(3) c1 o1 by (auto simp: create_claim_def Let_def)
  qed
  then show "same_fleet st s'"
    "case r of Inl e \<Rightarrow> held w' = held w | Inr a \<Rightarrow> (\<exists>addr. lives_at st (as_Node a) addr \<and> held w' = (addr, as_SandboxName a) # held w)"
    by simp_all
qed

end

section \<open>The recording surface\<close>

definition ledgered_envd :: "'w envd_io \<Rightarrow> 'w ledgered envd_io" where
  "ledgered_envd o' =
     \<lparr>eo_Write = (\<lambda>h req wl. case eo_Write o' h req (fst wl) of (r, w') \<Rightarrow> (r, w', snd wl)),
      eo_ReadResponse = (\<lambda>h wl. case eo_ReadResponse o' h (fst wl) of (r, w') \<Rightarrow> (r, w', snd wl)),
      eo_Close = (\<lambda>h wl. (eo_Close o' h (fst wl), snd wl)), eo_init = eo_init o', eo_start = eo_start o', eo_metrics = eo_metrics o',
      eo_envs = eo_envs o', eo_event = eo_event o', eo_sha512 = eo_sha512 o'\<rparr>"

interpretation e2b_ledger: guest_ledger snd "ledgered_store st" "ledgered_envd o'" for st o'
  by unfold_locales (auto simp: ledgered_envd_def split: prod.splits)

text \<open>Nothing new is held, or the last step was to release and what is left is what the nodes did not confirm.\<close>

definition settled :: "'w ledgered scatterGatherStore \<Rightarrow> (string \<times> string) list \<Rightarrow> 'w ledgered \<Rightarrow> bool" where
  "settled st l wl \<longleftrightarrow> snd wl = l \<or> (\<exists>as addr wl1. snd wl1 = map (\<lambda>a. (addr, as_SandboxName a)) as @ l \<and> wl = releaseAll st as wl1
     \<and> mset (snd wl) = mset (map (\<lambda>a. (addr, as_SandboxName a)) (release_refused st as wl1)) + mset l)"

lemma release_settles:
  assumes "same_fleet (ledgered_store st) s" "\<forall>a \<in> set as. lives_at (ledgered_store st) (as_Node a) addr"
    and "snd wl = map (\<lambda>a. (addr, as_SandboxName a)) as @ l"
  shows "settled s l (releaseAll s as wl)"
proof -
  have "mset (snd wl) = mset (map (\<lambda>a. (addr, as_SandboxName a)) as) + mset l" using assms(3) by simp
  from assms(3) ledger.release_all_held [OF assms(1,2) this] show ?thesis unfolding settled_def by blast
qed

text \<open>A lookup changes nothing but the index, and an error is never answered with a body.\<close>

lemma lookup_fleet: "lookup env st ns i w = (r, st') \<Longrightarrow> same_fleet st st'"
  by (auto simp: lookup_def GetByClaimID_def found_or_404_def resolve_def Let_def same_fleet_def
      split: go_splits)

lemma fork_refused:
  assumes "lookup env (ledgered_store st) ns i w = (q, s)" "Fork s ns node cid k ttl wl = (Inl e, st', wl')"
  shows "snd wl' = snd wl"
  using ledger.fork_held(2) [OF lookup_fleet [OF assms(1)] assms(2)] by simp

section \<open>Properties\<close>



section \<open>Concrete requests\<close>

text \<open>A node that grants a claim and a fork of two, whose guests do not answer, and that confirms releases.\<close>

definition accounting_client :: "unit SandboxdClient" where
  "accounting_client = null_client\<lparr>cl_Claim := (\<lambda>spec w. (Inr demo_result, w)), cl_Release := (\<lambda>i t w. (Inr (), w)),
     cl_Fork := (\<lambda>i f w. (Inr [demo_result, demo_result\<lparr>cr_ID := ''sb2''\<rparr>], w))\<rparr>"

definition accounting_fleet :: StaticInventorySource where
  "accounting_fleet = \<lparr>st_inv = [(''n1'', \<lparr>ni_Name = ''n1'', ni_Node = ''n1'', ni_Entries = [demo_entry ''ns/b'' ''c1''],
     ni_Address = ''h:1'', ni_Pools = demo_pool, ni_Templates = [], ni_PublishedAt = 0\<rparr>)], st_partition = [], st_applies = 0\<rparr>"

definition accounting_store :: "unit scatterGatherStore" where
  "accounting_store = WithClaimRouting ''tok'' (\<lambda>addr tok. accounting_client) (NewScatterGatherStore (pinned_source static_source accounting_fleet))"

definition accounting_env :: e2b_env where
  "accounting_env = io.extend demo_io \<lparr>ev_lower = (\<lambda>s. s), ev_mac = (\<lambda>k m. m), ev_parseTime = (\<lambda>s. Inl EOF), ev_unmarshal = (\<lambda>s. None),
     ev_selectors = \<lparr>lib_Labels = (\<lambda>s. Inl []), lib_Fields = (\<lambda>s. Inl [])\<rparr>\<rparr>"

definition accounting_server :: "unit ledgered Server" where
  "accounting_server = \<lparr>sv_opts = \<lparr>so_Namespace = ''ns'', so_Domain = [], so_EnvdVersion = [], so_DefaultTimeoutSeconds = 300, so_APIKeys = [],
     so_AllowAnonymous = True, so_Inventory = None, so_TemplateAliases = [], so_EnvdSecret = ''s''\<rparr>, sv_keys = [], sv_aliases = [],
     sv_imageAliases = []\<rparr>"

definition accounting_request :: NewSandbox where
  "accounting_request = \<lparr>ns_TemplateID = ''img'', ns_Timeout = None, ns_Metadata = [], ns_AutoPause = None, ns_EnvVars = [], ns_Secure = None,
     ns_AllowInternetAccess = None, ns_Network = [], ns_VolumeMounts = [], ns_AutoPauseMemory = None, ns_AutoResume = None, ns_MCP = [], ns_IAM = []\<rparr>"

definition accounting_create :: "unit ledgered handled" where
  "accounting_create = createSandbox accounting_env (ledgered_envd demo_envd) accounting_server (ledgered_store accounting_store) ''ns''
     (Body accounting_request) ((), [(''h:9'', ''old'')])"

definition accounting_fork :: "unit ledgered handled" where
  "accounting_fork = forkSandbox accounting_env (ledgered_envd demo_envd) accounting_server (ledgered_store accounting_store) ''ns'' ''c1''
     NoBody ((), [(''h:9'', ''old'')])"

lemma accounting_stable: "stable_source (sg_src accounting_store)"
proof -
  have "static_ok accounting_fleet" by (simp add: static_ok_def accounting_fleet_def)
  from pinned_stable [OF this] show ?thesis by (simp add: accounting_store_def WithClaimRouting_def NewScatterGatherStore_def)
qed



end
