(* ===== verification/E2B_Uploads.thy ===== *)
theory E2B_Uploads
  imports E2B_Server
begin

text \<open>
  The archives of a build's COPY steps (pkg/e2bcompat/uploads.go): the keys, the signed links, and the
  directory that keeps them. The directory is an explicit store: the files by name, the states they have
  been in, which is what a concurrent reader may have seen, and a fault for each operation that the disk may answer.
\<close>

definition uploadURLTTL :: int where "uploadURLTTL = 3600 * second"

record uploadKey =
  uk_ns :: string
  uk_template :: string
  uk_hash :: string

definition uploadKey_path :: "uploadKey \<Rightarrow> string" where
  "uploadKey_path k = uk_ns k @ ''/'' @ uk_template k @ ''/'' @ uk_hash k @ ''.tar''"

section \<open>The directory\<close>

definition ErrNotExist :: err where "ErrNotExist = PlainError (Msg ''file does not exist'' [])"
definition ErrExist :: err where "ErrExist = PlainError (Msg ''file already exists'' [])"
definition ErrPathEscapes :: err where "ErrPathEscapes = PlainError (Msg ''path escapes from parent'' [])"
definition MaxBytesError :: err where "MaxBytesError = PlainError (Msg ''http: request body too large'' [])"

record upload_fs =
  fs_files :: "string \<rightharpoonup> string"
  fs_history :: "(string \<rightharpoonup> string) list"
  fs_ops :: nat
  fs_fault :: "nat \<Rightarrow> err option"
  fs_unreadable :: "err option"

text \<open>A name inside an \<^verbatim>\<open>os.Root\<close>: cleaned, and refused when it leaves the root.\<close>

definition root_name :: "string \<Rightarrow> err + string" where
  "root_name p =
     (let q = path_Clean p
      in if path_IsAbs p \<or> q = ''..'' \<or> strings_HasPrefix q ''../'' then Inl ErrPathEscapes else Inr q)"

text \<open>A change of the directory: it may fail, and otherwise the files move to their next state.\<close>

definition fs_change :: "string \<Rightarrow> (string \<Rightarrow> (string \<rightharpoonup> string) \<Rightarrow> err + (string \<rightharpoonup> string)) \<Rightarrow> upload_fs \<Rightarrow> err option \<times> upload_fs" where
  "fs_change p f s =
     (let s' = s\<lparr>fs_ops := Suc (fs_ops s)\<rparr>
      in case fs_fault s (fs_ops s) of
           Some e \<Rightarrow> (Some e, s')
         | None \<Rightarrow>
             (case root_name p of
                Inl e \<Rightarrow> (Some e, s')
              | Inr q \<Rightarrow>
                  (case f q (fs_files s) of
                     Inl e \<Rightarrow> (Some e, s')
                   | Inr m \<Rightarrow> (None, s'\<lparr>fs_files := m, fs_history := fs_files s # fs_history s\<rparr>))))"

definition fs_MkdirAll :: "string \<Rightarrow> upload_fs \<Rightarrow> err option \<times> upload_fs" where
  "fs_MkdirAll p = fs_change p (\<lambda>q m. Inr m)"

definition fs_Create :: "string \<Rightarrow> upload_fs \<Rightarrow> err option \<times> upload_fs" where
  "fs_Create p = fs_change p (\<lambda>q m. if m q \<noteq> None then Inl ErrExist else Inr (m(q \<mapsto> [])))"

definition fs_Write :: "string \<Rightarrow> string \<Rightarrow> upload_fs \<Rightarrow> err option \<times> upload_fs" where
  "fs_Write p chunk = fs_change p (\<lambda>q m. case m q of None \<Rightarrow> Inl ErrNotExist | Some old \<Rightarrow> Inr (m(q \<mapsto> old @ chunk)))"

definition fs_Close :: "string \<Rightarrow> upload_fs \<Rightarrow> err option \<times> upload_fs" where
  "fs_Close p = fs_change p (\<lambda>q m. Inr m)"

definition fs_Rename :: "string \<Rightarrow> string \<Rightarrow> upload_fs \<Rightarrow> err option \<times> upload_fs" where
  "fs_Rename p p' = fs_change p (\<lambda>q m. case root_name p' of Inl e \<Rightarrow> Inl e
     | Inr q' \<Rightarrow> (case m q of None \<Rightarrow> Inl ErrNotExist | Some c \<Rightarrow> Inr (m(q := None, q' \<mapsto> c))))"

definition fs_Remove :: "string \<Rightarrow> upload_fs \<Rightarrow> err option \<times> upload_fs" where
  "fs_Remove p = fs_change p (\<lambda>q m. if m q = None then Inl ErrNotExist else Inr (m(q := None)))"

definition fs_Open :: "string \<Rightarrow> upload_fs \<Rightarrow> err + string" where
  "fs_Open p s =
     (case fs_unreadable s of
        Some e \<Rightarrow> Inl e
      | None \<Rightarrow> (case root_name p of Inl e \<Rightarrow> Inl e | Inr q \<Rightarrow> (case fs_files s q of None \<Rightarrow> Inl ErrNotExist | Some c \<Rightarrow> Inr c)))"

definition fs_Stat :: "string \<Rightarrow> upload_fs \<Rightarrow> err option" where
  "fs_Stat p s = (case fs_Open p s of Inl e \<Rightarrow> Some e | Inr c \<Rightarrow> None)"

section \<open>Archives\<close>

definition path_Dir :: "string \<Rightarrow> string" where
  "path_Dir p = path_Clean (rev (dropWhile (\<lambda>c. c \<noteq> CHR ''/'') (rev p)))"

text \<open>A request body: the chunks it arrives in, and the error it breaks off with. \<^verbatim>\<open>http.MaxBytesReader\<close> cuts it at its limit.\<close>

type_synonym upload_body = "string list \<times> err option"

fun max_bytes :: "nat \<Rightarrow> string list \<Rightarrow> err option \<Rightarrow> upload_body" where
  "max_bytes n [] broken = ([], broken)"
| "max_bytes n (c # cs) broken =
     (if length c > n then ([take n c], Some MaxBytesError)
      else (case max_bytes (n - length c) cs broken of (out, e) \<Rightarrow> (c # out, e)))"

fun io_Copy :: "string \<Rightarrow> string list \<Rightarrow> err option \<Rightarrow> upload_fs \<Rightarrow> err option \<times> upload_fs" where
  "io_Copy p [] broken s = (broken, s)"
| "io_Copy p (c # cs) broken s =
     (case fs_Write p c s of (Some e, s') \<Rightarrow> (Some e, s') | (None, s') \<Rightarrow> io_Copy p cs broken s')"

text \<open>Of the joined errors of copy and close the first decides what is answered.\<close>

definition upload_tmp :: "uploadKey \<Rightarrow> string \<Rightarrow> string" where
  "upload_tmp k rnd = path_Dir (uploadKey_path k) @ ''/.'' @ uk_hash k @ ''.'' @ rnd"

definition upload_put :: "uploadKey \<Rightarrow> upload_body \<Rightarrow> string \<Rightarrow> upload_fs \<Rightarrow> err option \<times> upload_fs" where
  "upload_put k body rnd s =
     (let dst = uploadKey_path k; tmp = upload_tmp k rnd
      in case fs_MkdirAll (path_Dir dst) s of
           (Some e, s1) \<Rightarrow> (Some e, s1)
         | (None, s1) \<Rightarrow>
             (case fs_Create tmp s1 of
                (Some e, s2) \<Rightarrow> (Some e, s2)
              | (None, s2) \<Rightarrow>
                  (case io_Copy tmp (fst body) (snd body) s2 of
                     (e1, s3) \<Rightarrow>
                       (case fs_Close tmp s3 of
                          (e2, s4) \<Rightarrow>
                            (case (case e1 of Some e \<Rightarrow> (Some e, s4)
                                   | None \<Rightarrow> (case e2 of Some e \<Rightarrow> (Some e, s4) | None \<Rightarrow> fs_Rename tmp dst s4)) of
                               (None, s5) \<Rightarrow> (None, s5)
                             | (Some e, s5) \<Rightarrow> (Some e, snd (fs_Remove tmp s5)))))))"

section \<open>Links\<close>

text \<open>The refusal of a name the fleet cannot carry; only status errors refuse one.\<close>

definition refused_name :: "err \<Rightarrow> e2b_reply" where
  "refused_name e = WriteErr 400 (case as_StatusError e of Some (_, m) \<Rightarrow> m | None \<Rightarrow> no_message)"

definition uploadKeyOf :: "string \<Rightarrow> string \<Rightarrow> string \<Rightarrow> e2b_reply + uploadKey" where
  "uploadKeyOf ns template h =
     (case StampedName ''template'' templatePrefix ns template of
        Inl e \<Rightarrow> Inl (refused_name e)
      | Inr _ \<Rightarrow>
          if strings_ContainsAny template [CHR ''/'', CHR 0x5C] \<or> strings_HasPrefix template ''.'' \<or> \<not> FilesHash h
          then Inl (WriteErr 400 (Msg ''the upload names no template and files hash'' []))
          else Inr \<lparr>uk_ns = ns, uk_template = template, uk_hash = h\<rparr>)"

definition upload_text :: "uploadKey \<Rightarrow> string \<Rightarrow> string" where
  "upload_text k expires =
     ''e2b-upload'' @ [CHR 0x00] @ uk_ns k @ [CHR 0x00] @ uk_template k @ [CHR 0x00] @ uk_hash k @ [CHR 0x00] @ expires"

definition uploadSig :: "(string \<Rightarrow> string \<Rightarrow> string) \<Rightarrow> string \<Rightarrow> uploadKey \<Rightarrow> string \<Rightarrow> string" where
  "uploadSig mac secret k expires = AccessToken mac secret (upload_text k expires)"

definition upload_expires :: "time \<Rightarrow> string" where
  "upload_expires now = strconv_Itoa (time_Unix (now + uploadURLTTL))"

definition upload_query :: "(string \<Rightarrow> string \<Rightarrow> string) \<Rightarrow> string \<Rightarrow> uploadKey \<Rightarrow> time \<Rightarrow> (string \<times> string) list" where
  "upload_query mac secret k now =
     [(''ns'', uk_ns k), (''expires'', upload_expires now), (''sig'', uploadSig mac secret k (upload_expires now))]"

text \<open>\<open>https\<close> tells whether the request came over TLS, here or at the proxy that forwarded it.\<close>

definition dir_uploadURL :: "(string \<Rightarrow> string \<Rightarrow> string) \<Rightarrow> string \<Rightarrow> bool \<Rightarrow> string \<Rightarrow> uploadKey \<Rightarrow> time \<Rightarrow> string" where
  "dir_uploadURL mac secret https host k now =
     (if https then ''https'' else ''http'') @ ''://'' @ host @ ''/templates/'' @ url_PathEscape (uk_template k) @ ''/files/'' @ uk_hash k
       @ ''?'' @ url_Encode (upload_query mac secret k now)"

definition dir_present :: "uploadKey \<Rightarrow> upload_fs \<Rightarrow> err + bool" where
  "dir_present k s = (case fs_Stat (uploadKey_path k) s of None \<Rightarrow> Inr True | Some e \<Rightarrow> if err_Is e ErrNotExist then Inr False else Inl e)"

definition dir_open :: "uploadKey \<Rightarrow> upload_fs \<Rightarrow> err + string" where
  "dir_open k s = fs_Open (uploadKey_path k) s"

text \<open>
  \<^verbatim>\<open>ServeHTTP\<close>: whether the link is good, and the upload behind it; the reply of a stored upload is the bare 200 net/http
  sends for a handler that writes nothing.
\<close>

definition upload_refusal :: "(string \<Rightarrow> string \<Rightarrow> string) \<Rightarrow> string \<Rightarrow> uploadKey \<Rightarrow> url_values \<Rightarrow> time \<Rightarrow> e2b_reply option" where
  "upload_refusal mac secret k q now =
     (let expires = query_Get q ''expires''
      in if (case strconv_Atoi expires of None \<Rightarrow> True | Some exp \<Rightarrow> time_Unix now > exp)
         then Some (WriteErr 401 (Msg ''the upload link has expired'' []))
         else if query_Get q ''sig'' \<noteq> uploadSig mac secret k expires
         then Some (WriteErr 401 (Msg ''the upload link's signature does not match'' []))
         else None)"

definition serve_upload :: "(string \<Rightarrow> string \<Rightarrow> string) \<Rightarrow> string \<Rightarrow> nat \<Rightarrow> string \<Rightarrow> string \<Rightarrow> url_values \<Rightarrow> upload_body \<Rightarrow> time \<Rightarrow> string
   \<Rightarrow> upload_fs \<Rightarrow> e2b_reply \<times> upload_fs" where
  "serve_upload mac secret limit template h q body now rnd s =
     (case uploadKeyOf (query_Get q ''ns'') template h of
        Inl r \<Rightarrow> (r, s)
      | Inr k \<Rightarrow>
          (case upload_refusal mac secret k q now of
             Some r \<Rightarrow> (r, s)
           | None \<Rightarrow>
               (case upload_put k (max_bytes limit (fst body) (snd body)) rnd s of
                  (None, s') \<Rightarrow> (WriteHeader 200, s')
                | (Some e, s') \<Rightarrow>
                    (if e = MaxBytesError then WriteErr 413 (Msg ''an upload is at most %d bytes'' [strconv_Itoa (int limit)])
                     else WriteErr 500 (Msg ''failed to store the upload'' []), s'))))"

section \<open>The store a build reads\<close>

record 'w uploadStore =
  us_present :: "uploadKey \<Rightarrow> 'w \<Rightarrow> err + bool"
  us_uploadURL :: "uploadKey \<Rightarrow> 'w \<Rightarrow> err + string \<times> (string \<times> string) list"
  us_open :: "uploadKey \<Rightarrow> 'w \<Rightarrow> err + string"

definition dirUploads :: "(string \<Rightarrow> string \<Rightarrow> string) \<Rightarrow> string \<Rightarrow> bool \<Rightarrow> string \<Rightarrow> time \<Rightarrow> ('w \<Rightarrow> upload_fs) \<Rightarrow> 'w uploadStore" where
  "dirUploads mac secret https host now dir =
     \<lparr>us_present = (\<lambda>k w. dir_present k (dir w)), us_uploadURL = (\<lambda>k w. Inr (dir_uploadURL mac secret https host k now, [])),
      us_open = (\<lambda>k w. dir_open k (dir w))\<rparr>"

definition fileUploadLink :: "'w uploadStore \<Rightarrow> string \<Rightarrow> string \<Rightarrow> string \<Rightarrow> 'w \<Rightarrow> e2b_reply" where
  "fileUploadLink u ns template h w =
     (case uploadKeyOf ns template h of
        Inl r \<Rightarrow> r
      | Inr k \<Rightarrow>
          (case us_present u k w of
             Inl e \<Rightarrow> WriteErr 500 (Msg ''failed to look up the upload'' [])
           | Inr True \<Rightarrow> WriteJSON 201 (J_Upload \<lparr>fu_Present = True, fu_URL = [], fu_Headers = []\<rparr>)
           | Inr False \<Rightarrow>
               (case us_uploadURL u k w of
                  Inl e \<Rightarrow> WriteErr 500 (Msg ''failed to sign the upload'' [])
                | Inr (link, headers) \<Rightarrow> WriteJSON 201 (J_Upload \<lparr>fu_Present = False, fu_URL = link, fu_Headers = headers\<rparr>))))"

definition upload_archive :: "'w uploadStore \<Rightarrow> string \<Rightarrow> string \<Rightarrow> string \<Rightarrow> 'w \<Rightarrow> err + string" where
  "upload_archive u ns name h w = us_open u \<lparr>uk_ns = ns, uk_template = name, uk_hash = h\<rparr> w"

section \<open>Names\<close>

definition plain_name :: "string \<Rightarrow> bool" where
  "plain_name n \<longleftrightarrow> n \<noteq> [] \<and> CHR ''/'' \<notin> set n \<and> n \<noteq> ''.'' \<and> n \<noteq> ''..''"

definition plain_key :: "uploadKey \<Rightarrow> bool" where
  "plain_key k \<longleftrightarrow> plain_name (uk_ns k) \<and> plain_name (uk_template k) \<and> FilesHash (uk_hash k)"

lemma split_three:
  assumes "CHR ''/'' \<notin> set a" "CHR ''/'' \<notin> set b" "CHR ''/'' \<notin> set c"
  shows "strings_Split (a @ CHR ''/'' # b @ CHR ''/'' # c) (CHR ''/'') = [a, b, c]"
  using assms by (simp add: Split_plain Split_sep_append)

lemma clean_three:
  assumes "plain_name a" "plain_name b" "plain_name c"
  shows "path_Clean (a @ CHR ''/'' # b @ CHR ''/'' # c) = a @ CHR ''/'' # b @ CHR ''/'' # c" "root_name (a @ CHR ''/'' # b @ CHR ''/'' # c) = Inr (a @ CHR ''/'' # b @ CHR ''/'' # c)"
proof -
  have n: "\<not> path_IsAbs (a @ CHR ''/'' # b @ CHR ''/'' # c)" "a @ CHR ''/'' # b @ CHR ''/'' # c \<noteq> ''..''" "\<not> strings_HasPrefix (a @ CHR ''/'' # b @ CHR ''/'' # c) ''../''"
    using assms by (auto simp: path_IsAbs_def strings_HasPrefix_iff plain_name_def append_eq_append_conv2 Cons_eq_append_conv append_eq_Cons_conv)
  then show 1: "path_Clean (a @ CHR ''/'' # b @ CHR ''/'' # c) = a @ CHR ''/'' # b @ CHR ''/'' # c"
    using assms by (simp add: path_Clean_def split_three plain_name_def Let_def)
  show "root_name (a @ CHR ''/'' # b @ CHR ''/'' # c) = Inr (a @ CHR ''/'' # b @ CHR ''/'' # c)" using n 1 by (simp add: root_name_def)
qed

lemma hash_chars:
  assumes "FilesHash h"
  shows "h \<noteq> []" "hd h \<noteq> CHR ''.''" "CHR ''/'' \<notin> set h" "CHR 0x00 \<notin> set h"
proof -
  have hex: "is_digit c \<or> CHR ''a'' \<le> c \<and> c \<le> CHR ''f''" if "c \<in> set h" for c using assms that by (simp add: FilesHash_def list_all_iff)
  show ne: "h \<noteq> []" using assms by (auto simp: FilesHash_def)
  show "hd h \<noteq> CHR ''.''" using hex [OF hd_in_set [OF ne]] by (auto simp: is_digit_def)
  show "CHR ''/'' \<notin> set h" "CHR 0x00 \<notin> set h" using hex [of "CHR ''/''"] hex [of "CHR 0x00"] by (auto simp: is_digit_def)
qed

lemma plain_file:
  assumes "FilesHash h" "CHR ''/'' \<notin> set rnd"
  shows "plain_name (h @ ''.tar'')" "plain_name (CHR ''.'' # h @ CHR ''.'' # rnd)"
  using assms hash_chars [OF assms(1)] by (auto simp: plain_name_def Cons_eq_append_conv append_eq_Cons_conv)

lemma upload_names:
  assumes "plain_key k" "CHR ''/'' \<notin> set rnd"
  shows "root_name (uploadKey_path k) = Inr (uploadKey_path k)"
    "upload_tmp k rnd = uk_ns k @ CHR ''/'' # uk_template k @ CHR ''/'' # CHR ''.'' # uk_hash k @ CHR ''.'' # rnd"
    "root_name (upload_tmp k rnd) = Inr (upload_tmp k rnd)"
proof -
  have n: "plain_name (uk_ns k)" "plain_name (uk_template k)" "FilesHash (uk_hash k)" using assms(1) by (simp_all add: plain_key_def)
  note f = plain_file [OF n(3) assms(2)]
  show "root_name (uploadKey_path k) = Inr (uploadKey_path k)"
    using clean_three(2) [OF n(1,2) f(1)] by (simp add: uploadKey_path_def)
  have "dropWhile (\<lambda>c. c \<noteq> CHR ''/'') (rev (uploadKey_path k)) = rev (uk_ns k @ CHR ''/'' # uk_template k @ CHR ''/'' # [])"
    using f(1) by (auto simp: uploadKey_path_def plain_name_def dropWhile_append)
  moreover have "path_Clean (uk_ns k @ CHR ''/'' # uk_template k @ [CHR ''/'']) = uk_ns k @ CHR ''/'' # uk_template k"
    using n(1,2) by (simp add: path_Clean_def Let_def split_three [of _ _ "[]"] plain_name_def)
      (auto simp: path_IsAbs_def strings_HasPrefix_iff Cons_eq_append_conv append_eq_Cons_conv)
  ultimately show t: "upload_tmp k rnd = uk_ns k @ CHR ''/'' # uk_template k @ CHR ''/'' # CHR ''.'' # uk_hash k @ CHR ''.'' # rnd"
    by (simp add: upload_tmp_def path_Dir_def)
  show "root_name (upload_tmp k rnd) = Inr (upload_tmp k rnd)" unfolding t using clean_three(2) [OF n(1,2) f(2)] by simp
qed

lemma upload_path_inj:
  assumes "plain_key k" "plain_key k'"
  shows "uploadKey_path k = uploadKey_path k' \<longleftrightarrow> k = k'" "CHR ''/'' \<notin> set rnd \<Longrightarrow> uploadKey_path k' \<noteq> upload_tmp k rnd"
proof -
  have split: "strings_Split (uploadKey_path j) (CHR ''/'') = [uk_ns j, uk_template j, uk_hash j @ ''.tar'']" if "plain_key j" for j
    using that hash_chars(3) [of "uk_hash j"] by (auto simp: uploadKey_path_def plain_key_def plain_name_def intro!: split_three)
  show "uploadKey_path k = uploadKey_path k' \<longleftrightarrow> k = k'"
  proof
    assume "uploadKey_path k = uploadKey_path k'"
    then have "[uk_ns k, uk_template k, uk_hash k @ ''.tar''] = [uk_ns k', uk_template k', uk_hash k' @ ''.tar'']"
      using split [OF assms(1)] split [OF assms(2)] by simp
    then show "k = k'" by (intro uploadKey.equality) simp_all
  qed simp
  assume r: "CHR ''/'' \<notin> set rnd"
  have "strings_Split (upload_tmp k rnd) (CHR ''/'') = [uk_ns k, uk_template k, CHR ''.'' # uk_hash k @ CHR ''.'' # rnd]"
    unfolding upload_names(2) [OF assms(1) r]
    using assms(1) r hash_chars(3) [of "uk_hash k"] by (intro split_three) (auto simp: plain_key_def plain_name_def)
  moreover have "uk_hash k' @ ''.tar'' \<noteq> CHR ''.'' # uk_hash k @ CHR ''.'' # rnd"
    using hash_chars(1,2) [of "uk_hash k'"] assms(2) by (auto simp: plain_key_def append_eq_Cons_conv)
  ultimately show "uploadKey_path k' \<noteq> upload_tmp k rnd" using split [OF assms(2)] by auto
qed

section \<open>Atomicity\<close>

text \<open>What a run of operations leaves alone: every file but the given ones, at every moment.\<close>

definition fs_keeps :: "string set \<Rightarrow> upload_fs \<Rightarrow> upload_fs \<Rightarrow> bool" where
  "fs_keeps ps s s' \<longleftrightarrow> fs_unreadable s' = fs_unreadable s \<and> (\<exists>new. fs_history s' = new @ fs_history s
     \<and> (\<forall>m \<in> set (fs_files s' # new). \<forall>p. p \<notin> ps \<longrightarrow> m p = fs_files s p))"

lemma fs_keeps_refl [simp]: "fs_keeps ps s s"
  by (simp add: fs_keeps_def)

lemma fs_keeps_trans: "fs_keeps ps s s1 \<Longrightarrow> fs_keeps ps s1 s2 \<Longrightarrow> fs_keeps ps s s2"
  by (auto simp: fs_keeps_def)

lemma fs_change_keeps:
  assumes "root_name p = Inr p" "\<And>m m'. f p m = Inr m' \<Longrightarrow> \<forall>x. x \<notin> ps \<longrightarrow> m' x = m x"
  shows "fs_keeps ps s (snd (fs_change p f s))"
  using assms by (auto simp: fs_change_def Let_def fs_keeps_def split: option.splits sum.splits)

lemma fs_ops_keep:
  assumes "root_name t = Inr t"
  shows "fs_keeps {t} s (snd (fs_Create t s))" "fs_keeps {t} s (snd (fs_Write t c s))" "fs_keeps {t} s (snd (fs_Close t s))"
    "fs_keeps {t} s (snd (fs_Remove t s))"
  unfolding fs_Create_def fs_Write_def fs_Close_def fs_Remove_def
  by (rule fs_change_keeps [OF assms]; auto split: if_splits option.splits)+

lemma fs_MkdirAll_keeps: "fs_keeps ps s (snd (fs_MkdirAll p s))"
  by (auto simp: fs_MkdirAll_def fs_change_def Let_def fs_keeps_def split: option.splits sum.splits)

lemma io_Copy_keeps:
  assumes "root_name t = Inr t"
  shows "io_Copy t cs broken s = (r, s') \<Longrightarrow> fs_files s t = Some old
    \<Longrightarrow> fs_keeps {t} s s' \<and> (r = None \<longrightarrow> broken = None \<and> fs_files s' t = Some (old @ concat cs))"
proof (induction cs arbitrary: s old)
  case (Cons c cs)
  obtain e s1 where w: "fs_Write t c s = (e, s1)" by (metis surj_pair)
  have k: "fs_keeps {t} s s1" using fs_ops_keep(2) [OF assms, of s c] w by simp
  show ?case
  proof (cases e)
    case None
    then have "fs_files s1 t = Some (old @ c)" using w assms Cons.prems(2)
      by (auto simp: fs_Write_def fs_change_def Let_def split: option.splits)
    then show ?thesis using Cons.IH [of s1 "old @ c"] Cons.prems(1) w None fs_keeps_trans [OF k] by auto
  qed (use Cons.prems(1) w k in auto)
qed auto

lemma fs_Close_content: "root_name t = Inr t \<Longrightarrow> fs_files (snd (fs_Close t s)) = fs_files s"
  by (auto simp: fs_Close_def fs_change_def Let_def split: option.splits)

lemma upload_put_atomic:
  assumes "plain_key k" "CHR ''/'' \<notin> set rnd" "upload_put k (cs, broken) rnd s = (r, s')"
  shows "case r of
      Some e \<Rightarrow> fs_keeps {upload_tmp k rnd} s s'
    | None \<Rightarrow> broken = None \<and> (\<exists>s4. fs_keeps {upload_tmp k rnd} s s4 \<and> fs_unreadable s' = fs_unreadable s
        \<and> fs_history s' = fs_files s4 # fs_history s4 \<and> fs_files s' = (fs_files s4)(upload_tmp k rnd := None, uploadKey_path k \<mapsto> concat cs))"
proof -
  define t where "t = upload_tmp k rnd"
  have t: "root_name t = Inr t" and dst: "root_name (uploadKey_path k) = Inr (uploadKey_path k)"
    using upload_names [OF assms(1,2)] by (simp_all add: t_def)
  obtain e1 s1 where m: "fs_MkdirAll (path_Dir (uploadKey_path k)) s = (e1, s1)" by (metis surj_pair)
  obtain e2 s2 where c: "fs_Create t s1 = (e2, s2)" by (metis surj_pair)
  obtain e3 s3 where w: "io_Copy t cs broken s2 = (e3, s3)" by (metis surj_pair)
  obtain e4 s4 where x: "fs_Close t s3 = (e4, s4)" by (metis surj_pair)
  obtain e5 s5 where n: "fs_Rename t (uploadKey_path k) s4 = (e5, s5)" by (metis surj_pair)
  have k1: "fs_keeps {t} s s1" using fs_MkdirAll_keeps [of "{t}" s] m by (metis snd_conv)
  have k2: "fs_keeps {t} s s2" using fs_keeps_trans [OF k1] fs_ops_keep(1) [OF t, of s1] c by simp
  have fresh: "fs_files s2 t = Some []" if "e2 = None"
    using c that t by (auto simp: fs_Create_def fs_change_def Let_def split: option.splits if_splits)
  have k3: "fs_keeps {t} s s3" "e3 = None \<Longrightarrow> broken = None \<and> fs_files s3 t = Some (concat cs)" if "e2 = None"
    using io_Copy_keeps [OF t w fresh [OF that]] fs_keeps_trans [OF k2] by auto
  have k4: "fs_keeps {t} s s4" if "e2 = None" using fs_keeps_trans [OF k3(1) [OF that]] fs_ops_keep(3) [OF t, of s3] x by simp
  have removed: "fs_keeps {t} s (snd (fs_Remove t s'))" if "fs_keeps {t} s s'" for s'
    using fs_keeps_trans [OF that] fs_ops_keep(4) [OF t] by blast
  have renamed: "if e5 = None then fs_files s5 = (fs_files s4)(t := None, uploadKey_path k \<mapsto> concat cs)
        \<and> fs_history s5 = fs_files s4 # fs_history s4 \<and> fs_unreadable s5 = fs_unreadable s
      else fs_keeps {t} s s5"
    if "e2 = None" "e3 = None"
    using n t dst k3(2) [OF that] k4 [OF that(1)] fs_Close_content [OF t, of s3] x
    by (auto simp: fs_Rename_def fs_change_def Let_def fs_keeps_def split: option.splits)
  consider "e1 \<noteq> None" | "e1 = None" "e2 \<noteq> None" | "e1 = None" "e2 = None" "e3 \<noteq> None" | "e1 = None" "e2 = None" "e3 = None" "e4 \<noteq> None"
    | "e1 = None" "e2 = None" "e3 = None" "e4 = None" "e5 \<noteq> None" | "e1 = None" "e2 = None" "e3 = None" "e4 = None" "e5 = None" by blast
  then show ?thesis
  proof cases
    case 1
    then show ?thesis using assms(3) m k1 by (auto simp: upload_put_def t_def)
  next
    case 2
    then show ?thesis using assms(3) m c k2 by (auto simp: upload_put_def t_def)
  next
    case 3
    then show ?thesis using assms(3) m c w x removed [OF k4] by (auto simp: upload_put_def t_def)
  next
    case 4
    then show ?thesis using assms(3) m c w x removed [OF k4] by (auto simp: upload_put_def t_def)
  next
    case 5
    then have "fs_keeps {t} s s5" using renamed by simp
    with 5 show ?thesis using assms(3) m c w x n removed by (auto simp: upload_put_def t_def)
  next
    case 6
    then have "broken = None" "fs_files s5 = (fs_files s4)(t := None, uploadKey_path k \<mapsto> concat cs)"
      "fs_history s5 = fs_files s4 # fs_history s4" "fs_unreadable s5 = fs_unreadable s"
      using renamed k3(2) by simp_all
    moreover have "r = None" "s' = s5" using 6 assms(3) m c w x n by (simp_all add: upload_put_def t_def)
    ultimately show ?thesis using k4 [OF 6(2)] by (auto simp: t_def)
  qed
qed

lemma max_bytes_whole: "max_bytes n cs broken = (out, None) \<Longrightarrow> out = cs \<and> broken = None \<and> length (concat cs) \<le> n"
  by (induction n cs broken arbitrary: out rule: max_bytes.induct) (fastforce split: if_splits prod.splits)+

section \<open>Signatures\<close>

lemma hex_digit_inj:
  "d < 16 \<Longrightarrow> e < 16 \<Longrightarrow> char_of (if d < 10 then 48 + d else 87 + d :: nat) = (char_of (if e < 10 then 48 + e else 87 + e) :: char) \<Longrightarrow> d = e"
  by (auto simp: char_of_eq_iff take_bit_eq_mod split: if_splits)

lemma hex_inj: "hex_EncodeToString a = hex_EncodeToString b \<Longrightarrow> a = b"
proof (induction a arbitrary: b)
  case Nil
  then show ?case by (cases b) (auto simp: hex_EncodeToString_def)
next
  case (Cons c a)
  then obtain d b' where b: "b = d # b'" by (cases b) (auto simp: hex_EncodeToString_def)
  have "of_char x div 16 < (16 :: nat)" for x :: char by (rule less_mult_imp_div_less) simp
  moreover have "hex_EncodeToString a = hex_EncodeToString b'"
    "of_char c div 16 = (of_char d div 16 :: nat)" "of_char c mod 16 = (of_char d mod 16 :: nat)"
    using Cons.prems calculation b by (auto simp: hex_EncodeToString_def intro!: hex_digit_inj)
  ultimately have "of_char c = (of_char d :: nat)" "a = b'" using Cons.IH by (metis div_mult_mod_eq)+
  then show ?case by (simp add: b)
qed

lemma upload_text_inj:
  assumes "CHR 0x00 \<notin> set (uk_ns k @ uk_template k @ uk_hash k)" "CHR 0x00 \<notin> set (uk_ns k' @ uk_template k' @ uk_hash k')"
  shows "upload_text k e = upload_text k' e' \<longleftrightarrow> k = k' \<and> e = e'"
proof
  assume eq: "upload_text k e = upload_text k' e'"
  have split: "strings_Split (upload_text j x) (CHR 0x00) = ''e2b-upload'' # uk_ns j # uk_template j # uk_hash j # strings_Split x (CHR 0x00)"
    if "CHR 0x00 \<notin> set (uk_ns j @ uk_template j @ uk_hash j)" for j x
    using that Split_sep_append [of "CHR 0x00" "''e2b-upload''"] by (simp add: upload_text_def Split_sep_append)
  have "uk_ns k = uk_ns k'" "uk_template k = uk_template k'" "uk_hash k = uk_hash k'" "strings_Split e (CHR 0x00) = strings_Split e' (CHR 0x00)"
    using split [OF assms(1), of e] split [OF assms(2), of e'] eq by simp_all
  then show "k = k' \<and> e = e'" by (metis strings_Join_Split uploadKey.equality unit.exhaust)
qed simp

lemma uploadKeyOf_accepts:
  assumes "uploadKeyOf ns t h = Inr k"
  shows "k = \<lparr>uk_ns = ns, uk_template = t, uk_hash = h\<rparr>" "CHR 0x00 \<notin> set (uk_ns k @ uk_template k @ uk_hash k)"
    "plain_name ns \<Longrightarrow> t \<noteq> [] \<Longrightarrow> plain_key k"
proof -
  show k: "k = \<lparr>uk_ns = ns, uk_template = t, uk_hash = h\<rparr>" using assms by (auto simp: uploadKeyOf_def split: sum.splits if_splits)
  have h: "FilesHash h" "CHR ''/'' \<notin> set t" "\<not> strings_HasPrefix t ''.''"
    using assms by (auto simp: uploadKeyOf_def strings_ContainsAny_def list_ex_iff split: sum.splits if_splits)
  have "sandboxdName (templatePrefix @ ns @ ''/'' @ t)"
    using assms by (auto simp: uploadKeyOf_def StampedName_def Let_def split: sum.splits if_splits)
  then have "\<forall>c \<in> set (ns @ ''/'' @ t). name_char c"
    by (auto simp: sandboxdName_def templatePrefix_def list_all_iff)
  moreover have "\<not> name_char (CHR 0x00)" by code_simp
  ultimately show "CHR 0x00 \<notin> set (uk_ns k @ uk_template k @ uk_hash k)" using hash_chars(4) [OF h(1)] by (auto simp: k)
  assume "plain_name ns" "t \<noteq> []"
  then show "plain_key k" using h by (auto simp: k plain_key_def plain_name_def strings_HasPrefix_iff)
qed

section \<open>The contract of the archive store\<close>

text \<open>What a build relies on: an archive reported present is one its COPY step can open.\<close>

locale archive_store =
  fixes u :: "'w uploadStore"
  assumes present_open: "us_present u k w = Inr True \<longleftrightarrow> (\<exists>c. us_open u k w = Inr c)"
begin

lemma link_present:
  assumes "fileUploadLink u ns template h w = WriteJSON 201 (J_Upload f)" "fu_Present f"
  shows "\<exists>c. upload_archive u ns template h w = Inr c"
proof -
  obtain k where k: "uploadKeyOf ns template h = Inr k" "us_present u k w = Inr True"
    using assms by (auto simp: fileUploadLink_def uploadKeyOf_def refused_name_def split: sum.splits bool.splits prod.splits if_splits)
  then show ?thesis using present_open uploadKeyOf_accepts(1) [OF k(1)] by (simp add: upload_archive_def)
qed

lemma link_absent:
  assumes "fileUploadLink u ns template h w = WriteJSON 201 (J_Upload f)" "\<not> fu_Present f"
  shows "\<exists>e. upload_archive u ns template h w = Inl e"
proof -
  obtain k where k: "uploadKeyOf ns template h = Inr k" "us_present u k w = Inr False"
    using assms by (auto simp: fileUploadLink_def uploadKeyOf_def refused_name_def split: sum.splits bool.splits prod.splits if_splits)
  then have "\<nexists>c. us_open u k w = Inr c" using present_open [of k w] by auto
  then show ?thesis using uploadKeyOf_accepts(1) [OF k(1)] by (cases "us_open u k w") (auto simp: upload_archive_def)
qed

end

interpretation dir_store: archive_store "dirUploads mac secret https host now dir"
  by unfold_locales (auto simp: dirUploads_def dir_present_def dir_open_def fs_Stat_def split: sum.splits)

section \<open>A sample upload\<close>

definition demo_upload_key :: uploadKey where
  "demo_upload_key = \<lparr>uk_ns = ''acme'', uk_template = ''web'', uk_hash = replicate 64 CHR ''a''\<rparr>"

definition demo_mac :: "string \<Rightarrow> string \<Rightarrow> string" where "demo_mac key text = key @ text"

definition demo_upload_query :: url_values where
  "demo_upload_query = (\<lambda>n. if n = ''ns'' then [''acme''] else if n = ''expires'' then [''3600'']
     else if n = ''sig'' then [uploadSig demo_mac ''k'' demo_upload_key ''3600''] else [])"

definition demo_upload_fs :: upload_fs where
  "demo_upload_fs = \<lparr>fs_files = Map.empty, fs_history = [], fs_ops = 0, fs_fault = (\<lambda>_. None), fs_unreadable = None\<rparr>"

section \<open>Properties\<close>

text \<open>
  C9. A reader never sees a partial archive: whatever a PUT on an upload link carries, however often the disk
  fails in the middle and wherever the body breaks off, in every state the directory passes through each
  archive is as it was before, or it is the uploaded one and holds the whole body, which then was no longer
  than the limit. A 200 means the archive is in place; every other answer leaves every archive as it was.
  The namespace and the template are single path elements, and the random suffix has no slash.
\<close>

theorem upload_atomic:
  assumes "plain_name (query_Get q ''ns'')" and "template \<noteq> []" and "CHR ''/'' \<notin> set rnd"
    and "serve_upload mac secret limit template h q (cs, broken) now rnd s = (reply, s')"
  shows "\<exists>new. fs_history s' = new @ fs_history s
    \<and> (\<forall>m k. m \<in> set (fs_files s' # new) \<longrightarrow> plain_key k \<longrightarrow> m (uploadKey_path k) = fs_files s (uploadKey_path k)
        \<or> k = \<lparr>uk_ns = query_Get q ''ns'', uk_template = template, uk_hash = h\<rparr> \<and> reply = WriteHeader 200
          \<and> broken = None \<and> length (concat cs) \<le> limit \<and> m (uploadKey_path k) = Some (concat cs))
    \<and> (reply = WriteHeader 200 \<longrightarrow> fs_files s' (uploadKey_path \<lparr>uk_ns = query_Get q ''ns'', uk_template = template, uk_hash = h\<rparr>) = Some (concat cs))"
proof (cases "\<exists>k. uploadKeyOf (query_Get q ''ns'') template h = Inr k \<and> upload_refusal mac secret k q now = None")
  case False
  then have "s' = s \<and> reply \<noteq> WriteHeader 200" using assms(4)
    by (auto simp: serve_upload_def uploadKeyOf_def refused_name_def upload_refusal_def Let_def split: sum.splits option.splits if_splits)
  then show ?thesis by simp
next
  case True
  then obtain k where key: "uploadKeyOf (query_Get q ''ns'') template h = Inr k" and ok: "upload_refusal mac secret k q now = None" by blast
  note k = uploadKeyOf_accepts(1) [OF key] and plain = uploadKeyOf_accepts(3) [OF key assms(1,2)]
  obtain out e where b: "max_bytes limit cs broken = (out, e)" by (metis surj_pair)
  obtain r s1 where p: "upload_put k (out, e) rnd s = (r, s1)" by (metis surj_pair)
  note put = upload_put_atomic [OF plain assms(3) p]
  have names: "uploadKey_path j \<noteq> upload_tmp k rnd" "uploadKey_path j = uploadKey_path k \<longleftrightarrow> j = k" if "plain_key j" for j
    using upload_path_inj(2) [OF plain that assms(3)] upload_path_inj(1) [OF that plain] by auto
  show ?thesis
  proof (cases r)
    case (Some x)
    then have "s' = s1" "reply \<noteq> WriteHeader 200" using assms(4) key ok b p by (auto simp: serve_upload_def split: if_splits)
    then show ?thesis using put Some names(1) unfolding fs_keeps_def by auto
  next
    case None
    then have res: "s' = s1" "reply = WriteHeader 200" using assms(4) key ok b p by (auto simp: serve_upload_def)
    obtain s4 where e: "e = None" and s4: "fs_keeps {upload_tmp k rnd} s s4" "fs_history s1 = fs_files s4 # fs_history s4"
      "fs_files s1 = (fs_files s4)(upload_tmp k rnd := None, uploadKey_path k \<mapsto> concat out)" using put None by auto
    have whole: "out = cs" "broken = None" "length (concat cs) \<le> limit" using max_bytes_whole b e by auto
    obtain new where new: "fs_history s4 = new @ fs_history s" "\<forall>m \<in> set (fs_files s4 # new). \<forall>p. p \<noteq> upload_tmp k rnd \<longrightarrow> m p = fs_files s p"
      using s4(1) by (auto simp: fs_keeps_def)
    show ?thesis
      by (intro exI [of _ "fs_files s4 # new"]) (use res s4 new names whole k in auto)
  qed
qed

theorem upload_atomic_witness:
  "serve_upload demo_mac ''k'' 10 ''web'' (uk_hash demo_upload_key) demo_upload_query ([''da'', ''ta''], None) unix_epoch ''R'' demo_upload_fs
     = (WriteHeader 200, snd (serve_upload demo_mac ''k'' 10 ''web'' (uk_hash demo_upload_key) demo_upload_query ([''da'', ''ta''], None) unix_epoch ''R'' demo_upload_fs))
   \<and> fs_files (snd (serve_upload demo_mac ''k'' 10 ''web'' (uk_hash demo_upload_key) demo_upload_query ([''da'', ''ta''], None) unix_epoch ''R'' demo_upload_fs))
       (uploadKey_path demo_upload_key) = Some ''data''"
proof -
  have key: "uploadKeyOf ''acme'' ''web'' (uk_hash demo_upload_key) = Inr demo_upload_key" by code_simp
  have plain: "plain_key demo_upload_key" by code_simp
  have dir: "root_name (path_Dir (uploadKey_path demo_upload_key)) = Inr ''acme/web''" by code_simp
  have "strconv_Itoa 3600 = ''3600''" by code_simp
  then have exp: "strconv_Atoi ''3600'' = Some 3600" using strconv_Atoi_Itoa [of 3600] by simp
  have ok: "fst (serve_upload demo_mac ''k'' 10 ''web'' (uk_hash demo_upload_key) demo_upload_query ([''da'', ''ta''], None) unix_epoch ''R'' demo_upload_fs) = WriteHeader 200"
    using upload_names(1,3) [OF plain, of "''R''"] dir
    by (simp add: serve_upload_def key exp query_Get_def demo_upload_query_def upload_refusal_def Let_def time_Unix_def
        upload_put_def fs_MkdirAll_def fs_Create_def fs_Write_def fs_Close_def fs_Rename_def fs_change_def demo_upload_fs_def)
  have ns: "query_Get demo_upload_query ''ns'' = ''acme''" by (simp add: query_Get_def demo_upload_query_def)
  have "plain_name (query_Get demo_upload_query ''ns'')" "''web'' \<noteq> []" "CHR ''/'' \<notin> set ''R''" by (simp_all add: ns plain_name_def)
  from upload_atomic [OF this prod.collapse [symmetric], of demo_mac "''k''" 10 "uk_hash demo_upload_key" "[''da'', ''ta'']" None unix_epoch demo_upload_fs] ok
  have "fs_files (snd (serve_upload demo_mac ''k'' 10 ''web'' (uk_hash demo_upload_key) demo_upload_query ([''da'', ''ta''], None) unix_epoch ''R'' demo_upload_fs))
      (uploadKey_path \<lparr>uk_ns = ''acme'', uk_template = ''web'', uk_hash = uk_hash demo_upload_key\<rparr>) = Some (concat [''da'', ''ta''])"
    unfolding ns by blast
  then show ?thesis using ok by (simp add: prod_eq_iff demo_upload_key_def)
qed

text \<open>
  C10. An upload link opens exactly what it was made for: a request carrying the signature of a link is let through
  if and only if it names the link's namespace, template and hash, carries the link's expiry, and comes before it. The
  keyed hash is assumed to tell the two signed texts apart.
\<close>

theorem upload_link_binds:
  assumes "uploadKeyOf ns t h = Inr k" and "uploadKeyOf ns' t' h' = Inr k'"
    and "query_Get q ''sig'' = uploadSig mac secret k (upload_expires now)"
    and "mac secret (upload_text k (upload_expires now)) = mac secret (upload_text k' (query_Get q ''expires''))
      \<longrightarrow> upload_text k (upload_expires now) = upload_text k' (query_Get q ''expires'')"
    and "- (2 ^ 63) \<le> time_Unix (now + uploadURLTTL)" and "time_Unix (now + uploadURLTTL) < 2 ^ 63"
  shows "upload_refusal mac secret k' q now' = None
    \<longleftrightarrow> k' = k \<and> query_Get q ''expires'' = upload_expires now \<and> time_Unix now' \<le> time_Unix (now + uploadURLTTL)"
proof -
  have "uploadSig mac secret k (upload_expires now) = uploadSig mac secret k' (query_Get q ''expires'')
      \<longleftrightarrow> k' = k \<and> query_Get q ''expires'' = upload_expires now"
    using assms(4) upload_text_inj [OF uploadKeyOf_accepts(2) [OF assms(1)] uploadKeyOf_accepts(2) [OF assms(2)]]
    by (auto simp: uploadSig_def AccessToken_def dest: hex_inj)
  moreover have "strconv_Atoi (upload_expires now) = Some (time_Unix (now + uploadURLTTL))"
    unfolding upload_expires_def by (rule strconv_Atoi_Itoa) (use assms(5,6) in auto)
  ultimately show ?thesis using assms(3) by (auto simp: upload_refusal_def Let_def split: if_splits)
qed

theorem upload_link_binds_witness:
  "upload_refusal demo_mac ''k'' demo_upload_key demo_upload_query unix_epoch = None
   \<and> upload_refusal demo_mac ''k'' (demo_upload_key\<lparr>uk_ns := ''rival''\<rparr>) demo_upload_query unix_epoch \<noteq> None
   \<and> upload_refusal demo_mac ''k'' demo_upload_key demo_upload_query (unix_epoch + 3601 * second) \<noteq> None"
proof -
  have keys: "uploadKeyOf ''acme'' ''web'' (uk_hash demo_upload_key) = Inr demo_upload_key"
    "uploadKeyOf ''rival'' ''web'' (uk_hash demo_upload_key) = Inr (demo_upload_key\<lparr>uk_ns := ''rival''\<rparr>)" by code_simp+
  have t: "time_Unix (unix_epoch + uploadURLTTL) = 3600" "time_Unix (unix_epoch + 3601 * second) = 3601" "time_Unix unix_epoch = 0"
    by (simp_all add: time_Unix_def uploadURLTTL_def second_def)
  have x: "upload_expires unix_epoch = ''3600''" unfolding upload_expires_def t by code_simp
  have q: "query_Get demo_upload_query ''expires'' = ''3600''"
    "query_Get demo_upload_query ''sig'' = uploadSig demo_mac ''k'' demo_upload_key (upload_expires unix_epoch)"
    by (simp_all add: query_Get_def demo_upload_query_def x)
  have b: "upload_refusal demo_mac ''k'' k' demo_upload_query now' = None
      \<longleftrightarrow> k' = demo_upload_key \<and> time_Unix now' \<le> 3600" if "uploadKeyOf ns' ''web'' (uk_hash demo_upload_key) = Inr k'" for ns' k' now'
    using upload_link_binds [OF keys(1) that q(2), of now'] by (simp add: t [simplified] x q(1) demo_mac_def)
  show ?thesis using b [OF keys(1)] b [OF keys(2)] by (simp add: t demo_upload_key_def)
qed

end
