(* ===== verification/E2B_Builds.thy ===== *)
theory E2B_Builds
  imports E2B_Accounting E2B_Uploads
begin

text \<open>
  The template build API (pkg/e2bcompat/builds.go): registering and starting a build, its status, and
  publishing it over the builds it replaces. The executor is the one of \<open>Build_Executor\<close>; a build that a start
  launched is its \<open>build_Spec\<close>, which the executor's goroutine runs. \<open>liveHolders\<close> asks its nodes concurrently: it is
  taken to ask them in the source's order, and to answer the first failure in that order. The random build
  id and claim name are arguments.
\<close>

definition logLevels :: "string list" where
  "logLevels = [''debug'', ''info'', ''warn'', ''error'']"

record TemplateBuildStartV2 =
  bv_FromImage :: string
  bv_FromTemplate :: string
  bv_FromImageRegistry :: string
  bv_Steps :: "build_Step list"
  bv_StartCmd :: string
  bv_ReadyCmd :: string

section \<open>Requests\<close>

definition buildKey :: "string \<Rightarrow> string \<Rightarrow> string \<Rightarrow> string" where
  "buildKey ns name buildID = ns @ ''/'' @ name @ ''/'' @ buildID"

definition unsupportedBuildOption :: "TemplateBuildStartV2 \<Rightarrow> bool \<Rightarrow> msg option" where
  "unsupportedBuildOption req canCopy =
     (if bv_FromTemplate req \<noteq> [] then Some (Msg ''fromTemplate is not supported yet; build from an image'' [])
      else if length (bv_FromImageRegistry req) > 0 \<and> bv_FromImageRegistry req \<noteq> ''null''
      then Some (Msg ''fromImageRegistry is not supported; a pool pulls its own image'' [])
      else if bv_FromImage req = [] then Some (Msg ''fromImage is required'' [])
      else if strings_HasPrefix (bv_FromImage req) templatePrefix
      then Some (Msg ''fromImage names a built template; build from an image'' [])
      else Invalid (bv_Steps req) canCopy)"

definition sizeFor :: "int \<Rightarrow> int \<Rightarrow> string" where
  "sizeFor cpuCount memoryMB =
     (if cpuCount \<le> 0 \<and> memoryMB \<le> 0 then []
      else SizeClassForContainers
        [\<lparr>ct_Image = [], ct_RequestsCPU = (if cpuCount > 0 then cpuCount * nano else 0),
          ct_RequestsMemory = (if memoryMB > 0 then memoryMB * 2 ^ 20 * nano else 0), ct_LimitsCPU = 0, ct_LimitsMemory = 0\<rparr>])"

definition requestBuild :: "string \<Rightarrow> TemplateBuildRequestV3 request_body \<Rightarrow> string \<Rightarrow> time \<Rightarrow> executor \<Rightarrow> e2b_reply \<times> executor" where
  "requestBuild ns body buildID now e =
     (case decodeBody body of
        Inl r \<Rightarrow> (r, e)
      | Inr req \<Rightarrow>
          (let (name, tag) = cut_tag (cmp_Or (br_Name req) (br_Alias req))
           in if name = [] then (WriteErr 400 (Msg ''name is required'' []), e)
              else (case StampedName ''template'' templatePrefix ns name of
                      Inl err \<Rightarrow> (refused_name err, e)
                    | Inr _ \<Rightarrow>
                        (let tags = (if tag \<noteq> [] \<and> tag \<notin> set (br_Tags req) then br_Tags req @ [tag] else br_Tags req)
                         in (WriteJSON 202 (J_Build \<lparr>tr_TemplateID = name, tr_BuildID = buildID, tr_Public = True,
                               tr_Names = taggedNames name tags, tr_Tags = tags, tr_Aliases = [name]\<rparr>),
                             build_Register now (buildKey ns name buildID)
                               \<lparr>bq_Size = sizeFor (br_CPUCount req) (br_MemoryMB req), bq_Tags = tags\<rparr> e)))))"

section \<open>Publishing\<close>

definition own_template :: "string \<Rightarrow> PromotedTemplate \<Rightarrow> bool" where
  "own_template template t = (pt_Template t = template \<and> pt_Tenant t = [])"

definition live_holder :: "string \<Rightarrow> PromotedTemplate \<Rightarrow> templateHolder" where
  "live_holder n t = (holder_of n t)\<lparr>th_labels := []\<rparr>"

fun node_holders :: "'w scatterGatherStore \<Rightarrow> string \<Rightarrow> string list \<Rightarrow> 'w \<Rightarrow> err + templateHolder list" where
  "node_holders st template [] w = Inr []"
| "node_holders st template (n # ns) w =
     (case NodeTemplates st n w of
        Inl e \<Rightarrow> Inl (Wrap (Msg ''node %s: %w'' [n]) e)
      | Inr held \<Rightarrow>
          (case node_holders st template ns w of
             Inl e \<Rightarrow> Inl e
           | Inr hs \<Rightarrow> Inr (map (live_holder n) (filter (own_template template) held) @ hs)))"

definition liveHolders :: "'w InventorySource \<Rightarrow> 'w scatterGatherStore \<Rightarrow> string \<Rightarrow> 'w \<Rightarrow> err + templateHolder list" where
  "liveHolders src st template w = (case src_ListNodes src w of Inl e \<Rightarrow> Inl e | Inr nodes \<Rightarrow> node_holders st template nodes w)"

definition replaced :: "err \<Rightarrow> bool" where
  "replaced e = (case as_StatusError e of Some (code, _) \<Rightarrow> code = 412 | None \<Rightarrow> False)"

definition delete_holder :: "'w scatterGatherStore \<Rightarrow> templateHolder \<Rightarrow> 'w \<Rightarrow> err option \<times> 'w" where
  "delete_holder st h w =
     (case unit_err (DeleteTemplate st (th_node h) (th_key h) (th_digest h) w) of
        (Some e, w') \<Rightarrow> (if replaced e then None else Some e, w')
      | (None, w') \<Rightarrow> (None, w'))"

definition newer_build :: "string \<Rightarrow> string \<Rightarrow> err" where
  "newer_build name node = PlainError (Msg ''a newer build of %s replaced this one on %s'' [name, node])"

definition tag_build :: "'w scatterGatherStore \<Rightarrow> string \<Rightarrow> string list \<Rightarrow> string \<Rightarrow> PoolKey \<Rightarrow> string \<Rightarrow> 'w \<Rightarrow> err option \<times> 'w" where
  "tag_build st name tags node key digest w =
     (if tags = [] then (None, w)
      else (case unit_err (SetTemplateLabels st node key (fold (\<lambda>t. AList.update t digest) tags []) digest w) of
              (Some e, w') \<Rightarrow> (Some (if replaced e then newer_build name node else e), w')
            | (None, w') \<Rightarrow> (None, w')))"

definition publishBuild :: "'w InventorySource \<Rightarrow> 'w scatterGatherStore \<Rightarrow> string \<Rightarrow> string \<Rightarrow> string list
   \<Rightarrow> string \<Rightarrow> PoolKey \<Rightarrow> string \<Rightarrow> 'w \<Rightarrow> err option \<times> 'w" where
  "publishBuild src st scope name tags node key digest w =
     (case liveHolders src st (scope @ name) w of
        Inl e \<Rightarrow> (Some (Wrap (Msg ''list the previous builds: %w'' []) e), w)
      | Inr holders \<Rightarrow>
          (case find (\<lambda>h. th_node h = node \<and> th_key h = key) holders of
             None \<Rightarrow> (Some (PlainError (Msg ''the build's template is no longer on %s'' [node])), w)
           | Some own \<Rightarrow>
               if th_digest own \<noteq> digest then (Some (newer_build name node), w)
               else (case forEachHolder (delete_holder st) (filter (\<lambda>h. th_created h < th_created own) holders) w of
                       (Some e, w') \<Rightarrow> (Some (Wrap (Msg ''delete the previous build: %w'' []) e), w')
                     | (None, w') \<Rightarrow> tag_build st name tags node key digest w')))"

section \<open>Starts\<close>

text \<open>
  A server without an upload store passes COPY steps by no check, so the archives its builds would read are
  never asked for. The spec of a start, and the build it launched.
\<close>

definition build_spec :: "'w uploadStore option \<Rightarrow> 'w InventorySource \<Rightarrow> 'w Server \<Rightarrow> 'w scatterGatherStore \<Rightarrow> string \<Rightarrow> string \<Rightarrow> string
   \<Rightarrow> build_Request \<Rightarrow> TemplateBuildStartV2 \<Rightarrow> 'w build_Spec" where
  "build_spec u src s st ns name claimName pending req =
     (let pool = server_poolKey s (bv_FromImage req)
      in \<lparr>sp_Namespace = ns, sp_ClaimName = claimName,
          sp_Pool = pool\<lparr>pk_Net := NetDefault, pk_Size := cmp_Or (bq_Size pending) (pk_Size pool)\<rparr>,
          sp_Template = templateScope ns @ name, sp_Steps = bv_Steps req, sp_StartCmd = bv_StartCmd req, sp_ReadyCmd = bv_ReadyCmd req,
          sp_Archive = (case u of Some uploads \<Rightarrow> upload_archive uploads ns name | None \<Rightarrow> (\<lambda>h w. Inl ErrNotExist)),
          sp_Publish = Some (publishBuild src st (templateScope ns) name (bq_Tags pending))\<rparr>)"

definition startBuild :: "'w uploadStore option \<Rightarrow> 'w InventorySource \<Rightarrow> 'w Server \<Rightarrow> 'w scatterGatherStore \<Rightarrow> string \<Rightarrow> string \<Rightarrow> string
   \<Rightarrow> TemplateBuildStartV2 request_body \<Rightarrow> string \<Rightarrow> executor \<Rightarrow> e2b_reply \<times> 'w build_Spec option \<times> executor" where
  "startBuild u src s st ns name buildID body claimName e =
     (case decodeBody body of
        Inl r \<Rightarrow> (r, None, e)
      | Inr req \<Rightarrow>
          (case unsupportedBuildOption req (u \<noteq> None) of
             Some m \<Rightarrow> (WriteErr 400 m, None, e)
           | None \<Rightarrow>
               (let i = buildKey ns name buildID
                in case build_Requested i e of
                     None \<Rightarrow> (WriteErr 404 (Msg ''build not found on this replica'' []), None, e)
                   | Some pending \<Rightarrow>
                       (case build_Start i e of
                          (Some err, launched, e') \<Rightarrow>
                            (if err_Is err ErrBusy then WriteErr 429 (Msg ''every build slot is busy; retry the start'' [])
                             else if err_Is err ErrUnknownBuild then WriteErr 404 (Msg ''build not found on this replica'' [])
                             else WriteHeader 202, None, e')
                        | (None, launched, e') \<Rightarrow>
                            (WriteHeader 202, if launched then Some (build_spec u src s st ns name claimName pending req) else None, e')))))"

section \<open>Status\<close>

text \<open>\<^verbatim>\<open>t.UTC().Format(time.RFC3339Nano)\<close>: the fraction of the second without its trailing zeros.\<close>

definition format_RFC3339Nano :: "time \<Rightarrow> string" where
  "format_RFC3339Nano t =
     (let f = t mod 1000000000
      in butlast (format_RFC3339 t)
         @ (if f = 0 then [] else ''.'' @ rev (dropWhile (\<lambda>c. c = CHR ''0'') (rev (pad 9 f)))) @ ''Z'')"

definition sdkStep :: "string \<Rightarrow> string" where
  "sdkStep phase =
     (if phase = PhaseClaim then ''base''
      else if phase = PhaseFinalize \<or> phase = PhasePromote \<or> phase = PhasePublish then ''finalize''
      else phase)"

definition logEntryOf :: "LogEntry \<Rightarrow> BuildLogEntry" where
  "logEntryOf l =
     \<lparr>bl_Timestamp = format_RFC3339Nano (le_Time l), bl_Message = le_Message l, bl_Level = le_Level l, bl_Step = sdkStep (le_Phase l)\<rparr>"

definition queryInt :: "string \<Rightarrow> int option" where
  "queryInt v =
     (if v = [] then Some 0
      else (case strconv_Atoi v of None \<Rightarrow> None | Some n \<Rightarrow> if n < 0 then None else Some n))"

text \<open>\<^verbatim>\<open>slices.Index\<close>.\<close>

fun slices_Index :: "string list \<Rightarrow> string \<Rightarrow> int" where
  "slices_Index [] v = - 1"
| "slices_Index (x # xs) v = (if x = v then 0 else case slices_Index xs v of i \<Rightarrow> if i < 0 then - 1 else i + 1)"

text \<open>The loop over the log: the level's floor, the offset still to skip, and the entries so far.\<close>

fun status_entries :: "int \<Rightarrow> int \<Rightarrow> LogEntry list \<Rightarrow> int \<Rightarrow> BuildLogEntry list \<Rightarrow> BuildLogEntry list" where
  "status_entries floor' limit [] offset entries = entries"
| "status_entries floor' limit (l # ls) offset entries =
     (if slices_Index logLevels (le_Level l) < floor' then status_entries floor' limit ls offset entries
      else if offset > 0 then status_entries floor' limit ls (offset - 1) entries
      else if limit \<le> 0 \<or> int (length entries) < limit then status_entries floor' limit ls offset (entries @ [logEntryOf l])
      else status_entries floor' limit ls offset entries)"

definition status_reason :: "build_Info \<Rightarrow> BuildStatusReason option" where
  "status_reason info =
     (if if_Status info = StatusErrored
      then Some \<lparr>bs_Message = if_Failure info, bs_Step = sdkStep (if_FailedPhase info),
             bs_LogEntries = (if if_Logs info = [] then [] else [logEntryOf (last (if_Logs info))])\<rparr>
      else None)"

definition level_floor :: "url_values \<Rightarrow> int" where
  "level_floor q = max (slices_Index logLevels (query_Get q ''level'')) 0"

definition buildStatus :: "string \<Rightarrow> string \<Rightarrow> string \<Rightarrow> url_values \<Rightarrow> time \<Rightarrow> executor \<Rightarrow> e2b_reply \<times> executor" where
  "buildStatus ns name buildID q now e =
     (case build_Status now (buildKey ns name buildID) e of
        (None, e') \<Rightarrow> (WriteErr 404 (Msg ''build not found on this replica'' []), e')
      | (Some info, e') \<Rightarrow>
          (case queryInt (query_Get q ''logsOffset'') of
             None \<Rightarrow> (WriteErr 400 (Msg ''logsOffset must be a non-negative integer'' []), e')
           | Some offset \<Rightarrow>
               (case queryInt (query_Get q ''limit'') of
                  None \<Rightarrow> (WriteErr 400 (Msg ''limit must be a non-negative integer'' []), e')
                | Some limit \<Rightarrow>
                    (WriteJSON 200 (J_BuildInfo \<lparr>bi_TemplateID = name, bi_BuildID = buildID, bi_Status = if_Status info,
                       bi_LogEntries = status_entries (level_floor q) limit (if_Logs info) offset [],
                       bi_Reason = status_reason info\<rparr>), e'))))"

section \<open>Lemmas\<close>

text \<open>The page of a log: what a level lets through, cut to the offset and the limit.\<close>

definition log_page :: "int \<Rightarrow> int \<Rightarrow> int \<Rightarrow> LogEntry list \<Rightarrow> BuildLogEntry list" where
  "log_page floor' offset limit ls =
     map logEntryOf ((if limit \<le> 0 then (\<lambda>xs. xs) else take (nat limit))
       (drop (nat offset) (filter (\<lambda>l. floor' \<le> slices_Index logLevels (le_Level l)) ls)))"

lemma status_entries_cut:
  assumes "0 \<le> offset"
  shows "status_entries floor' limit ls offset entries = entries @ map logEntryOf
    ((if limit \<le> 0 then (\<lambda>xs. xs) else take (nat limit - length entries))
      (drop (nat offset) (filter (\<lambda>l. floor' \<le> slices_Index logLevels (le_Level l)) ls)))"
  using assms
proof (induction ls arbitrary: offset entries)
  case (Cons l ls)
  show ?case
  proof (cases "floor' \<le> slices_Index logLevels (le_Level l) \<and> offset = 0")
    case True
    then show ?thesis using Cons.IH [of 0 entries] Cons.IH [of 0 "entries @ [logEntryOf l]"]
      by (cases "nat limit - length entries") (auto simp: diff_Suc)
  next
    case False
    then show ?thesis using Cons.IH [of offset entries] Cons.IH [of "offset - 1" entries] Cons.prems
      by (cases "nat offset") (auto simp: nat_diff_distrib')
  qed
qed simp

lemma status_page: "0 \<le> offset \<Longrightarrow> 0 \<le> limit \<Longrightarrow> status_entries floor' limit ls offset [] = log_page floor' offset limit ls"
  by (simp add: status_entries_cut log_page_def)

lemma queryInt_nonneg: "queryInt v = Some n \<Longrightarrow> 0 \<le> n"
  by (auto simp: queryInt_def split: option.splits if_splits)

lemma queryInt_Itoa: "0 \<le> n \<Longrightarrow> n < 2 ^ 63 \<Longrightarrow> queryInt (strconv_Itoa n) = Some n"
  using strconv_Atoi_Itoa [of n] by (auto simp: queryInt_def strconv_Itoa_def split: if_splits)

lemma log_page_resumes:
  assumes "0 \<le> offset"
  shows "log_page floor' offset limit ls @ log_page floor' (offset + int (length (log_page floor' offset limit ls))) 0 (ls @ later)
    = log_page floor' offset 0 (ls @ later)"
proof -
  let ?sel = "filter (\<lambda>l. floor' \<le> slices_Index logLevels (le_Level l))"
  define xs where "xs = drop (nat offset) (?sel ls)"
  define p where "p = (if limit \<le> 0 then xs else take (nat limit) xs)"
  have p: "p = take (length p) xs" by (auto simp: p_def min_def)
  have page: "log_page floor' offset limit ls = map logEntryOf p" by (simp add: log_page_def p_def xs_def)
  have "p = take (length p) (drop (nat offset) (?sel (ls @ later)))" by (subst p) (simp add: xs_def p_def)
  then have "p @ drop (nat offset + length p) (?sel (ls @ later)) = drop (nat offset) (?sel (ls @ later))"
    by (metis append_take_drop_id drop_drop add.commute)
  then show ?thesis unfolding page using assms by (simp add: log_page_def nat_add_distrib flip: map_append)
qed

section \<open>A build's guest and the ledger\<close>

text \<open>What a build does inside its guest leaves the ledger of claims alone when each call into the guest does.\<close>

locale quiet_guest =
  fixes held :: "'w \<Rightarrow> 'l" and g :: "'w Guest"
  assumes runs: "held (snd (snd (gu_Run g a c w))) = held w" and starts: "held (snd (gu_Start g a c w)) = held w"
    and inits: "held (snd (gu_Init g a c w)) = held w" and writes: "held (snd (gu_Write g a path data w)) = held w"
begin

lemma calls:
  "gu_Run g a c w = (r, out, w') \<Longrightarrow> held w' = held w" "gu_Start g a c w = (e, w') \<Longrightarrow> held w' = held w"
  "gu_Init g a c w = (e, w') \<Longrightarrow> held w' = held w" "gu_Write g a path data w = (e, w') \<Longrightarrow> held w' = held w"
  using runs [of a c w] starts [of a c w] inits [of a c w] writes [of a path data w] by simp_all

lemma sh_quiet: "run_sh g a c w = (r, out, w') \<Longrightarrow> held w' = held w"
  by (auto simp: run_sh_def Let_def split: prod.splits sum.splits if_splits dest: calls)

lemma expand_quiet: "run_expand g a root phase v w = (r, ops, w') \<Longrightarrow> held w' = held w"
  by (auto simp: run_expand_def split: prod.splits dest: sh_quiet)

lemma env_quiet: "env_pairs g a root phase args envs w = (r, ops, w') \<Longrightarrow> held w' = held w"
proof (induction args arbitrary: envs w r ops w' rule: induct_list012)
  case (3 k v args)
  obtain q ops1 w1 where x: "run_expand g a root phase v w = (q, ops1, w1)" by (rule prod_cases3)
  show ?case using "3.IH"(1) "3.prems" x expand_quiet [OF x] by (cases q) (auto split: prod.splits)
qed simp_all

lemma copy_quiet: "copyIn g a spec h w = (r, w') \<Longrightarrow> held w' = held w"
  by (auto simp: copyIn_def split: prod.splits sum.splits option.splits dest: calls)

lemma step_quiet: "run_step g phase a spec state s w = (r, ops, w') \<Longrightarrow> held w' = held w"
  by (auto simp: run_step_def Let_def split: go_splits dest!: sh_quiet env_quiet copy_quiet)

lemma steps_quiet: "run_steps g i a spec state ss w = (r, ops, w') \<Longrightarrow> held w' = held w"
  by (induction ss arbitrary: i state w r ops) (fastforce simp: Let_def split: prod.splits sum.splits dest: step_quiet)+

lemma ready_quiet: "awaitReady polls g a c w = (e, w') \<Longrightarrow> held w' = held w"
  by (induction polls arbitrary: w; subst (asm) awaitReady.simps) (fastforce split: prod.splits if_splits dest: calls)+

lemma prepare_quiet: "run_prepare polls g a spec w = (r, ops, w') \<Longrightarrow> held w' = held w"
  by (auto simp: run_prepare_def run_finalize_def Let_def split: go_splits
      dest!: steps_quiet calls ready_quiet)

end

lemma guest_quiet:
  "snd (snd (snd (guest_Run (ledgered_envd o') (ledgered_store st) a c wl))) = snd wl"
  "snd (snd (guest_Start (ledgered_envd o') (ledgered_store st) a c wl)) = snd wl"
  "snd (snd (guest_Init env (ledgered_envd o') (ledgered_store st) a c wl)) = snd wl"
  "snd (snd (guest_Write (ledgered_envd o') (ledgered_store st) a path data wl)) = snd wl"
  by (auto simp: guest_Run_def guest_Start_def guest_Write_def Let_def e2b_ledger.close split: prod.splits sum.splits
      dest!: e2b_ledger.process_held [OF same_fleet_refl] e2b_ledger.round_trip_held [OF same_fleet_refl])
    (metis guest_Init_def e2b_ledger.init_held [OF same_fleet_refl] surj_pair snd_conv)

interpretation build_guest: quiet_guest snd "envdGuest env (ledgered_envd o') (ledgered_store st)" for env o' st
  by unfold_locales (simp_all add: envdGuest_def guest_quiet)

text \<open>Publishing only deletes and labels templates.\<close>

lemma publish_quiet:
  assumes "publishBuild src (ledgered_store st) scope name tags node key digest wl = (r, wl')"
  shows "snd wl' = snd wl"
proof -
  have del: "snd v' = snd v" if "DeleteTemplate (ledgered_store st) n k d v = (q, v')" for n k d v q v'
    using ledger.quiet_verbs [OF same_fleet_refl] that by (metis snd_conv)
  have lab: "snd v' = snd v" if "SetTemplateLabels (ledgered_store st) n k ls d v = (q, v')" for n k ls d v q v'
    using ledger.quiet_verbs [OF same_fleet_refl] that by (metis snd_conv)
  have "snd v' = snd v" if "forEachHolder (delete_holder (ledgered_store st)) hs v = (q, v')" for hs v q v'
    using that
  proof (induction hs arbitrary: v q)
    case (Cons h hs)
    obtain q1 v1 where d: "DeleteTemplate (ledgered_store st) (th_node h) (th_key h) (th_digest h) v = (q1, v1)" by (metis surj_pair)
    then have "snd (delete_holder (ledgered_store st) h v) = v1"
      by (simp add: delete_holder_def unit_err_def split: sum.splits)
    then obtain q2 where "forEachHolder (delete_holder (ledgered_store st)) hs v1 = (q2, v')"
      using Cons.prems by (auto split: prod.splits)
    from Cons.IH [OF this] del [OF d] show ?case by simp
  qed simp
  then show ?thesis using assms
    by (auto simp: publishBuild_def tag_build_def unit_err_def split: go_splits dest!: lab)
      (metis lab surj_pair snd_conv)+
qed

section \<open>The calls of a publish\<close>

text \<open>A store that records what it asked of the nodes about templates, newest first, with the answers.\<close>

datatype template_call =
    DeletedTemplate string PoolKey string "err option"
  | LabelledTemplate string PoolKey "(string \<times> string) list" string "err option"

definition audit_verb :: "(err option \<Rightarrow> 'c) \<Rightarrow> ('w \<Rightarrow> (err + unit) \<times> 'w) \<Rightarrow> 'w \<times> 'c list \<Rightarrow> (err + unit) \<times> 'w \<times> 'c list" where
  "audit_verb call verb wl =
     (case verb (fst wl) of (r, w') \<Rightarrow> (r, w', call (case r of Inl e \<Rightarrow> Some e | Inr _ \<Rightarrow> None) # snd wl))"

definition audited_client :: "string \<Rightarrow> 'w SandboxdClient \<Rightarrow> ('w \<times> template_call list) SandboxdClient" where
  "audited_client addr cl =
     (carrying_client cl)\<lparr>cl_DeleteTemplate := (\<lambda>k d. audit_verb (DeletedTemplate addr k d) (cl_DeleteTemplate cl k d)),
      cl_SetTemplateLabels := (\<lambda>k ls d. audit_verb (LabelledTemplate addr k ls d) (cl_SetTemplateLabels cl k ls d))\<rparr>"

definition audited_store :: "'w scatterGatherStore \<Rightarrow> ('w \<times> template_call list) scatterGatherStore" where
  "audited_store = carrying_store audited_client"

text \<open>A node whose client every verb reaches.\<close>

definition reachable_at :: "'w scatterGatherStore \<Rightarrow> string \<Rightarrow> string \<Rightarrow> bool" where
  "reachable_at s node addr \<longleftrightarrow> sg_factory s \<noteq> None \<and> node \<noteq> [] \<and> addr \<noteq> [] \<and> lives_at s node addr"

lemma reached_client:
  assumes "reachable_at s node addr"
  shows "with_client s node verb i call h w =
    (case call (the (sg_factory s) addr (sg_token s)) w of (Inl e, w') \<Rightarrow> (Inl (h e), w') | (Inr a, w') \<Rightarrow> (Inr a, w'))"
proof -
  obtain pools where "src_NodeCapacity (sg_src s) w node = Inr (addr, pools)" using assms by (auto simp: reachable_at_def lives_at_def)
  then show ?thesis using assms by (auto simp: with_client_def nodeClient_def reachable_at_def split: option.splits)
qed

lemma asked_reachable:
  assumes "stable_source (sg_src s)" "NodeTemplates s node w = Inr ts"
  shows "\<exists>addr. reachable_at s node addr"
  using assms stable_lives(2) [OF assms(1)]
  by (auto simp: NodeTemplates_def nodeClient_def reachable_at_def split: go_splits)

text \<open>Who holds a template, from the nodes themselves.\<close>

definition reported_live :: "'w InventorySource \<Rightarrow> 'w scatterGatherStore \<Rightarrow> string \<Rightarrow> 'w \<Rightarrow> templateHolder \<Rightarrow> bool" where
  "reported_live src s template w h \<longleftrightarrow> (\<exists>nodes n held t. src_ListNodes src w = Inr nodes \<and> n \<in> set nodes
     \<and> NodeTemplates s n w = Inr held \<and> t \<in> set held \<and> own_template template t \<and> h = live_holder n t)"

lemma node_holders_set:
  "node_holders s template ns w = Inr hs \<Longrightarrow>
     h \<in> set hs \<longleftrightarrow> (\<exists>n held t. n \<in> set ns \<and> NodeTemplates s n w = Inr held \<and> t \<in> set held \<and> own_template template t \<and> h = live_holder n t)"
proof (induction ns arbitrary: hs)
  case (Cons n ns)
  then obtain held hs1 where n: "NodeTemplates s n w = Inr held" and r: "node_holders s template ns w = Inr hs1"
    and hs: "hs = map (live_holder n) (filter (own_template template) held) @ hs1" by (auto split: sum.splits)
  show ?case unfolding hs using Cons.IH [OF r] n by auto
qed simp

lemma liveHolders_reported: "liveHolders src s template w = Inr hs \<Longrightarrow> h \<in> set hs \<longleftrightarrow> reported_live src s template w h"
  by (auto simp: liveHolders_def reported_live_def node_holders_set split: sum.splits)

lemma reported_reachable:
  "stable_source (sg_src s) \<Longrightarrow> reported_live src s template w h \<Longrightarrow> \<exists>addr. reachable_at s (th_node h) addr"
  by (auto simp: reported_live_def live_holder_def holder_of_def dest: asked_reachable)

text \<open>The deletes of a fan-out: one for each holder, and all of them confirmed or outdated if it reports no failure.\<close>

definition delete_call :: "('w \<times> template_call list) scatterGatherStore \<Rightarrow> templateHolder \<Rightarrow> template_call \<Rightarrow> bool" where
  "delete_call s h c \<longleftrightarrow> (\<exists>addr e. reachable_at s (th_node h) addr \<and> c = DeletedTemplate addr (th_key h) (th_digest h) e)"

definition delete_done :: "('w \<times> template_call list) scatterGatherStore \<Rightarrow> templateHolder \<Rightarrow> template_call \<Rightarrow> bool" where
  "delete_done s h c \<longleftrightarrow> (\<exists>addr e. reachable_at s (th_node h) addr \<and> c = DeletedTemplate addr (th_key h) (th_digest h) e
     \<and> (e = None \<or> replaced (nodeVerbError (the e) ''delete template'' (pk_Template (th_key h)) (th_node h))))"

lemma delete_audited:
  assumes "reachable_at (audited_store st) (th_node h) addr" "delete_holder (audited_store st) h (w, l) = (r, wl)"
  shows "\<exists>c. snd wl = c # l \<and> delete_call (audited_store st) h c \<and> (r = None \<longrightarrow> delete_done (audited_store st) h c)"
proof -
  obtain f where f: "sg_factory st = Some f" using assms(1) by (auto simp: reachable_at_def audited_store_def carrying_store_def)
  obtain q w1 where q: "cl_DeleteTemplate (f addr (sg_token st)) (th_key h) (th_digest h) w = (q, w1)" by (metis surj_pair)
  have "DeleteTemplate (audited_store st) (th_node h) (th_key h) (th_digest h) (w, l) =
      (case q of Inl e \<Rightarrow> Inl (nodeVerbError e ''delete template'' (pk_Template (th_key h)) (th_node h)) | Inr u \<Rightarrow> Inr u,
       w1, DeletedTemplate addr (th_key h) (th_digest h) (case q of Inl e \<Rightarrow> Some e | Inr u \<Rightarrow> None) # l)"
    using f q unfolding DeleteTemplate_def reached_client [OF assms(1)]
    by (simp add: audited_store_def carrying_store_def audited_client_def audit_verb_def split: sum.splits)
  then show ?thesis using assms
    by (auto simp: delete_holder_def unit_err_def delete_call_def delete_done_def split: sum.splits if_splits)
qed

lemma deletes_audited:
  assumes "\<forall>h \<in> set hs. \<exists>addr. reachable_at (audited_store st) (th_node h) addr" "forEachHolder (delete_holder (audited_store st)) hs wl = (r, wl')"
  shows "\<exists>new. snd wl' = new @ snd wl \<and> list_all2 (delete_call (audited_store st)) (rev hs) new
    \<and> (r = None \<longrightarrow> list_all2 (delete_done (audited_store st)) (rev hs) new)"
  using assms
proof (induction hs arbitrary: wl r)
  case (Cons h hs)
  obtain r1 wl1 where d: "delete_holder (audited_store st) h wl = (r1, wl1)" by (metis surj_pair)
  obtain r2 where t: "forEachHolder (delete_holder (audited_store st)) hs wl1 = (r2, wl')"
    and r: "r = None \<longrightarrow> r1 = None \<and> r2 = None" using Cons.prems(2) d by (auto split: prod.splits option.splits)
  obtain addr where "reachable_at (audited_store st) (th_node h) addr" using Cons.prems(1) by auto
  from delete_audited [OF this, of "fst wl" "snd wl"] d obtain c where c: "snd wl1 = c # snd wl"
    "delete_call (audited_store st) h c" "r1 = None \<longrightarrow> delete_done (audited_store st) h c" by auto
  obtain new where new: "snd wl' = new @ snd wl1" "list_all2 (delete_call (audited_store st)) (rev hs) new"
    "r2 = None \<longrightarrow> list_all2 (delete_done (audited_store st)) (rev hs) new" using Cons.IH [OF _ t] Cons.prems(1) by auto
  show ?case
    by (intro exI [of _ "new @ [c]"]) (use c new r in \<open>auto intro: list_all2_appendI\<close>)
qed simp

lemma list_all2_partners:
  "list_all2 P xs ys \<Longrightarrow> (\<forall>y \<in> set ys. \<exists>x \<in> set xs. P x y) \<and> (\<forall>x \<in> set xs. \<exists>y \<in> set ys. P x y)"
  by (induction rule: list_all2_induct) auto

text \<open>The labels of a publish.\<close>

definition label_call :: "('w \<times> template_call list) scatterGatherStore \<Rightarrow> string list \<Rightarrow> string \<Rightarrow> PoolKey \<Rightarrow> string \<Rightarrow> err option \<Rightarrow> template_call \<Rightarrow> bool" where
  "label_call s tags node key digest e c \<longleftrightarrow> (\<exists>addr labels. reachable_at s node addr \<and> c = LabelledTemplate addr key labels digest e
     \<and> map_of labels = (\<lambda>t. if t \<in> set tags then Some digest else None))"

lemma map_of_tags: "map_of (fold (\<lambda>t. AList.update t d) tags m) = (\<lambda>t. if t \<in> set tags then Some d else map_of m t)"
  by (induction tags arbitrary: m) (auto simp: update_conv')

lemma tags_audited:
  assumes "reachable_at (audited_store st) node addr" "tag_build (audited_store st) name tags node key digest (w, l) = (r, wl)" "tags \<noteq> []"
  shows "\<exists>c e. snd wl = c # l \<and> label_call (audited_store st) tags node key digest e c \<and> (r = None \<longrightarrow> e = None)"
proof -
  let ?labels = "fold (\<lambda>t. AList.update t digest) tags []"
  obtain f where f: "sg_factory st = Some f" using assms(1) by (auto simp: reachable_at_def audited_store_def carrying_store_def)
  obtain q w1 where q: "cl_SetTemplateLabels (f addr (sg_token st)) key ?labels digest w = (q, w1)" by (metis surj_pair)
  have "SetTemplateLabels (audited_store st) node key ?labels digest (w, l) =
      (case q of Inl e \<Rightarrow> Inl (nodeVerbError e ''template labels'' (pk_Template key) node) | Inr u \<Rightarrow> Inr u,
       w1, LabelledTemplate addr key ?labels digest (case q of Inl e \<Rightarrow> Some e | Inr u \<Rightarrow> None) # l)"
    using f q unfolding SetTemplateLabels_def reached_client [OF assms(1)]
    by (simp add: audited_store_def carrying_store_def audited_client_def audit_verb_def split: sum.splits)
  then show ?thesis using assms
    by (auto simp: tag_build_def unit_err_def label_call_def map_of_tags fun_eq_iff split: sum.splits if_splits)
qed

definition own_build :: "'w InventorySource \<Rightarrow> 'w scatterGatherStore \<Rightarrow> string \<Rightarrow> 'w \<Rightarrow> string \<Rightarrow> PoolKey \<Rightarrow> string \<Rightarrow> templateHolder \<Rightarrow> bool" where
  "own_build src s template w node key digest h \<longleftrightarrow> reported_live src s template w h \<and> th_node h = node \<and> th_key h = key \<and> th_digest h = digest"

section \<open>Properties\<close>

text \<open>
  C15. A client that polls a build's log misses nothing and reads nothing twice: a poll whose offset is the earlier
  poll's offset plus the entries it got answers exactly the rest, so the two together are what one poll
  at the end would have answered, whatever limit the first one had and whatever was logged in between.
\<close>

theorem status_polls_resume:
  assumes "buildStatus ns name buildID q1 t1 e1 = (WriteJSON 200 (J_BuildInfo p1), e1')"
    and "buildStatus ns name buildID q2 t2 e2 = (WriteJSON 200 (J_BuildInfo p2), e2')"
    and "ex_builds e1 (buildKey ns name buildID) = Some r1" and "ex_builds e2 (buildKey ns name buildID) = Some r2"
    and "if_Logs (rc_info r2) = if_Logs (rc_info r1) @ later" and "query_Get q2 ''level'' = query_Get q1 ''level''"
    and "queryInt (query_Get q1 ''logsOffset'') = Some offset" and "query_Get q2 ''limit'' = []"
    and "query_Get q2 ''logsOffset'' = strconv_Itoa (offset + int (length (bi_LogEntries p1)))"
    and "offset + int (length (bi_LogEntries p1)) < 2 ^ 63"
  shows "bi_LogEntries p1 @ bi_LogEntries p2 =
    log_page (level_floor q1) offset 0 (if_Logs (rc_info r1) @ later)"
proof -
  have o: "0 \<le> offset" using assms(7) by (rule queryInt_nonneg)
  obtain limit where limit: "queryInt (query_Get q1 ''limit'') = Some limit"
    and p1: "bi_LogEntries p1 = status_entries (level_floor q1) limit (if_Logs (rc_info r1)) offset []"
    using assms(1,3,7) by (auto simp: buildStatus_def build_Status_def build_sweep_def Let_def split: option.splits if_splits)
  then have p1: "bi_LogEntries p1 = log_page (level_floor q1) offset limit (if_Logs (rc_info r1))"
    using status_page [OF o queryInt_nonneg [OF limit]] by simp
  have "queryInt (query_Get q2 ''logsOffset'') = Some (offset + int (length (bi_LogEntries p1)))"
    using assms(9,10) o by (simp add: queryInt_Itoa)
  then have "bi_LogEntries p2 = status_entries (level_floor q1) 0 (if_Logs (rc_info r2)) (offset + int (length (bi_LogEntries p1))) []"
    using assms(2,4,6,8)
    by (auto simp: buildStatus_def build_Status_def build_sweep_def Let_def level_floor_def queryInt_def split: option.splits if_splits)
  then show ?thesis using o log_page_resumes [OF o, of "level_floor q1" limit "if_Logs (rc_info r1)" later] status_page assms(5) p1 by simp
qed

text \<open>
  C14. A build runs at most once: a start launches only a waiting build, with a slot of its own, and answers 202;
  a start after it, whatever it asks, launches nothing; a 429 means every slot was taken, and changes nothing,
  so the start can be retried; a build nobody registered is a 404.
\<close>

theorem start_launches_once:
  assumes "startBuild u src s st ns name buildID body claimName e = (reply, launched, e')"
  shows "(launched \<noteq> None \<longrightarrow> reply = WriteHeader 202 \<and> ex_slots e < ex_parallel e \<and> ex_slots e' = Suc (ex_slots e)
           \<and> (\<exists>r. ex_builds e (buildKey ns name buildID) = Some r \<and> if_Status (rc_info r) = StatusWaiting)
           \<and> fst (snd (startBuild u' src' s' st' ns name buildID body' claimName' e')) = None)
    \<and> (launched = None \<longrightarrow> e' = e)
    \<and> (reply_status reply = 429 \<longleftrightarrow> (\<exists>req r. body = Body req \<and> unsupportedBuildOption req (u \<noteq> None) = None
           \<and> ex_builds e (buildKey ns name buildID) = Some r \<and> if_Status (rc_info r) = StatusWaiting \<and> ex_parallel e \<le> ex_slots e))
    \<and> (reply_status reply = 404 \<longleftrightarrow> (\<exists>req. body = Body req \<and> unsupportedBuildOption req (u \<noteq> None) = None
           \<and> ex_builds e (buildKey ns name buildID) = None))"
proof (cases "\<exists>req r. body = Body req \<and> unsupportedBuildOption req (u \<noteq> None) = None \<and> ex_builds e (buildKey ns name buildID) = Some r")
  case True
  then obtain req r where ok: "body = Body req" "unsupportedBuildOption req (u \<noteq> None) = None" "ex_builds e (buildKey ns name buildID) = Some r"
    by blast
  show ?thesis using assms ok
    by (cases "if_Status (rc_info r) = StatusWaiting"; cases "ex_parallel e \<le> ex_slots e")
      (auto simp: startBuild_def decodeBody_def build_Requested_def build_Start_def ErrBusy_def build_status Let_def
        split: request_body.splits option.splits if_splits)
next
  case False
  then show ?thesis using assms
    by (auto simp: startBuild_def decodeBody_def bad_body_def build_Requested_def Let_def split: request_body.splits option.splits)
qed


text \<open>
  C8. Publishing a build replaces only what it supersedes: every delete it sends goes to a node that itself reported
  that generation of the template for this owner, and that generation is strictly older than the build's own, still
  reported on its node with its digest; the labels it writes go to the build itself and name its digest. When the publish
  succeeds, every strictly older generation any node reported was deleted or had been replaced already, and the
  tags were written after that. The inventory's addresses do not change while the publish runs.
\<close>

theorem publish_replaces_older:
  assumes "stable_source (sg_src st)" and "s = audited_store st"
    and "publishBuild src s scope name tags node key digest (w, []) = (r, w', calls)"
  shows "calls = [] \<and> r \<noteq> None
    \<or> (\<exists>own. own_build src s (scope @ name) (w, []) node key digest own
        \<and> (\<forall>c \<in> set calls. (\<exists>h. reported_live src s (scope @ name) (w, []) h \<and> th_created h < th_created own \<and> delete_call s h c)
            \<or> (\<exists>e. label_call s tags node key digest e c))
        \<and> (r = None \<longrightarrow>
            (\<forall>h. reported_live src s (scope @ name) (w, []) h \<longrightarrow> th_created h < th_created own \<longrightarrow> (\<exists>c \<in> set calls. delete_done s h c))
            \<and> (tags \<noteq> [] \<longrightarrow> calls \<noteq> [] \<and> label_call s tags node key digest None (hd calls))))"
proof (cases "\<exists>hs own. liveHolders src s (scope @ name) (w, []) = Inr hs \<and> find (\<lambda>h. th_node h = node \<and> th_key h = key) hs = Some own
    \<and> th_digest own = digest")
  case False
  then show ?thesis using assms(3) by (auto simp: publishBuild_def split: sum.splits option.splits if_splits)
next
  case True
  then obtain hs own where hs: "liveHolders src s (scope @ name) (w, []) = Inr hs"
    and own: "find (\<lambda>h. th_node h = node \<and> th_key h = key) hs = Some own" "th_digest own = digest" by blast
  note reported = liveHolders_reported [OF hs]
  have o: "own \<in> set hs" "th_node own = node" "th_key own = key" using own(1) by (auto simp: find_Some_iff)
  then have mine: "own_build src s (scope @ name) (w, []) node key digest own" using reported own(2) by (simp add: own_build_def)
  have stable: "stable_source (sg_src s)" using carrying_stable [OF assms(1)] by (simp add: assms(2) audited_store_def)
  have reach: "\<forall>h \<in> set hs. \<exists>addr. reachable_at s (th_node h) addr"
    using reported_reachable [OF stable] by (intro ballI) (simp add: reported)
  let ?old = "filter (\<lambda>h. th_created h < th_created own) hs"
  obtain r1 w1 calls1 where d: "forEachHolder (delete_holder s) ?old (w, []) = (r1, w1, calls1)" by (rule prod_cases3)
  have "list_all2 (delete_call s) (rev ?old) calls1" "r1 = None \<longrightarrow> list_all2 (delete_done s) (rev ?old) calls1"
    using reach deletes_audited [of ?old st "(w, [])" r1 "(w1, calls1)"] d by (auto simp: assms(2))
  then have del: "\<forall>c \<in> set calls1. \<exists>h \<in> set ?old. delete_call s h c" "r1 = None \<Longrightarrow> \<forall>h \<in> set ?old. \<exists>c \<in> set calls1. delete_done s h c"
    using list_all2_partners [of _ "rev ?old" calls1] by auto
  have sent: "\<forall>c \<in> set calls1. \<exists>h. reported_live src s (scope @ name) (w, []) h \<and> th_created h < th_created own \<and> delete_call s h c"
    using del(1) unfolding reported [symmetric] by auto
  have gone: "\<forall>h. reported_live src s (scope @ name) (w, []) h \<longrightarrow> th_created h < th_created own \<longrightarrow> (\<exists>c \<in> set calls1. delete_done s h c)"
    if "r1 = None" using del(2) [OF that] unfolding reported [symmetric] by auto
  have cont: "(r, w', calls) = (case r1 of Some x \<Rightarrow> (Some (Wrap (Msg ''delete the previous build: %w'' []) x), w1, calls1)
      | None \<Rightarrow> tag_build s name tags node key digest (w1, calls1))"
    using assms(3) hs own d by (simp add: publishBuild_def split: option.splits)
  show ?thesis
  proof (cases "r1 = None \<and> tags \<noteq> []")
    case True
    obtain addr where "reachable_at (audited_store st) node addr" using reach o by (auto simp: assms(2))
    moreover have "tag_build (audited_store st) name tags node key digest (w1, calls1) = (r, w', calls)" using cont True by (simp add: assms(2))
    ultimately obtain c e where "calls = c # calls1" "label_call s tags node key digest e c" "r = None \<longrightarrow> e = None"
      using tags_audited [of st node addr name tags key digest w1 calls1 r "(w', calls)"] True by (auto simp: assms(2))
    then show ?thesis using mine sent gone True by (intro disjI2 exI [of _ own] conjI impI) (simp_all, blast+)
  next
    case False
    then have "calls = calls1" "r = None \<longrightarrow> r1 = None \<and> tags = []" using cont by (auto simp: tag_build_def split: option.splits)
    then show ?thesis using mine sent gone by (intro disjI2 exI [of _ own] conjI impI) simp_all
  qed
qed

section \<open>Concrete builds\<close>

text \<open>Two nodes: the first holds an older generation of the template, the second the build's.\<close>

definition publish_template :: "string \<Rightarrow> time \<Rightarrow> NodeTemplate" where
  "publish_template digest at = \<lparr>nt_Key = \<lparr>pk_Template = ''e2b/ns/t'', pk_Net = ''none'', pk_Size = ''small''\<rparr>, nt_ContentDigest = digest,
     nt_Tenant = [], nt_CreatedAt = at, nt_CPUCount = 1, nt_MemTotalBytes = 2 ^ 30, nt_Labels = []\<rparr>"

definition publish_info :: "string \<Rightarrow> NodeInfo" where
  "publish_info addr = \<lparr>nf_Pools = [], nf_Templates = [if addr = ''h:1'' then publish_template ''d1'' 5 else publish_template ''d2'' 9],
     nf_Claimed = 0, nf_Hibernated = 0, nf_Archived = 0, nf_AdvertiseAddr = [], nf_Peers = []\<rparr>"

definition publish_client :: "string \<Rightarrow> unit SandboxdClient" where
  "publish_client addr = null_client\<lparr>cl_Info := (\<lambda>w. Inr (publish_info addr)), cl_DeleteTemplate := (\<lambda>k d w. (Inr (), w)),
     cl_SetTemplateLabels := (\<lambda>k ls d w. (Inr (), w))\<rparr>"

definition publish_source :: "'w InventorySource" where
  "publish_source = \<lparr>src_ListNodes = (\<lambda>w. Inr [''n1'', ''n2'']), src_NodeInventory = (\<lambda>w n. Inl EOF),
     src_NodeCapacity = (\<lambda>w n. Inr (if n = ''n1'' then ''h:1'' else ''h:2'', [])), src_NodeCapacities = (\<lambda>w. Inl EOF)\<rparr>"

definition publish_store :: "unit scatterGatherStore" where
  "publish_store = WithClaimRouting ''tok'' (\<lambda>addr tok. publish_client addr) (NewScatterGatherStore publish_source)"

definition demo_publish :: "err option \<times> unit \<times> template_call list" where
  "demo_publish = publishBuild publish_source (audited_store publish_store) ''e2b/ns/'' ''t'' [''v2''] ''n2''
     \<lparr>pk_Template = ''e2b/ns/t'', pk_Net = ''none'', pk_Size = ''small''\<rparr> ''d2'' ((), [])"

lemma publish_stable: "stable_source (sg_src publish_store)"
  by (simp add: publish_store_def WithClaimRouting_def NewScatterGatherStore_def publish_source_def stable_source_def)

lemma publish_succeeds: "fst demo_publish = None"
  by (simp add: demo_publish_def publishBuild_def liveHolders_def publish_source_def NodeTemplates_def nodeClient_def audited_store_def
      carrying_store_def publish_store_def WithClaimRouting_def NewScatterGatherStore_def carrying_source_def audited_client_def carrying_client_def
      publish_client_def publish_info_def publish_template_def TemplatesFromInfo_def own_template_def live_holder_def holder_of_def
      delete_holder_def DeleteTemplate_def with_client_def audit_verb_def unit_err_def tag_build_def SetTemplateLabels_def optionalTime_def
      time_IsZero_def)

theorem publish_replaces_older_witness:
  "fst demo_publish = None \<and> label_call (audited_store publish_store) [''v2''] ''n2''
     \<lparr>pk_Template = ''e2b/ns/t'', pk_Net = ''none'', pk_Size = ''small''\<rparr> ''d2'' None (hd (snd (snd demo_publish)))"
  using publish_replaces_older [OF publish_stable refl surjective_triple [of demo_publish, unfolded demo_publish_def]] publish_succeeds
  unfolding demo_publish_def by blast

text \<open>A registered build, its start, and its run on a node whose guest does not answer.\<close>

definition demo_build_executor :: executor where
  "demo_build_executor = build_Register 5 (buildKey ''ns'' ''t'' ''b'') demo_request (executor_New 1 (60 * second) 10)"

definition demo_build_start :: TemplateBuildStartV2 where
  "demo_build_start = \<lparr>bv_FromImage = ''img'', bv_FromTemplate = [], bv_FromImageRegistry = [], bv_Steps = [], bv_StartCmd = [], bv_ReadyCmd = []\<rparr>"

definition demo_start :: "e2b_reply \<times> unit ledgered build_Spec option \<times> executor" where
  "demo_start = startBuild None publish_source accounting_server (ledgered_store accounting_store) ''ns'' ''t'' ''b'' (Body demo_build_start)
     ''e2b-build-x'' demo_build_executor"

definition demo_run :: "run_op list \<times> unit ledgered scatterGatherStore \<times> unit ledgered" where
  "demo_run = build_run (\<lambda>k. 0) 3 (envdGuest accounting_env (ledgered_envd demo_envd) (ledgered_store accounting_store)) (60 * second)
     (ledgered_store accounting_store) (the (fst (snd demo_start))) ((), [(''h:9'', ''old'')])"

lemma demo_start_launches: "\<exists>e'. demo_start = (WriteHeader 202, Some (the (fst (snd demo_start))), e')"
  by (simp add: demo_start_def startBuild_def decodeBody_def demo_build_start_def unsupportedBuildOption_def templatePrefix_def Invalid_def
      strings_HasPrefix_iff demo_build_executor_def build_Register_def build_sweep_def executor_New_def build_Requested_def build_Start_def
      build_status Let_def)


theorem start_launches_once_witness:
  "fst (snd demo_start) \<noteq> None \<and> ex_slots (snd (snd demo_start)) = 1
   \<and> fst (snd (startBuild None publish_source accounting_server (ledgered_store accounting_store) ''ns'' ''t'' ''b'' (Body demo_build_start)
       ''e2b-build-y'' (snd (snd demo_start)))) = None"
proof -
  have "fst (snd demo_start) \<noteq> None" using demo_start_launches by (metis option.distinct(1) fst_conv snd_conv)
  moreover have "ex_slots demo_build_executor = 0"
    by (simp add: demo_build_executor_def build_Register_def build_sweep_def executor_New_def Let_def)
  ultimately show ?thesis
    using start_launches_once [OF surjective_triple [of demo_start, unfolded demo_start_def], where u' = None and src' = publish_source
      and s' = accounting_server and st' = "ledgered_store accounting_store" and body' = "Body demo_build_start" and claimName' = "''e2b-build-y''"]
    unfolding demo_start_def by simp
qed

definition demo_entry_line :: LogEntry where
  "demo_entry_line = \<lparr>le_Time = 6, le_Level = ''info'', le_Message = no_message, le_Phase = PhaseClaim\<rparr>"

definition demo_page :: "nat \<Rightarrow> TemplateBuildInfo" where
  "demo_page n = \<lparr>bi_TemplateID = ''t'', bi_BuildID = ''b'', bi_Status = StatusWaiting, bi_LogEntries = replicate n (logEntryOf demo_entry_line),
     bi_Reason = None\<rparr>"

definition demo_log_record :: "nat \<Rightarrow> build_record" where
  "demo_log_record n = \<lparr>rc_req = demo_request, rc_info = \<lparr>if_Status = StatusWaiting, if_Logs = replicate n demo_entry_line, if_FailedPhase = [],
     if_Failure = no_message\<rparr>, rc_registered = 5, rc_finished = 0\<rparr>"

definition demo_log_executor :: "nat \<Rightarrow> executor" where
  "demo_log_executor n = demo_build_executor\<lparr>ex_builds := [buildKey ''ns'' ''t'' ''b'' \<mapsto> demo_log_record n]\<rparr>"

definition demo_poll :: "string \<Rightarrow> url_values" where
  "demo_poll offset k = (if k = ''logsOffset'' then [offset] else [])"

lemma demo_level: "\<not> slices_Index logLevels (le_Level demo_entry_line) < level_floor (demo_poll q)"
  by (simp add: level_floor_def demo_poll_def query_Get_def logLevels_def demo_entry_line_def)

lemma demo_offsets: "queryInt ''0'' = Some 0" "queryInt ''1'' = Some 1" "strconv_Itoa 1 = ''1''"
proof -
  have i: "strconv_Itoa 0 = ''0''" "strconv_Itoa 1 = ''1''" by code_simp+
  then show "queryInt ''0'' = Some 0" "queryInt ''1'' = Some 1" "strconv_Itoa 1 = ''1''"
    using queryInt_Itoa [of 0] queryInt_Itoa [of 1] by simp_all
qed

lemma demo_polls:
  "buildStatus ''ns'' ''t'' ''b'' (demo_poll ''0'') 6 (demo_log_executor 1) = (WriteJSON 200 (J_BuildInfo (demo_page 1)), demo_log_executor 1)"
  "buildStatus ''ns'' ''t'' ''b'' (demo_poll ''1'') 6 (demo_log_executor 3) = (WriteJSON 200 (J_BuildInfo (demo_page 2)), demo_log_executor 3)"
proof -
  have q: "query_Get (demo_poll v) ''logsOffset'' = v" "query_Get (demo_poll v) ''limit'' = []" for v by (simp_all add: query_Get_def demo_poll_def)
  have "build_Status 6 (buildKey ''ns'' ''t'' ''b'') (demo_log_executor n) = (Some (rc_info (demo_log_record n)), demo_log_executor n)" for n
    by (simp add: build_Status_def build_sweep_def demo_log_executor_def demo_log_record_def expired_def time_IsZero_def time_Sub_def recordTTL_def
        second_def Let_def fun_eq_iff)
  then show "buildStatus ''ns'' ''t'' ''b'' (demo_poll ''0'') 6 (demo_log_executor 1) = (WriteJSON 200 (J_BuildInfo (demo_page 1)), demo_log_executor 1)"
    "buildStatus ''ns'' ''t'' ''b'' (demo_poll ''1'') 6 (demo_log_executor 3) = (WriteJSON 200 (J_BuildInfo (demo_page 2)), demo_log_executor 3)"
    using demo_level
    by (simp_all add: buildStatus_def q demo_offsets queryInt_def [of "[]"] demo_log_record_def demo_page_def status_reason_def build_status numeral_eq_Suc)
qed

theorem status_polls_resume_witness:
  "bi_LogEntries (demo_page 1) @ bi_LogEntries (demo_page 2)
     = log_page (level_floor (demo_poll ''0'')) 0 0 (if_Logs (rc_info (demo_log_record 1)) @ replicate 2 demo_entry_line)"
proof -
  have r: "ex_builds (demo_log_executor n) (buildKey ''ns'' ''t'' ''b'') = Some (demo_log_record n)" for n by (simp add: demo_log_executor_def)
  have "if_Logs (rc_info (demo_log_record 3)) = if_Logs (rc_info (demo_log_record 1)) @ replicate 2 demo_entry_line"
    by (simp add: demo_log_record_def numeral_eq_Suc)
  then show ?thesis
    using status_polls_resume [OF demo_polls r r, of "replicate 2 demo_entry_line" 0]
    by (simp add: query_Get_def demo_poll_def demo_page_def demo_offsets)
qed

end
