(* ===== verification/E2B_Surface.thy ===== *)
theory E2B_Surface
  imports E2B_Builds
begin

text \<open>
  The e2b surface as a whole: the options its flags give (pkg/e2bcompat/flags.go), the archives in a bucket
  (uploads_s3.go), the table of routes and their authentication (server.go). One step serves one request:
  the mux picks a route, \<^verbatim>\<open>auth\<close> answers or lets it through, and the handler runs on the store, the builds and
  the world. What net/http and the JSON decoder make of a request is the record \<open>e2b_request\<close> and the record of
  decoders; the AWS client is a record of functions. A path is its decoded segments: net/http has cleaned it.
\<close>

section \<open>Archives in a bucket\<close>

record s3Config =
  s3c_Bucket :: string
  s3c_Prefix :: string
  s3c_Endpoint :: string
  s3c_Region :: string
  s3c_ForcePathStyle :: bool

text \<open>The calls of the AWS client on a bucket and a key, and whether an error is its \<^verbatim>\<open>types.NotFound\<close>.\<close>

record 'w s3_client =
  s3_HeadObject :: "string \<Rightarrow> string \<Rightarrow> 'w \<Rightarrow> err option"
  s3_GetObject :: "string \<Rightarrow> string \<Rightarrow> 'w \<Rightarrow> err + string"
  s3_PresignPutObject :: "string \<Rightarrow> string \<Rightarrow> int \<Rightarrow> 'w \<Rightarrow> err + string \<times> (string \<times> string list) list"
  s3_NotFound :: "err \<Rightarrow> bool"

record 'w s3Uploads =
  s3_client :: "'w s3_client"
  s3_bucket :: string
  s3_prefix :: string

definition newS3Uploads :: "(s3Config \<Rightarrow> err + 'w s3_client) \<Rightarrow> s3Config \<Rightarrow> err + 'w s3Uploads" where
  "newS3Uploads aws cfg =
     (case aws cfg of
        Inl e \<Rightarrow> Inl (Wrap (Msg ''aws config: %w'' []) e)
      | Inr client \<Rightarrow> Inr \<lparr>s3_client = client, s3_bucket = s3c_Bucket cfg, s3_prefix = path_Join (s3c_Prefix cfg) ''e2b-files''\<rparr>)"

definition s3_key :: "'w s3Uploads \<Rightarrow> uploadKey \<Rightarrow> string" where
  "s3_key u k = path_Join (s3_prefix u) (uploadKey_path k)"

definition s3_present :: "'w s3Uploads \<Rightarrow> uploadKey \<Rightarrow> 'w \<Rightarrow> err + bool" where
  "s3_present u k w =
     (case s3_HeadObject (s3_client u) (s3_bucket u) (s3_key u k) w of
        None \<Rightarrow> Inr True
      | Some e \<Rightarrow> if s3_NotFound (s3_client u) e then Inr False else Inl e)"

definition signed_headers :: "(string \<times> string list) list \<Rightarrow> (string \<times> string) list" where
  "signed_headers hs = map (\<lambda>(k, v). (k, hd v)) (filter (\<lambda>(k, v). k \<noteq> ''Host'' \<and> v \<noteq> []) hs)"

definition s3_uploadURL :: "'w s3Uploads \<Rightarrow> uploadKey \<Rightarrow> 'w \<Rightarrow> err + string \<times> (string \<times> string) list" where
  "s3_uploadURL u k w =
     (case s3_PresignPutObject (s3_client u) (s3_bucket u) (s3_key u k) uploadURLTTL w of
        Inl e \<Rightarrow> Inl e
      | Inr (url, headers) \<Rightarrow> Inr (url, signed_headers headers))"

definition s3_open :: "'w s3Uploads \<Rightarrow> uploadKey \<Rightarrow> 'w \<Rightarrow> err + string" where
  "s3_open u k w = s3_GetObject (s3_client u) (s3_bucket u) (s3_key u k) w"

text \<open>An upload store: a directory, reached in the world through its root, or a bucket.\<close>

record 'w upload_root =
  ur_get :: "'w \<Rightarrow> upload_fs"
  ur_set :: "upload_fs \<Rightarrow> 'w \<Rightarrow> 'w"

datatype 'w uploads =
    UploadsDir "'w upload_root" string nat
  | UploadsS3 "'w s3Uploads"

section \<open>Options\<close>

record 'w BuildOptions =
  bo_Parallel :: int
  bo_Timeout :: int
  bo_LogLines :: int
  bo_Uploads :: "'w uploads option"

definition no_builds :: "'w BuildOptions" where
  "no_builds = \<lparr>bo_Parallel = 0, bo_Timeout = 0, bo_LogLines = 0, bo_Uploads = None\<rparr>"

record e2b_Flags =
  fl_Addr :: string
  fl_Namespace :: string
  fl_Domain :: string
  fl_EnvdVersion :: string
  fl_TimeoutSeconds :: int
  fl_APIKeyFile :: string
  fl_AllowAnonymous :: bool
  fl_AliasesFile :: string
  fl_EnvdSecretFile :: string
  fl_Builds :: bool
  fl_BuildParallel :: int
  fl_BuildTimeout :: int
  fl_BuildLogLines :: int
  fl_BuildDir :: string
  fl_UploadMax :: nat
  fl_BuildS3 :: s3Config

definition NewFlags :: e2b_Flags where
  "NewFlags = \<lparr>fl_Addr = '':8080'', fl_Namespace = ''default'', fl_Domain = [], fl_EnvdVersion = [], fl_TimeoutSeconds = 0, fl_APIKeyFile = [],
     fl_AllowAnonymous = False, fl_AliasesFile = [], fl_EnvdSecretFile = [], fl_Builds = False, fl_BuildParallel = 2,
     fl_BuildTimeout = 30 * 60 * second, fl_BuildLogLines = 10000, fl_BuildDir = [], fl_UploadMax = 2 ^ 30,
     fl_BuildS3 = \<lparr>s3c_Bucket = [], s3c_Prefix = [], s3c_Endpoint = [], s3c_Region = [], s3c_ForcePathStyle = False\<rparr>\<rparr>"

text \<open>The files and the directory the process sees when it starts.\<close>

record 'w host_os =
  os_ReadFile :: "string \<Rightarrow> err + string"
  os_MkdirAll :: "string \<Rightarrow> err option"
  os_OpenRoot :: "string \<Rightarrow> err + 'w upload_root"

definition fileLines :: "'w host_os \<Rightarrow> string \<Rightarrow> string \<Rightarrow> err + string list" where
  "fileLines os path what =
     (if path = [] then Inr []
      else (case os_ReadFile os (path_Clean path) of
              Inl e \<Rightarrow> Inl (Wrap (Msg ''read e2b %s file %q: %w'' [what, path]) e)
            | Inr b \<Rightarrow>
                Inr (filter (\<lambda>l. l \<noteq> [] \<and> \<not> strings_HasPrefix l ''#'') (map strings_TrimSpace (strings_Split b (CHR 0x0A))))))"

definition EnvdSecret :: "'w host_os \<Rightarrow> string \<Rightarrow> err + string" where
  "EnvdSecret os path =
     (if path = [] then Inl (PlainError (Msg ''--e2b-envd-secret-file is required'' []))
      else (case os_ReadFile os (path_Clean path) of
              Inl e \<Rightarrow> Inl (Wrap (Msg ''read e2b envd secret file %q: %w'' [path]) e)
            | Inr b \<Rightarrow>
                if strings_TrimSpace b = [] then Inl (PlainError (Msg ''e2b envd secret file %q is empty'' [path]))
                else Inr (strings_TrimSpace b)))"

definition buildOptions :: "'w host_os \<Rightarrow> (s3Config \<Rightarrow> err + 'w s3_client) \<Rightarrow> e2b_Flags \<Rightarrow> string \<Rightarrow> err + 'w BuildOptions" where
  "buildOptions os aws f secret =
     (if \<not> fl_Builds f then Inr no_builds
      else (let opts = \<lparr>bo_Parallel = fl_BuildParallel f, bo_Timeout = fl_BuildTimeout f, bo_LogLines = fl_BuildLogLines f, bo_Uploads = None\<rparr>
            in if fl_BuildParallel f < 1 \<or> fl_BuildTimeout f \<le> 0
               then Inl (PlainError (Msg ''--e2b-builds needs --e2b-build-parallel of at least 1 and a positive --e2b-build-timeout'' []))
               else if fl_BuildDir f \<noteq> [] \<and> s3c_Bucket (fl_BuildS3 f) \<noteq> []
               then Inl (PlainError (Msg ''--e2b-build-dir and --e2b-build-store-s3-bucket are exclusive'' []))
               else if fl_BuildDir f \<noteq> [] then
                 (case os_MkdirAll os (fl_BuildDir f) of
                    Some e \<Rightarrow> Inl (Wrap (Msg ''create --e2b-build-dir: %w'' []) e)
                  | None \<Rightarrow>
                      (case os_OpenRoot os (fl_BuildDir f) of
                         Inl e \<Rightarrow> Inl (Wrap (Msg ''open --e2b-build-dir: %w'' []) e)
                       | Inr root \<Rightarrow> Inr (opts\<lparr>bo_Uploads := Some (UploadsDir root secret (fl_UploadMax f))\<rparr>)))
               else if s3c_Bucket (fl_BuildS3 f) \<noteq> [] then
                 (case newS3Uploads aws (fl_BuildS3 f) of
                    Inl e \<Rightarrow> Inl e
                  | Inr store \<Rightarrow> Inr (opts\<lparr>bo_Uploads := Some (UploadsS3 store)\<rparr>))
               else Inr opts))"

definition ServerOptions :: "'w host_os \<Rightarrow> (s3Config \<Rightarrow> err + 'w s3_client) \<Rightarrow> 'w InventorySource \<Rightarrow> e2b_Flags
   \<Rightarrow> err + 'w server_options \<times> 'w BuildOptions" where
  "ServerOptions os aws fleet f =
     (case fileLines os (fl_APIKeyFile f) ''api key'' of
        Inl e \<Rightarrow> Inl e
      | Inr keys \<Rightarrow>
          (case fileLines os (fl_AliasesFile f) ''template aliases'' of
             Inl e \<Rightarrow> Inl e
           | Inr aliases \<Rightarrow>
               (case EnvdSecret os (fl_EnvdSecretFile f) of
                  Inl e \<Rightarrow> Inl e
                | Inr secret \<Rightarrow>
                    (case buildOptions os aws f secret of
                       Inl e \<Rightarrow> Inl e
                     | Inr builds \<Rightarrow>
                         Inr (\<lparr>so_Namespace = fl_Namespace f, so_Domain = fl_Domain f, so_EnvdVersion = fl_EnvdVersion f,
                               so_DefaultTimeoutSeconds = fl_TimeoutSeconds f, so_APIKeys = keys, so_AllowAnonymous = fl_AllowAnonymous f,
                               so_Inventory = Some fleet, so_TemplateAliases = aliases, so_EnvdSecret = secret\<rparr>, builds)))))"

section \<open>Routes\<close>

datatype seg = Lit string | Wild string

datatype e2b_handler =
    H_health | H_createSandbox | H_listSandboxes | H_listSandboxesV2 | H_getSandbox | H_deleteSandbox | H_setTimeout | H_refresh
  | H_pauseSandbox | H_connectSandbox | H_resumeSandbox | H_forkSandbox | H_createSnapshot | H_listSnapshots | H_sandboxMetrics
  | H_sandboxesMetrics | H_sandboxLogs e2b_body | H_listTemplates | H_getTemplate | H_patchTemplate | H_templateAlias | H_templateSub
  | H_assignTemplateTags | H_deleteTemplateTags | H_deleteTemplate | H_requestBuild | H_startBuild | H_buildStatus | H_fileUploadLink
  | H_putUpload

record e2b_route =
  rt_Method :: string
  rt_Path :: "seg list"
  rt_Auth :: bool
  rt_Handler :: e2b_handler

definition open_route :: "string \<Rightarrow> seg list \<Rightarrow> e2b_handler \<Rightarrow> e2b_route" where
  "open_route m p h = \<lparr>rt_Method = m, rt_Path = p, rt_Auth = False, rt_Handler = h\<rparr>"

definition auth_route :: "string \<Rightarrow> seg list \<Rightarrow> e2b_handler \<Rightarrow> e2b_route" where
  "auth_route m p h = \<lparr>rt_Method = m, rt_Path = p, rt_Auth = True, rt_Handler = h\<rparr>"

definition sandbox_routes :: "e2b_route list" where
  "sandbox_routes =
    [open_route ''GET'' [Lit ''health''] H_health,
     auth_route ''POST'' [Lit ''sandboxes''] H_createSandbox,
     auth_route ''POST'' [Lit ''v2'', Lit ''sandboxes''] H_createSandbox,
     auth_route ''GET'' [Lit ''sandboxes''] H_listSandboxes,
     auth_route ''GET'' [Lit ''v2'', Lit ''sandboxes''] H_listSandboxesV2,
     auth_route ''GET'' [Lit ''sandboxes'', Wild ''sandboxID''] H_getSandbox,
     auth_route ''DELETE'' [Lit ''sandboxes'', Wild ''sandboxID''] H_deleteSandbox,
     auth_route ''POST'' [Lit ''sandboxes'', Wild ''sandboxID'', Lit ''timeout''] H_setTimeout,
     auth_route ''POST'' [Lit ''sandboxes'', Wild ''sandboxID'', Lit ''refreshes''] H_refresh,
     auth_route ''POST'' [Lit ''sandboxes'', Wild ''sandboxID'', Lit ''pause''] H_pauseSandbox,
     auth_route ''POST'' [Lit ''sandboxes'', Wild ''sandboxID'', Lit ''connect''] H_connectSandbox,
     auth_route ''POST'' [Lit ''v2'', Lit ''sandboxes'', Wild ''sandboxID'', Lit ''connect''] H_connectSandbox,
     auth_route ''POST'' [Lit ''sandboxes'', Wild ''sandboxID'', Lit ''resume''] H_resumeSandbox,
     auth_route ''POST'' [Lit ''sandboxes'', Wild ''sandboxID'', Lit ''fork''] H_forkSandbox,
     auth_route ''POST'' [Lit ''sandboxes'', Wild ''sandboxID'', Lit ''snapshots''] H_createSnapshot,
     auth_route ''GET'' [Lit ''snapshots''] H_listSnapshots,
     auth_route ''GET'' [Lit ''sandboxes'', Wild ''sandboxID'', Lit ''metrics''] H_sandboxMetrics,
     auth_route ''GET'' [Lit ''sandboxes'', Lit ''metrics''] H_sandboxesMetrics,
     auth_route ''GET'' [Lit ''sandboxes'', Wild ''sandboxID'', Lit ''logs''] (H_sandboxLogs J_Logs),
     auth_route ''GET'' [Lit ''v2'', Lit ''sandboxes'', Wild ''sandboxID'', Lit ''logs''] (H_sandboxLogs J_LogsV2)]"

definition template_routes :: "e2b_route list" where
  "template_routes =
    [auth_route ''GET'' [Lit ''templates''] H_listTemplates,
     auth_route ''GET'' [Lit ''v2'', Lit ''templates''] H_listTemplates,
     auth_route ''GET'' [Lit ''templates'', Wild ''templateID''] H_getTemplate,
     auth_route ''PATCH'' [Lit ''templates'', Wild ''templateID''] H_patchTemplate,
     auth_route ''GET'' [Lit ''templates'', Lit ''aliases'', Wild ''alias''] H_templateAlias,
     auth_route ''GET'' [Lit ''templates'', Wild ''templateID'', Wild ''sub''] H_templateSub,
     auth_route ''POST'' [Lit ''templates'', Lit ''tags''] H_assignTemplateTags,
     auth_route ''DELETE'' [Lit ''templates'', Lit ''tags''] H_deleteTemplateTags,
     auth_route ''DELETE'' [Lit ''templates'', Wild ''templateID''] H_deleteTemplate]"

definition build_routes :: "e2b_route list" where
  "build_routes =
    [auth_route ''POST'' [Lit ''v3'', Lit ''templates''] H_requestBuild,
     auth_route ''POST'' [Lit ''v2'', Lit ''templates'', Wild ''templateID'', Lit ''builds'', Wild ''buildID''] H_startBuild,
     auth_route ''GET'' [Lit ''templates'', Wild ''templateID'', Lit ''builds'', Wild ''buildID'', Lit ''status''] H_buildStatus]"

definition link_route :: e2b_route where
  "link_route = auth_route ''GET'' [Lit ''templates'', Wild ''templateID'', Lit ''files'', Wild ''hash''] H_fileUploadLink"

definition put_route :: e2b_route where
  "put_route = open_route ''PUT'' [Lit ''templates'', Wild ''templateID'', Lit ''files'', Wild ''hash''] H_putUpload"

definition surface_routes :: "'w BuildOptions \<Rightarrow> e2b_route list" where
  "surface_routes b =
     sandbox_routes @ template_routes
     @ (if bo_Parallel b > 0 then
          build_routes @ (if bo_Uploads b \<noteq> None then [link_route] else [])
          @ (case bo_Uploads b of Some (UploadsDir root secret limit) \<Rightarrow> [put_route] | _ \<Rightarrow> [])
        else [])"

text \<open>
  \<^verbatim>\<open>http.ServeMux\<close>: a wildcard takes one non-empty segment, a GET route serves HEAD too, and of the routes that match
  the most specific one serves.
\<close>

fun path_values :: "seg list \<Rightarrow> string list \<Rightarrow> (string \<times> string) list option" where
  "path_values [] [] = Some []"
| "path_values (Lit l # ss) (p # ps) = (if l = p then path_values ss ps else None)"
| "path_values (Wild x # ss) (p # ps) = (if p = [] then None else map_option ((#) (x, p)) (path_values ss ps))"
| "path_values _ _ = None"

fun narrower :: "seg list \<Rightarrow> seg list \<Rightarrow> bool" where
  "narrower [] [] = True"
| "narrower (Lit a # p) (Lit b # q) = (a = b \<and> narrower p q)"
| "narrower (Lit a # p) (Wild x # q) = narrower p q"
| "narrower (Wild x # p) (Wild y # q) = narrower p q"
| "narrower _ _ = False"

definition method_serves :: "string \<Rightarrow> string \<Rightarrow> bool" where
  "method_serves m asked = (m = asked \<or> m = ''GET'' \<and> asked = ''HEAD'')"

definition route_matches :: "string \<Rightarrow> string list \<Rightarrow> e2b_route \<Rightarrow> bool" where
  "route_matches asked path r = (method_serves (rt_Method r) asked \<and> path_values (rt_Path r) path \<noteq> None)"

definition mux_match :: "e2b_route list \<Rightarrow> string \<Rightarrow> string list \<Rightarrow> e2b_route option" where
  "mux_match rs asked path =
     (let ms = filter (route_matches asked path) rs
      in find (\<lambda>r. list_all (\<lambda>r'. narrower (rt_Path r) (rt_Path r')) ms) ms)"

section \<open>Requests\<close>

record e2b_request =
  rq_Method :: string
  rq_Path :: "string list"
  rq_Key :: string
  rq_Query :: url_values
  rq_Body :: string
  rq_Upload :: upload_body
  rq_TLS :: bool
  rq_ForwardedProto :: string
  rq_Host :: string

record body_codecs =
  cd_NewSandbox :: "string \<Rightarrow> NewSandbox request_body"
  cd_Timeout :: "string \<Rightarrow> int request_body"
  cd_Refresh :: "string \<Rightarrow> int option request_body"
  cd_Pause :: "string \<Rightarrow> bool option request_body"
  cd_Connect :: "string \<Rightarrow> ConnectSandbox request_body"
  cd_Resume :: "string \<Rightarrow> ResumedSandbox request_body"
  cd_Fork :: "string \<Rightarrow> SandboxForkRequest request_body"
  cd_Snapshot :: "string \<Rightarrow> string request_body"
  cd_Patch :: "string \<Rightarrow> bool option request_body"
  cd_AssignTags :: "string \<Rightarrow> AssignTemplateTagsRequest request_body"
  cd_DeleteTags :: "string \<Rightarrow> DeleteTemplateTagsRequest request_body"
  cd_BuildRequest :: "string \<Rightarrow> TemplateBuildRequestV3 request_body"
  cd_BuildStart :: "string \<Rightarrow> TemplateBuildStartV2 request_body"

text \<open>What the surface draws from outside, besides the guest: the handlers' environment, name-based UUIDs, random texts, decoders.\<close>

record surface_env =
  sn_env :: e2b_env
  sn_uuid5 :: "string \<Rightarrow> string"
  sn_rand :: string
  sn_codecs :: body_codecs

text \<open>The server's state: its store, its executor and the builds it launched, and the world.\<close>

record 'w surface =
  su_store :: "'w scatterGatherStore"
  su_exec :: executor
  su_launched :: "(string \<times> 'w build_Spec) list"
  su_world :: 'w

text \<open>The inventory a publish reads. A server has one: the commands pass it, and a nil one could not be asked.\<close>

definition no_inventory :: "'w InventorySource" where
  "no_inventory = \<lparr>src_ListNodes = (\<lambda>w. Inl err_no_inventory), src_NodeInventory = (\<lambda>w n. Inl err_no_inventory),
     src_NodeCapacity = (\<lambda>w n. Inl err_no_inventory), src_NodeCapacities = (\<lambda>w. Inl err_no_inventory)\<rparr>"

definition publish_inventory :: "'w Server \<Rightarrow> 'w InventorySource" where
  "publish_inventory s = (case so_Inventory (sv_opts s) of Some src \<Rightarrow> src | None \<Rightarrow> no_inventory)"

definition upload_store :: "surface_env \<Rightarrow> e2b_request \<Rightarrow> 'w uploads \<Rightarrow> 'w uploadStore" where
  "upload_store sn rq u =
     (case u of
        UploadsDir root secret limit \<Rightarrow>
          dirUploads (ev_mac (sn_env sn)) secret (rq_TLS rq \<or> rq_ForwardedProto rq = ''https'') (rq_Host rq) (io_now (sn_env sn)) (ur_get root)
      | UploadsS3 s3 \<Rightarrow> \<lparr>us_present = s3_present s3, us_uploadURL = s3_uploadURL s3, us_open = s3_open s3\<rparr>)"

definition after_handler :: "'w handled \<Rightarrow> 'w surface \<Rightarrow> e2b_reply \<times> 'w surface" where
  "after_handler r S = (case r of (reply, st, w) \<Rightarrow> (reply, S\<lparr>su_store := st, su_world := w\<rparr>))"

definition put_upload :: "surface_env \<Rightarrow> e2b_request \<Rightarrow> 'w uploads option \<Rightarrow> string \<Rightarrow> string \<Rightarrow> 'w surface \<Rightarrow> e2b_reply \<times> 'w surface" where
  "put_upload sn rq u template h S =
     (case u of
        Some (UploadsDir root secret limit) \<Rightarrow>
          (case serve_upload (ev_mac (sn_env sn)) secret limit template h (rq_Query rq) (rq_Upload rq) (io_now (sn_env sn)) (sn_rand sn)
                  (ur_get root (su_world S)) of
             (reply, files) \<Rightarrow> (reply, S\<lparr>su_world := ur_set root files (su_world S)\<rparr>))
      | _ \<Rightarrow> (WriteErr 404 (Msg ''404 page not found'' []), S))"

definition start_build :: "surface_env \<Rightarrow> e2b_request \<Rightarrow> 'w Server \<Rightarrow> 'w BuildOptions \<Rightarrow> string \<Rightarrow> string \<Rightarrow> string \<Rightarrow> 'w surface
   \<Rightarrow> e2b_reply \<times> 'w surface" where
  "start_build sn rq s b ns name buildID S =
     (case startBuild (map_option (upload_store sn rq) (bo_Uploads b)) (publish_inventory s) s (su_store S) ns name buildID
             (cd_BuildStart (sn_codecs sn) (rq_Body rq)) (io_generate (sn_env sn) (namePrefix @ ''build-'')) (su_exec S) of
        (reply, launched, e) \<Rightarrow>
          (reply, S\<lparr>su_exec := e,
             su_launched := (case launched of None \<Rightarrow> su_launched S | Some spec \<Rightarrow> (buildKey ns name buildID, spec) # su_launched S)\<rparr>))"

definition run_handler :: "surface_env \<Rightarrow> 'w envd_io \<Rightarrow> 'w Server \<Rightarrow> 'w BuildOptions \<Rightarrow> e2b_handler \<Rightarrow> string \<Rightarrow> e2b_request \<Rightarrow> (string \<Rightarrow> string)
   \<Rightarrow> 'w surface \<Rightarrow> e2b_reply \<times> 'w surface" where
  "run_handler sn o' s b h ns rq val S =
     (let env = sn_env sn; cd = sn_codecs sn; st = su_store S; w = su_world S; q = rq_Query rq; body = rq_Body rq;
          i = val ''sandboxID''; t = val ''templateID''
      in case h of
           H_health \<Rightarrow> (WriteHeader 204, S)
         | H_createSandbox \<Rightarrow> after_handler (createSandbox env o' s st ns (cd_NewSandbox cd body) w) S
         | H_listSandboxes \<Rightarrow> (case e2b_listSandboxes env s st ns q w of (r, st') \<Rightarrow> (r, S\<lparr>su_store := st'\<rparr>))
         | H_listSandboxesV2 \<Rightarrow> (case listSandboxesV2 env s st ns q w of (r, st') \<Rightarrow> (r, S\<lparr>su_store := st'\<rparr>))
         | H_getSandbox \<Rightarrow> after_handler (getSandbox env s st ns i w) S
         | H_deleteSandbox \<Rightarrow> after_handler (deleteSandbox env st ns i w) S
         | H_setTimeout \<Rightarrow> after_handler (setTimeout env st ns i (cd_Timeout cd body) w) S
         | H_refresh \<Rightarrow> after_handler (e2b_refresh env s st ns i (cd_Refresh cd body) w) S
         | H_pauseSandbox \<Rightarrow> after_handler (pauseSandbox env st ns i (cd_Pause cd body) w) S
         | H_connectSandbox \<Rightarrow> after_handler (connectSandbox env s st ns i (cd_Connect cd body) w) S
         | H_resumeSandbox \<Rightarrow> after_handler (resumeSandbox env s st ns i (cd_Resume cd body) w) S
         | H_forkSandbox \<Rightarrow> after_handler (forkSandbox env o' s st ns i (cd_Fork cd body) w) S
         | H_createSnapshot \<Rightarrow> after_handler (createSnapshot env st ns i (cd_Snapshot cd body) w) S
         | H_listSnapshots \<Rightarrow> (listSnapshots env s st ns q w, S)
         | H_sandboxMetrics \<Rightarrow> after_handler (sandboxMetrics env o' s st ns i w) S
         | H_sandboxesMetrics \<Rightarrow> after_handler (sandboxesMetrics env o' s st ns q w) S
         | H_sandboxLogs reply \<Rightarrow> after_handler (sandboxLogs env st ns reply i w) S
         | H_listTemplates \<Rightarrow> (listTemplates (sn_uuid5 sn) s ns w, S)
         | H_getTemplate \<Rightarrow> (getTemplate (sn_uuid5 sn) s ns t w, S)
         | H_patchTemplate \<Rightarrow> (patchTemplate s ns t (cd_Patch cd body) w, S)
         | H_templateAlias \<Rightarrow> (templateAlias s ns (val ''alias'') w, S)
         | H_templateSub \<Rightarrow> (templateSub (sn_uuid5 sn) s st ns t (val ''sub'') w, S)
         | H_assignTemplateTags \<Rightarrow>
             (case assignTemplateTags (sn_uuid5 sn) s st ns (cd_AssignTags cd body) w of (r, w') \<Rightarrow> (r, S\<lparr>su_world := w'\<rparr>))
         | H_deleteTemplateTags \<Rightarrow> (case deleteTemplateTags s st ns (cd_DeleteTags cd body) w of (r, w') \<Rightarrow> (r, S\<lparr>su_world := w'\<rparr>))
         | H_deleteTemplate \<Rightarrow> (case deleteTemplate s st ns t w of (r, w') \<Rightarrow> (r, S\<lparr>su_world := w'\<rparr>))
         | H_requestBuild \<Rightarrow>
             (case requestBuild ns (cd_BuildRequest cd body) (io_uuid env) (io_now env) (su_exec S) of (r, e) \<Rightarrow> (r, S\<lparr>su_exec := e\<rparr>))
         | H_startBuild \<Rightarrow> start_build sn rq s b ns t (val ''buildID'') S
         | H_buildStatus \<Rightarrow>
             (case buildStatus ns t (val ''buildID'') q (io_now env) (su_exec S) of (r, e) \<Rightarrow> (r, S\<lparr>su_exec := e\<rparr>))
         | H_fileUploadLink \<Rightarrow>
             (case bo_Uploads b of
                Some u \<Rightarrow> (fileUploadLink (upload_store sn rq u) ns t (val ''hash'') w, S)
              | None \<Rightarrow> (WriteErr 404 (Msg ''404 page not found'' []), S))
         | H_putUpload \<Rightarrow> put_upload sn rq (bo_Uploads b) t (val ''hash'') S)"

definition mux_refusal :: "e2b_route list \<Rightarrow> string list \<Rightarrow> e2b_reply" where
  "mux_refusal rs path =
     (if list_ex (\<lambda>r. path_values (rt_Path r) path \<noteq> None) rs then WriteErr 405 (Msg ''Method Not Allowed'' [])
      else WriteErr 404 (Msg ''404 page not found'' []))"

definition serve_surface :: "surface_env \<Rightarrow> 'w envd_io \<Rightarrow> 'w Server \<Rightarrow> 'w BuildOptions \<Rightarrow> e2b_request \<Rightarrow> 'w surface \<Rightarrow> e2b_reply \<times> 'w surface" where
  "serve_surface sn o' s b rq S =
     (case mux_match (surface_routes b) (rq_Method rq) (rq_Path rq) of
        None \<Rightarrow> (mux_refusal (surface_routes b) (rq_Path rq), S)
      | Some r \<Rightarrow>
          (let val = map_index (map_of (the (path_values (rt_Path r) (rq_Path rq))))
           in if rt_Auth r then
                (case auth s (rq_Key rq) of
                   Inl reply \<Rightarrow> (reply, S)
                 | Inr ns \<Rightarrow> run_handler sn o' s b (rt_Handler r) ns rq val S)
              else run_handler sn o' s b (rt_Handler r) (so_Namespace (sv_opts s)) rq val S))"

text \<open>The surface the commands serve: options from the flags, a server over them, and its executor.\<close>

definition surface_New :: "'w host_os \<Rightarrow> (s3Config \<Rightarrow> err + 'w s3_client) \<Rightarrow> 'w InventorySource \<Rightarrow> e2b_Flags
   \<Rightarrow> err + 'w Server \<times> 'w BuildOptions \<times> executor" where
  "surface_New os aws fleet f =
     (case ServerOptions os aws fleet f of
        Inl e \<Rightarrow> Inl e
      | Inr (opts, b) \<Rightarrow>
          (case server_New opts of
             Inl e \<Rightarrow> Inl e
           | Inr s \<Rightarrow> Inr (s, b, executor_New (nat (bo_Parallel b)) (bo_Timeout b) (bo_LogLines b))))"

section \<open>Lemmas\<close>

lemma narrower_refl [simp]: "narrower p p"
proof (induction p)
  case (Cons x p)
  then show ?case by (cases x) simp_all
qed simp

lemma narrower_trans: "narrower p q \<Longrightarrow> narrower q r \<Longrightarrow> narrower p r"
proof (induction p q arbitrary: r rule: narrower.induct)
  case (2 a p b q)
  then show ?case by (cases r rule: list.exhaust; cases "hd r") auto
next
  case (3 a p x q)
  then show ?case by (cases r rule: list.exhaust; cases "hd r") auto
next
  case (4 x p y q)
  then show ?case by (cases r rule: list.exhaust; cases "hd r") auto
qed simp_all

text \<open>Two routes that can match the same path.\<close>

fun overlaps :: "seg list \<Rightarrow> seg list \<Rightarrow> bool" where
  "overlaps [] [] = True"
| "overlaps (Lit a # p) (Lit b # q) = (a = b \<and> overlaps p q)"
| "overlaps (_ # p) (_ # q) = overlaps p q"
| "overlaps _ _ = False"

lemma matches_overlap: "path_values p path \<noteq> None \<Longrightarrow> path_values q path \<noteq> None \<Longrightarrow> overlaps p q"
proof (induction p arbitrary: q path)
  case Nil
  then show ?case by (cases path; cases q; cases "hd q") auto
next
  case (Cons x p)
  then obtain y ys where path: "path = y # ys" by (cases path; cases x) auto
  then obtain z zs where q: "q = z # zs" using Cons.prems(2) by (cases q) auto
  then have "path_values p ys \<noteq> None" "path_values zs ys \<noteq> None" "case (x, z) of (Lit a, Lit b) \<Rightarrow> a = b | _ \<Rightarrow> True"
    using Cons.prems path by (cases x; cases z; auto split: if_splits)+
  moreover from this(1,2) have "overlaps p zs" by (rule Cons.IH)
  ultimately show ?case by (cases x; cases z) (simp_all add: q)
qed

definition comparable :: "e2b_route \<Rightarrow> e2b_route \<Rightarrow> bool" where
  "comparable r r' = (if rt_Method r = rt_Method r' then if overlaps (rt_Path r) (rt_Path r')
     then narrower (rt_Path r) (rt_Path r') \<or> narrower (rt_Path r') (rt_Path r) else True else True)"

fun orderly :: "e2b_route list \<Rightarrow> bool" where
  "orderly [] = True"
| "orderly (r # rs) = (rt_Method r \<noteq> ''HEAD'' \<and> list_all (comparable r) rs \<and> orderly rs)"

lemma overlaps_sym: "overlaps p q = overlaps q p"
  by (induction p q rule: overlaps.induct) auto

lemma comparable_sym: "comparable r r' = comparable r' r"
  using overlaps_sym [of "rt_Path r" "rt_Path r'"] by (auto simp: comparable_def)

lemma orderly_pairs:
  "orderly rs \<Longrightarrow> r \<in> set rs \<Longrightarrow> rt_Method r \<noteq> ''HEAD''" "orderly rs \<Longrightarrow> r \<in> set rs \<Longrightarrow> r' \<in> set rs \<Longrightarrow> comparable r r'"
proof (induction rs)
  case (Cons x rs)
  case 2
  then show ?case using comparable_sym [of r x] Cons.IH by (auto simp: list_all_iff comparable_def [of x x])
qed auto

lemma orderly_comparable:
  assumes "orderly rs" "r \<in> set rs" "r' \<in> set rs" "route_matches m path r" "route_matches m path r'"
  shows "narrower (rt_Path r) (rt_Path r') \<or> narrower (rt_Path r') (rt_Path r)"
proof -
  have "overlaps (rt_Path r) (rt_Path r')" using assms(4,5) by (auto simp: route_matches_def intro: matches_overlap)
  moreover have "rt_Method r = rt_Method r'" "comparable r r'"
    using assms(4,5) orderly_pairs(2) [OF assms(1-3)] orderly_pairs(1) [OF assms(1,2)] orderly_pairs(1) [OF assms(1,3)] by (auto simp: route_matches_def method_serves_def)
  ultimately show ?thesis by (simp add: comparable_def)
qed

lemma narrowest_exists:
  assumes "ms \<noteq> []" "\<forall>r \<in> set ms. \<forall>r' \<in> set ms. narrower (rt_Path r) (rt_Path r') \<or> narrower (rt_Path r') (rt_Path r)"
  shows "\<exists>r \<in> set ms. \<forall>r' \<in> set ms. narrower (rt_Path r) (rt_Path r')"
  using assms
proof (induction ms)
  case (Cons m ms)
  show ?case
  proof (cases "ms = []")
    case False
    then obtain r where r: "r \<in> set ms" "\<forall>r' \<in> set ms. narrower (rt_Path r) (rt_Path r')" using Cons by auto
    show ?thesis
    proof (cases "narrower (rt_Path r) (rt_Path m)")
      case True
      then show ?thesis using r by (intro bexI [of _ r]) auto
    next
      case False
      then have "narrower (rt_Path m) (rt_Path r)" using Cons.prems(2) r(1) by auto
      then show ?thesis using r(2) narrower_trans by (intro bexI [of _ m]) auto
    qed
  qed simp
qed simp

definition all_routes :: "e2b_route list" where
  "all_routes = sandbox_routes @ template_routes @ build_routes @ [link_route, put_route]"

lemma all_routes_orderly: "orderly all_routes"
  by code_simp

lemma surface_routes_sub: "set (surface_routes b) \<subseteq> set all_routes"
  by (auto simp: surface_routes_def all_routes_def split: option.splits uploads.splits if_splits)

lemma surface_comparable:
  "r \<in> set (surface_routes b) \<Longrightarrow> r' \<in> set (surface_routes b) \<Longrightarrow> route_matches m path r \<Longrightarrow> route_matches m path r'
     \<Longrightarrow> narrower (rt_Path r) (rt_Path r') \<or> narrower (rt_Path r') (rt_Path r)"
  using orderly_comparable [OF all_routes_orderly] surface_routes_sub by blast

lemma mux_match_Some: "mux_match rs m path = Some r \<Longrightarrow> r \<in> set rs \<and> route_matches m path r"
  by (auto simp: mux_match_def Let_def find_Some_iff nth_mem dest: nth_mem)

lemma path_values_iff:
  "path_values [] path = Some vs \<longleftrightarrow> path = [] \<and> vs = []"
  "path_values (Lit l # ss) path = Some vs \<longleftrightarrow> (\<exists>ps. path = l # ps \<and> path_values ss ps = Some vs)"
  "path_values (Wild x # ss) path = Some vs \<longleftrightarrow> (\<exists>p ps us. path = p # ps \<and> p \<noteq> [] \<and> vs = (x, p) # us \<and> path_values ss ps = Some us)"
  by (cases path; auto)+

lemma open_routes: "r \<in> set (surface_routes b) \<Longrightarrow> \<not> rt_Auth r \<Longrightarrow> r = open_route ''GET'' [Lit ''health''] H_health \<or> r = put_route"
  by (drule subsetD [OF surface_routes_sub])
    (auto simp: all_routes_def sandbox_routes_def template_routes_def build_routes_def link_route_def auth_route_def)

lemma put_path: "path_values (rt_Path put_route) path = Some vs \<Longrightarrow>
    \<exists>t h. path = [''templates'', t, ''files'', h] \<and> map_index (map_of vs) ''templateID'' = t \<and> map_index (map_of vs) ''hash'' = h"
  by (auto simp: put_route_def open_route_def map_index_def path_values_iff)

lemma serve_upload_signed:
  "serve_upload mac secret limit t h q body now rnd files = (reply, files') \<Longrightarrow>
     files' = files \<or> (\<exists>k. uploadKeyOf (query_Get q ''ns'') t h = Inr k \<and> upload_refusal mac secret k q now = None)"
  by (auto simp: serve_upload_def split: sum.splits option.splits)

lemma flags_server:
  assumes "surface_New os aws fleet f = Inr (s, b, e)"
  shows "sv_keys s \<noteq> [] \<or> fl_AllowAnonymous f" "so_EnvdSecret (sv_opts s) \<noteq> []"
    "bo_Uploads b = Some (UploadsDir root secret limit) \<Longrightarrow> secret = so_EnvdSecret (sv_opts s)"
proof -
  obtain opts where opts: "ServerOptions os aws fleet f = Inr (opts, b)" and s: "server_New opts = Inr s"
    using assms by (auto simp: surface_New_def split: sum.splits)
  have anon: "so_AllowAnonymous opts = fl_AllowAnonymous f" using opts by (auto simp: ServerOptions_def split: sum.splits)
  show "sv_keys s \<noteq> [] \<or> fl_AllowAnonymous f" using server_New_keys [OF s] anon by simp
  have same: "so_EnvdSecret (sv_opts s) = so_EnvdSecret opts" "so_EnvdSecret opts \<noteq> []"
    using s by (auto simp: server_New_def with_defaults_def Let_def split: sum.splits prod.splits if_splits)
  then show "so_EnvdSecret (sv_opts s) \<noteq> []" by simp
  have "buildOptions os aws f (so_EnvdSecret opts) = Inr b" using opts by (auto simp: ServerOptions_def split: sum.splits)
  then show "bo_Uploads b = Some (UploadsDir root secret limit) \<Longrightarrow> secret = so_EnvdSecret (sv_opts s)"
    using same(1) by (auto simp: buildOptions_def no_builds_def Let_def split: if_splits option.splits sum.splits)
qed

section \<open>Properties\<close>

text \<open>
  Every request is served by one route: whatever builds and uploads the surface has, of the routes that match a
  method and a path there is a most specific one, and it is the one that serves; a request no route matches is refused.
\<close>

theorem mux_unambiguous:
  "case mux_match (surface_routes b) m path of
     None \<Rightarrow> (\<forall>r \<in> set (surface_routes b). \<not> route_matches m path r)
   | Some r \<Rightarrow> r \<in> set (surface_routes b) \<and> route_matches m path r
       \<and> (\<forall>r' \<in> set (surface_routes b). route_matches m path r' \<longrightarrow> narrower (rt_Path r) (rt_Path r'))"
proof -
  let ?ms = "filter (route_matches m path) (surface_routes b)"
  have "\<exists>r \<in> set ?ms. \<forall>r' \<in> set ?ms. narrower (rt_Path r) (rt_Path r')" if "?ms \<noteq> []"
    by (rule narrowest_exists [OF that], intro ballI, rule surface_comparable) auto
  then show ?thesis
    by (auto simp: mux_match_def Let_def find_None_iff find_Some_iff list_all_iff filter_empty_conv split: option.splits dest: nth_mem)
qed

text \<open>
  C11. Nothing is done without a key: on a surface started from its flags without anonymous access, a request whose
  key is not configured is refused, or is the health probe, and leaves the server's state as it was, unless it is a PUT of
  an archive; that one writes only when it carries the signature of an unexpired link, keyed by the surface's secret.
\<close>

theorem surface_requires_key:
  assumes "surface_New os aws fleet f = Inr (s, b, e)" and "\<not> fl_AllowAnonymous f" and "namespaceForKey s (rq_Key rq) = None"
    and "serve_surface sn o' s b rq S = (reply, S')"
  shows "S' = S \<and> (reply_status reply \<in> {401, 404, 405} \<or> reply = WriteHeader 204 \<and> rq_Path rq = [''health''])
    \<or> (\<exists>root limit t h files. bo_Uploads b = Some (UploadsDir root (so_EnvdSecret (sv_opts s)) limit) \<and> rq_Method rq = ''PUT'' \<and> rq_Path rq = [''templates'', t, ''files'', h]
        \<and> serve_upload (ev_mac (sn_env sn)) (so_EnvdSecret (sv_opts s)) limit t h (rq_Query rq) (rq_Upload rq) (io_now (sn_env sn)) (sn_rand sn)
            (ur_get root (su_world S)) = (reply, files)
        \<and> S' = S\<lparr>su_world := ur_set root files (su_world S)\<rparr>
        \<and> (files = ur_get root (su_world S) \<or> (\<exists>k. uploadKeyOf (query_Get (rq_Query rq) ''ns'') t h = Inr k
             \<and> upload_refusal (ev_mac (sn_env sn)) (so_EnvdSecret (sv_opts s)) k (rq_Query rq) (io_now (sn_env sn)) = None)))"
proof (cases "mux_match (surface_routes b) (rq_Method rq) (rq_Path rq)")
  case None
  then show ?thesis using assms(4) by (auto simp: serve_surface_def mux_refusal_def split: if_splits)
next
  case (Some r)
  note r = mux_match_Some [OF Some]
  obtain vs where vs: "path_values (rt_Path r) (rq_Path rq) = Some vs" using r by (auto simp: route_matches_def)
  have keys: "auth s (rq_Key rq) = Inl (WriteErr 401 (Msg ''invalid API key'' []))"
    using flags_server(1) [OF assms(1)] assms(2,3) by (simp add: auth_def)
  consider "rt_Auth r" | "r = open_route ''GET'' [Lit ''health''] H_health" | "r = put_route" using open_routes r by blast
  then show ?thesis
  proof cases
    case 1
    then show ?thesis using assms(4) Some keys by (auto simp: serve_surface_def Let_def)
  next
    case 2
    have "rq_Path rq = [''health'']" using vs 2 by (simp add: open_route_def path_values_iff)
    then show ?thesis using assms(4) Some 2 by (auto simp: serve_surface_def open_route_def run_handler_def Let_def)
  next
    case 3
    obtain t h where path: "rq_Path rq = [''templates'', t, ''files'', h]" "map_index (map_of vs) ''templateID'' = t"
      "map_index (map_of vs) ''hash'' = h" using put_path [OF vs [unfolded 3]] by blast
    have put: "put_upload sn rq (bo_Uploads b) t h S = (reply, S')"
      using assms(4) Some vs path 3 by (simp add: serve_surface_def put_route_def open_route_def run_handler_def Let_def)
    have verb: "rq_Method rq = ''PUT''" using r 3 by (auto simp: route_matches_def put_route_def open_route_def method_serves_def)
    show ?thesis
    proof (cases "\<exists>root secret limit. bo_Uploads b = Some (UploadsDir root secret limit)")
      case True
      then obtain root limit where u: "bo_Uploads b = Some (UploadsDir root (so_EnvdSecret (sv_opts s)) limit)"
        using flags_server(3) [OF assms(1)] by metis
      obtain q files where q: "serve_upload (ev_mac (sn_env sn)) (so_EnvdSecret (sv_opts s)) limit t h (rq_Query rq) (rq_Upload rq)
          (io_now (sn_env sn)) (sn_rand sn) (ur_get root (su_world S)) = (q, files)" by (metis surj_pair)
      then have "q = reply" "S' = S\<lparr>su_world := ur_set root files (su_world S)\<rparr>" using put by (simp_all add: put_upload_def u)
      then show ?thesis using q u verb path(1) serve_upload_signed [OF q]
        by blast
    next
      case False
      then show ?thesis using put by (auto simp: put_upload_def split: option.splits uploads.splits)
    qed
  qed
qed

section \<open>A concrete surface\<close>

text \<open>One key, a secret, and a store without nodes.\<close>

definition surface_os :: "unit host_os" where
  "surface_os = \<lparr>os_ReadFile = (\<lambda>p. if p = ''k'' then Inr ''key team'' else if p = ''s'' then Inr ''x'' else Inl EOF), os_MkdirAll = (\<lambda>p. None),
     os_OpenRoot = (\<lambda>p. Inl EOF)\<rparr>"

definition surface_flags :: e2b_Flags where
  "surface_flags = NewFlags\<lparr>fl_APIKeyFile := ''k'', fl_EnvdSecretFile := ''s'', fl_Domain := ''d''\<rparr>"

definition surface_server :: "err + unit Server \<times> unit BuildOptions \<times> executor" where
  "surface_server = surface_New surface_os (\<lambda>c. Inl EOF) publish_source surface_flags"

definition surface_state :: "unit surface" where
  "surface_state = \<lparr>su_store = accounting_store, su_exec = executor_New 0 0 0, su_launched = [], su_world = ()\<rparr>"

definition surface_request :: e2b_request where
  "surface_request = \<lparr>rq_Method = ''DELETE'', rq_Path = [''sandboxes'', ''c1''], rq_Key = ''guess'', rq_Query = (\<lambda>k. []), rq_Body = [], rq_Upload = ([], None),
     rq_TLS = False, rq_ForwardedProto = [], rq_Host = []\<rparr>"

definition surface_codecs :: body_codecs where
  "surface_codecs = \<lparr>cd_NewSandbox = (\<lambda>b. NoBody), cd_Timeout = (\<lambda>b. NoBody), cd_Refresh = (\<lambda>b. NoBody), cd_Pause = (\<lambda>b. NoBody),
     cd_Connect = (\<lambda>b. NoBody), cd_Resume = (\<lambda>b. NoBody), cd_Fork = (\<lambda>b. NoBody), cd_Snapshot = (\<lambda>b. NoBody), cd_Patch = (\<lambda>b. NoBody),
     cd_AssignTags = (\<lambda>b. NoBody), cd_DeleteTags = (\<lambda>b. NoBody), cd_BuildRequest = (\<lambda>b. NoBody), cd_BuildStart = (\<lambda>b. NoBody)\<rparr>"

definition surface_demo_env :: surface_env where
  "surface_demo_env = \<lparr>sn_env = accounting_env, sn_uuid5 = (\<lambda>d. d), sn_rand = ''R'', sn_codecs = surface_codecs\<rparr>"

lemma surface_starts:
  "case surface_server of Inl e \<Rightarrow> False | Inr (s, b, e) \<Rightarrow> namespaceForKey s ''guess'' = None \<and> namespaceForKey s ''key'' = Some ''team''"
proof -
  have t: "path_Clean ''k'' = ''k''" "path_Clean ''s'' = ''s''" "strings_TrimSpace ''key team'' = ''key team''"
    "strings_TrimSpace ''x'' = ''x''" "strings_TrimSpace ''d'' = ''d''" "strings_Fields ''key team'' = [''key'', ''team'']"
    "strings_HasPrefix ''key team'' ''#'' = False" by code_simp+
  have "ServerOptions surface_os (\<lambda>c. Inl EOF) publish_source surface_flags = Inr (\<lparr>so_Namespace = ''default'', so_Domain = ''d'', so_EnvdVersion = [],
      so_DefaultTimeoutSeconds = 0, so_APIKeys = [''key team''], so_AllowAnonymous = False, so_Inventory = Some publish_source,
      so_TemplateAliases = [], so_EnvdSecret = ''x''\<rparr>, no_builds)"
    by (simp add: ServerOptions_def fileLines_def EnvdSecret_def buildOptions_def surface_os_def surface_flags_def NewFlags_def t)
  then show ?thesis
    by (simp add: surface_server_def surface_New_def server_New_def with_defaults_def cmp_Or_def Let_def t namespaceForKey_def)
qed

theorem surface_requires_key_witness:
  "\<exists>s b e. surface_server = Inr (s, b, e) \<and> snd (serve_surface surface_demo_env demo_envd s b surface_request surface_state) = surface_state"
proof -
  obtain s b e where run: "surface_server = Inr (s, b, e)" and key: "namespaceForKey s ''guess'' = None"
    using surface_starts by (auto split: sum.splits)
  have "\<not> fl_AllowAnonymous surface_flags" "namespaceForKey s (rq_Key surface_request) = None"
    using key by (simp_all add: surface_flags_def NewFlags_def surface_request_def)
  from surface_requires_key [OF run [unfolded surface_server_def] this prod.collapse [symmetric], of surface_demo_env demo_envd surface_state]
  have "snd (serve_surface surface_demo_env demo_envd s b surface_request surface_state) = surface_state" by (simp add: surface_request_def)
  then show ?thesis using run by blast
qed

theorem mux_unambiguous_witness:
  "\<exists>r. mux_match (surface_routes (no_builds :: unit BuildOptions)) ''GET'' [''templates'', ''aliases'', ''base''] = Some r \<and> rt_Handler r = H_templateAlias
     \<and> narrower (rt_Path r) [Lit ''templates'', Wild ''templateID'', Wild ''sub'']"
proof -
  obtain r where r: "mux_match (surface_routes (no_builds :: unit BuildOptions)) ''GET'' [''templates'', ''aliases'', ''base''] = Some r" "rt_Handler r = H_templateAlias"
    by (simp add: mux_match_def surface_routes_def no_builds_def sandbox_routes_def template_routes_def open_route_def auth_route_def
        route_matches_def method_serves_def)
  let ?sub = "auth_route ''GET'' [Lit ''templates'', Wild ''templateID'', Wild ''sub''] H_templateSub"
  have "?sub \<in> set (surface_routes (no_builds :: unit BuildOptions))" by (simp add: surface_routes_def template_routes_def)
  moreover have "route_matches ''GET'' [''templates'', ''aliases'', ''base''] ?sub" by (simp add: route_matches_def method_serves_def auth_route_def)
  ultimately have "narrower (rt_Path r) (rt_Path ?sub)"
    using mux_unambiguous [of "no_builds :: unit BuildOptions" "''GET''" "[''templates'', ''aliases'', ''base'']"] r(1) by simp
  then show ?thesis using r by (simp add: auth_route_def)
qed

end
