(* ===== verification/Http_Listener.thy ===== *)
theory Http_Listener
  imports Envd_Proxy E2B_Surface
begin

text \<open>
  The listeners of the two HTTP surfaces: \<^verbatim>\<open>Flags.Serve\<close> of the edge (pkg/envdproxy/flags.go) and
  \<^verbatim>\<open>Server.Serve\<close> of the e2b surface (pkg/e2bcompat/server.go). Each runs an \<^verbatim>\<open>http.Server\<close>, a goroutine that
  shuts it down when a context ends, and a caller that waits for that goroutine. Every state is a record of the
  places these are at, and a step is one of them moving, a connection coming or going, or the context ending.
  An \<^verbatim>\<open>http.Server\<close> is what the code relies on of it: it accepts until it is shut down, \<^verbatim>\<open>Serve\<close> then answers
  \<^verbatim>\<open>ErrServerClosed\<close> at once, and \<^verbatim>\<open>Shutdown\<close> answers when no connection is left or its own context is over.
\<close>

section \<open>The server of net/http\<close>

record http_srv =
  hs_shutdown :: bool
  hs_conns :: nat

definition http_fresh :: http_srv where
  "http_fresh = \<lparr>hs_shutdown = False, hs_conns = 0\<rparr>"

inductive conn_step :: "http_srv \<Rightarrow> http_srv \<Rightarrow> bool" where
  accept: "\<not> hs_shutdown s \<Longrightarrow> conn_step s (s\<lparr>hs_conns := Suc (hs_conns s)\<rparr>)"
| finish: "hs_conns s = Suc n \<Longrightarrow> conn_step s (s\<lparr>hs_conns := n\<rparr>)"

text \<open>
  The goroutine that drains a server: it waits for its context, calls \<^verbatim>\<open>Shutdown\<close>, and is over when that returned;
  \<open>Drained True\<close> when no connection was left, \<open>Drained False\<close> when the timeout cut it short.
\<close>

datatype drain_pc = WaitCtx | ShuttingDown | Drained bool

text \<open>Its moves, where \<open>ended\<close> says that the context it waits for is over.\<close>

inductive drain_step :: "bool \<Rightarrow> http_srv \<times> drain_pc \<Rightarrow> http_srv \<times> drain_pc \<Rightarrow> bool" for ended :: bool where
  shut_down: "ended \<Longrightarrow> drain_step ended (s, WaitCtx) (s\<lparr>hs_shutdown := True\<rparr>, ShuttingDown)"
| drained: "hs_conns s = 0 \<Longrightarrow> drain_step ended (s, ShuttingDown) (s, Drained True)"
| timed_out: "drain_step ended (s, ShuttingDown) (s, Drained False)"

inductive_simps drain_wait: "drain_step ended (s, WaitCtx) t"
inductive_simps drain_shutting: "drain_step ended (s, ShuttingDown) t"
inductive_simps drain_over: "drain_step ended (s, Drained b) t"

lemmas drain_simps = drain_wait drain_shutting drain_over

fun drain_rank :: "drain_pc \<Rightarrow> nat" where
  "drain_rank WaitCtx = 2"
| "drain_rank ShuttingDown = 1"
| "drain_rank (Drained b) = 0"

section \<open>The contract of a drained listener\<close>

text \<open>
  What both listeners have in common: the server starts fresh, every step is one of the server's connections, of the
  draining goroutine, or of neither, and the context stays over. A state is final when the listener's caller is through.
\<close>

locale listener =
  fixes init :: "'s \<Rightarrow> bool" and step :: "'s \<Rightarrow> 's \<Rightarrow> bool"
    and srv :: "'s \<Rightarrow> http_srv" and drain :: "'s \<Rightarrow> drain_pc" and ended :: "'s \<Rightarrow> bool"
    and final :: "'s \<Rightarrow> bool" and rank :: "'s \<Rightarrow> nat"
  assumes init_fresh: "init s \<Longrightarrow> srv s = http_fresh \<and> drain s = WaitCtx"
    and step_parts: "step s t \<Longrightarrow> conn_step (srv s) (srv t) \<and> drain t = drain s
        \<or> drain_step (ended s) (srv s, drain s) (srv t, drain t) \<or> srv t = srv s \<and> drain t = drain s"
    and ended_stays: "step s t \<Longrightarrow> ended s \<Longrightarrow> ended t"
    and step_rank: "step s t \<Longrightarrow> hs_shutdown (srv s) \<Longrightarrow> ended s \<Longrightarrow> rank t < rank s"
    and drain_enabled: "drain_step (ended s) (srv s, drain s) (h, d) \<Longrightarrow> \<exists>t. step s t \<and> srv t = h \<and> drain t = d"
    and drained_enabled: "drain s = Drained b \<Longrightarrow> hs_shutdown (srv s) \<Longrightarrow> ended s \<Longrightarrow> \<not> final s \<Longrightarrow> \<exists>t. step s t"
begin

definition reachable :: "'s \<Rightarrow> bool" where
  "reachable s \<longleftrightarrow> (\<exists>s0. init s0 \<and> step\<^sup>*\<^sup>* s0 s)"

lemma reachable_induct [consumes 1, case_names init step]:
  assumes "reachable s" and "\<And>s. init s \<Longrightarrow> P s" and "\<And>s t. reachable s \<Longrightarrow> P s \<Longrightarrow> step s t \<Longrightarrow> P t"
  shows "P s"
proof -
  obtain s0 where s0: "init s0" "step\<^sup>*\<^sup>* s0 s" using assms(1) reachable_def by blast
  from s0(2) have "reachable s \<and> P s"
    by (induction rule: rtranclp_induct) (use s0(1) assms(2,3) in \<open>auto simp: reachable_def intro: rtranclp.rtrancl_into_rtrancl\<close>)
  then show ?thesis ..
qed

lemma reachable_step: "reachable s \<Longrightarrow> step s t \<Longrightarrow> reachable t"
  by (meson reachable_def rtranclp.rtrancl_into_rtrancl)

lemma reachable_steps: "step\<^sup>*\<^sup>* s t \<Longrightarrow> reachable s \<Longrightarrow> reachable t"
  by (induction rule: rtranclp_induct) (auto intro: reachable_step)

text \<open>The server is shut down exactly from the moment the drain began, only after the context ended; a full drain leaves no connection.\<close>

lemma drain_invariant:
  assumes "reachable s"
  shows "(hs_shutdown (srv s) \<longleftrightarrow> drain s \<noteq> WaitCtx) \<and> (drain s \<noteq> WaitCtx \<longrightarrow> ended s) \<and> (drain s = Drained True \<longrightarrow> hs_conns (srv s) = 0)"
  using assms
proof (induction rule: reachable_induct)
  case (init s)
  then show ?case using init_fresh by (simp add: http_fresh_def)
next
  case (step s t)
  from step_parts [OF step.hyps(2)] show ?case
  proof (elim disjE)
    assume "conn_step (srv s) (srv t) \<and> drain t = drain s"
    then show ?thesis using step.IH ended_stays [OF step.hyps(2)] by (auto elim!: conn_step.cases)
  next
    assume "drain_step (ended s) (srv s, drain s) (srv t, drain t)"
    then show ?thesis using step.IH ended_stays [OF step.hyps(2)]
      by (cases "drain s") (auto simp: drain_simps)
  next
    assume "srv t = srv s \<and> drain t = drain s"
    then show ?thesis using step.IH ended_stays [OF step.hyps(2)] by auto
  qed
qed

text \<open>Once the shutdown began no step leads back, so every run is bounded by the rank.\<close>

lemma shutdown_kept:
  assumes "reachable s" "hs_shutdown (srv s)" "step s t"
  shows "hs_shutdown (srv t) \<and> ended s \<and> rank t < rank s"
proof -
  have "drain s \<noteq> WaitCtx" and e: "ended s" using drain_invariant [OF assms(1)] assms(2) by auto
  then have "hs_shutdown (srv t)" using step_parts [OF assms(3)] assms(2)
    by (cases "drain s") (auto simp: drain_simps elim!: conn_step.cases)
  with e step_rank [OF assms(3,2) e] show ?thesis by blast
qed

lemma shutdown_bounded:
  assumes "(step ^^ n) s t" "reachable s" "hs_shutdown (srv s)"
  shows "n + rank t \<le> rank s \<and> reachable t \<and> hs_shutdown (srv t)"
  using assms
proof (induction n arbitrary: t)
  case (Suc n)
  then obtain u where u: "(step ^^ n) s u" "step u t" by auto
  with Suc show ?case using shutdown_kept [of u t] reachable_step [of u t] by fastforce
qed simp

lemma shutdown_progress:
  assumes "reachable s" "hs_shutdown (srv s)" "\<not> final s"
  shows "\<exists>t. step s t"
proof (cases "drain s")
  case WaitCtx
  then show ?thesis using drain_invariant [OF assms(1)] assms(2) by simp
next
  case ShuttingDown
  then show ?thesis using drain_enabled [of s "srv s" "Drained False"] by (auto simp: drain_simps)
next
  case (Drained b)
  then show ?thesis using drained_enabled [of s b] drain_invariant [OF assms(1)] assms(2,3) by simp
qed

lemma shutdown_reaches_final:
  assumes "reachable s" "hs_shutdown (srv s)"
  shows "\<exists>t. step\<^sup>*\<^sup>* s t \<and> final t"
  using assms
proof (induction "rank s" arbitrary: s rule: less_induct)
  case less
  show ?case
  proof (cases "final s")
    case False
    then obtain t where t: "step s t" using shutdown_progress less.prems by blast
    with less have "\<exists>u. step\<^sup>*\<^sup>* t u \<and> final u"
      using shutdown_kept [OF less.prems t] reachable_step [OF less.prems(1) t] by blast
    then show ?thesis using t by (meson converse_rtranclp_into_rtranclp)
  qed blast
qed

text \<open>And from the end of the context the shutdown is one step away, so the listener can always come to its end.\<close>

lemma ended_reaches_final:
  assumes "reachable s" "ended s"
  shows "\<exists>t. step\<^sup>*\<^sup>* s t \<and> final t"
proof (cases "drain s = WaitCtx")
  case True
  with assms(2) obtain t where t: "step s t" "drain t = ShuttingDown"
    using drain_enabled [of s "(srv s)\<lparr>hs_shutdown := True\<rparr>" ShuttingDown] by (auto simp: drain_simps)
  then have "reachable t" using reachable_step assms(1) by blast
  then have "hs_shutdown (srv t)" using drain_invariant t(2) by simp
  with \<open>reachable t\<close> show ?thesis using shutdown_reaches_final t(1) by (meson converse_rtranclp_into_rtranclp)
next
  case False
  then show ?thesis using drain_invariant [OF assms(1)] shutdown_reaches_final [OF assms(1)] by blast
qed

end

section \<open>The edge's listener\<close>

definition ErrServerClosed :: err where "ErrServerClosed = PlainError (Msg ''http: Server closed'' [])"

record proxy_Flags =
  pf_Addr :: string
  pf_CertFile :: string
  pf_KeyFile :: string
  pf_GuestHTTP2 :: bool

text \<open>Where \<^verbatim>\<open>Flags.Serve\<close> is: loading the key pair, in \<^verbatim>\<open>Accept\<close>, at \<^verbatim>\<open><-drained\<close>, or back at its caller.\<close>

datatype serve_pc = Opening | Serving | Closing | Returned "err option"

record proxy_listener =
  pl_ctx :: bool
  pl_srv :: http_srv
  pl_drain :: drain_pc
  pl_main :: serve_pc

definition proxy_Serve :: "proxy_Flags \<Rightarrow> bool \<Rightarrow> err + proxy_listener" where
  "proxy_Serve f cancelled =
     (if (pf_CertFile f = []) \<noteq> (pf_KeyFile f = [])
      then Inl (PlainError (Msg ''the proxy's TLS certificate and private key must be set together'' []))
      else Inr \<lparr>pl_ctx = cancelled, pl_srv = http_fresh, pl_drain = WaitCtx, pl_main = Opening\<rparr>)"

text \<open>What \<^verbatim>\<open>Flags.Serve\<close> does with the error its server answered.\<close>

definition serve_answer :: "err \<Rightarrow> serve_pc" where
  "serve_answer e = (if err_Is e ErrServerClosed then Closing else Returned (Some e))"

inductive proxy_step :: "proxy_Flags \<Rightarrow> proxy_listener \<Rightarrow> proxy_listener \<Rightarrow> bool" for f :: proxy_Flags where
  px_cancel: "\<not> pl_ctx s \<Longrightarrow> proxy_step f s (s\<lparr>pl_ctx := True\<rparr>)"
| px_conn: "conn_step (pl_srv s) h \<Longrightarrow> hs_conns h < hs_conns (pl_srv s) \<or> pl_main s = Serving \<Longrightarrow> proxy_step f s (s\<lparr>pl_srv := h\<rparr>)"
| px_drain: "drain_step (pl_ctx s) (pl_srv s, pl_drain s) (h, d) \<Longrightarrow> proxy_step f s (s\<lparr>pl_srv := h, pl_drain := d\<rparr>)"
| px_key_pair: "pl_main s = Opening \<Longrightarrow> pf_CertFile f \<noteq> [] \<Longrightarrow> proxy_step f s (s\<lparr>pl_main := serve_answer e\<rparr>)"
| px_open: "pl_main s = Opening \<Longrightarrow> \<not> hs_shutdown (pl_srv s) \<Longrightarrow> proxy_step f s (s\<lparr>pl_main := Serving\<rparr>)"
| px_closed: "pl_main s \<in> {Opening, Serving} \<Longrightarrow> hs_shutdown (pl_srv s) \<Longrightarrow> proxy_step f s (s\<lparr>pl_main := serve_answer ErrServerClosed\<rparr>)"
| px_accept: "pl_main s = Serving \<Longrightarrow> \<not> hs_shutdown (pl_srv s) \<Longrightarrow> \<not> err_Is e ErrServerClosed \<Longrightarrow> proxy_step f s (s\<lparr>pl_main := serve_answer e\<rparr>)"
| px_return: "pl_main s = Closing \<Longrightarrow> pl_drain s = Drained b \<Longrightarrow> proxy_step f s (s\<lparr>pl_main := Returned None\<rparr>)"

definition proxy_init :: "proxy_Flags \<Rightarrow> proxy_listener \<Rightarrow> bool" where
  "proxy_init f s = (\<exists>cancelled. proxy_Serve f cancelled = Inr s)"

fun serve_rank :: "serve_pc \<Rightarrow> nat" where
  "serve_rank Opening = 3"
| "serve_rank Serving = 2"
| "serve_rank Closing = 1"
| "serve_rank (Returned r) = 0"

definition proxy_rank :: "proxy_listener \<Rightarrow> nat" where
  "proxy_rank s = hs_conns (pl_srv s) + drain_rank (pl_drain s) + serve_rank (pl_main s)"

definition proxy_returned :: "proxy_listener \<Rightarrow> bool" where
  "proxy_returned s = (case pl_main s of Returned r \<Rightarrow> True | _ \<Rightarrow> False)"

lemma serve_answer_rank: "serve_rank (serve_answer e) < 2"
  by (simp add: serve_answer_def)

lemma conn_down: "conn_step h h' \<Longrightarrow> hs_shutdown h \<Longrightarrow> hs_conns h' < hs_conns h"
  by (auto elim: conn_step.cases)

lemma drain_down: "drain_step c (h, d) (h', d') \<Longrightarrow> drain_rank d' < drain_rank d \<and> hs_conns h' = hs_conns h"
  by (auto elim: drain_step.cases)

interpretation edge_listener: listener "proxy_init f" "proxy_step f" pl_srv pl_drain pl_ctx proxy_returned proxy_rank
proof
  fix s t
  show "pl_srv s = http_fresh \<and> pl_drain s = WaitCtx" if "proxy_init f s"
    using that by (auto simp: proxy_init_def proxy_Serve_def split: if_splits)
  show "conn_step (pl_srv s) (pl_srv t) \<and> pl_drain t = pl_drain s \<or> drain_step (pl_ctx s) (pl_srv s, pl_drain s) (pl_srv t, pl_drain t)
      \<or> pl_srv t = pl_srv s \<and> pl_drain t = pl_drain s" if "proxy_step f s t"
    using that by cases auto
  show "pl_ctx t" if "proxy_step f s t" "pl_ctx s" using that by cases auto
  show "proxy_rank t < proxy_rank s" if "proxy_step f s t" "hs_shutdown (pl_srv s)" "pl_ctx s"
    using that serve_answer_rank by cases (auto simp: proxy_rank_def dest: conn_down drain_down intro: less_trans)
  show "\<exists>t. proxy_step f s t \<and> pl_srv t = h \<and> pl_drain t = d" if "drain_step (pl_ctx s) (pl_srv s, pl_drain s) (h, d)" for h d
    using px_drain [OF that] by fastforce
  show "\<exists>t. proxy_step f s t" if "pl_drain s = Drained b" "hs_shutdown (pl_srv s)" "pl_ctx s" "\<not> proxy_returned s" for b
    using that by (cases "pl_main s") (auto simp: proxy_returned_def intro: px_closed px_return)
qed

section \<open>The listener of the e2b surface\<close>

text \<open>
  \<^verbatim>\<open>Server.Serve\<close> returns at once with a closure: the goroutine in \<^verbatim>\<open>httpSrv.Serve\<close> logs an error that is not
  \<^verbatim>\<open>ErrServerClosed\<close>, and the closure ends the derived context and waits for the drain.
\<close>

datatype stop_pc = Working | Stopping | Stopped

record e2b_listener =
  el_ctx :: bool
  el_stop :: bool
  el_srv :: http_srv
  el_drain :: drain_pc
  el_serving :: bool
  el_logged :: "err list"
  el_caller :: stop_pc

definition e2b_Serve :: "string \<Rightarrow> err option \<Rightarrow> bool \<Rightarrow> err + e2b_listener" where
  "e2b_Serve addr listen cancelled =
     (case listen of
        Some e \<Rightarrow> Inl (Wrap (Msg ''listen on e2b address %q: %w'' [addr]) e)
      | None \<Rightarrow> Inr \<lparr>el_ctx = cancelled, el_stop = False, el_srv = http_fresh, el_drain = WaitCtx, el_serving = True, el_logged = [], el_caller = Working\<rparr>)"

definition e2b_served :: "err \<Rightarrow> e2b_listener \<Rightarrow> e2b_listener" where
  "e2b_served e s = s\<lparr>el_serving := False, el_logged := (if err_Is e ErrServerClosed then el_logged s else el_logged s @ [e])\<rparr>"

inductive e2b_step :: "e2b_listener \<Rightarrow> e2b_listener \<Rightarrow> bool" where
  el_cancel: "\<not> el_ctx s \<Longrightarrow> e2b_step s (s\<lparr>el_ctx := True\<rparr>)"
| el_conn: "conn_step (el_srv s) h \<Longrightarrow> hs_conns h < hs_conns (el_srv s) \<or> el_serving s \<Longrightarrow> e2b_step s (s\<lparr>el_srv := h\<rparr>)"
| el_drains: "drain_step (el_ctx s \<or> el_stop s) (el_srv s, el_drain s) (h, d) \<Longrightarrow> e2b_step s (s\<lparr>el_srv := h, el_drain := d\<rparr>)"
| el_closed: "el_serving s \<Longrightarrow> hs_shutdown (el_srv s) \<Longrightarrow> e2b_step s (e2b_served ErrServerClosed s)"
| el_accept: "el_serving s \<Longrightarrow> \<not> hs_shutdown (el_srv s) \<Longrightarrow> \<not> err_Is e ErrServerClosed \<Longrightarrow> e2b_step s (e2b_served e s)"
| el_stops: "el_caller s = Working \<Longrightarrow> e2b_step s (s\<lparr>el_stop := True, el_caller := Stopping\<rparr>)"
| el_through: "el_caller s = Stopping \<Longrightarrow> el_drain s = Drained b \<Longrightarrow> e2b_step s (s\<lparr>el_caller := Stopped\<rparr>)"

definition e2b_init :: "e2b_listener \<Rightarrow> bool" where
  "e2b_init s = (\<exists>addr cancelled. e2b_Serve addr None cancelled = Inr s)"

fun stop_rank :: "stop_pc \<Rightarrow> nat" where
  "stop_rank Working = 2"
| "stop_rank Stopping = 1"
| "stop_rank Stopped = 0"

definition e2b_rank :: "e2b_listener \<Rightarrow> nat" where
  "e2b_rank s = hs_conns (el_srv s) + drain_rank (el_drain s) + stop_rank (el_caller s)
     + (if el_serving s then 1 else 0) + (if el_ctx s then 0 else 1)"

interpretation surface_listener: listener e2b_init e2b_step el_srv el_drain "\<lambda>s. el_ctx s \<or> el_stop s" "\<lambda>s. el_caller s = Stopped" e2b_rank
proof
  fix s t
  show "el_srv s = http_fresh \<and> el_drain s = WaitCtx" if "e2b_init s"
    using that by (auto simp: e2b_init_def e2b_Serve_def)
  show "conn_step (el_srv s) (el_srv t) \<and> el_drain t = el_drain s \<or> drain_step (el_ctx s \<or> el_stop s) (el_srv s, el_drain s) (el_srv t, el_drain t)
      \<or> el_srv t = el_srv s \<and> el_drain t = el_drain s" if "e2b_step s t"
    using that by cases (auto simp: e2b_served_def)
  show "el_ctx t \<or> el_stop t" if "e2b_step s t" "el_ctx s \<or> el_stop s" using that by cases (auto simp: e2b_served_def)
  show "e2b_rank t < e2b_rank s" if "e2b_step s t" "hs_shutdown (el_srv s)" "el_ctx s \<or> el_stop s"
    using that by cases (auto simp: e2b_rank_def e2b_served_def dest: conn_down drain_down)
  show "\<exists>t. e2b_step s t \<and> el_srv t = h \<and> el_drain t = d" if "drain_step (el_ctx s \<or> el_stop s) (el_srv s, el_drain s) (h, d)" for h d
    using el_drains [OF that] by fastforce
  show "\<exists>t. e2b_step s t" if "el_drain s = Drained b" "hs_shutdown (el_srv s)" "el_ctx s \<or> el_stop s" "el_caller s \<noteq> Stopped" for b
    using that by (cases "el_caller s") (auto intro: el_stops el_through)
qed

section \<open>Properties\<close>

lemma edge_reachable: "proxy_Serve f cancelled = Inr s0 \<Longrightarrow> (proxy_step f)\<^sup>*\<^sup>* s0 s \<Longrightarrow> edge_listener.reachable f s"
  unfolding edge_listener.reachable_def proxy_init_def by blast

lemma edge_returns:
  assumes "(proxy_step f)\<^sup>*\<^sup>* s0 s" "proxy_Serve f cancelled = Inr s0"
  shows "case pl_main s of Returned None \<Rightarrow> (\<exists>b. pl_drain s = Drained b) | Returned (Some e) \<Rightarrow> \<not> err_Is e ErrServerClosed | _ \<Rightarrow> True"
  using assms
proof (induction rule: rtranclp_induct)
  case base
  then show ?case by (auto simp: proxy_Serve_def split: if_splits)
next
  case (step s t)
  note IH = step.IH [OF step.prems]
  from step.hyps(2) show ?case
    by cases (use IH in \<open>auto simp: serve_answer_def drain_simps split: serve_pc.splits option.splits if_splits\<close>)
qed

text \<open>Whatever the context, the edge can come back: the context may end, and then it does.\<close>

lemma edge_returns_from:
  assumes "edge_listener.reachable f p"
  shows "\<exists>q r. (proxy_step f)\<^sup>*\<^sup>* p q \<and> pl_main q = Returned r"
proof -
  have final: "\<exists>r. pl_main q = Returned r" if "proxy_returned q" for q using that by (cases "pl_main q") (auto simp: proxy_returned_def)
  show ?thesis
  proof (cases "pl_ctx p")
    case True
    then show ?thesis using edge_listener.ended_reaches_final [OF assms] final by blast
  next
    case False
    then have step: "proxy_step f p (p\<lparr>pl_ctx := True\<rparr>)" by (rule px_cancel)
    obtain q where q: "(proxy_step f)\<^sup>*\<^sup>* (p\<lparr>pl_ctx := True\<rparr>) q" "proxy_returned q"
      using edge_listener.ended_reaches_final [OF edge_listener.reachable_step [OF assms step]] by auto
    from converse_rtranclp_into_rtranclp [of "proxy_step f", OF step q(1)] final [OF q(2)] show ?thesis by blast
  qed
qed

text \<open>
  C38. The edge's listener ends cleanly. In every interleaving of its server, its connections and the goroutine that
  drains it: \<^verbatim>\<open>Serve\<close> returns nil only after the context ended and the shutdown is over, with no connection left
  unless the timeout cut it short; it returns an error only when the server itself failed; once the
  context has ended it can always still return; and from the moment the shutdown began every run does, within as many
  steps as there are connections and goroutines left to finish.
\<close>

theorem proxy_serve_drains:
  assumes "proxy_Serve f cancelled = Inr s0" and "(proxy_step f)\<^sup>*\<^sup>* s0 s"
  shows "(pl_main s = Returned None \<longrightarrow> pl_ctx s \<and> (\<exists>idle. pl_drain s = Drained idle \<and> (idle \<longrightarrow> hs_conns (pl_srv s) = 0)))
    \<and> (\<forall>e. pl_main s = Returned (Some e) \<longrightarrow> \<not> err_Is e ErrServerClosed)
    \<and> (pl_ctx s \<longrightarrow> (\<exists>t. (proxy_step f)\<^sup>*\<^sup>* s t \<and> proxy_returned t))
    \<and> (hs_shutdown (pl_srv s) \<longrightarrow> (\<forall>n t. (proxy_step f ^^ n) s t \<longrightarrow> n + proxy_rank t \<le> proxy_rank s
          \<and> (\<not> proxy_returned t \<longrightarrow> (\<exists>u. proxy_step f t u))))"
proof -
  note reach = edge_reachable [OF assms]
  have "pl_ctx s \<and> (\<exists>idle. pl_drain s = Drained idle \<and> (idle \<longrightarrow> hs_conns (pl_srv s) = 0))" if "pl_main s = Returned None"
    using edge_returns [OF assms(2,1)] edge_listener.drain_invariant [OF reach] that by auto
  moreover have "\<not> err_Is e ErrServerClosed" if "pl_main s = Returned (Some e)" for e
    using edge_returns [OF assms(2,1)] that by simp
  moreover have "n + proxy_rank t \<le> proxy_rank s \<and> (\<not> proxy_returned t \<longrightarrow> (\<exists>u. proxy_step f t u))"
    if "hs_shutdown (pl_srv s)" "(proxy_step f ^^ n) s t" for n t
    using edge_listener.shutdown_bounded [OF that(2) reach that(1)] edge_listener.shutdown_progress by blast
  ultimately show ?thesis using edge_listener.ended_reaches_final [OF reach] by blast
qed

text \<open>The same for the e2b surface: the closure comes back only from a drained server that accepts nothing any more.\<close>

lemma surface_stopped:
  assumes "e2b_step\<^sup>*\<^sup>* s0 s" "e2b_Serve addr None cancelled = Inr s0"
  shows "(el_caller s = Stopped \<longrightarrow> (\<exists>b. el_drain s = Drained b)) \<and> (\<forall>e \<in> set (el_logged s). \<not> err_Is e ErrServerClosed)"
  using assms
proof (induction rule: rtranclp_induct)
  case base
  then show ?case by (auto simp: e2b_Serve_def)
next
  case (step s t)
  note IH = step.IH [OF step.prems]
  from step.hyps(2) show ?case by cases (use IH in \<open>auto simp: e2b_served_def drain_simps\<close>)
qed

lemma surface_drained:
  assumes "e2b_Serve addr None cancelled = Inr s0" and "e2b_step\<^sup>*\<^sup>* s0 s"
  shows "(el_caller s = Stopped \<longrightarrow> hs_shutdown (el_srv s) \<and> (\<exists>idle. el_drain s = Drained idle \<and> (idle \<longrightarrow> hs_conns (el_srv s) = 0)))
    \<and> (el_ctx s \<or> el_stop s \<longrightarrow> (\<exists>t. e2b_step\<^sup>*\<^sup>* s t \<and> el_caller t = Stopped))"
proof -
  have reach: "surface_listener.reachable s"
    unfolding surface_listener.reachable_def e2b_init_def using assms by blast
  then show ?thesis
    using surface_stopped [OF assms(2,1)] surface_listener.drain_invariant [OF reach] surface_listener.ended_reaches_final [OF reach]
    by auto
qed

section \<open>Witness\<close>

definition listener_flags :: proxy_Flags where
  "listener_flags = \<lparr>pf_Addr = '':8443'', pf_CertFile = [], pf_KeyFile = [], pf_GuestHTTP2 = False\<rparr>"

definition listener_start :: proxy_listener where
  "listener_start = \<lparr>pl_ctx = False, pl_srv = http_fresh, pl_drain = WaitCtx, pl_main = Opening\<rparr>"

text \<open>A run with one connection in flight when the context ends.\<close>

definition listener_busy :: proxy_listener where
  "listener_busy = \<lparr>pl_ctx = True, pl_srv = \<lparr>hs_shutdown = True, hs_conns = 1\<rparr>, pl_drain = ShuttingDown, pl_main = Serving\<rparr>"

lemma listener_run: "(proxy_step listener_flags)\<^sup>*\<^sup>* listener_start listener_busy"
proof -
  let ?open = "\<lparr>pl_ctx = False, pl_srv = http_fresh, pl_drain = WaitCtx, pl_main = Serving\<rparr>"
  let ?conn = "?open\<lparr>pl_srv := \<lparr>hs_shutdown = False, hs_conns = 1\<rparr>\<rparr>"
  have "proxy_step listener_flags listener_start ?open"
    using px_open [of listener_start listener_flags] by (simp add: listener_start_def http_fresh_def)
  moreover have "proxy_step listener_flags ?open ?conn"
    using px_conn [OF accept, of ?open listener_flags] by (simp add: http_fresh_def)
  moreover have "proxy_step listener_flags ?conn (?conn\<lparr>pl_ctx := True\<rparr>)" by (rule px_cancel) simp
  moreover have "proxy_step listener_flags (?conn\<lparr>pl_ctx := True\<rparr>) listener_busy"
    using px_drain [of "?conn\<lparr>pl_ctx := True\<rparr>" "\<lparr>hs_shutdown = True, hs_conns = 1\<rparr>" ShuttingDown listener_flags]
    by (simp add: listener_busy_def drain_simps)
  ultimately show ?thesis by (meson rtranclp.rtrancl_into_rtrancl rtranclp.rtrancl_refl)
qed

theorem proxy_serve_drains_witness:
  "(\<exists>t. (proxy_step listener_flags)\<^sup>*\<^sup>* listener_busy t \<and> proxy_returned t)
   \<and> (\<nexists>n t. (proxy_step listener_flags ^^ n) listener_busy t \<and> 4 < n)"
proof -
  have "proxy_Serve listener_flags False = Inr listener_start"
    by (simp add: proxy_Serve_def listener_flags_def listener_start_def)
  moreover have "pl_ctx listener_busy" "hs_shutdown (pl_srv listener_busy)" "proxy_rank listener_busy = 4"
    by (simp_all add: listener_busy_def proxy_rank_def)
  ultimately have "\<exists>t. (proxy_step listener_flags)\<^sup>*\<^sup>* listener_busy t \<and> proxy_returned t"
    "n + proxy_rank t \<le> 4" if "(proxy_step listener_flags ^^ n) listener_busy t" for n t
    using proxy_serve_drains [OF _ listener_run] that by metis+
  then show ?thesis by (metis add_leE linorder_not_less relpowp_0_I)
qed

end
