(* ===== verification/Mesh_Inventory.thy ===== *)
theory Mesh_Inventory
  imports Inventory_Source Store_Entry
begin

text \<open>
  The mesh inventory source (pkg/scale/meshinventory/source.go): every tick polls the members, counts
  failures, merges the addresses that turn out to be one node, adds the peers the answers name, and
  publishes a snapshot. Go ranges over a map in an unspecified order, so the loops whose result can
  depend on it take the order as an argument; a member deleted before it is reached is not visited.
\<close>

definition defaultPollInterval :: int where "defaultPollInterval = 10 * second"
definition defaultMaxStale :: int where "defaultMaxStale = 3"

definition errNoAdvertiseAddr :: err where
  "errNoAdvertiseAddr =
     PlainError (Msg ''GET /v1/info reports no advertise_addr; a mesh node must advertise a routable host'' [])"

definition errUnknownNode :: err where
  "errUnknownNode = PlainError (Msg ''meshinventory: node not in the mesh snapshot'' [])"

text \<open>What one member answers to its two reads; its reader is determined by its address.\<close>

record NodeReader =
  nr_Info :: "err + NodeInfo"
  nr_Sandboxes :: "err + SandboxSummary list"

record mesh_member =
  mm_seed :: bool
  mm_fails :: int
  mm_inv :: "NodeInventory option"

record mesh_snapshot =
  mn_nodes :: "string list"
  mn_caps :: "NodePools list"
  mn_byKey :: "(string \<times> NodeInventory) list"

record MeshSource =
  ms_maxStale :: int
  ms_members :: "(string \<times> mesh_member) list"
  ms_snap :: mesh_snapshot

text \<open>An answer is an error, or the inventory with the peers it names.\<close>

type_synonym mesh_answer = "err + NodeInventory \<times> string list"

definition mesh_read :: "((string \<times> string) list \<Rightarrow> string option) \<Rightarrow> NodeReader \<Rightarrow> mesh_answer" where
  "mesh_read marshal r =
     (case nr_Info r of
        Inl e \<Rightarrow> Inl e
      | Inr info \<Rightarrow>
          if nf_AdvertiseAddr info = [] then Inl errNoAdvertiseAddr
          else (case nr_Sandboxes r of
                  Inl e \<Rightarrow> Inl e
                | Inr rows \<Rightarrow>
                    (let key = nf_AdvertiseAddr info
                     in Inr (\<lparr>ni_Name = [], ni_Node = key, ni_Entries = map (EntryFromSummary marshal) rows,
                              ni_Address = key, ni_Pools = PoolCapacityFromInfo info,
                              ni_Templates = TemplatesFromInfo info, ni_PublishedAt = 0\<rparr>,
                             nf_Peers info))))"

definition mesh_poll :: "(string \<Rightarrow> mesh_answer) \<Rightarrow> (string \<times> mesh_member) list \<Rightarrow> string \<rightharpoonup> mesh_answer" where
  "mesh_poll reads ms = map_of (map (\<lambda>(addr, m). (addr, reads addr)) ms)"

text \<open>The first loops of \<^verbatim>\<open>tick\<close>: who was named, and who answered.\<close>

definition mesh_named :: "(string \<Rightarrow> mesh_answer) \<Rightarrow> (string \<times> mesh_member) list \<Rightarrow> string list" where
  "mesh_named reads ms =
     concat (map (\<lambda>(addr, m). case reads addr of Inl e \<Rightarrow> [] | Inr (iv, peers) \<Rightarrow> peers) ms)"

definition mesh_heard :: "(string \<Rightarrow> mesh_answer) \<Rightarrow> (string \<times> mesh_member) list \<Rightarrow> bool" where
  "mesh_heard reads ms = list_ex (\<lambda>(addr, m). case reads addr of Inl e \<Rightarrow> False | Inr a \<Rightarrow> True) ms"

text \<open>What an answer makes of its member; None is the deletion of a forgotten member.\<close>

definition mesh_account ::
  "int \<Rightarrow> bool \<Rightarrow> string list \<Rightarrow> mesh_answer \<Rightarrow> string \<Rightarrow> mesh_member \<Rightarrow> mesh_member option" where
  "mesh_account maxStale heard named a addr m =
     (case a of
        Inr (iv, peers) \<Rightarrow> Some (m\<lparr>mm_fails := 0, mm_inv := Some iv\<rparr>)
      | Inl e \<Rightarrow>
          (let m' = m\<lparr>mm_fails := mm_fails m + 1\<rparr>
           in if \<not> mm_seed m \<and> heard \<and> addr \<notin> set named \<and> mm_fails m' > maxStale then None else Some m'))"

definition mesh_account_all ::
  "int \<Rightarrow> (string \<Rightarrow> mesh_answer) \<Rightarrow> (string \<times> mesh_member) list \<Rightarrow> (string \<times> mesh_member) list" where
  "mesh_account_all maxStale reads ms =
     List.map_filter (\<lambda>(addr, m). map_option (Pair addr)
       (mesh_account maxStale (mesh_heard reads ms) (mesh_named reads ms) (reads addr) addr m)) ms"

text \<open>
  The loop that leaves one answering member per node key, a seed before the key's own address. An
  answering member has the inventory it answered with.
\<close>

definition mesh_key :: "mesh_member \<Rightarrow> string" where
  "mesh_key m = (case mm_inv m of None \<Rightarrow> [] | Some iv \<Rightarrow> ni_Node iv)"

definition mesh_merge ::
  "(string \<rightharpoonup> mesh_answer) \<Rightarrow> string \<Rightarrow> (string \<times> mesh_member) list \<times> (string \<times> string) list
   \<Rightarrow> (string \<times> mesh_member) list \<times> (string \<times> string) list" where
  "mesh_merge answers addr st =
     (let (ms, owner) = st in
      case (map_of ms addr, answers addr) of
        (Some m, Some (Inr a)) \<Rightarrow>
          (case map_of owner (mesh_key m) of
             None \<Rightarrow> (ms, AList.update (mesh_key m) addr owner)
           | Some other \<Rightarrow>
               (let oseed = (case map_of ms other of None \<Rightarrow> False | Some o' \<Rightarrow> mm_seed o')
                in if mm_seed m \<and> oseed then (ms, owner)
                   else if mm_seed m \<or> (\<not> oseed \<and> addr = mesh_key m)
                   then (AList.delete other ms, AList.update (mesh_key m) addr owner)
                   else (AList.delete addr ms, owner)))
      | _ \<Rightarrow> (ms, owner))"

definition mesh_dedupe ::
  "(string \<rightharpoonup> mesh_answer) \<Rightarrow> string list \<Rightarrow> (string \<times> mesh_member) list
   \<Rightarrow> (string \<times> mesh_member) list \<times> (string \<times> string) list" where
  "mesh_dedupe answers ord ms = fold (mesh_merge answers) ord (ms, [])"

text \<open>The loop that dials the named peers the mesh does not know yet.\<close>

fun mesh_join ::
  "string list \<Rightarrow> (string \<times> string) list \<Rightarrow> (string \<times> mesh_member) list \<Rightarrow> (string \<times> mesh_member) list" where
  "mesh_join [] owner ms = ms"
| "mesh_join (addr # rest) owner ms =
     (if map_of ms addr = None \<and> map_of owner addr = None
      then mesh_join rest owner (AList.update addr \<lparr>mm_seed = False, mm_fails = 0, mm_inv = None\<rparr> ms)
      else mesh_join rest owner ms)"

text \<open>\<^verbatim>\<open>publish\<close>: for each node key the freshest member, the first one seen among equals.\<close>

definition mesh_consider :: "int \<Rightarrow> (string \<times> mesh_member) list \<Rightarrow> string
   \<Rightarrow> (string \<times> mesh_member) list \<Rightarrow> (string \<times> mesh_member) list" where
  "mesh_consider maxStale ms addr best =
     (case map_of ms addr of
        None \<Rightarrow> best
      | Some m \<Rightarrow>
          (case mm_inv m of
             None \<Rightarrow> best
           | Some iv \<Rightarrow>
               if mm_fails m > maxStale then best
               else if (case map_of best (ni_Node iv) of None \<Rightarrow> True | Some b \<Rightarrow> mm_fails m < mm_fails b)
               then AList.update (ni_Node iv) m best
               else best))"

definition mesh_best :: "int \<Rightarrow> (string \<times> mesh_member) list \<Rightarrow> string list \<Rightarrow> (string \<times> mesh_member) list" where
  "mesh_best maxStale ms ord = fold (mesh_consider maxStale ms) ord []"

definition mesh_byKey :: "(string \<times> mesh_member) list \<Rightarrow> (string \<times> NodeInventory) list" where
  "mesh_byKey best = List.map_filter (\<lambda>(key, m). map_option (Pair key) (mm_inv m)) best"

definition mesh_snap_of :: "(string \<times> NodeInventory) list \<Rightarrow> mesh_snapshot" where
  "mesh_snap_of byKey =
     (let nodes = sort (map fst byKey)
      in \<lparr>mn_nodes = nodes,
          mn_caps = List.map_filter (\<lambda>node. map_option (\<lambda>iv. \<lparr>np_Node = node, np_Address = ni_Address iv,
             np_Pools = ni_Pools iv, np_Templates = ni_Templates iv\<rparr>) (map_of byKey node)) nodes,
          mn_byKey = byKey\<rparr>)"

definition mesh_publish :: "string list \<Rightarrow> MeshSource \<Rightarrow> MeshSource" where
  "mesh_publish ord s =
     s\<lparr>ms_snap := mesh_snap_of (mesh_byKey (mesh_best (ms_maxStale s) (ms_members s) ord))\<rparr>"

text \<open>One tick; \<open>ord\<close> and \<open>ord'\<close> are the orders of the merge loop and of \<^verbatim>\<open>publish\<close>.\<close>

definition mesh_tick :: "(string \<Rightarrow> mesh_answer) \<Rightarrow> string list \<Rightarrow> string list \<Rightarrow> MeshSource
  \<Rightarrow> (string \<rightharpoonup> mesh_answer) \<times> MeshSource" where
  "mesh_tick reads ord ord' s =
     (let answers = mesh_poll reads (ms_members s);
          named = mesh_named reads (ms_members s);
          (ms, owner) = mesh_dedupe answers ord (mesh_account_all (ms_maxStale s) reads (ms_members s));
          ms' = mesh_join named owner ms
      in (answers, mesh_publish ord' (s\<lparr>ms_members := ms'\<rparr>)))"

definition mesh_isUnauthorized :: "err \<Rightarrow> bool" where
  "mesh_isUnauthorized e = (case as_HTTPError e of None \<Rightarrow> False | Some (code, m) \<Rightarrow> code = 401)"

text \<open>The verdict of \<^verbatim>\<open>New\<close> on the seeds' answers: the error that aborts, or whether one answered.\<close>

fun mesh_seed_check :: "(string \<rightharpoonup> mesh_answer) \<Rightarrow> string list \<Rightarrow> bool \<Rightarrow> err + bool" where
  "mesh_seed_check answers [] answered = Inr answered"
| "mesh_seed_check answers (addr # rest) answered =
     (case answers addr of
        Some (Inl e) \<Rightarrow>
          if mesh_isUnauthorized e then
            Inl (Wrap (Msg ''meshinventory: seed %s refused the token; GET /v1/info needs the fleet root api_token: %w'' [addr]) e)
          else if err_Is e errNoAdvertiseAddr then Inl (Wrap (Msg ''meshinventory: seed %s: %w'' [addr]) e)
          else mesh_seed_check answers rest answered
      | _ \<Rightarrow> mesh_seed_check answers rest True)"

text \<open>\<^verbatim>\<open>New\<close>: the reads and orders of its one or two ticks are arguments.\<close>

definition mesh_New :: "string list \<Rightarrow> int \<Rightarrow> (string \<Rightarrow> mesh_answer) \<Rightarrow> string list \<Rightarrow> string list
  \<Rightarrow> (string \<Rightarrow> mesh_answer) \<Rightarrow> string list \<Rightarrow> string list \<Rightarrow> err + MeshSource" where
  "mesh_New seeds maxStale reads ord ord' reads2 ord2 ord2' =
     (if seeds = [] then Inl (PlainError (Msg ''meshinventory: at least one seed is required'' []))
      else
        (let s0 = \<lparr>ms_maxStale = cmp_OrI maxStale defaultMaxStale,
                   ms_members = foldl (\<lambda>ms addr. AList.update addr \<lparr>mm_seed = True, mm_fails = 0, mm_inv = None\<rparr> ms) [] seeds,
                   ms_snap = mesh_snap_of []\<rparr>;
             (answers, s1) = mesh_tick reads ord ord' s0
         in case mesh_seed_check answers seeds False of
              Inl e \<Rightarrow> Inl e
            | Inr answered \<Rightarrow>
                if \<not> answered then
                  Inl (case answers (hd seeds) of
                         Some (Inl e) \<Rightarrow> Wrap (Msg ''meshinventory: no seed answered: %w'' []) e
                       | _ \<Rightarrow> PlainError (Msg ''meshinventory: no seed answered: %w'' []))
                else if length (ms_members s1) > length (ms_members s0) then
                  Inr (snd (mesh_tick reads2 ord2 ord2' s1))
                else Inr s1))"

section \<open>The reads\<close>

definition mesh_ListNodes :: "MeshSource \<Rightarrow> err + string list" where
  "mesh_ListNodes s = Inr (mn_nodes (ms_snap s))"

definition mesh_NodeCapacities :: "MeshSource \<Rightarrow> err + NodePools list" where
  "mesh_NodeCapacities s = Inr (mn_caps (ms_snap s))"

definition mesh_NodeInventory :: "MeshSource \<Rightarrow> string \<Rightarrow> err + NodeInventory" where
  "mesh_NodeInventory s node =
     (case map_of (mn_byKey (ms_snap s)) node of
        Some iv \<Rightarrow> Inr iv
      | None \<Rightarrow> Inl (Wrap (Msg ''%w: %s'' [node]) errUnknownNode))"

definition mesh_NodeCapacity :: "MeshSource \<Rightarrow> string \<Rightarrow> err + string \<times> PoolCapacity list" where
  "mesh_NodeCapacity s node =
     (case mesh_NodeInventory s node of Inl e \<Rightarrow> Inl e | Inr iv \<Rightarrow> Inr (ni_Address iv, ni_Pools iv))"

definition mesh_source :: "MeshSource InventorySource" where
  "mesh_source =
     \<lparr>src_ListNodes = mesh_ListNodes, src_NodeInventory = mesh_NodeInventory,
      src_NodeCapacity = mesh_NodeCapacity, src_NodeCapacities = mesh_NodeCapacities\<rparr>"

section \<open>The loops\<close>

text \<open>A member answers when its reads succeed.\<close>

definition answered :: "(string \<rightharpoonup> mesh_answer) \<Rightarrow> string \<Rightarrow> bool" where
  "answered answers addr = (\<exists>a. answers addr = Some (Inr a))"

lemma map_of_filter_values:
  "distinct (map fst xs) \<Longrightarrow>
   map_of (List.map_filter (\<lambda>(k, v). map_option (Pair k) (f k v)) xs) k = Option.bind (map_of xs k) (f k)"
proof (induction xs)
  case (Cons x xs)
  obtain a b where x: "x = (a, b)" by (cases x)
  have "a = k \<Longrightarrow> map_of xs k = None" using Cons.prems by (auto simp: x map_of_eq_None_iff)
  with Cons show ?case by (cases "f a b") (auto simp: x map_filter_simps)
qed (simp add: map_filter_simps)

lemma map_of_poll: "mesh_poll reads ms a = (if map_of ms a = None then None else Some (reads a))"
  by (induction ms) (auto simp: mesh_poll_def)

text \<open>
  The invariant of the merge loop over the members \<open>ms0\<close> it starts from: it only deletes, and only an
  answering member whose key another answering member owns.
\<close>

definition merge_inv :: "(string \<rightharpoonup> mesh_answer) \<Rightarrow> (string \<times> mesh_member) list
  \<Rightarrow> (string \<times> mesh_member) list \<times> (string \<times> string) list \<Rightarrow> bool" where
  "merge_inv answers ms0 st \<longleftrightarrow>
     map_of (fst st) \<subseteq>\<^sub>m map_of ms0
     \<and> (\<forall>k a. map_of (snd st) k = Some a \<longrightarrow> answered answers a \<and> (\<exists>m. map_of (fst st) a = Some m \<and> mesh_key m = k))
     \<and> (\<forall>a m. map_of ms0 a = Some m \<and> map_of (fst st) a = None
          \<longrightarrow> answered answers a \<and> \<not> mm_seed m \<and> map_of (snd st) (mesh_key m) \<noteq> None)"

lemma merge_inv_init: "merge_inv answers ms0 (ms0, [])"
  by (simp add: merge_inv_def)

lemma merge_invI:
  assumes "map_of ms \<subseteq>\<^sub>m map_of ms0"
    and "\<And>k a. map_of owner k = Some a \<Longrightarrow> answered answers a \<and> (\<exists>m. map_of ms a = Some m \<and> mesh_key m = k)"
    and "\<And>a m. map_of ms0 a = Some m \<Longrightarrow> map_of ms a = None
           \<Longrightarrow> answered answers a \<and> \<not> mm_seed m \<and> map_of owner (mesh_key m) \<noteq> None"
  shows "merge_inv answers ms0 (ms, owner)"
  using assms unfolding merge_inv_def fst_conv snd_conv by blast

lemma merge_inv_le:
  "merge_inv answers ms0 (ms, owner) \<Longrightarrow> map_of ms a = Some m \<Longrightarrow> map_of ms0 a = Some m"
  by (auto simp: merge_inv_def map_le_def dom_def)

lemma merge_inv_owner:
  "merge_inv answers ms0 (ms, owner) \<Longrightarrow> map_of owner k = Some a
   \<Longrightarrow> answered answers a \<and> (\<exists>m. map_of ms a = Some m \<and> mesh_key m = k)"
  by (simp add: merge_inv_def)

lemma merge_inv_gone:
  "merge_inv answers ms0 (ms, owner) \<Longrightarrow> map_of ms0 a = Some m \<Longrightarrow> map_of ms a = None
   \<Longrightarrow> answered answers a \<and> \<not> mm_seed m \<and> map_of owner (mesh_key m) \<noteq> None"
  by (simp add: merge_inv_def)

lemma map_le_delete: "map_of ms \<subseteq>\<^sub>m g \<Longrightarrow> map_of (AList.delete k ms) \<subseteq>\<^sub>m g"
  by (auto simp: map_le_def delete_conv')

text \<open>What one iteration can do to an address that owns no key yet.\<close>

lemma mesh_merge_skip:
  "map_of ms addr = None \<or> \<not> answered answers addr \<Longrightarrow> mesh_merge answers addr (ms, owner) = (ms, owner)"
  by (auto simp: mesh_merge_def answered_def split: option.split sum.split)

lemma mesh_merge_own:
  "map_of ms addr = Some m \<Longrightarrow> answered answers addr \<Longrightarrow> map_of owner (mesh_key m) = None
   \<Longrightarrow> mesh_merge answers addr (ms, owner) = (ms, AList.update (mesh_key m) addr owner)"
  by (auto simp: mesh_merge_def answered_def)

lemma mesh_merge_dup:
  assumes "map_of ms addr = Some m" "answered answers addr" "map_of owner (mesh_key m) = Some other"
    "map_of ms other = Some o'"
  shows "mesh_merge answers addr (ms, owner) =
     (if mm_seed m \<and> mm_seed o' then (ms, owner)
      else if mm_seed m \<or> \<not> mm_seed o' \<and> addr = mesh_key m
      then (AList.delete other ms, AList.update (mesh_key m) addr owner)
      else (AList.delete addr ms, owner))"
  using assms by (auto simp: mesh_merge_def answered_def Let_def)

lemma merge_inv_own:
  assumes "merge_inv answers ms0 (ms, owner)" "map_of ms addr = Some m" "answered answers addr"
  shows "merge_inv answers ms0 (ms, AList.update (mesh_key m) addr owner)"
  using assms by (auto simp: merge_inv_def update_conv')

lemma merge_inv_replace:
  assumes inv: "merge_inv answers ms0 (ms, owner)" and m: "map_of ms addr = Some m" "answered answers addr"
    "map_of owner (mesh_key m) = Some other" "other \<noteq> addr" "map_of ms other = Some o'" "\<not> mm_seed o'"
  shows "merge_inv answers ms0 (AList.delete other ms, AList.update (mesh_key m) addr owner)"
proof (rule merge_invI)
  have k: "mesh_key o' = mesh_key m" "answered answers other"
    using merge_inv_owner [OF inv m(3)] m(5) by auto
  have o0: "map_of ms0 other = Some o'" using merge_inv_le [OF inv m(5)] .
  show "map_of (AList.delete other ms) \<subseteq>\<^sub>m map_of ms0"
    using inv by (simp add: merge_inv_def map_le_delete)
  show "answered answers a \<and> (\<exists>m'. map_of (AList.delete other ms) a = Some m' \<and> mesh_key m' = k')"
    if "map_of (AList.update (mesh_key m) addr owner) k' = Some a" for k' a
  proof (cases "k' = mesh_key m")
    case True
    then show ?thesis using that m by (simp add: update_conv' delete_conv')
  next
    case False
    then have own: "map_of owner k' = Some a" using that by (simp add: update_conv')
    then have "a \<noteq> other" using merge_inv_owner [OF inv own] m(5) k False by auto
    then show ?thesis using merge_inv_owner [OF inv own] by (simp add: delete_conv')
  qed
  show "answered answers a \<and> \<not> mm_seed m' \<and> map_of (AList.update (mesh_key m) addr owner) (mesh_key m') \<noteq> None"
    if "map_of ms0 a = Some m'" "map_of (AList.delete other ms) a = None" for a m'
    using that merge_inv_gone [OF inv that(1)] k o0 m
    by (cases "a = other") (auto simp: update_conv' delete_conv')
qed

lemma merge_inv_drop:
  assumes inv: "merge_inv answers ms0 (ms, owner)" and m: "map_of ms addr = Some m" "answered answers addr"
    "map_of owner (mesh_key m) = Some other" "addr \<notin> ran (map_of owner)" "\<not> mm_seed m"
  shows "merge_inv answers ms0 (AList.delete addr ms, owner)"
proof (rule merge_invI)
  show "map_of (AList.delete addr ms) \<subseteq>\<^sub>m map_of ms0"
    using inv by (simp add: merge_inv_def map_le_delete)
  show "answered answers a \<and> (\<exists>m'. map_of (AList.delete addr ms) a = Some m' \<and> mesh_key m' = k')"
    if "map_of owner k' = Some a" for k' a
    using merge_inv_owner [OF inv that] that m(4) by (cases "a = addr") (auto simp: delete_conv' ran_def)
  show "answered answers a \<and> \<not> mm_seed m' \<and> map_of owner (mesh_key m') \<noteq> None"
    if "map_of ms0 a = Some m'" "map_of (AList.delete addr ms) a = None" for a m'
    using that merge_inv_gone [OF inv that(1)] merge_inv_le [OF inv m(1)] m
    by (cases "a = addr") (auto simp: delete_conv')
qed

lemma ran_upd_cases: "x \<in> ran (f(k \<mapsto> v)) \<Longrightarrow> x = v \<or> x \<in> ran f"
  by (auto simp: ran_def split: if_splits)

lemma mesh_merge_step:
  assumes inv: "merge_inv answers ms0 (ms, owner)" and fresh: "addr \<notin> ran (map_of owner)"
    and step: "mesh_merge answers addr (ms, owner) = (ms', owner')"
  shows "merge_inv answers ms0 (ms', owner')
     \<and> ran (map_of owner') \<subseteq> insert addr (ran (map_of owner)) \<and> dom (map_of owner) \<subseteq> dom (map_of owner')
     \<and> (\<forall>m. map_of ms0 addr = Some m \<and> answered answers addr \<longrightarrow> map_of owner' (mesh_key m) \<noteq> None)"
proof (cases "map_of ms addr = None \<or> \<not> answered answers addr")
  case True
  then show ?thesis using inv step merge_inv_gone [OF inv] by (auto simp: mesh_merge_skip)
next
  case False
  then obtain m where m: "map_of ms addr = Some m" "answered answers addr" by auto
  have m0: "map_of ms0 addr = Some m"
    using merge_inv_le [OF inv m(1)] .
  show ?thesis
  proof (cases "map_of owner (mesh_key m)")
    case None
    then have "ms' = ms" "owner' = AList.update (mesh_key m) addr owner"
      using m step by (auto simp: mesh_merge_own)
    then show ?thesis using merge_inv_own [OF inv m] m0
      by (auto simp: update_conv' dest: ran_upd_cases)
  next
    case (Some other)
    then obtain o' where o': "map_of ms other = Some o'" using merge_inv_owner [OF inv] by blast
    have neq: "other \<noteq> addr" using fresh Some by (auto simp: ran_def)
    show ?thesis
      using step mesh_merge_dup [OF m Some o'] merge_inv_replace [OF inv m Some neq o']
        merge_inv_drop [OF inv m Some fresh] inv m0 Some
      by (auto simp: update_conv' split: if_splits dest: ran_upd_cases)
  qed
qed

lemma mesh_dedupe_fold:
  assumes "merge_inv answers ms0 st" "distinct ord" "set ord \<inter> ran (map_of (snd st)) = {}"
  shows "merge_inv answers ms0 (fold (mesh_merge answers) ord st)
     \<and> dom (map_of (snd st)) \<subseteq> dom (map_of (snd (fold (mesh_merge answers) ord st)))
     \<and> (\<forall>a\<in>set ord. \<forall>m. map_of ms0 a = Some m \<and> answered answers a
          \<longrightarrow> map_of (snd (fold (mesh_merge answers) ord st)) (mesh_key m) \<noteq> None)"
  using assms
proof (induction ord arbitrary: st)
  case (Cons addr ord)
  obtain ms owner where st: "st = (ms, owner)" by (cases st)
  obtain ms' owner' where st': "mesh_merge answers addr st = (ms', owner')" by (cases "mesh_merge answers addr st")
  have step: "merge_inv answers ms0 (ms', owner')
     \<and> ran (map_of owner') \<subseteq> insert addr (ran (map_of owner)) \<and> dom (map_of owner) \<subseteq> dom (map_of owner')
     \<and> (\<forall>m. map_of ms0 addr = Some m \<and> answered answers addr \<longrightarrow> map_of owner' (mesh_key m) \<noteq> None)"
    using Cons.prems st' by (intro mesh_merge_step) (auto simp: st)
  have disj: "set ord \<inter> ran (map_of owner') = {}" using step Cons.prems by (auto simp: st)
  have IH: "merge_inv answers ms0 (fold (mesh_merge answers) ord (ms', owner'))
     \<and> dom (map_of owner') \<subseteq> dom (map_of (snd (fold (mesh_merge answers) ord (ms', owner'))))
     \<and> (\<forall>a\<in>set ord. \<forall>m. map_of ms0 a = Some m \<and> answered answers a
          \<longrightarrow> map_of (snd (fold (mesh_merge answers) ord (ms', owner'))) (mesh_key m) \<noteq> None)"
    using Cons.IH [of "(ms', owner')"] step disj Cons.prems by simp
  then show ?case using step by (auto simp: st' [unfolded st] st domIff subset_iff)
qed simp

lemmas mesh_dedupe_inv = mesh_dedupe_fold [OF merge_inv_init, simplified, folded mesh_dedupe_def]

lemma map_of_join:
  "map_of (mesh_join named owner ms) a = (case map_of ms a of
     Some m \<Rightarrow> Some m
   | None \<Rightarrow> if a \<in> set named \<and> map_of owner a = None then Some \<lparr>mm_seed = False, mm_fails = 0, mm_inv = None\<rparr> else None)"
  by (induction named owner ms rule: mesh_join.induct) (auto simp: update_conv' split: option.splits)

text \<open>The members \<^verbatim>\<open>publish\<close> considers, and the freshest of them under each key.\<close>

definition publishable :: "int \<Rightarrow> (string \<times> mesh_member) list \<Rightarrow> string \<Rightarrow> string \<Rightarrow> mesh_member \<Rightarrow> bool" where
  "publishable maxStale ms a k m \<longleftrightarrow>
     map_of ms a = Some m \<and> mm_fails m \<le> maxStale \<and> (\<exists>iv. mm_inv m = Some iv \<and> ni_Node iv = k)"

definition best_inv :: "int \<Rightarrow> (string \<times> mesh_member) list \<Rightarrow> (string \<times> mesh_member) list \<Rightarrow> bool" where
  "best_inv maxStale ms best \<longleftrightarrow> (\<forall>k m. map_of best k = Some m \<longrightarrow> (\<exists>a. publishable maxStale ms a k m))"

text \<open>Under a key, the second list is at least as fresh as a member that failed \<open>n\<close> times.\<close>

definition as_fresh :: "string \<Rightarrow> int \<Rightarrow> (string \<times> mesh_member) list \<Rightarrow> bool" where
  "as_fresh k n best \<longleftrightarrow> (\<exists>b. map_of best k = Some b \<and> mm_fails b \<le> n)"

lemma consider_inv: "best_inv maxStale ms best \<Longrightarrow> best_inv maxStale ms (mesh_consider maxStale ms addr best)"
  by (auto simp: best_inv_def mesh_consider_def publishable_def update_conv' split: option.splits)

lemma consider_keeps: "as_fresh k n best \<Longrightarrow> as_fresh k n (mesh_consider maxStale ms addr best)"
  by (auto simp: as_fresh_def mesh_consider_def update_conv' split: option.splits)

lemma consider_fresh: "publishable maxStale ms addr k m \<Longrightarrow> as_fresh k (mm_fails m) (mesh_consider maxStale ms addr best)"
  by (auto simp: as_fresh_def mesh_consider_def publishable_def update_conv' split: option.splits)

lemma best_inv_fold: "best_inv maxStale ms best \<Longrightarrow> best_inv maxStale ms (fold (mesh_consider maxStale ms) ord best)"
  by (induction ord arbitrary: best) (simp_all add: consider_inv)

lemma as_fresh_fold: "as_fresh k n best \<Longrightarrow> as_fresh k n (fold (mesh_consider maxStale ms) ord best)"
  by (induction ord arbitrary: best) (simp_all add: consider_keeps)

lemma best_fresh_fold: "a \<in> set ord \<Longrightarrow> publishable maxStale ms a k m
    \<Longrightarrow> as_fresh k (mm_fails m) (fold (mesh_consider maxStale ms) ord best)"
  by (induction ord arbitrary: best) (auto simp: consider_fresh as_fresh_fold)

lemma mesh_best_sound: "map_of (mesh_best maxStale ms ord) k = Some m \<Longrightarrow> \<exists>a. publishable maxStale ms a k m"
  using best_inv_fold [of maxStale ms "[]" ord] by (simp add: best_inv_def mesh_best_def)

lemma mesh_best_fresh: "a \<in> set ord \<Longrightarrow> publishable maxStale ms a k m
    \<Longrightarrow> \<exists>b. map_of (mesh_best maxStale ms ord) k = Some b \<and> mm_fails b \<le> mm_fails m"
  using best_fresh_fold [of a ord maxStale ms k m "[]"] by (simp add: as_fresh_def mesh_best_def)

lemma distinct_consider: "distinct (map fst best) \<Longrightarrow> distinct (map fst (mesh_consider maxStale ms addr best))"
  by (auto simp: mesh_consider_def distinct_update split: option.splits)

lemma distinct_best: "distinct (map fst (mesh_best maxStale ms ord))"
proof -
  have "distinct (map fst best) \<Longrightarrow> distinct (map fst (fold (mesh_consider maxStale ms) ord best))" for best
    by (induction ord arbitrary: best) (simp_all add: distinct_consider)
  then show ?thesis by (simp add: mesh_best_def)
qed

section \<open>The contract\<close>

lemma map_of_byKey:
  "distinct (map fst best) \<Longrightarrow> map_of (mesh_byKey best) k = Option.bind (map_of best k) mm_inv"
  unfolding mesh_byKey_def by (rule map_of_filter_values)

lemma distinct_filter_values:
  "distinct (map fst xs) \<Longrightarrow> distinct (map fst (List.map_filter (\<lambda>(k, v). map_option (Pair k) (f k v)) xs))"
proof (induction xs)
  case (Cons x xs)
  have "fst ` set (List.map_filter (\<lambda>(k, v). map_option (Pair k) (f k v)) xs) \<subseteq> fst ` set xs"
    by (force simp: map_filter_def)
  with Cons show ?case by (cases x; cases "f (fst x) (snd x)") (auto simp: map_filter_simps)
qed (simp add: map_filter_simps)

text \<open>A snapshot is determined by its inventories, one per key.\<close>

definition mesh_ok :: "MeshSource \<Rightarrow> bool" where
  "mesh_ok s \<longleftrightarrow> distinct (map fst (ms_members s)) \<and> (\<forall>m\<in>snd ` set (ms_members s). 0 \<le> mm_fails m)
     \<and> (\<exists>byKey. ms_snap s = mesh_snap_of byKey \<and> distinct (map fst byKey))"

lemma mesh_capacity_rows:
  assumes "\<And>n. n \<in> set ns \<Longrightarrow> rd n = (case map_of byKey n of Some iv \<Rightarrow> Inr iv | None \<Rightarrow> Inl (e n))"
  shows "List.map_filter (\<lambda>node. map_option (\<lambda>iv. \<lparr>np_Node = node, np_Address = ni_Address iv,
             np_Pools = ni_Pools iv, np_Templates = ni_Templates iv\<rparr>) (map_of byKey node)) ns
    = List.map_filter (capacity_row rd) ns"
  using assms by (induction ns) (auto simp: map_filter_simps capacity_row_def split: option.splits)

interpretation mesh_inventory: inventory_source mesh_source mesh_ok
proof
  fix w ns n
  assume "mesh_ok w"
  then obtain byKey where b: "ms_snap w = mesh_snap_of byKey" "distinct (map fst byKey)"
    by (auto simp: mesh_ok_def)
  show "src_ListNodes mesh_source w = Inr ns \<Longrightarrow> sorted ns \<and> distinct ns"
    using b by (auto simp: mesh_source_def mesh_ListNodes_def mesh_snap_of_def Let_def)
  show "src_NodeCapacity mesh_source w n =
      (case src_NodeInventory mesh_source w n of Inl e \<Rightarrow> Inl e | Inr iv \<Rightarrow> Inr (ni_Address iv, ni_Pools iv))"
    by (simp add: mesh_source_def mesh_NodeCapacity_def)
  show "src_ListNodes mesh_source w = Inr ns \<Longrightarrow>
      src_NodeCapacities mesh_source w
        = Inr (List.map_filter (capacity_row (src_NodeInventory mesh_source w)) ns)"
    using mesh_capacity_rows [where ns = ns and rd = "mesh_NodeInventory w" and byKey = byKey]
    by (auto simp: mesh_source_def mesh_ListNodes_def mesh_NodeCapacities_def mesh_NodeInventory_def
        b mesh_snap_of_def Let_def)
  show "\<exists>ns. src_ListNodes mesh_source w = Inr ns"
    by (simp add: mesh_source_def mesh_ListNodes_def)
qed

section \<open>One tick\<close>

lemma map_of_account_all:
  "distinct (map fst ms) \<Longrightarrow> map_of (mesh_account_all maxStale reads ms) a
     = Option.bind (map_of ms a) (mesh_account maxStale (mesh_heard reads ms) (mesh_named reads ms) (reads a) a)"
  unfolding mesh_account_all_def by (rule map_of_filter_values)

lemma distinct_merge: "distinct (map fst (fst st)) \<Longrightarrow> distinct (map fst (fst (mesh_merge answers addr st)))"
  by (auto simp: mesh_merge_def Let_def distinct_delete split: prod.split option.split sum.split)

lemma distinct_dedupe: "distinct (map fst ms) \<Longrightarrow> distinct (map fst (fst (mesh_dedupe answers ord ms)))"
proof -
  have "distinct (map fst (fst st)) \<Longrightarrow> distinct (map fst (fst (fold (mesh_merge answers) ord st)))" for st
    by (induction ord arbitrary: st) (simp_all add: distinct_merge)
  then show "distinct (map fst ms) \<Longrightarrow> ?thesis" by (simp add: mesh_dedupe_def)
qed

lemma distinct_join: "distinct (map fst ms) \<Longrightarrow> distinct (map fst (mesh_join named owner ms))"
  by (induction named owner ms rule: mesh_join.induct) (simp_all add: distinct_update)

text \<open>
  The members after a tick: \<open>tick_from\<close> says what each one was before it, \<open>None\<close> for a peer that just
  joined.
\<close>

definition tick_from :: "(string \<Rightarrow> mesh_answer) \<Rightarrow> MeshSource \<Rightarrow> string \<Rightarrow> mesh_member \<Rightarrow> bool" where
  "tick_from reads s a m' \<longleftrightarrow>
     m' = \<lparr>mm_seed = False, mm_fails = 0, mm_inv = None\<rparr>
     \<or> (\<exists>m. map_of (ms_members s) a = Some m
          \<and> (case reads a of Inr (iv, peers) \<Rightarrow> m' = m\<lparr>mm_fails := 0, mm_inv := Some iv\<rparr>
                            | Inl e \<Rightarrow> m' = m\<lparr>mm_fails := mm_fails m + 1\<rparr>))"

lemma mesh_account_Some:
  "mesh_account maxStale heard named a addr m = Some m' \<Longrightarrow>
   (case a of Inr (iv, peers) \<Rightarrow> m' = m\<lparr>mm_fails := 0, mm_inv := Some iv\<rparr> | Inl e \<Rightarrow> m' = m\<lparr>mm_fails := mm_fails m + 1\<rparr>)"
  by (auto simp: mesh_account_def Let_def split: sum.splits if_splits)

lemma tick_members:
  "mesh_dedupe (mesh_poll reads (ms_members s)) ord (mesh_account_all (ms_maxStale s) reads (ms_members s)) = (ms, owner)
   \<Longrightarrow> ms_members (snd (mesh_tick reads ord ord' s)) = mesh_join (mesh_named reads (ms_members s)) owner ms"
  by (simp add: mesh_tick_def mesh_publish_def Let_def)

lemma tick_maxStale [simp]: "ms_maxStale (snd (mesh_tick reads ord ord' s)) = ms_maxStale s"
  by (simp add: mesh_tick_def mesh_publish_def Let_def split: prod.split)

lemma tick_member:
  assumes ok: "mesh_ok s" and ord: "distinct ord" and m': "map_of (ms_members (snd (mesh_tick reads ord ord' s))) a = Some m'"
  shows "tick_from reads s a m'"
proof -
  let ?acc = "mesh_account_all (ms_maxStale s) reads (ms_members s)"
  obtain ms owner where st: "mesh_dedupe (mesh_poll reads (ms_members s)) ord ?acc = (ms, owner)" by fastforce
  have inv: "merge_inv (mesh_poll reads (ms_members s)) ?acc (ms, owner)"
    using mesh_dedupe_inv [of ord "mesh_poll reads (ms_members s)" ?acc] ord st by simp
  have dist: "distinct (map fst (ms_members s))" using ok by (simp add: mesh_ok_def)
  show ?thesis
  proof (cases "map_of ms a")
    case None
    then show ?thesis
      using m' by (auto simp: tick_members [OF st] map_of_join tick_from_def split: if_splits)
  next
    case (Some m)
    then have "m' = m" using m' by (simp add: tick_members [OF st] map_of_join)
    with merge_inv_le [OF inv Some] show ?thesis
      by (auto simp: map_of_account_all [OF dist] tick_from_def bind_eq_Some_conv dest: mesh_account_Some)
  qed
qed

lemma map_of_tick_snap: "map_of (mn_byKey (ms_snap (snd (mesh_tick reads ord ord' s)))) k =
   Option.bind (map_of (mesh_best (ms_maxStale s) (ms_members (snd (mesh_tick reads ord ord' s))) ord') k) mm_inv"
  by (simp add: mesh_tick_def mesh_publish_def mesh_snap_of_def Let_def map_of_byKey distinct_best split: prod.split)

lemma mesh_ok_fails: "mesh_ok s \<Longrightarrow> map_of (ms_members s) a = Some m \<Longrightarrow> 0 \<le> mm_fails m"
  by (force simp: mesh_ok_def dest: map_of_SomeD)

lemma tick_from_fails:
  assumes "mesh_ok s" "tick_from reads s a m'"
  shows "0 \<le> mm_fails m'" and "mm_inv m' = Some iv \<Longrightarrow> mm_fails m' = 0 \<Longrightarrow>
     map_of (ms_members s) a \<noteq> None \<and> (\<exists>peers. reads a = Inr (iv, peers))"
proof -
  have "0 \<le> mm_fails m'" if "map_of (ms_members s) a = Some m"
      "case reads a of Inr (iv, peers) \<Rightarrow> m' = m\<lparr>mm_fails := 0, mm_inv := Some iv\<rparr> | Inl e \<Rightarrow> m' = m\<lparr>mm_fails := mm_fails m + 1\<rparr>" for m
    using that mesh_ok_fails [OF assms(1) that(1)] by (cases "reads a") auto
  then show "0 \<le> mm_fails m'" using assms(2) by (auto simp: tick_from_def)
  assume inv: "mm_inv m' = Some iv" "mm_fails m' = 0"
  have "\<exists>peers. reads a = Inr (iv, peers)" if "map_of (ms_members s) a = Some m"
      "case reads a of Inr (iv, peers) \<Rightarrow> m' = m\<lparr>mm_fails := 0, mm_inv := Some iv\<rparr> | Inl e \<Rightarrow> m' = m\<lparr>mm_fails := mm_fails m + 1\<rparr>" for m
    using that inv mesh_ok_fails [OF assms(1) that(1)] by (cases "reads a") auto
  then show "map_of (ms_members s) a \<noteq> None \<and> (\<exists>peers. reads a = Inr (iv, peers))"
    using assms(2) inv by (auto simp: tick_from_def simp del: map_of_eq_Some_iff)
qed

lemma mesh_tick_ok:
  assumes ok: "mesh_ok s" and ord: "distinct ord"
  shows "mesh_ok (snd (mesh_tick reads ord ord' s))"
proof -
  let ?s = "snd (mesh_tick reads ord ord' s)"
  let ?acc = "mesh_account_all (ms_maxStale s) reads (ms_members s)"
  obtain ms owner where st: "mesh_dedupe (mesh_poll reads (ms_members s)) ord ?acc = (ms, owner)" by fastforce
  have "distinct (map fst ?acc)"
    using ok unfolding mesh_account_all_def mesh_ok_def by (intro distinct_filter_values) simp
  then have dist: "distinct (map fst (ms_members ?s))"
    using distinct_dedupe [of ?acc] st by (metis tick_members [OF st] distinct_join fst_conv)
  have "0 \<le> mm_fails m" if "m \<in> snd ` set (ms_members ?s)" for m
  proof -
    obtain a where "map_of (ms_members ?s) a = Some m" using dist \<open>m \<in> _\<close> by (auto simp: map_of_is_SomeI)
    from tick_from_fails(1) [OF ok tick_member [OF ok ord this]] show ?thesis .
  qed
  moreover have "\<exists>byKey. ms_snap ?s = mesh_snap_of byKey \<and> distinct (map fst byKey)"
    by (rule exI [of _ "mesh_byKey (mesh_best (ms_maxStale s) (ms_members ?s) ord')"])
      (simp add: mesh_byKey_def distinct_filter_values [OF distinct_best],
       simp add: mesh_tick_def mesh_publish_def mesh_byKey_def Let_def split: prod.split)
  ultimately show ?thesis using dist by (simp add: mesh_ok_def)
qed

lemma map_of_key: "map_of xs a = Some m \<Longrightarrow> fst ` set xs \<subseteq> A \<Longrightarrow> a \<in> A"
  by (force dest: map_of_SomeD)

section \<open>Properties\<close>

text \<open>
  A seed of the mesh is never forgotten: whatever it and the others answer, in whatever order the
  maps are walked, a tick keeps it a member and a seed.
\<close>

theorem mesh_seeds_kept:
  assumes ok: "mesh_ok s" and ord: "distinct ord"
    and seed: "map_of (ms_members s) a = Some m" "mm_seed m"
  shows "\<exists>m'. map_of (ms_members (snd (mesh_tick reads ord ord' s))) a = Some m' \<and> mm_seed m'"
proof -
  let ?acc = "mesh_account_all (ms_maxStale s) reads (ms_members s)"
  obtain ms owner where st: "mesh_dedupe (mesh_poll reads (ms_members s)) ord ?acc = (ms, owner)" by fastforce
  have inv: "merge_inv (mesh_poll reads (ms_members s)) ?acc (ms, owner)"
    using mesh_dedupe_inv [of ord "mesh_poll reads (ms_members s)" ?acc] ord st by simp
  have "distinct (map fst (ms_members s))" using ok by (simp add: mesh_ok_def)
  then have "\<exists>m0. map_of ?acc a = Some m0 \<and> mm_seed m0"
    using seed by (cases "reads a") (auto simp: map_of_account_all mesh_account_def Let_def simp del: map_of_eq_Some_iff)
  then obtain m0 where m0: "map_of ?acc a = Some m0" "mm_seed m0" by blast
  then have "map_of ms a = Some m0"
    using merge_inv_gone [OF inv m0(1)] merge_inv_le [OF inv, of a] by (cases "map_of ms a") auto
  then show ?thesis using m0 by (simp add: tick_members [OF st] map_of_join)
qed

text \<open>
  C24. After a tick every node that answered is in the snapshot, with an inventory some member reported
  in this very tick under that node's key: merging two addresses of one node loses neither the node
  nor its freshest report.
\<close>

theorem mesh_answered_listed:
  assumes ok: "mesh_ok s" and ord: "distinct ord" "fst ` set (ms_members s) \<subseteq> set ord"
    and ord': "fst ` set (ms_members (snd (mesh_tick reads ord ord' s))) \<subseteq> set ord'"
    and a: "map_of (ms_members s) a = Some m" "reads a = Inr (iv, peers)" and stale: "0 \<le> ms_maxStale s"
  shows "\<exists>a' iv' peers'. mesh_NodeInventory (snd (mesh_tick reads ord ord' s)) (ni_Node iv) = Inr iv'
     \<and> map_of (ms_members s) a' \<noteq> None \<and> reads a' = Inr (iv', peers') \<and> ni_Node iv' = ni_Node iv"
proof -
  let ?acc = "mesh_account_all (ms_maxStale s) reads (ms_members s)" and ?ans = "mesh_poll reads (ms_members s)"
  let ?s = "snd (mesh_tick reads ord ord' s)" and ?k = "ni_Node iv"
  obtain ms owner where st: "mesh_dedupe ?ans ord ?acc = (ms, owner)" by fastforce
  have "distinct (map fst (ms_members s))" using ok by (simp add: mesh_ok_def)
  then have acc: "map_of ?acc a = Some (m\<lparr>mm_fails := 0, mm_inv := Some iv\<rparr>)"
    using a by (simp add: map_of_account_all mesh_account_def)
  have "a \<in> set ord" using map_of_key [OF a(1) ord(2)] .
  moreover have ans: "answered ?ans a" using a by (simp add: answered_def map_of_poll)
  ultimately obtain o' where "map_of owner ?k = Some o'"
    using mesh_dedupe_inv [of ord ?ans ?acc] ord acc st by (fastforce simp: mesh_key_def)
  moreover have inv: "merge_inv ?ans ?acc (ms, owner)"
    using mesh_dedupe_inv [of ord ?ans ?acc] ord st by simp
  ultimately obtain mo where mo: "map_of ms o' = Some mo" "mesh_key mo = ?k" "answered ?ans o'"
    using merge_inv_owner [OF inv] by blast
  have mo': "map_of (ms_members ?s) o' = Some mo" using mo by (simp add: tick_members [OF st] map_of_join)
  have "mm_fails mo = 0 \<and> (\<exists>iv'. mm_inv mo = Some iv' \<and> ni_Node iv' = ?k)"
    using merge_inv_le [OF inv mo(1)] mo \<open>distinct (map fst (ms_members s))\<close>
    by (auto simp: map_of_account_all answered_def map_of_poll bind_eq_Some_conv mesh_key_def
        dest!: mesh_account_Some split: if_splits)
  then have p: "publishable (ms_maxStale s) (ms_members ?s) o' ?k mo" and f0: "mm_fails mo = 0"
    using mo' stale by (auto simp: publishable_def)
  from mesh_best_fresh [OF map_of_key [OF mo' ord'] p] f0 obtain b
    where b: "map_of (mesh_best (ms_maxStale s) (ms_members ?s) ord') ?k = Some b" "mm_fails b \<le> 0" by auto
  from mesh_best_sound [OF b(1)] obtain a' iv' where a': "map_of (ms_members ?s) a' = Some b"
      "mm_inv b = Some iv'" "ni_Node iv' = ?k" by (auto simp: publishable_def)
  note from' = tick_member [OF ok ord(1) a'(1)]
  have "mm_fails b = 0" using tick_from_fails(1) [OF ok from'] b(2) by simp
  then show ?thesis
    using tick_from_fails(2) [OF ok from' a'(2)] a' b(1) map_of_tick_snap [of reads ord ord' s ?k]
    by (auto simp: mesh_NodeInventory_def)
qed

text \<open>
  A node survives its failed polls: a member that has failed fewer than \<^verbatim>\<open>MaxStale\<close> ticks in a row
  and fails once more keeps its node in the snapshot.
\<close>

theorem mesh_stale_listed:
  assumes ok: "mesh_ok s" and ord: "distinct ord"
    and ord': "fst ` set (ms_members (snd (mesh_tick reads ord ord' s))) \<subseteq> set ord'"
    and m: "map_of (ms_members s) a = Some m" "mm_inv m = Some iv" "reads a = Inl e" "mm_fails m < ms_maxStale s"
  shows "\<exists>iv'. mesh_NodeInventory (snd (mesh_tick reads ord ord' s)) (ni_Node iv) = Inr iv'"
proof -
  let ?acc = "mesh_account_all (ms_maxStale s) reads (ms_members s)" and ?ans = "mesh_poll reads (ms_members s)"
  let ?s = "snd (mesh_tick reads ord ord' s)" and ?m = "m\<lparr>mm_fails := mm_fails m + 1\<rparr>"
  obtain ms owner where st: "mesh_dedupe ?ans ord ?acc = (ms, owner)" by fastforce
  have inv: "merge_inv ?ans ?acc (ms, owner)"
    using mesh_dedupe_inv [of ord ?ans ?acc] ord st by simp
  have acc: "map_of ?acc a = Some ?m"
    using m ok by (simp add: map_of_account_all mesh_account_def mesh_ok_def)
  then have "map_of ms a = Some ?m"
    using merge_inv_gone [OF inv acc] merge_inv_le [OF inv, of a] m
    by (cases "map_of ms a") (auto simp: answered_def map_of_poll)
  then have mem: "map_of (ms_members ?s) a = Some ?m" by (simp add: tick_members [OF st] map_of_join)
  then have "publishable (ms_maxStale s) (ms_members ?s) a (ni_Node iv) ?m"
    using m by (simp add: publishable_def)
  from mesh_best_fresh [OF map_of_key [OF mem ord'] this] obtain b
    where b: "map_of (mesh_best (ms_maxStale s) (ms_members ?s) ord') (ni_Node iv) = Some b" by blast
  from mesh_best_sound [OF b] b show ?thesis
    using map_of_tick_snap [of reads ord ord' s "ni_Node iv"]
    by (auto simp: mesh_NodeInventory_def publishable_def)
qed

section \<open>A concrete mesh\<close>

text \<open>
  The seed \<open>s:1\<close> and the peer \<open>n1:1\<close> are two addresses of the node \<open>n1:1\<close>; the peer \<open>n2:1\<close> answered
  last time and is silent now.
\<close>

definition demo_inv :: "string \<Rightarrow> NodeInventory" where
  "demo_inv k = \<lparr>ni_Name = [], ni_Node = k, ni_Entries = [], ni_Address = k, ni_Pools = [], ni_Templates = [],
     ni_PublishedAt = 0\<rparr>"

definition demo_mesh :: MeshSource where
  "demo_mesh = \<lparr>ms_maxStale = 3,
     ms_members = [(''s:1'', \<lparr>mm_seed = True, mm_fails = 0, mm_inv = None\<rparr>),
                   (''n1:1'', \<lparr>mm_seed = False, mm_fails = 0, mm_inv = None\<rparr>),
                   (''n2:1'', \<lparr>mm_seed = False, mm_fails = 2, mm_inv = Some (demo_inv ''n2:1'')\<rparr>)],
     ms_snap = mesh_snap_of []\<rparr>"

definition demo_reads :: "string \<Rightarrow> mesh_answer" where
  "demo_reads a = (if a = ''n2:1'' then Inl (OpError ''dial'') else Inr (demo_inv ''n1:1'', [''n2:1'', ''n3:1'']))"

lemma demo_mesh_ok: "mesh_ok demo_mesh"
  by (auto simp: mesh_ok_def demo_mesh_def intro: exI [of _ "[]"])

lemma demo_orders:
  "distinct [''n1:1'', ''s:1'', ''n2:1'']" "fst ` set (ms_members demo_mesh) \<subseteq> set [''n1:1'', ''s:1'', ''n2:1'']"
  "fst ` set (ms_members (snd (mesh_tick demo_reads [''n1:1'', ''s:1'', ''n2:1''] [''n2:1'', ''n3:1'', ''s:1''] demo_mesh)))
     \<subseteq> set [''n2:1'', ''n3:1'', ''s:1'']"
  by code_simp+

theorem mesh_seeds_kept_witness:
  "\<exists>m'. map_of (ms_members (snd (mesh_tick demo_reads [''n1:1'', ''s:1'', ''n2:1''] [] demo_mesh))) ''s:1'' = Some m' \<and> mm_seed m'"
  by (rule mesh_seeds_kept [OF demo_mesh_ok demo_orders(1),
      of "''s:1''" "\<lparr>mm_seed = True, mm_fails = 0, mm_inv = None\<rparr>"]) (simp_all add: demo_mesh_def)

theorem mesh_answered_listed_witness:
  "\<exists>a' iv' peers'. mesh_NodeInventory (snd (mesh_tick demo_reads [''n1:1'', ''s:1'', ''n2:1'']
       [''n2:1'', ''n3:1'', ''s:1''] demo_mesh)) (ni_Node (demo_inv ''n1:1'')) = Inr iv'
     \<and> map_of (ms_members demo_mesh) a' \<noteq> None \<and> demo_reads a' = Inr (iv', peers')
     \<and> ni_Node iv' = ni_Node (demo_inv ''n1:1'')"
  by (rule mesh_answered_listed [OF demo_mesh_ok demo_orders(1,2,3),
      of "''n1:1''" "\<lparr>mm_seed = False, mm_fails = 0, mm_inv = None\<rparr>" _ "[''n2:1'', ''n3:1'']"])
    (simp_all add: demo_mesh_def demo_reads_def)

theorem mesh_stale_listed_witness:
  "\<exists>iv'. mesh_NodeInventory (snd (mesh_tick demo_reads [''n1:1'', ''s:1'', ''n2:1'']
       [''n2:1'', ''n3:1'', ''s:1''] demo_mesh)) (ni_Node (demo_inv ''n2:1'')) = Inr iv'"
  by (rule mesh_stale_listed [OF demo_mesh_ok demo_orders(1,3),
      of "''n2:1''" "\<lparr>mm_seed = False, mm_fails = 2, mm_inv = Some (demo_inv ''n2:1'')\<rparr>" _ "OpError ''dial''"])
    (simp_all add: demo_mesh_def demo_reads_def)

end
