(* ===== verification/Kube_Inventory.thy ===== *)
theory Kube_Inventory
  imports Inventory_Source
begin

text \<open>
  The Kubernetes inventory source (pkg/scale/kubeinventory/source.go): a snapshot of the informer's
  NodeInventory objects, rebuilt on every event, read against the clock. A state of the source is its
  fields and the time of the read. Stamps are 64-bit nanoseconds, so their difference wraps.
\<close>

definition defaultStaleAfter :: int where "defaultStaleAfter = 90 * second"

record kube_snapshot =
  kn_caps :: "NodePools list"
  kn_stamps :: "int list"
  kn_newest :: int
  kn_byNode :: "(string \<times> NodeInventory) list"

record KubeSource =
  ks_staleAfter :: int
  ks_snap :: kube_snapshot
  ks_byNode :: "(string \<times> NodeInventory) list"

definition kube_publishedAt :: "NodeInventory \<Rightarrow> int" where
  "kube_publishedAt iv = (if time_IsZero (ni_PublishedAt iv) then 0 else time_UnixNano (ni_PublishedAt iv))"

definition kube_stale :: "KubeSource \<Rightarrow> int \<Rightarrow> int \<Rightarrow> bool" where
  "kube_stale s stamp ref = (wrap64 (ref - stamp) > ks_staleAfter s)"

definition kube_publish :: "KubeSource \<Rightarrow> KubeSource" where
  "kube_publish s =
     (let rows = sort_key fst (ks_byNode s);
          stamps = map (\<lambda>(node, iv). kube_publishedAt iv) rows
      in s\<lparr>ks_snap :=
           \<lparr>kn_caps = map (\<lambda>(node, iv). \<lparr>np_Node = node, np_Address = ni_Address iv,
                             np_Pools = ni_Pools iv, np_Templates = ni_Templates iv\<rparr>) rows,
            kn_stamps = stamps,
            kn_newest = foldl max 0 stamps,
            kn_byNode = ks_byNode s\<rparr>\<rparr>)"

text \<open>\<^verbatim>\<open>New\<close> starts from an empty snapshot; the informer's events then call \<^verbatim>\<open>put\<close> and \<^verbatim>\<open>drop\<close>.\<close>

definition kube_New :: "int \<Rightarrow> KubeSource" where
  "kube_New staleAfter =
     \<lparr>ks_staleAfter = cmp_OrI staleAfter defaultStaleAfter,
      ks_snap = \<lparr>kn_caps = [], kn_stamps = [], kn_newest = 0, kn_byNode = []\<rparr>,
      ks_byNode = []\<rparr>"

definition kube_put :: "NodeInventory \<Rightarrow> KubeSource \<Rightarrow> KubeSource" where
  "kube_put iv s = kube_publish (s\<lparr>ks_byNode := AList.update (ni_Name iv) iv (ks_byNode s)\<rparr>)"

definition kube_drop :: "NodeInventory \<Rightarrow> KubeSource \<Rightarrow> KubeSource" where
  "kube_drop iv s = kube_publish (s\<lparr>ks_byNode := AList.delete (ni_Name iv) (ks_byNode s)\<rparr>)"

definition kube_current :: "KubeSource \<times> time \<Rightarrow> kube_snapshot \<times> int" where
  "kube_current w = (ks_snap (fst w), min (kn_newest (ks_snap (fst w))) (time_UnixNano (snd w)))"

definition kube_fresh_caps :: "KubeSource \<times> time \<Rightarrow> NodePools list" where
  "kube_fresh_caps w =
     (let (snap, ref) = kube_current w
      in map fst (filter (\<lambda>(c, stamp). \<not> kube_stale (fst w) stamp ref) (zip (kn_caps snap) (kn_stamps snap))))"

definition kube_ListNodes :: "KubeSource \<times> time \<Rightarrow> err + string list" where
  "kube_ListNodes w = Inr (map np_Node (kube_fresh_caps w))"

definition kube_NodeCapacities :: "KubeSource \<times> time \<Rightarrow> err + NodePools list" where
  "kube_NodeCapacities w =
     (let (snap, ref) = kube_current w
      in if \<not> list_ex (\<lambda>stamp. kube_stale (fst w) stamp ref) (kn_stamps snap)
         then Inr (kn_caps snap)
         else Inr (kube_fresh_caps w))"

definition kube_get :: "KubeSource \<times> time \<Rightarrow> string \<Rightarrow> err + NodeInventory" where
  "kube_get w node =
     (let snap = ks_snap (fst w) in
      case map_of (kn_byNode snap) node of
        None \<Rightarrow> Inl (Wrap (Msg ''kubeinventory: get node %q inventory: %w'' [node]) (k8s_NewNotFound node))
      | Some iv \<Rightarrow>
          if kube_stale (fst w) (kube_publishedAt iv) (min (kn_newest snap) (time_UnixNano (snd w)))
          then Inl (Wrap (Msg ''kubeinventory: node %q inventory is stale: %w'' [node]) (k8s_NewNotFound node))
          else Inr iv)"

definition kube_NodeCapacity :: "KubeSource \<times> time \<Rightarrow> string \<Rightarrow> err + string \<times> PoolCapacity list" where
  "kube_NodeCapacity w node =
     (case kube_get w node of Inl e \<Rightarrow> Inl e | Inr iv \<Rightarrow> Inr (ni_Address iv, ni_Pools iv))"

definition kube_source :: "(KubeSource \<times> time) InventorySource" where
  "kube_source =
     \<lparr>src_ListNodes = kube_ListNodes, src_NodeInventory = kube_get,
      src_NodeCapacity = kube_NodeCapacity, src_NodeCapacities = kube_NodeCapacities\<rparr>"

text \<open>The events the informer delivers to the registered handlers, in their order.\<close>

datatype kube_event = KAdd NodeInventory | KUpdate NodeInventory | KDelete NodeInventory

fun kube_event_step :: "kube_event \<Rightarrow> KubeSource \<Rightarrow> KubeSource" where
  "kube_event_step (KAdd iv) s = kube_put iv s"
| "kube_event_step (KUpdate iv) s = kube_put iv s"
| "kube_event_step (KDelete iv) s = kube_drop iv s"

definition kube_after :: "int \<Rightarrow> kube_event list \<Rightarrow> KubeSource" where
  "kube_after staleAfter events = foldl (\<lambda>s e. kube_event_step e s) (kube_New staleAfter) events"

text \<open>The sources that events lead to.\<close>

inductive kube_reachable :: "KubeSource \<Rightarrow> bool" where
  new: "kube_reachable (kube_New staleAfter)"
| put: "kube_reachable s \<Longrightarrow> kube_reachable (kube_put iv s)"
| drop: "kube_reachable s \<Longrightarrow> kube_reachable (kube_drop iv s)"

section \<open>The invariant\<close>

text \<open>The snapshot is the published form of the tracked objects, keyed without repetition.\<close>

definition kube_ok :: "KubeSource \<times> time \<Rightarrow> bool" where
  "kube_ok w \<longleftrightarrow> distinct (map fst (ks_byNode (fst w))) \<and> kube_publish (fst w) = fst w"

lemma kube_publish_idem: "kube_publish (kube_publish s) = kube_publish s"
  by (simp add: kube_publish_def Let_def)

lemma ks_byNode_publish [simp]: "ks_byNode (kube_publish s) = ks_byNode s"
  "ks_staleAfter (kube_publish s) = ks_staleAfter s"
  by (simp_all add: kube_publish_def Let_def)

lemma kube_reachable_ok: "kube_reachable s \<Longrightarrow> kube_ok (s, now)"
proof (induction rule: kube_reachable.induct)
  case (new staleAfter)
  then show ?case by (simp add: kube_ok_def kube_New_def kube_publish_def)
qed (auto simp: kube_ok_def kube_put_def kube_drop_def kube_publish_idem distinct_update distinct_delete)

lemma kube_snap:
  assumes "kube_ok w"
  shows "kn_byNode (ks_snap (fst w)) = ks_byNode (fst w)"
    and "kn_caps (ks_snap (fst w)) = map (\<lambda>(node, iv). \<lparr>np_Node = node, np_Address = ni_Address iv,
           np_Pools = ni_Pools iv, np_Templates = ni_Templates iv\<rparr>) (sort_key fst (ks_byNode (fst w)))"
    and "kn_stamps (ks_snap (fst w)) = map (\<lambda>(node, iv). kube_publishedAt iv) (sort_key fst (ks_byNode (fst w)))"
    and "kn_newest (ks_snap (fst w)) = foldl max 0 (kn_stamps (ks_snap (fst w)))"
proof -
  have "ks_snap (fst w) = ks_snap (kube_publish (fst w))" using assms by (simp add: kube_ok_def)
  then show "kn_byNode (ks_snap (fst w)) = ks_byNode (fst w)"
    and "kn_caps (ks_snap (fst w)) = map (\<lambda>(node, iv). \<lparr>np_Node = node, np_Address = ni_Address iv,
           np_Pools = ni_Pools iv, np_Templates = ni_Templates iv\<rparr>) (sort_key fst (ks_byNode (fst w)))"
    and "kn_stamps (ks_snap (fst w)) = map (\<lambda>(node, iv). kube_publishedAt iv) (sort_key fst (ks_byNode (fst w)))"
    and "kn_newest (ks_snap (fst w)) = foldl max 0 (kn_stamps (ks_snap (fst w)))"
    by (simp_all add: kube_publish_def Let_def)
qed

lemma distinct_sort_fst: "distinct (map fst xs) \<Longrightarrow> distinct (map fst (sort_key fst xs))"
  by (metis distinct_map distinct_sort inj_on_def set_sort)

lemma map_of_sort_fst: "distinct (map fst xs) \<Longrightarrow> map_of (sort_key fst xs) = map_of xs"
  by (metis distinct_sort_fst map_of_eqI map_of_eq_Some_iff map_of_inject_set set_sort)

text \<open>The rows kept by a read at reference \<open>ref\<close> are those whose own read succeeds.\<close>

lemma fresh_rows:
  "map fst (filter (\<lambda>(c, stamp). \<not> P stamp)
     (zip (map (\<lambda>(node, iv). f node iv) rows) (map (\<lambda>(node, iv). g iv) rows)))
   = map (\<lambda>(node, iv). f node iv) (filter (\<lambda>(node, iv). \<not> P (g iv)) rows)"
  by (induction rows) auto

lemma kube_fresh_caps_eq:
  assumes "kube_ok w"
  shows "kube_fresh_caps w = map (\<lambda>(node, iv). \<lparr>np_Node = node, np_Address = ni_Address iv,
           np_Pools = ni_Pools iv, np_Templates = ni_Templates iv\<rparr>)
         (filter (\<lambda>(node, iv). \<not> kube_stale (fst w) (kube_publishedAt iv) (snd (kube_current w)))
           (sort_key fst (ks_byNode (fst w))))"
  unfolding kube_fresh_caps_def kube_current_def Let_def prod.case snd_conv
  by (simp add: kube_snap [OF assms] fresh_rows)

lemma kube_rows:
  assumes "\<And>node iv. (node, iv) \<in> set rows \<Longrightarrow> \<not> Q iv \<Longrightarrow> rd node = Inr iv"
  shows "List.map_filter (capacity_row rd) (map fst (filter (\<lambda>(node, iv). \<not> Q iv) rows))
    = map (\<lambda>(node, iv). \<lparr>np_Node = node, np_Address = ni_Address iv,
           np_Pools = ni_Pools iv, np_Templates = ni_Templates iv\<rparr>) (filter (\<lambda>(node, iv). \<not> Q iv) rows)"
  using assms
proof (induction rows)
  case (Cons r rows)
  obtain node iv where r: "r = (node, iv)" by (cases r)
  have "\<not> Q iv \<Longrightarrow> capacity_row rd node = Some \<lparr>np_Node = node, np_Address = ni_Address iv,
           np_Pools = ni_Pools iv, np_Templates = ni_Templates iv\<rparr>"
    using Cons.prems [of node iv] by (simp add: r capacity_row_def)
  moreover note Cons.IH [OF Cons.prems]
  ultimately show ?case by (simp add: r map_filter_def)
qed (simp add: map_filter_def)

lemma kube_capacities_fresh:
  assumes "kube_ok w"
  shows "kube_NodeCapacities w = Inr (kube_fresh_caps w)"
proof -
  let ?stale = "\<lambda>(node, iv). kube_stale (fst w) (kube_publishedAt iv) (snd (kube_current w))"
  have "\<not> list_ex (\<lambda>stamp. kube_stale (fst w) stamp (snd (kube_current w))) (kn_stamps (ks_snap (fst w)))
        \<Longrightarrow> filter (\<lambda>(node, iv). \<not> kube_stale (fst w) (kube_publishedAt iv) (snd (kube_current w)))
              (sort_key fst (ks_byNode (fst w))) = sort_key fst (ks_byNode (fst w))"
    by (intro filter_True) (auto simp: kube_snap [OF assms] list_ex_iff)
  then show ?thesis
    by (simp add: kube_NodeCapacities_def kube_current_def Let_def kube_fresh_caps_eq [OF assms]
        kube_snap [OF assms])
qed

lemma kube_get_row:
  assumes "kube_ok w" "(node, iv) \<in> set (sort_key fst (ks_byNode (fst w)))"
    "\<not> kube_stale (fst w) (kube_publishedAt iv) (snd (kube_current w))"
  shows "kube_get w node = Inr iv"
proof -
  have "map_of (ks_byNode (fst w)) node = Some iv"
    using assms(1,2) by (simp add: kube_ok_def)
  with assms show ?thesis by (simp add: kube_get_def kube_snap(1) kube_current_def Let_def)
qed

lemma kube_nodes:
  assumes "kube_ok w"
  shows "map np_Node (kube_fresh_caps w) = map fst (filter
      (\<lambda>(node, iv). \<not> kube_stale (fst w) (kube_publishedAt iv) (snd (kube_current w)))
      (sort_key fst (ks_byNode (fst w))))"
  unfolding kube_fresh_caps_eq [OF assms] by (simp add: split_def)

interpretation kube_inventory: inventory_source kube_source kube_ok
proof
  fix w ns n
  assume ok: "kube_ok w"
  have dist: "distinct (map fst (sort_key fst (ks_byNode (fst w))))"
    using ok by (simp add: kube_ok_def distinct_sort_fst)
  show "src_ListNodes kube_source w = Inr ns \<Longrightarrow> sorted ns \<and> distinct ns"
    using distinct_map_filter [OF dist]
    by (auto simp: kube_source_def kube_ListNodes_def kube_nodes [OF ok] sorted_filter)
  show "src_NodeCapacity kube_source w n =
      (case src_NodeInventory kube_source w n of Inl e \<Rightarrow> Inl e | Inr iv \<Rightarrow> Inr (ni_Address iv, ni_Pools iv))"
    by (simp add: kube_source_def kube_NodeCapacity_def)
  have "List.map_filter (capacity_row (kube_get w)) (map np_Node (kube_fresh_caps w)) = kube_fresh_caps w"
    unfolding kube_nodes [OF ok] unfolding kube_fresh_caps_eq [OF ok]
    by (rule kube_rows) (rule kube_get_row [OF ok])
  then show "src_ListNodes kube_source w = Inr ns \<Longrightarrow>
      src_NodeCapacities kube_source w
        = Inr (List.map_filter (capacity_row (src_NodeInventory kube_source w)) ns)"
    by (auto simp: kube_source_def kube_ListNodes_def kube_capacities_fresh [OF ok])
  show "\<exists>ns. src_ListNodes kube_source w = Inr ns"
    by (simp add: kube_source_def kube_ListNodes_def)
qed

section \<open>Properties\<close>

text \<open>The newest stamp bounds every stamp, and is one of them or 0.\<close>

lemma foldl_max_ge: "foldl max (a :: int) xs \<ge> a \<and> (\<forall>x\<in>set xs. foldl max a xs \<ge> x)"
  by (induction xs arbitrary: a) (auto, (meson max.boundedE max.coboundedI2 max.cobounded1 order.trans)+)

lemma foldl_max_mem: "foldl max (a :: int) xs \<in> insert a (set xs)"
  by (induction xs arbitrary: a) (auto simp: max_def split: if_splits)

lemma kube_listed_iff:
  assumes "kube_ok w"
  shows "(\<exists>ns. kube_ListNodes w = Inr ns \<and> n \<in> set ns) \<longleftrightarrow>
     (\<exists>iv. map_of (ks_byNode (fst w)) n = Some iv
       \<and> \<not> kube_stale (fst w) (kube_publishedAt iv) (snd (kube_current w)))"
  using assms by (force simp: kube_ListNodes_def kube_nodes kube_ok_def)

text \<open>What the informer has told of a node: the object of its last event, unless that was a deletion.\<close>

fun event_object :: "kube_event \<Rightarrow> NodeInventory" where
  "event_object (KAdd iv) = iv"
| "event_object (KUpdate iv) = iv"
| "event_object (KDelete iv) = iv"

definition reported_inventory :: "kube_event list \<Rightarrow> string \<Rightarrow> NodeInventory option" where
  "reported_inventory events node =
     (case find (\<lambda>e. ni_Name (event_object e) = node) (rev events) of
        None \<Rightarrow> None | Some (KDelete iv) \<Rightarrow> None | Some e \<Rightarrow> Some (event_object e))"

lemma kube_after_snoc: "kube_after h (events @ [e]) = kube_event_step e (kube_after h events)"
  by (simp add: kube_after_def)

lemma kube_after_reachable: "kube_reachable (kube_after h events)"
proof (induction events rule: rev_induct)
  case Nil
  then show ?case by (simp add: kube_after_def kube_reachable.new)
next
  case (snoc e events)
  then show ?case by (cases e) (simp_all add: kube_after_snoc kube_reachable.put kube_reachable.drop)
qed

lemma kube_after_holds: "map_of (ks_byNode (kube_after h events)) = reported_inventory events"
proof (induction events rule: rev_induct)
  case Nil
  then show ?case by (simp add: kube_after_def kube_New_def reported_inventory_def fun_eq_iff)
next
  case (snoc e events)
  then show ?case
    by (cases e) (auto simp: kube_after_snoc kube_put_def kube_drop_def update_conv' delete_conv' reported_inventory_def fun_eq_iff)
qed

lemma kube_after_horizon: "ks_staleAfter (kube_after h events) = (if h = 0 then 90 * second else h)"
proof (induction events rule: rev_induct)
  case Nil
  then show ?case by (simp add: kube_after_def kube_New_def cmp_OrI_def defaultStaleAfter_def)
next
  case (snoc e events)
  then show ?case by (cases e) (simp_all add: kube_after_snoc kube_put_def kube_drop_def)
qed

text \<open>The horizon, stated over what the informer told: no inventory it holds, or not the clock, is ahead by more than \<open>h\<close>.\<close>

definition within_horizon :: "int \<Rightarrow> kube_event list \<Rightarrow> time \<Rightarrow> NodeInventory \<Rightarrow> bool" where
  "within_horizon h events now iv \<longleftrightarrow>
     (\<forall>m iv'. reported_inventory events m = Some iv' \<longrightarrow> kube_publishedAt iv' - kube_publishedAt iv \<le> h)
     \<or> time_UnixNano now - kube_publishedAt iv \<le> h"

lemma kube_stale_iff:
  assumes "map_of (ks_byNode (kube_after h events)) n = Some iv" "0 \<le> time_UnixNano now"
    and "\<forall>m iv'. reported_inventory events m = Some iv' \<longrightarrow> 0 \<le> kube_publishedAt iv'"
  shows "\<not> kube_stale (kube_after h events) (kube_publishedAt iv) (min (kn_newest (ks_snap (kube_after h events))) (time_UnixNano now))
    \<longleftrightarrow> within_horizon (if h = 0 then 90 * second else h) events now iv"
proof -
  let ?s = "kube_after h events" and ?h = "if h = 0 then 90 * second else h"
  let ?N = "kn_newest (ks_snap ?s)" and ?p = "kube_publishedAt iv"
  have ok: "kube_ok (?s, now)" by (rule kube_reachable_ok [OF kube_after_reachable])
  have stamps: "set (kn_stamps (ks_snap ?s)) = kube_publishedAt ` ran (reported_inventory events)"
    using kube_snap(3) [OF ok] ok unfolding kube_after_holds [of h, symmetric]
    by (force simp: kube_ok_def ran_def image_iff)
  note N = kube_snap(4) [OF ok, unfolded fst_conv]
  have p: "0 \<le> ?p" "?p \<in> kube_publishedAt ` ran (reported_inventory events)"
    using assms(1,3) by (auto simp: kube_after_holds ran_def)
  have ge: "0 \<le> ?N" "\<And>q. q \<in> kube_publishedAt ` ran (reported_inventory events) \<Longrightarrow> q \<le> ?N"
    using foldl_max_ge [of 0 "kn_stamps (ks_snap ?s)"] N stamps by auto
  have mem: "?N \<in> kube_publishedAt ` ran (reported_inventory events)"
    using foldl_max_mem [of 0 "kn_stamps (ks_snap ?s)"] N stamps p ge(2) [OF p(2)] by auto
  have b: "?p < 2 ^ 63" "time_UnixNano now < 2 ^ 63"
    using wrap64_bounds(2) by (simp_all add: kube_publishedAt_def time_UnixNano_def)
  have "wrap64 (min ?N (time_UnixNano now) - ?p) = min ?N (time_UnixNano now) - ?p"
    using p(1) b ge(1) assms(2) by (intro wrap64_id) (simp_all add: min_def)
  moreover have "?N - ?p \<le> ?h \<longleftrightarrow> (\<forall>m iv'. reported_inventory events m = Some iv' \<longrightarrow> kube_publishedAt iv' - ?p \<le> ?h)"
    using mem ge(2) by (fastforce simp: ran_def)
  ultimately show ?thesis
    by (auto simp: kube_stale_def within_horizon_def kube_after_horizon min_def)
qed

text \<open>
  C23. The Kubernetes source's freshness horizon, after any sequence of informer events and at any clock: a node is
  listed exactly when its last event left an inventory whose stamp is within \<^verbatim>\<open>staleAfter\<close>, or 90 seconds
  when none is set, of every stamp the events left, or of the clock; and exactly then a read of the node gives that
  inventory. So a controller outage that freezes every stamp together hides no node however late the clock
  is, and one node stamped in the future does not make the others stale.
\<close>

theorem kube_freshness:
  assumes "kube_ListNodes (kube_after h events, now) = Inr ns" and "0 \<le> time_UnixNano now"
    and "\<forall>m iv'. reported_inventory events m = Some iv' \<longrightarrow> 0 \<le> kube_publishedAt iv'"
  shows "(n \<in> set ns \<longleftrightarrow> (\<exists>iv. reported_inventory events n = Some iv
            \<and> within_horizon (if h = 0 then 90 * second else h) events now iv))
    \<and> (kube_get (kube_after h events, now) n = Inr iv \<longleftrightarrow> reported_inventory events n = Some iv
            \<and> within_horizon (if h = 0 then 90 * second else h) events now iv)"
proof -
  let ?w = "(kube_after h events, now)"
  have ok: "kube_ok ?w" by (rule kube_reachable_ok [OF kube_after_reachable])
  have iff: "\<not> kube_stale (kube_after h events) (kube_publishedAt iv) (min (kn_newest (ks_snap (kube_after h events))) (time_UnixNano now))
      \<longleftrightarrow> within_horizon (if h = 0 then 90 * second else h) events now iv"
    if "reported_inventory events n = Some iv" for iv
    using kube_stale_iff [OF that [folded kube_after_holds [of h]] assms(2,3)] .
  have "n \<in> set ns \<longleftrightarrow> (\<exists>iv. reported_inventory events n = Some iv
      \<and> within_horizon (if h = 0 then 90 * second else h) events now iv)"
    using kube_listed_iff [OF ok, of n] assms(1) iff by (auto simp: kube_current_def kube_after_holds)
  moreover have "kube_get ?w n = Inr iv \<longleftrightarrow> reported_inventory events n = Some iv
      \<and> within_horizon (if h = 0 then 90 * second else h) events now iv"
    using iff kube_snap(1) [OF ok] by (auto simp: kube_get_def Let_def kube_after_holds split: option.splits if_splits)
  ultimately show ?thesis by blast
qed

definition kube_demo_node :: "string \<Rightarrow> time \<Rightarrow> NodeInventory" where
  "kube_demo_node name at = \<lparr>ni_Name = name, ni_Node = name, ni_Entries = [], ni_Address = [], ni_Pools = [],
     ni_Templates = [], ni_PublishedAt = at\<rparr>"

text \<open>
  Four nodes: one added and deleted, two stamped 60 seconds apart, the newer of them first by name, and a last one an
  hour before them, read a day after the newest.
\<close>

definition kube_demo_events :: "kube_event list" where
  "kube_demo_events = [KAdd (kube_demo_node ''d'' (unix_epoch + 9000 * second)), KAdd (kube_demo_node ''c'' (unix_epoch + 3600 * second)),
     KAdd (kube_demo_node ''b'' (unix_epoch + 60 * second)), KUpdate (kube_demo_node ''b'' (unix_epoch + 7140 * second)),
     KAdd (kube_demo_node ''a'' (unix_epoch + 7200 * second)), KDelete (kube_demo_node ''d'' (unix_epoch + 9000 * second))]"

theorem kube_freshness_witness:
  "(\<exists>iv. reported_inventory kube_demo_events ''b'' = Some iv
       \<and> within_horizon (90 * second) kube_demo_events (unix_epoch + 93600 * second) iv)
   \<and> \<not> within_horizon (90 * second) kube_demo_events (unix_epoch + 93600 * second) (kube_demo_node ''c'' (unix_epoch + 3600 * second))"
proof -
  have 1: "kube_ListNodes (kube_after 0 kube_demo_events, unix_epoch + 93600 * second) = Inr [''a'', ''b'']" by code_simp
  have 2: "0 \<le> time_UnixNano (unix_epoch + 93600 * second)" by code_simp
  have held: "\<forall>(m, iv) \<in> set (ks_byNode (kube_after 0 kube_demo_events)). 0 \<le> kube_publishedAt iv" by code_simp
  have 3: "\<forall>m iv'. reported_inventory kube_demo_events m = Some iv' \<longrightarrow> 0 \<le> kube_publishedAt iv'"
    unfolding kube_after_holds [of 0, symmetric] using held by (blast dest: map_of_SomeD)
  have c: "reported_inventory kube_demo_events ''c'' = Some (kube_demo_node ''c'' (unix_epoch + 3600 * second))"
    by (simp add: reported_inventory_def kube_demo_events_def kube_demo_node_def)
  show ?thesis
    using kube_freshness [OF 1 2 3, of "''b''"] kube_freshness [OF 1 2 3, of "''c''"] c by simp
qed

end
