(* ===== verification/Kube_Setup.thy ===== *)
theory Kube_Setup
  imports Kube_Inventory
begin

text \<open>
  The start of the Kubernetes inventory: the cache NewCache builds (pkg/scale/kubeinventory/cache.go), the source registered on it
  (source.go), and the applier a publisher writes a node's inventory with (applier.go). What controller-runtime answers is
  a record; the conversion to and from an unstructured object is a pair of functions.
\<close>

section \<open>The cache and the source\<close>

text \<open>
  The answers of the calls, in their order; \<open>ci_started\<close> is what is in the channel of \<^verbatim>\<open>Start\<close> when the wait gave up: nothing,
  a nil, or an error.
\<close>

record cache_io =
  ci_AddToScheme :: "err option"
  ci_New :: "err option"
  ci_GetInformer :: "err option"
  ci_synced :: bool
  ci_started :: "err option option"

definition NewCache :: "cache_io \<Rightarrow> err option" where
  "NewCache c =
     (case ci_AddToScheme c of
        Some e \<Rightarrow> Some (Wrap (Msg ''kubeinventory: register node inventory scheme: %w'' []) e)
      | None \<Rightarrow>
          (case ci_New c of
             Some e \<Rightarrow> Some (Wrap (Msg ''kubeinventory: build inventory cache: %w'' []) e)
           | None \<Rightarrow>
               (case ci_GetInformer c of
                  Some e \<Rightarrow> Some (Wrap (Msg ''kubeinventory: register node inventory informer: %w'' []) e)
                | None \<Rightarrow>
                    if ci_synced c then None
                    else (case ci_started c of
                            Some (Some e) \<Rightarrow> Some (Wrap (Msg ''kubeinventory: run inventory cache: %w'' []) e)
                          | _ \<Rightarrow> Some (PlainError (Msg ''kubeinventory: node inventory cache did not sync within %s (is the %s CRD installed?)'' []))))))"

record source_io =
  so_GetInformer :: "err option"
  so_AddEventHandler :: "err option"
  so_events :: "kube_event list"
  so_synced :: bool

text \<open>\<^verbatim>\<open>New\<close>: the source with the events delivered until its handler had synced.\<close>

definition kube_Start :: "source_io \<Rightarrow> int \<Rightarrow> err + KubeSource" where
  "kube_Start c staleAfter =
     (case so_GetInformer c of
        Some e \<Rightarrow> Inl (Wrap (Msg ''kubeinventory: get node inventory informer: %w'' []) e)
      | None \<Rightarrow>
          (case so_AddEventHandler c of
             Some e \<Rightarrow> Inl (Wrap (Msg ''kubeinventory: watch node inventories: %w'' []) e)
           | None \<Rightarrow>
               if \<not> so_synced c then Inl (PlainError (Msg ''kubeinventory: node inventory snapshot did not sync within %s'' []))
               else Inr (foldl (\<lambda>s e. kube_event_step e s) (kube_New staleAfter) (so_events c))))"

section \<open>The applier\<close>

record ssaApplier =
  sa_fieldOwner :: string

definition NewSSAApplier :: "string \<Rightarrow> ssaApplier" where
  "NewSSAApplier fieldOwner = \<lparr>sa_fieldOwner = cmp_Or fieldOwner ''cocoon-node-inventory-publisher''\<rparr>"

text \<open>A server-side apply: the object with its kind and name, who owns the fields, and whether ownership is forced.\<close>

record 'u apply_request =
  aq_Object :: 'u
  aq_Kind :: string
  aq_Name :: string
  aq_FieldOwner :: string
  aq_Force :: bool

definition ssa_Apply :: "(NodeInventory \<Rightarrow> err + 'u) \<Rightarrow> ('u apply_request \<Rightarrow> 'w \<Rightarrow> err option \<times> 'w) \<Rightarrow> ssaApplier \<Rightarrow> NodeInventory \<Rightarrow> 'w
   \<Rightarrow> err option \<times> 'w" where
  "ssa_Apply encode apply a iv w =
     (case encode iv of
        Inl e \<Rightarrow> (Some (Wrap (Msg ''kubeinventory: encode node inventory: %w'' []) e), w)
      | Inr raw \<Rightarrow>
          (case apply \<lparr>aq_Object = raw, aq_Kind = ''NodeInventory'', aq_Name = ni_Node iv, aq_FieldOwner = sa_fieldOwner a, aq_Force = True\<rparr> w of
             (Some e, w') \<Rightarrow> (Some (Wrap (Msg ''kubeinventory: server-side-apply node inventory: %w'' []) e), w')
           | (None, w') \<Rightarrow> (None, w')))"

section \<open>From a publisher to the source\<close>

text \<open>The object an informer delivers for an accepted apply: what was applied, under the name it was applied with.\<close>

definition delivered :: "('u \<Rightarrow> NodeInventory) \<Rightarrow> 'u apply_request \<Rightarrow> kube_event" where
  "delivered decode q = KUpdate ((decode (aq_Object q))\<lparr>ni_Name := aq_Name q\<rparr>)"

lemma event_reachable: "kube_reachable s \<Longrightarrow> kube_reachable (kube_event_step e s)"
  by (cases e) (auto intro: kube_reachable.intros)

lemma events_reachable: "kube_reachable s \<Longrightarrow> kube_reachable (foldl (\<lambda>s e. kube_event_step e s) s es)"
  by (induction es arbitrary: s) (auto intro: event_reachable)

lemma kube_Start_reachable: "kube_Start c staleAfter = Inr s \<Longrightarrow> kube_reachable s"
  by (auto simp: kube_Start_def split: option.splits if_splits intro!: events_reachable kube_reachable.intros)

text \<open>Recording the accepted applies of a publisher.\<close>

definition recorded :: "('u apply_request \<Rightarrow> err option) \<Rightarrow> 'u apply_request \<Rightarrow> 'u apply_request list \<Rightarrow> err option \<times> 'u apply_request list" where
  "recorded verdict q log = (case verdict q of None \<Rightarrow> (None, log @ [q]) | Some e \<Rightarrow> (Some e, log))"

definition applied_log :: "(NodeInventory \<Rightarrow> err + 'u) \<Rightarrow> ('u apply_request \<Rightarrow> err option) \<Rightarrow> ssaApplier \<Rightarrow> NodeInventory list \<Rightarrow> 'u apply_request list" where
  "applied_log encode verdict a ivs = foldl (\<lambda>log iv. snd (ssa_Apply encode (recorded verdict) a iv log)) [] ivs"

text \<open>
  A publisher's inventories reach the source: with a faithful conversion, after any sequence of applies that the API server accepted and the
  informer delivered, the source holds for each node the inventory applied last, under the node's own name.
\<close>

theorem applied_reaches_source:
  assumes "\<And>iv. \<exists>raw. encode iv = Inr raw \<and> decode raw = iv"
    and "\<And>q. verdict q = None"
  shows "map_of (ks_byNode (foldl (\<lambda>s e. kube_event_step e s) (kube_New staleAfter) (map (delivered decode) (applied_log encode verdict a ivs)))) node
    = map_option (\<lambda>iv. iv\<lparr>ni_Name := node\<rparr>) (find (\<lambda>iv. ni_Node iv = node) (rev ivs))"
proof (induction ivs rule: rev_induct)
  case Nil
  then show ?case by (simp add: applied_log_def kube_New_def)
next
  case (snoc iv ivs)
  obtain raw where raw: "encode iv = Inr raw" "decode raw = iv" using assms(1) by blast
  have log: "applied_log encode verdict a (ivs @ [iv]) = applied_log encode verdict a ivs @ [\<lparr>aq_Object = raw, aq_Kind = ''NodeInventory'', aq_Name = ni_Node iv, aq_FieldOwner = sa_fieldOwner a, aq_Force = True\<rparr>]"
    by (simp add: applied_log_def ssa_Apply_def raw recorded_def assms(2))
  show ?case using snoc.IH by (simp add: log delivered_def raw kube_put_def update_conv')
qed

end
