(* ===== verification/Warm_Pool.thy ===== *)
theory Warm_Pool
  imports Inventory_Source Store_Entry "HOL-Library.Multiset"
begin

text \<open>
  The warm-pool driver (pkg/scale/warmpool/driver.go): one reconcile spreads every SandboxWarmPool's
  replicas over the schedulable nodes, PUTs each node's whole pool set, and writes back as status the
  share of the live warm that is each pool's. The API server and the nodes are the world; the calls
  the driver makes on them are the fields of \<open>kube\<close> and the setter \<open>PoolSetter\<close>. The PUTs of one
  tick go to different nodes and are made in node order here.
\<close>

record SandboxWarmPool =
  wp_Namespace :: string
  wp_Name :: string
  wp_TemplateRef :: string
  wp_Replicas :: "int option"
  wp_StatusReplicas :: int
  wp_StatusReadyReplicas :: int
  wp_StatusSelector :: string

record SandboxTemplate =
  tm_PodAnnotations :: strmap
  tm_Containers :: "Container list"

record 'w kube =
  kc_ListPools :: "'w \<Rightarrow> err + SandboxWarmPool list"
  kc_GetTemplate :: "string \<Rightarrow> string \<Rightarrow> 'w \<Rightarrow> err + SandboxTemplate"
  kc_UpdateStatus :: "SandboxWarmPool \<Rightarrow> 'w \<Rightarrow> (err + unit) \<times> 'w"

type_synonym 'w PoolSetter = "PoolSpec list \<Rightarrow> 'w \<Rightarrow> (err + NodeInfo option) \<times> 'w"

record nodeView =
  nv_name :: string
  nv_addr :: string
  nv_warmBy :: "PoolKey \<rightharpoonup> int"

record desiredPool =
  dp_pool :: SandboxWarmPool
  dp_key :: PoolKey
  dp_targets :: "(string \<times> int) list"

record 'w Driver =
  dr_kube :: "'w kube"
  dr_inv :: "'w InventorySource"
  dr_token :: string
  dr_factory :: "string \<Rightarrow> string \<Rightarrow> 'w PoolSetter"
  dr_interval :: int

definition defaultInterval :: int where "defaultInterval = 5 * second"

definition driver_New :: "'w kube \<Rightarrow> 'w InventorySource \<Rightarrow> string \<Rightarrow> (string \<Rightarrow> string \<Rightarrow> 'w PoolSetter) \<Rightarrow> int \<Rightarrow> 'w Driver" where
  "driver_New k iv token factory interval =
     \<lparr>dr_kube = k, dr_inv = iv, dr_token = token, dr_factory = factory,
      dr_interval = (if interval \<le> 0 then defaultInterval else interval)\<rparr>"

text \<open>Indexing a map of integers gives 0 for a missing key.\<close>

definition int_index :: "('k \<rightharpoonup> int) \<Rightarrow> 'k \<Rightarrow> int" where
  "int_index m k = (case m k of None \<Rightarrow> 0 | Some v \<Rightarrow> v)"

definition pool_of :: "PoolCapacity \<Rightarrow> PoolKey" where
  "pool_of pc = \<lparr>pk_Template = pc_Template pc, pk_Net = pc_Net pc, pk_Size = pc_Size pc\<rparr>"

definition warmByKey :: "PoolCapacity list \<Rightarrow> PoolKey \<rightharpoonup> int" where
  "warmByKey pools = foldl (\<lambda>m pc. m(pool_of pc \<mapsto> pc_Warm pc)) Map.empty pools"

definition schedulableNodes :: "'w Driver \<Rightarrow> 'w \<Rightarrow> err + nodeView list" where
  "schedulableNodes d w =
     (case src_NodeCapacities (dr_inv d) w of
        Inl e \<Rightarrow> Inl (Wrap (Msg ''list node inventories: %w'' []) e)
      | Inr nodes \<Rightarrow>
          Inr (sort_key nv_name (map (\<lambda>n. \<lparr>nv_name = np_Node n, nv_addr = np_Address n, nv_warmBy = warmByKey (np_Pools n)\<rparr>)
            (filter (\<lambda>n. np_Address n \<noteq> []) nodes))))"

definition errNoTemplateRef :: err where
  "errNoTemplateRef = PlainError (Msg ''spec.sandboxTemplateRef.name is required'' [])"

definition driver_poolKey :: "'w Driver \<Rightarrow> SandboxWarmPool \<Rightarrow> 'w \<Rightarrow> err + PoolKey" where
  "driver_poolKey d p w =
     (if wp_TemplateRef p = [] then Inl errNoTemplateRef
      else (case kc_GetTemplate (dr_kube d) (wp_Namespace p) (wp_TemplateRef p) w of
              Inl e \<Rightarrow> Inl (Wrap (Msg ''get SandboxTemplate %s/%s: %w'' [wp_Namespace p, wp_TemplateRef p]) e)
            | Inr tmpl \<Rightarrow> Inr (PoolKeyFor (tm_Containers tmpl) (NetForAnnotations (tm_PodAnnotations tmpl) Map.empty))))"

section \<open>Spreading the targets\<close>

fun distribute_from :: "nat \<Rightarrow> int \<Rightarrow> int \<Rightarrow> nodeView list \<Rightarrow> (string \<times> int) list \<Rightarrow> (string \<times> int) list" where
  "distribute_from i base remainder [] targets = targets"
| "distribute_from i base remainder (n # ns) targets =
     distribute_from (Suc i) base remainder ns
       (AList.update (nv_name n) (if int i < remainder then base + 1 else base) targets)"

definition distribute :: "int \<Rightarrow> nodeView list \<Rightarrow> (string \<times> int) list" where
  "distribute replicas nodes =
     (if nodes = [] then []
      else (let total = max replicas 0
            in distribute_from 0 (go_quot total (int (length nodes))) (go_rem total (int (length nodes))) nodes []))"

definition poolTarget :: "desiredPool \<Rightarrow> int" where
  "poolTarget dp = sum_list (map snd (dp_targets dp))"

section \<open>The PUTs\<close>

definition node_byKey :: "desiredPool list \<Rightarrow> string \<Rightarrow> (PoolKey \<times> int) list" where
  "node_byKey desired node =
     foldl (\<lambda>m dp. AList.update (dp_key dp) (int_index (map_of m) (dp_key dp) + int_index (map_of (dp_targets dp)) node) m) [] desired"

definition spec_order :: "PoolSpec \<Rightarrow> string list" where
  "spec_order s = [ps_Template s, ps_Net s, ps_Size s]"

definition pool_spec :: "PoolKey \<times> int \<Rightarrow> PoolSpec" where
  "pool_spec kw = \<lparr>ps_Template = pk_Template (fst kw), ps_Net = pk_Net (fst kw), ps_Size = pk_Size (fst kw), ps_Warm = snd kw\<rparr>"

definition node_specs :: "desiredPool list \<Rightarrow> string \<Rightarrow> PoolSpec list" where
  "node_specs desired node =
     sort_key spec_order (map pool_spec (node_byKey desired node))"

fun put_nodes :: "'w Driver \<Rightarrow> desiredPool list \<Rightarrow> nodeView list \<Rightarrow> 'w \<Rightarrow> nodeView list \<times> 'w" where
  "put_nodes d desired [] w = ([], w)"
| "put_nodes d desired (n # ns) w =
     (let (r, w') = dr_factory d (nv_addr n) (dr_token d) (node_specs desired (nv_name n)) w;
          n' = (case r of
                  Inr (Some info) \<Rightarrow> n\<lparr>nv_warmBy := warmByKey (PoolCapacityFromInfo info)\<rparr>
                | _ \<Rightarrow> n);
          (ns', w'') = put_nodes d desired ns w'
      in (n' # ns', w''))"

definition applyToNodes :: "'w Driver \<Rightarrow> nodeView list \<Rightarrow> desiredPool list \<Rightarrow> 'w \<Rightarrow> nodeView list \<times> 'w" where
  "applyToNodes d nodes desired w = (if dr_token d = [] then (nodes, w) else put_nodes d desired nodes w)"

section \<open>The shares of the warm\<close>

definition fleet_warm :: "nodeView list \<Rightarrow> PoolKey \<Rightarrow> int" where
  "fleet_warm nodes key = sum_list (map (\<lambda>n. int_index (nv_warmBy n) key) nodes)"

definition sum_target :: "desiredPool list \<Rightarrow> PoolKey \<Rightarrow> int" where
  "sum_target desired key = sum_list (map poolTarget (filter (\<lambda>dp. dp_key dp = key) desired))"

text \<open>The proportional share, rounded down; the product is a 64-bit one.\<close>

definition share :: "desiredPool list \<Rightarrow> nodeView list \<Rightarrow> desiredPool \<Rightarrow> int" where
  "share desired nodes dp =
     (if sum_target desired (dp_key dp) > 0
      then go_quot (wrap64 (fleet_warm nodes (dp_key dp) * poolTarget dp)) (sum_target desired (dp_key dp)) else 0)"

text \<open>The inner loop that hands out what rounding left: one, or everything when nothing is wanted.\<close>

function top_up :: "bool \<Rightarrow> int \<Rightarrow> int \<Rightarrow> int \<Rightarrow> int \<times> int" where
  "top_up wanted fleet out given =
     (if given < fleet then (if wanted then (out + 1, given + 1) else top_up wanted fleet (out + 1) (given + 1))
      else (out, given))"
  by pat_completeness auto
termination
  by (relation "measure (\<lambda>(wanted, fleet, out, given). nat (fleet - given))") auto

declare top_up.simps [simp del]

fun hand_out :: "(PoolKey \<Rightarrow> int) \<Rightarrow> (PoolKey \<Rightarrow> int) \<Rightarrow> (PoolKey \<Rightarrow> int) \<Rightarrow> (desiredPool \<times> int) list \<Rightarrow> int list" where
  "hand_out fleet wanted given [] = []"
| "hand_out fleet wanted given ((dp, out) # rest) =
     (let (out', given') = top_up (wanted (dp_key dp) > 0) (fleet (dp_key dp)) out (given (dp_key dp))
      in out' # hand_out fleet wanted (given(dp_key dp := given')) rest)"

definition apportionWarm :: "desiredPool list \<Rightarrow> nodeView list \<Rightarrow> int list" where
  "apportionWarm desired nodes =
     (let shares = map (share desired nodes) desired;
          given = (\<lambda>key. sum_list (map (share desired nodes) (filter (\<lambda>dp. dp_key dp = key) desired)))
      in hand_out (fleet_warm nodes) (sum_target desired) given (zip desired shares))"

section \<open>One reconcile\<close>

definition writeStatus :: "'w Driver \<Rightarrow> SandboxWarmPool \<Rightarrow> int \<Rightarrow> 'w \<Rightarrow> 'w" where
  "writeStatus d p warm w =
     (let selector = ''agents.x-k8s.io/warm-pool='' @ wp_Name p
      in if wp_StatusReplicas p = wrap32 warm \<and> wp_StatusReadyReplicas p = wrap32 warm \<and> wp_StatusSelector p = selector then w
         else snd (kc_UpdateStatus (dr_kube d) (p\<lparr>wp_StatusReplicas := wrap32 warm, wp_StatusReadyReplicas := wrap32 warm,
                     wp_StatusSelector := selector\<rparr>) w))"

fun desired_pools :: "'w Driver \<Rightarrow> nodeView list \<Rightarrow> SandboxWarmPool list \<Rightarrow> 'w \<Rightarrow> (err + desiredPool list) \<times> 'w" where
  "desired_pools d nodes [] w = (Inr [], w)"
| "desired_pools d nodes (p # ps) w =
     (case driver_poolKey d p w of
        Inl e \<Rightarrow>
          if \<not> k8s_IsNotFound e \<and> \<not> err_Is e errNoTemplateRef
          then (Inl (Wrap (Msg ''resolve warm pool %s/%s template: %w'' [wp_Namespace p, wp_Name p]) e), w)
          else desired_pools d nodes ps (writeStatus d p 0 w)
      | Inr key \<Rightarrow>
          (let replicas = (case wp_Replicas p of None \<Rightarrow> 1 | Some n \<Rightarrow> n)
           in case desired_pools d nodes ps w of
                (Inl e, w') \<Rightarrow> (Inl e, w')
              | (Inr dps, w') \<Rightarrow> (Inr (\<lparr>dp_pool = p, dp_key = key, dp_targets = distribute replicas nodes\<rparr> # dps), w')))"

definition reconcileOnce :: "'w Driver \<Rightarrow> 'w \<Rightarrow> (err + unit) \<times> 'w" where
  "reconcileOnce d w =
     (case kc_ListPools (dr_kube d) w of
        Inl e \<Rightarrow> (Inl (Wrap (Msg ''list SandboxWarmPools: %w'' []) e), w)
      | Inr pools \<Rightarrow>
          (case schedulableNodes d w of
             Inl e \<Rightarrow> (Inl e, w)
           | Inr nodes \<Rightarrow>
               (case desired_pools d nodes pools w of
                  (Inl e, w') \<Rightarrow> (Inl e, w')
                | (Inr desired, w') \<Rightarrow>
                    (let (nodes', w'') = applyToNodes d nodes desired w'
                     in (Inr (), fold (\<lambda>(dp, warm). writeStatus d (dp_pool dp) warm)
                                   (zip desired (apportionWarm desired nodes')) w'')))))"

definition Reconcile :: "'w Driver \<Rightarrow> 'w \<Rightarrow> (err + int) \<times> 'w" where
  "Reconcile d w = (case reconcileOnce d w of (Inl e, w') \<Rightarrow> (Inl e, w') | (Inr _, w') \<Rightarrow> (Inr (dr_interval d), w'))"

section \<open>Sums of targets\<close>

lemma AList_update_new: "k \<notin> fst ` set xs \<Longrightarrow> AList.update k v xs = xs @ [(k, v)]"
  by (induction xs) auto

lemma distribute_from_eq:
  "distinct (map fst targets @ map nv_name ns) \<Longrightarrow> distribute_from i base r ns targets
     = targets @ map (\<lambda>(j, n). (nv_name n, if int j < r then base + 1 else base)) (enumerate i ns)"
proof (induction ns arbitrary: i targets)
  case (Cons n ns)
  then have "AList.update (nv_name n) v targets = targets @ [(nv_name n, v)]" for v
    by (intro AList_update_new) auto
  with Cons show ?case by simp
qed simp

lemma sum_even: "0 \<le> r \<Longrightarrow> (\<Sum>j\<leftarrow>[0..<n]. if int j < r then base + 1 else base) = int n * base + min r (int n)"
  by (induction n) (auto simp: algebra_simps)

lemma distribute_eq:
  assumes "distinct (map nv_name nodes)" "nodes \<noteq> []"
  shows "distribute r nodes = map (\<lambda>(j, n). (nv_name n, if int j < max r 0 mod int (length nodes)
     then max r 0 div int (length nodes) + 1 else max r 0 div int (length nodes))) (enumerate 0 nodes)"
proof -
  have "0 < int (length nodes)" using assms by simp
  then have q: "go_quot (max r 0) (int (length nodes)) = max r 0 div int (length nodes)"
    and rm: "go_rem (max r 0) (int (length nodes)) = max r 0 mod int (length nodes)"
    by (simp_all only: go_quot_nonneg go_rem_nonneg max.cobounded2)
  show ?thesis unfolding distribute_def Let_def q rm using assms distribute_from_eq [of "[]" nodes 0] by simp
qed

lemma map_enumerate:
  "map (\<lambda>p. f (snd p)) (enumerate i xs) = map f xs"
  "map (\<lambda>p. g (fst p)) (enumerate i xs) = map g [i..<i + length xs]"
  by (induction xs arbitrary: i) (auto simp: upt_rec)

lemma distribute_names: "distinct (map nv_name nodes) \<Longrightarrow> map fst (distribute r nodes) = map nv_name nodes"
proof (cases "nodes = []")
  case False
  assume "distinct (map nv_name nodes)"
  then show ?thesis using False by (simp add: distribute_eq split_def o_def map_enumerate)
qed (simp add: distribute_def)

lemma distribute_sum:
  assumes "distinct (map nv_name nodes)" "nodes \<noteq> []"
  shows "sum_list (map snd (distribute r nodes)) = max r 0"
proof -
  let ?n = "length nodes" and ?t = "max r 0"
  let ?f = "\<lambda>j. if int j < ?t mod int ?n then ?t div int ?n + 1 else ?t div int ?n"
  have "map snd (distribute r nodes) = map ?f [0..<?n]"
    unfolding distribute_eq [OF assms] using map_enumerate(2) [of ?f 0 nodes] by (simp add: split_def o_def)
  then have "sum_list (map snd (distribute r nodes)) = int ?n * (?t div int ?n) + min (?t mod int ?n) (int ?n)"
    using sum_even [of "?t mod int ?n" "?t div int ?n" ?n] assms(2) by simp
  also have "\<dots> = ?t"
    using assms(2) by (simp add: min_absorb1 less_imp_le)
  finally show ?thesis .
qed

text \<open>
  The replicas of a pool are spread completely and evenly: the targets of the nodes add up to the
  requested replicas (0 when negative), every node gets one, and no two differ by more than one.
\<close>

theorem distribute_fair:
  assumes "distinct (map nv_name nodes)" "nodes \<noteq> []"
  shows "sum_list (map snd (distribute r nodes)) = max r 0
    \<and> map fst (distribute r nodes) = map nv_name nodes
    \<and> (\<forall>t\<in>set (map snd (distribute r nodes)). \<forall>u\<in>set (map snd (distribute r nodes)). \<bar>t - u\<bar> \<le> 1)"
proof -
  have "\<bar>t - u\<bar> \<le> 1" if "t \<in> set (map snd (distribute r nodes))" "u \<in> set (map snd (distribute r nodes))" for t u
    using that unfolding distribute_eq [OF assms] by (auto split: if_splits)
  then show ?thesis using distribute_sum [OF assms] distribute_names [OF assms(1)] by blast
qed

lemma int_index_map_of_sum:
  "distinct (map fst ts) \<Longrightarrow> (\<Sum>n\<leftarrow>map fst ts. int_index (map_of ts) n) = sum_list (map snd ts)"
proof (induction ts)
  case (Cons t ts)
  then have "\<forall>n\<in>set (map fst ts). fst t \<noteq> n" by auto
  then have rest: "(\<Sum>n\<leftarrow>map fst ts. int_index (map_of (t # ts)) n) = (\<Sum>n\<leftarrow>map fst ts. int_index (map_of ts) n)"
    by (intro arg_cong [where f = sum_list] map_cong) (auto simp: int_index_def)
  have "int_index (map_of (t # ts)) (fst t) = snd t" by (simp add: int_index_def)
  moreover have "(\<Sum>n\<leftarrow>map fst ts. int_index (map_of ts) n) = sum_list (map snd ts)" using Cons by simp
  ultimately show ?case by (simp only: list.map sum_list.Cons rest)
qed simp

definition key_target :: "desiredPool list \<Rightarrow> PoolKey \<Rightarrow> string \<Rightarrow> int" where
  "key_target desired k node = (\<Sum>dp\<leftarrow>filter (\<lambda>dp. dp_key dp = k) desired. int_index (map_of (dp_targets dp)) node)"

lemma node_byKey_snoc:
  "node_byKey (desired @ [dp]) node = AList.update (dp_key dp)
     (int_index (map_of (node_byKey desired node)) (dp_key dp) + int_index (map_of (dp_targets dp)) node) (node_byKey desired node)"
  by (simp add: node_byKey_def)

lemma map_of_node_byKey: "map_of (node_byKey desired node) k = (if k \<in> dp_key ` set desired then Some (key_target desired k node) else None)"
proof (induction desired rule: rev_induct)
  case Nil
  then show ?case by (simp add: node_byKey_def)
next
  case (snoc dp desired)
  have "k \<notin> dp_key ` set desired \<Longrightarrow> filter (\<lambda>dp. dp_key dp = k) desired = []" by (auto simp: filter_empty_conv)
  then show ?case
    using snoc by (auto simp: node_byKey_snoc update_conv' key_target_def int_index_def)
qed

lemma distinct_byKey: "distinct (map fst (node_byKey desired node))"
  by (induction desired rule: rev_induct) (simp_all add: node_byKey_snoc distinct_update node_byKey_def)

definition spec_key :: "PoolSpec \<Rightarrow> PoolKey" where
  "spec_key s = \<lparr>pk_Template = ps_Template s, pk_Net = ps_Net s, pk_Size = ps_Size s\<rparr>"

lemma spec_order_key: "spec_order s = spec_order t \<longleftrightarrow> spec_key s = spec_key t"
  by (auto simp: spec_order_def spec_key_def)

lemma pool_spec_inverse [simp]:
  "spec_key (pool_spec kw) = fst kw" "ps_Warm (pool_spec kw) = snd kw" "pool_spec (spec_key s, ps_Warm s) = s"
  by (simp_all add: spec_key_def pool_spec_def)

lemma set_node_specs:
  "set (node_specs desired node) = {s. spec_key s \<in> dp_key ` set desired \<and> ps_Warm s = key_target desired (spec_key s) node}"
proof -
  have "s \<in> set (node_specs desired node) \<longleftrightarrow> (spec_key s, ps_Warm s) \<in> set (node_byKey desired node)" for s
    by (auto simp: node_specs_def) (metis image_eqI pool_spec_inverse(3))
  moreover have "(k, v) \<in> set (node_byKey desired node) \<longleftrightarrow> map_of (node_byKey desired node) k = Some v" for k v
    using distinct_byKey by simp
  ultimately show ?thesis by (auto simp: map_of_node_byKey simp del: map_of_eq_Some_iff split: if_splits)
qed

lemma distinct_node_specs: "distinct (map spec_key (node_specs desired node))"
proof -
  have "mset (map spec_key (node_specs desired node)) = mset (map fst (node_byKey desired node))"
    by (simp add: node_specs_def image_mset.compositionality o_def)
  then show ?thesis using distinct_byKey by (metis mset_eq_imp_distinct_iff)
qed

lemma filter_unique_key:
  "distinct (map f xs) \<Longrightarrow> x \<in> set xs \<Longrightarrow> filter (\<lambda>y. f y = f x) xs = [x]"
  by (induction xs) (auto simp: filter_empty_conv, metis image_eqI)

text \<open>The targets of one key over the fleet are those of the pools that resolve to it.\<close>

lemma key_target_fleet:
  assumes "distinct (map nv_name nodes)" "\<forall>dp\<in>set desired. map fst (dp_targets dp) = map nv_name nodes"
  shows "(\<Sum>n\<leftarrow>nodes. key_target desired k (nv_name n)) = sum_target desired k"
  using assms(2)
proof (induction desired)
  case (Cons dp desired)
  have "(\<Sum>n\<leftarrow>map nv_name nodes. int_index (map_of (dp_targets dp)) n) = poolTarget dp"
    using int_index_map_of_sum [of "dp_targets dp"] Cons.prems assms(1) by (simp add: poolTarget_def)
  with Cons show ?case by (simp add: key_target_def sum_target_def sum_list_addf o_def)
qed (simp add: key_target_def sum_target_def)

text \<open>
  C32. Every PUT carries the node's whole target set with no key repeated, although several pools may
  resolve to one key: the target of a key on a node is the sum of what those pools want there, and
  over the fleet it is exactly the replicas they ask for.
\<close>

theorem put_targets_conserved:
  assumes "distinct (map nv_name nodes)" "nodes \<noteq> []"
    "desired = map (\<lambda>(p, key, r). \<lparr>dp_pool = p, dp_key = key, dp_targets = distribute r nodes\<rparr>) wanted"
  shows "distinct (map spec_key (node_specs desired node))
    \<and> spec_key ` set (node_specs desired node) = (fst \<circ> snd) ` set wanted
    \<and> (\<Sum>n\<leftarrow>nodes. \<Sum>s\<leftarrow>filter (\<lambda>s. spec_key s = k) (node_specs desired (nv_name n)). ps_Warm s)
        = (\<Sum>(p, key, r)\<leftarrow>filter (\<lambda>(p, key, r). key = k) wanted. max r 0)"
proof -
  have keys: "dp_key ` set desired = (fst \<circ> snd) ` set wanted" by (force simp: assms(3))
  have specs: "spec_key ` set (node_specs desired node) = dp_key ` set desired"
  proof
    show "dp_key ` set desired \<subseteq> spec_key ` set (node_specs desired node)"
    proof
      fix k assume "k \<in> dp_key ` set desired"
      then have "pool_spec (k, key_target desired k node) \<in> set (node_specs desired node)" by (simp add: set_node_specs)
      then show "k \<in> spec_key ` set (node_specs desired node)" by (metis fst_conv image_eqI pool_spec_inverse(1))
    qed
  qed (auto simp: set_node_specs)
  have one: "(\<Sum>s\<leftarrow>filter (\<lambda>s. spec_key s = k) (node_specs desired m). ps_Warm s) = key_target desired k m" for m
  proof (cases "k \<in> dp_key ` set desired")
    case True
    then have "pool_spec (k, key_target desired k m) \<in> set (node_specs desired m)" by (simp add: set_node_specs)
    then have "filter (\<lambda>s. spec_key s = k) (node_specs desired m) = [pool_spec (k, key_target desired k m)]"
      using filter_unique_key [OF distinct_node_specs [of desired m]] by fastforce
    then show ?thesis by simp
  next
    case False
    then have "filter (\<lambda>s. spec_key s = k) (node_specs desired m) = []" by (auto simp: filter_empty_conv set_node_specs)
    moreover have "filter (\<lambda>dp. dp_key dp = k) desired = []" using False by (auto simp: filter_empty_conv)
    ultimately show ?thesis by (simp add: key_target_def)
  qed
  have "(\<Sum>n\<leftarrow>nodes. key_target desired k (nv_name n)) = sum_target desired k"
    using assms distribute_names by (intro key_target_fleet) (auto simp: split_def)
  also have "\<dots> = (\<Sum>(p, key, r)\<leftarrow>filter (\<lambda>(p, key, r). key = k) wanted. max r 0)"
    unfolding assms(3) sum_target_def
    by (simp add: filter_map o_def split_def poolTarget_def distribute_sum [OF assms(1,2)])
  finally show ?thesis using keys specs distinct_node_specs by (simp add: one)
qed

section \<open>Conservation of the warm\<close>

lemma top_up_wanted: "top_up True fleet out given = (if given < fleet then (out + 1, given + 1) else (out, given))"
  by (simp add: top_up.simps)

lemma top_up_rest: "top_up False fleet out given = (out + max 0 (fleet - given), max given fleet)"
proof (induction "nat (fleet - given)" arbitrary: out given)
  case 0
  then show ?case by (subst top_up.simps) auto
next
  case (Suc n)
  then have "top_up False fleet (out + 1) (given + 1) = (out + 1 + max 0 (fleet - (given + 1)), max (given + 1) fleet)" by simp
  then show ?case using Suc(2) by (subst top_up.simps) auto
qed

lemma top_up_sum: "top_up wanted fleet out given = (out', given') \<Longrightarrow> out' - out = given' - given"
  by (cases wanted) (auto simp: top_up_wanted top_up_rest split: if_splits)

text \<open>What \<open>hand_out\<close> gives to one key, and how far it raises what that key was given.\<close>

fun raised :: "(PoolKey \<Rightarrow> int) \<Rightarrow> (PoolKey \<Rightarrow> int) \<Rightarrow> PoolKey \<Rightarrow> int \<Rightarrow> nat \<Rightarrow> int" where
  "raised fleet wanted k g 0 = g"
| "raised fleet wanted k g (Suc n) = raised fleet wanted k (snd (top_up (wanted k > 0) (fleet k) 0 g)) n"

definition key_sum :: "PoolKey \<Rightarrow> desiredPool list \<Rightarrow> int list \<Rightarrow> int" where
  "key_sum k dps outs = (\<Sum>(dp, out)\<leftarrow>filter (\<lambda>(dp, out). dp_key dp = k) (zip dps outs). out)"

lemma top_up_snd: "snd (top_up wanted fleet out given) = snd (top_up wanted fleet 0 given)"
  by (cases wanted) (simp_all add: top_up_wanted top_up_rest)

lemma hand_out_key:
  "length outs = length dps \<Longrightarrow> key_sum k dps (hand_out fleet wanted given (zip dps outs))
     = key_sum k dps outs + (raised fleet wanted k (given k) (length (filter (\<lambda>dp. dp_key dp = k) dps)) - given k)"
proof (induction outs dps arbitrary: given rule: list_induct2)
  case (Cons out outs dp dps)
  obtain out' given' where t: "top_up (wanted (dp_key dp) > 0) (fleet (dp_key dp)) out (given (dp_key dp)) = (out', given')" by fastforce
  have "given' = snd (top_up (wanted (dp_key dp) > 0) (fleet (dp_key dp)) 0 (given (dp_key dp)))"
    using top_up_snd t by (metis snd_conv)
  moreover have "(given(dp_key dp := given')) k = (if k = dp_key dp then given' else given k)" by simp
  moreover note Cons.IH [of "given(dp_key dp := given')"]
  ultimately show ?case using t top_up_sum [OF t] by (auto simp: key_sum_def simp del: fun_upd_apply)
qed (simp add: key_sum_def)

lemma raised_wanted: "wanted k > 0 \<Longrightarrow> g \<le> fleet k \<Longrightarrow> fleet k - g \<le> int n \<Longrightarrow> raised fleet wanted k g n = fleet k"
proof (induction n arbitrary: g)
  case (Suc n)
  then show ?case by (cases "g < fleet k") (auto simp: top_up_wanted)
qed simp

lemma raised_rest: "\<not> wanted k > 0 \<Longrightarrow> g \<le> fleet k \<Longrightarrow> 0 < n \<Longrightarrow> raised fleet wanted k g n = fleet k"
proof (induction n arbitrary: g)
  case (Suc n)
  then show ?case by (cases n) (auto simp: top_up_rest)
qed simp

lemma floor_sums:
  assumes "(0 :: int) < T"
  shows "sum_list (map (\<lambda>a. a div T) as) * T \<le> sum_list as"
    and "sum_list as \<le> sum_list (map (\<lambda>a. a div T) as) * T + int (length as) * (T - 1)"
proof (induction as)
  case (Cons a as)
  have "a div T * T \<le> a" "a \<le> a div T * T + (T - 1)"
    using div_mult_mod_eq [of a T] pos_mod_sign [OF assms, of a] pos_mod_bound [OF assms, of a] by linarith+
  case 1
  show ?case using Cons(1) \<open>a div T * T \<le> a\<close> by (simp add: algebra_simps)
  case 2
  show ?case using Cons(2) \<open>a \<le> a div T * T + (T - 1)\<close> by (simp add: algebra_simps)
qed simp_all

text \<open>The rounded shares of a wanted key stay below its warm by less than one per pool.\<close>

lemma shares_floor:
  fixes F :: int
  assumes T: "T = sum_list ts" "0 < T" and ts: "\<forall>t\<in>set ts. 0 \<le> t" and F: "0 \<le> F"
  shows "sum_list (map (\<lambda>t. F * t div T) ts) \<le> F" and "F - sum_list (map (\<lambda>t. F * t div T) ts) \<le> int (length ts)"
proof -
  let ?S = "sum_list (map (\<lambda>t. F * t div T) ts)"
  have FT: "sum_list (map (\<lambda>t. F * t) ts) = F * T" unfolding T(1) by (simp add: sum_list_const_mult)
  have "?S * T \<le> F * T" and "F * T \<le> ?S * T + int (length ts) * (T - 1)"
    using floor_sums [OF T(2), of "map (\<lambda>t. F * t) ts"] FT by (simp_all add: o_def)
  then show "?S \<le> F" using T(2) by (simp add: mult_le_cancel_right)
  have "(F - ?S) * T \<le> int (length ts) * T"
    using \<open>F * T \<le> _\<close> T(2) by (simp add: algebra_simps)
  then show "F - ?S \<le> int (length ts)" using T(2) by (simp add: mult_le_cancel_right)
qed

lemma key_sum_map: "key_sum k dps (map f dps) = sum_list (map f (filter (\<lambda>dp. dp_key dp = k) dps))"
  by (induction dps) (auto simp: key_sum_def)

text \<open>
  C33. The status writes conserve the warm: for every pool key, the shares reported for the pools that
  resolve to it add up to the warm sandboxes the nodes hold of that key, nothing lost to rounding and
  nothing counted twice, also when no pool wants any.
\<close>

theorem apportion_conserves:
  assumes k: "k \<in> dp_key ` set desired"
    and pos: "\<forall>dp\<in>set desired. 0 \<le> poolTarget dp" "0 \<le> fleet_warm nodes k"
    and fits: "\<forall>dp\<in>set desired. fleet_warm nodes k * poolTarget dp < 2 ^ 63"
  shows "(\<Sum>(dp, out)\<leftarrow>filter (\<lambda>(dp, out). dp_key dp = k) (zip desired (apportionWarm desired nodes)). out) = fleet_warm nodes k"
proof -
  define dps where "dps = filter (\<lambda>dp. dp_key dp = k) desired"
  define g where "g = sum_list (map (share desired nodes) dps)"
  let ?F = "fleet_warm nodes k" and ?T = "sum_target desired k"
  have T: "?T = sum_list (map poolTarget dps)" by (simp add: sum_target_def dps_def)
  have ne: "0 < length dps" using k by (auto simp: dps_def filter_empty_conv)
  have "raised (fleet_warm nodes) (sum_target desired) k g (length dps) = ?F"
  proof (cases "?T > 0")
    case True
    have sh: "share desired nodes dp = ?F * poolTarget dp div ?T" if "dp \<in> set dps" for dp
    proof -
      have dp: "dp \<in> set desired" "dp_key dp = k" using that by (auto simp: dps_def)
      then have nn: "0 \<le> ?F * poolTarget dp" using pos by simp
      then have "wrap64 (?F * poolTarget dp) = ?F * poolTarget dp" using fits dp by (intro wrap64_id) auto
      then show ?thesis using True dp nn by (simp add: share_def go_quot_nonneg)
    qed
    then have "g = sum_list (map (\<lambda>t. ?F * t div ?T) (map poolTarget dps))"
      unfolding g_def by (simp add: o_def cong: map_cong)
    then show ?thesis
      using shares_floor [OF T True _ pos(2)] pos(1) True by (intro raised_wanted) (auto simp: dps_def)
  next
    case False
    then have "map (share desired nodes) dps = map (\<lambda>dp. 0) dps" by (simp add: share_def dps_def)
    then have "g = 0" unfolding g_def by (simp only: sum_list_0)
    then show ?thesis using False ne pos(2) by (intro raised_rest) auto
  qed
  moreover have "key_sum k desired (apportionWarm desired nodes)
      = key_sum k desired (map (share desired nodes) desired) + (raised (fleet_warm nodes) (sum_target desired) k g (length dps) - g)"
    by (simp add: apportionWarm_def Let_def hand_out_key g_def dps_def)
  ultimately show ?thesis by (simp add: key_sum_map key_sum_def [symmetric] g_def dps_def)
qed

section \<open>A concrete fleet\<close>

definition demo_nodes :: "nodeView list" where
  "demo_nodes = map (\<lambda>(n, warm). \<lparr>nv_name = n, nv_addr = n, nv_warmBy = warmByKey
     [\<lparr>pc_Template = ''img'', pc_Net = ''none'', pc_Size = ''small'', pc_Warm = warm, pc_Target = 0\<rparr>]\<rparr>)
     [(''n1'', 3), (''n2'', 2), (''n3'', 2)]"

definition demo_img :: PoolKey where
  "demo_img = \<lparr>pk_Template = ''img'', pk_Net = ''none'', pk_Size = ''small''\<rparr>"

definition demo_warm_pool :: "string \<Rightarrow> SandboxWarmPool" where
  "demo_warm_pool name = \<lparr>wp_Namespace = ''ns'', wp_Name = name, wp_TemplateRef = ''t'', wp_Replicas = None, wp_StatusReplicas = 0,
     wp_StatusReadyReplicas = 0, wp_StatusSelector = []\<rparr>"

definition demo_desired :: "desiredPool list" where
  "demo_desired = map (\<lambda>(p, key, r). \<lparr>dp_pool = p, dp_key = key, dp_targets = distribute r demo_nodes\<rparr>)
     [(demo_warm_pool ''p'', demo_img, 4), (demo_warm_pool ''q'', demo_img, 7)]"

lemma demo_nodes_ok: "distinct (map nv_name demo_nodes)" "demo_nodes \<noteq> []"
  by (simp_all add: demo_nodes_def)

theorem distribute_fair_witness:
  "sum_list (map snd (distribute 7 demo_nodes)) = max 7 0 \<and> map fst (distribute 7 demo_nodes) = map nv_name demo_nodes"
  using distribute_fair [OF demo_nodes_ok] by blast

theorem put_targets_conserved_witness:
  "distinct (map spec_key (node_specs demo_desired ''n2''))
   \<and> (\<Sum>n\<leftarrow>demo_nodes. \<Sum>s\<leftarrow>filter (\<lambda>s. spec_key s = demo_img) (node_specs demo_desired (nv_name n)). ps_Warm s) = 11"
  using put_targets_conserved [OF demo_nodes_ok demo_desired_def, of "''n2''" demo_img] by simp

theorem apportion_conserves_witness:
  "(\<Sum>(dp, out)\<leftarrow>filter (\<lambda>(dp, out). dp_key dp = demo_img) (zip demo_desired (apportionWarm demo_desired demo_nodes)). out)
     = fleet_warm demo_nodes demo_img"
proof -
  have k: "demo_img \<in> dp_key ` set demo_desired" by (simp add: demo_desired_def)
  have t: "\<forall>dp\<in>set demo_desired. 0 \<le> poolTarget dp"
    using distribute_sum [OF demo_nodes_ok] by (simp add: demo_desired_def poolTarget_def)
  have f: "fleet_warm demo_nodes demo_img = 7" by code_simp
  have b: "\<forall>dp\<in>set demo_desired. fleet_warm demo_nodes demo_img * poolTarget dp < 2 ^ 63"
    unfolding f using distribute_sum [OF demo_nodes_ok] by (simp add: demo_desired_def poolTarget_def)
  show ?thesis by (rule apportion_conserves [OF k t _ b]) (simp add: f)
qed

end
