(* ===== verification/API_Group.thy ===== *)
theory API_Group
  imports Sandbox_REST
begin

text \<open>
  The aggregated API group as it is installed (pkg/scale/apiserver: scheme.go, openapi.go, apiserver.go and the
  dispatch of lifecycle\_storage.go). The objects of the group are a datatype, so that a body of the wrong Go type is a
  value the storages have to refuse. A scheme is the list of what was registered, in its order: the first kind of a Go
  type is the one it answers with. What the API machinery and the upstream types register, and the installation
  itself, are parameters.
\<close>

section \<open>Objects and kinds\<close>

datatype runtime_object =
    ObjSandbox Sandbox | ObjSandboxList "Sandbox list"
  | ObjPauseOptions | ObjResumeOptions | ObjForkOptions int int | ObjForkResult "ForkedSandbox list"
  | ObjSnapshotOptions string | ObjSnapshotResult SandboxSnapshotResult

record GroupVersion =
  gv_Group :: string
  gv_Version :: string

record GroupVersionKind =
  gk_GV :: GroupVersion
  gk_Kind :: string

text \<open>A Go type by its package and its name; the kind registered for a type is its name.\<close>

type_synonym gotype = "string \<times> string"

definition upstream_pkg :: string where "upstream_pkg = ''sigs.k8s.io/agent-sandbox/api/v1beta1''"
definition cocoon_pkg :: string where "cocoon_pkg = ''github.com/cocoonstack/sandbox-operator/api/v1beta1''"

definition sandbox_types :: "gotype list" where
  "sandbox_types = map (Pair upstream_pkg) [''Sandbox'', ''SandboxList'']"

definition lifecycle_types :: "gotype list" where
  "lifecycle_types = map (Pair cocoon_pkg)
     [''SandboxPauseOptions'', ''SandboxResumeOptions'', ''SandboxForkOptions'', ''SandboxForkResult'', ''SandboxSnapshotOptions'', ''SandboxSnapshotResult'']"

fun object_type :: "runtime_object \<Rightarrow> gotype" where
  "object_type (ObjSandbox sb) = (upstream_pkg, ''Sandbox'')"
| "object_type (ObjSandboxList items) = (upstream_pkg, ''SandboxList'')"
| "object_type ObjPauseOptions = (cocoon_pkg, ''SandboxPauseOptions'')"
| "object_type ObjResumeOptions = (cocoon_pkg, ''SandboxResumeOptions'')"
| "object_type (ObjForkOptions count ttl) = (cocoon_pkg, ''SandboxForkOptions'')"
| "object_type (ObjForkResult children) = (cocoon_pkg, ''SandboxForkResult'')"
| "object_type (ObjSnapshotOptions name) = (cocoon_pkg, ''SandboxSnapshotOptions'')"
| "object_type (ObjSnapshotResult r) = (cocoon_pkg, ''SandboxSnapshotResult'')"

lemma object_type_known: "object_type obj \<in> set (sandbox_types @ lifecycle_types)"
  by (cases obj) (simp_all add: sandbox_types_def lifecycle_types_def)

section \<open>The scheme\<close>

type_synonym scheme = "(gotype \<times> GroupVersionKind) list"

definition kind_in :: "GroupVersion \<Rightarrow> gotype \<Rightarrow> GroupVersionKind" where
  "kind_in gv t = \<lparr>gk_GV = gv, gk_Kind = snd t\<rparr>"

text \<open>\<^verbatim>\<open>Scheme.AddKnownTypes\<close>: a registration that is there already is not repeated.\<close>

definition AddKnownTypes :: "GroupVersion \<Rightarrow> gotype list \<Rightarrow> scheme \<Rightarrow> scheme" where
  "AddKnownTypes gv ts s = foldl (\<lambda>s t. if (t, kind_in gv t) \<in> set s then s else s @ [(t, kind_in gv t)]) s ts"

definition ObjectKinds :: "scheme \<Rightarrow> runtime_object \<Rightarrow> GroupVersionKind list" where
  "ObjectKinds s obj = map snd (filter (\<lambda>(t, k). t = object_type obj) s)"

text \<open>
  What the group takes from the API machinery: the upstream group version and the version called internal, the upstream
  types' registration, the meta types', and the version priority.
\<close>

record api_machinery =
  am_GroupVersion :: GroupVersion
  am_Internal :: string
  am_AddToScheme :: "scheme \<Rightarrow> err + scheme"
  am_AddMeta :: "GroupVersion \<Rightarrow> scheme \<Rightarrow> scheme"
  am_SetVersionPriority :: "GroupVersion \<Rightarrow> scheme \<Rightarrow> err option"

definition AddLifecycleToScheme :: "api_machinery \<Rightarrow> scheme \<Rightarrow> scheme" where
  "AddLifecycleToScheme am s = AddKnownTypes (am_GroupVersion am) lifecycle_types s"

text \<open>\<^verbatim>\<open>Scheme\<close>; None is the panic of \<^verbatim>\<open>utilruntime.Must\<close> when the program starts.\<close>

definition api_Scheme :: "api_machinery \<Rightarrow> scheme option" where
  "api_Scheme am =
     (case am_AddToScheme am [] of
        Inl e \<Rightarrow> None
      | Inr s1 \<Rightarrow>
          (let s2 = AddLifecycleToScheme am s1;
               internalGV = \<lparr>gv_Group = gv_Group (am_GroupVersion am), gv_Version = am_Internal am\<rparr>;
               s3 = AddKnownTypes internalGV sandbox_types s2;
               s4 = AddKnownTypes internalGV lifecycle_types s3;
               s5 = am_AddMeta am (am_GroupVersion am) s4;
               s6 = am_AddMeta am \<lparr>gv_Group = [], gv_Version = ''v1''\<rparr> s5
           in case am_SetVersionPriority am (am_GroupVersion am) s6 of Some e \<Rightarrow> None | None \<Rightarrow> Some s6))"

section \<open>The storages\<close>

record 'w lifecycleREST =
  lr_newOptions :: runtime_object
  lr_verb :: "runtime_object \<Rightarrow> Sandbox \<Rightarrow> 'w scatterGatherStore \<Rightarrow> 'w \<Rightarrow> ('w, runtime_object) store_result"

text \<open>\<^verbatim>\<open>gvks[0]\<close> of the storage's own body; None is the panic of an unregistered type.\<close>

definition GroupVersionKind_of :: "scheme \<Rightarrow> 'w lifecycleREST \<Rightarrow> GroupVersionKind option" where
  "GroupVersionKind_of s r = (case ObjectKinds s (lr_newOptions r) of [] \<Rightarrow> None | k # ks \<Rightarrow> Some k)"

definition answer_with :: "('a \<Rightarrow> runtime_object) \<Rightarrow> ('w, 'a) store_result \<Rightarrow> ('w, runtime_object) store_result" where
  "answer_with obj r = (case fst r of Inl e \<Rightarrow> Inl e | Inr a \<Rightarrow> Inr (obj a), snd r)"

definition wrong_type :: "string \<Rightarrow> runtime_object \<Rightarrow> 'w scatterGatherStore \<Rightarrow> 'w \<Rightarrow> ('w, runtime_object) store_result" where
  "wrong_type want obj s w = (Inl (k8s_NewBadRequest (Msg (''expected '' @ want @ '', got %T'') [snd (object_type obj)])), s, w)"

definition NewSandboxPauseREST :: "'w lifecycleREST" where
  "NewSandboxPauseREST = \<lparr>lr_newOptions = ObjPauseOptions, lr_verb = (\<lambda>obj sb s w. answer_with (\<lambda>u. ObjPauseOptions) (pause_verb sb s w))\<rparr>"

definition NewSandboxResumeREST :: "'w lifecycleREST" where
  "NewSandboxResumeREST = \<lparr>lr_newOptions = ObjResumeOptions, lr_verb = (\<lambda>obj sb s w. answer_with (\<lambda>u. ObjResumeOptions) (resume_verb sb s w))\<rparr>"

definition NewSandboxForkREST :: "'w lifecycleREST" where
  "NewSandboxForkREST = \<lparr>lr_newOptions = ObjForkOptions 0 0, lr_verb = (\<lambda>obj sb s w.
     case obj of ObjForkOptions count ttl \<Rightarrow> answer_with ObjForkResult (fork_verb count ttl sb s w) | _ \<Rightarrow> wrong_type ''SandboxForkOptions'' obj s w)\<rparr>"

definition NewSandboxSnapshotREST :: "'w lifecycleREST" where
  "NewSandboxSnapshotREST = \<lparr>lr_newOptions = ObjSnapshotOptions [], lr_verb = (\<lambda>obj sb s w.
     case obj of ObjSnapshotOptions name \<Rightarrow> answer_with ObjSnapshotResult (snapshot_verb name sb s w) | _ \<Rightarrow> wrong_type ''SandboxSnapshotOptions'' obj s w)\<rparr>"

text \<open>The map \<^verbatim>\<open>InstallSandboxAPI\<close> hands to the server: the resource itself and its subresources.\<close>

datatype 'w storage = Sandboxes | Subresource "'w lifecycleREST"

definition sandbox_storages :: "(string \<times> 'w storage) list" where
  "sandbox_storages =
    [(''sandboxes'', Sandboxes),
     (''sandboxes/pause'', Subresource NewSandboxPauseREST),
     (''sandboxes/resume'', Subresource NewSandboxResumeREST),
     (''sandboxes/fork'', Subresource NewSandboxForkREST),
     (''sandboxes/snapshot'', Subresource NewSandboxSnapshotREST)]"

definition InstallSandboxAPI :: "(string list \<Rightarrow> err option) \<Rightarrow> err + (string \<times> 'w storage) list" where
  "InstallSandboxAPI install =
     (case install (map fst (sandbox_storages :: (string \<times> 'w storage) list)) of
        Some e \<Rightarrow> Inl (Wrap (Msg ''apiserver: install sandboxes API group: %w'' []) e)
      | None \<Rightarrow> Inr sandbox_storages)"

section \<open>Requests\<close>

text \<open>What reaches the storages: \<open>validate\<close> is the admission the server passes in, a name is empty where the resource itself is addressed.\<close>

datatype api_verb = VCreate runtime_object | VGet | VList "list_request option" | VDelete

record api_request =
  ar_resource :: string
  ar_namespace :: string
  ar_name :: string
  ar_verb :: api_verb
  ar_dryRun :: bool
  ar_validate :: "runtime_object \<Rightarrow> err option"

text \<open>\<^verbatim>\<open>sandboxREST.Create\<close> from the object it is given.\<close>

definition sandbox_Create :: "io \<Rightarrow> 'w scatterGatherStore \<Rightarrow> api_request \<Rightarrow> runtime_object \<Rightarrow> 'w \<Rightarrow> ('w, runtime_object) store_result" where
  "sandbox_Create env s r obj w =
     (if ar_dryRun r then (Inl (k8s_NewBadRequest dryRunUnsupported), s, w)
      else (case obj of
              ObjSandbox sb \<Rightarrow> answer_with ObjSandbox (rest_Create env s (ar_namespace r) sb (\<lambda>sb. ar_validate r (ObjSandbox sb)) (ar_dryRun r) w)
            | _ \<Rightarrow> wrong_type ''a Sandbox object'' obj s w))"

definition method_not_supported :: "'w scatterGatherStore \<Rightarrow> 'w \<Rightarrow> ('w, runtime_object) store_result" where
  "method_not_supported s w = (Inl (StatusError 405 (Msg ''method not supported'' [])), s, w)"

definition serve_group :: "selector_lib \<Rightarrow> io \<Rightarrow> (string \<times> 'w storage) list \<Rightarrow> 'w scatterGatherStore \<Rightarrow> api_request \<Rightarrow> 'w
   \<Rightarrow> ('w, runtime_object) store_result" where
  "serve_group lib env storages s r w =
     (case map_of storages (ar_resource r) of
        None \<Rightarrow> (Inl (k8s_NewNotFound (ar_resource r)), s, w)
      | Some Sandboxes \<Rightarrow>
          (case ar_verb r of
             VCreate obj \<Rightarrow> sandbox_Create env s r obj w
           | VGet \<Rightarrow> (case store_Get env s w (ar_namespace r) (ar_name r) of (g, s') \<Rightarrow> answer_with ObjSandbox (g, s', w))
           | VList o' \<Rightarrow> (case rest_List lib env s (ar_namespace r) o' w of (g, s') \<Rightarrow> answer_with ObjSandboxList (g, s', w))
           | VDelete \<Rightarrow> answer_with ObjSandbox (rest_Delete env s (ar_namespace r) (ar_name r) (\<lambda>sb. ar_validate r (ObjSandbox sb)) (ar_dryRun r) w))
      | Some (Subresource l) \<Rightarrow>
          (case ar_verb r of
             VCreate obj \<Rightarrow> lifecycle_Create env s (ar_namespace r) (ar_name r) (lr_verb l obj) (ar_validate r obj) (ar_dryRun r) w
           | _ \<Rightarrow> method_not_supported s w))"

section \<open>OpenAPI\<close>

text \<open>The part of a schema the definitions use; a reference is what the \<^verbatim>\<open>ReferenceCallback\<close> \<open>ref\<close> makes of a model's name.\<close>

datatype extension = GVKMarker GroupVersionKind | PreserveUnknown

datatype 'r schema = Schema (sc_Type: string) (sc_Extensions: "extension list") (sc_Properties: "(string \<times> 'r schema) list")
  (sc_Items: "'r schema option") (sc_Ref: "'r option")

record 'r OpenAPIDefinition =
  oa_Schema :: "'r schema"
  oa_Dependencies :: "string list"

definition sandboxDefPrefix :: string where "sandboxDefPrefix = upstream_pkg @ ''.''"

definition gvkExtension :: "GroupVersion \<Rightarrow> string \<Rightarrow> extension list" where
  "gvkExtension gv kind = [GVKMarker \<lparr>gk_GV = gv, gk_Kind = kind\<rparr>]"

definition stringSchema :: "'r schema" where
  "stringSchema = Schema ''string'' [] [] None None"

definition preserveUnknownObject :: "'r schema" where
  "preserveUnknownObject = Schema ''object'' [PreserveUnknown] [] None None"

definition sandboxOpenAPIDefinitions :: "GroupVersion \<Rightarrow> (string \<Rightarrow> 'r) \<Rightarrow> (string \<times> 'r OpenAPIDefinition) list" where
  "sandboxOpenAPIDefinitions gv ref =
     (let sandbox = \<lparr>oa_Schema = Schema ''object'' (gvkExtension gv ''Sandbox'')
             [(''kind'', stringSchema), (''apiVersion'', stringSchema), (''metadata'', preserveUnknownObject),
              (''spec'', preserveUnknownObject), (''status'', preserveUnknownObject)] None None, oa_Dependencies = []\<rparr>;
          items = Schema ''array'' [] [] (Some (Schema [] [] [] None (Some (ref (sandboxDefPrefix @ ''Sandbox''))))) None;
          list' = \<lparr>oa_Schema = Schema ''object'' (gvkExtension gv ''SandboxList'')
             [(''kind'', stringSchema), (''apiVersion'', stringSchema), (''metadata'', preserveUnknownObject), (''items'', items)] None None,
             oa_Dependencies = [sandboxDefPrefix @ ''Sandbox'']\<rparr>;
          typeMeta = \<lparr>oa_Schema = Schema ''object'' [] [(''kind'', stringSchema), (''apiVersion'', stringSchema)] None None, oa_Dependencies = []\<rparr>
      in [(sandboxDefPrefix @ ''Sandbox'', sandbox), (sandboxDefPrefix @ ''SandboxList'', list'),
          (''k8s.io/apimachinery/pkg/apis/meta/v1.TypeMeta'', typeMeta), (''io.k8s.apimachinery.pkg.apis.meta.v1.TypeMeta'', typeMeta)])"

fun schema_refs :: "'r schema \<Rightarrow> 'r list" where
  "schema_refs (Schema ty ex props items r) =
     concat (map (\<lambda>(k, p). schema_refs p) props) @ (case items of None \<Rightarrow> [] | Some i \<Rightarrow> schema_refs i) @ (case r of None \<Rightarrow> [] | Some x \<Rightarrow> [x])"

section \<open>The scheme's kinds\<close>

lemma AddKnownTypes_sub: "set s \<subseteq> set (AddKnownTypes gv ts s)"
  unfolding AddKnownTypes_def by (induction ts arbitrary: s) (auto, (force split: if_splits)+)

lemma AddKnownTypes_known: "t \<in> set ts \<Longrightarrow> (t, kind_in gv t) \<in> set (AddKnownTypes gv ts s)"
proof (induction ts arbitrary: s)
  case (Cons x ts)
  let ?s = "if (x, kind_in gv x) \<in> set s then s else s @ [(x, kind_in gv x)]"
  have eq: "AddKnownTypes gv (x # ts) s = AddKnownTypes gv ts ?s" by (simp add: AddKnownTypes_def)
  have "(x, kind_in gv x) \<in> set ?s" by simp
  then show ?case unfolding eq using Cons AddKnownTypes_sub [of ?s gv ts] by auto
qed simp

text \<open>The kinds of a type in a scheme, in their order; a later registration never moves the first one.\<close>

definition kinds_of :: "scheme \<Rightarrow> gotype \<Rightarrow> GroupVersionKind list" where
  "kinds_of s t = map snd (filter (\<lambda>(u, k). u = t) s)"

lemma kinds_of_append [simp]: "kinds_of (s @ s') t = kinds_of s t @ kinds_of s' t"
  by (simp add: kinds_of_def)

lemma kinds_of_simps [simp]: "kinds_of [] t = []" "kinds_of ((u, k) # s) t = (if u = t then k # kinds_of s t else kinds_of s t)"
  by (simp_all add: kinds_of_def)

text \<open>The first kind of a type, when it has one.\<close>

definition first_kind :: "scheme \<Rightarrow> gotype \<Rightarrow> GroupVersionKind \<Rightarrow> bool" where
  "first_kind s t k \<longleftrightarrow> (\<exists>ks. kinds_of s t = k # ks)"

lemma first_kind_append [intro]: "first_kind s t k \<Longrightarrow> first_kind (s @ s') t k"
  by (auto simp: first_kind_def)

lemma ObjectKinds_kinds: "ObjectKinds s obj = kinds_of s (object_type obj)"
  by (simp add: ObjectKinds_def kinds_of_def)

lemma AddKnownTypes_extends: "\<exists>more. AddKnownTypes gv ts s = s @ more"
proof (induction ts arbitrary: s)
  case (Cons x ts)
  let ?s = "if (x, kind_in gv x) \<in> set s then s else s @ [(x, kind_in gv x)]"
  from Cons [of ?s] obtain more where "AddKnownTypes gv ts ?s = ?s @ more" by blast
  moreover have "AddKnownTypes gv (x # ts) s = AddKnownTypes gv ts ?s" by (simp add: AddKnownTypes_def)
  ultimately show ?case by (auto split: if_splits)
qed (simp add: AddKnownTypes_def)

lemma AddKnownTypes_first:
  assumes "kinds_of s t = []" "t \<in> set ts"
  shows "first_kind (AddKnownTypes gv ts s) t (kind_in gv t)"
  using assms
proof (induction ts arbitrary: s)
  case (Cons x ts)
  let ?s = "if (x, kind_in gv x) \<in> set s then s else s @ [(x, kind_in gv x)]"
  have eq: "AddKnownTypes gv (x # ts) s = AddKnownTypes gv ts ?s" by (simp add: AddKnownTypes_def)
  show ?case
  proof (cases "x = t")
    case True
    with Cons.prems(1) have "(x, kind_in gv x) \<notin> set s" by (auto simp: kinds_of_def filter_empty_conv)
    then have "first_kind ?s t (kind_in gv t)" using Cons.prems(1) True by (simp add: first_kind_def)
    then show ?thesis unfolding eq using AddKnownTypes_extends [of gv ts ?s] by (metis first_kind_append)
  next
    case False
    then have "kinds_of ?s t = []" using Cons.prems(1) by simp
    then show ?thesis unfolding eq using Cons False by simp
  qed
qed simp

text \<open>
  What the group relies on of the API machinery: the upstream registration succeeds, registers its own types
  and no others of this group, the meta registration only adds, and the priority names a registered version.
\<close>

definition machinery_ok :: "api_machinery \<Rightarrow> bool" where
  "machinery_ok am \<longleftrightarrow>
     (\<exists>s. am_AddToScheme am [] = Inr s \<and> (\<forall>t\<in>set lifecycle_types. kinds_of s t = []) \<and> (\<forall>t\<in>set sandbox_types. first_kind s t (kind_in (am_GroupVersion am) t)))
     \<and> (\<forall>gv s. \<exists>more. am_AddMeta am gv s = s @ more)
     \<and> (\<forall>s. am_SetVersionPriority am (am_GroupVersion am) s = None)"

lemma scheme_kinds:
  assumes "machinery_ok am"
  shows "\<exists>sch. api_Scheme am = Some sch \<and> (\<forall>t\<in>set (sandbox_types @ lifecycle_types). first_kind sch t (kind_in (am_GroupVersion am) t)
    \<and> (t, kind_in \<lparr>gv_Group = gv_Group (am_GroupVersion am), gv_Version = am_Internal am\<rparr> t) \<in> set sch)"
proof -
  let ?gv = "am_GroupVersion am" and ?int = "\<lparr>gv_Group = gv_Group (am_GroupVersion am), gv_Version = am_Internal am\<rparr>"
  obtain s1 where s1: "am_AddToScheme am [] = Inr s1" "\<forall>t\<in>set lifecycle_types. kinds_of s1 t = []"
      "\<forall>t\<in>set sandbox_types. first_kind s1 t (kind_in ?gv t)"
    using assms machinery_ok_def by auto
  define s2 where "s2 = AddLifecycleToScheme am s1"
  define s3 where "s3 = AddKnownTypes ?int sandbox_types s2"
  define s4 where "s4 = AddKnownTypes ?int lifecycle_types s3"
  define s6 where "s6 = am_AddMeta am \<lparr>gv_Group = [], gv_Version = ''v1''\<rparr> (am_AddMeta am ?gv s4)"
  have sch: "api_Scheme am = Some s6"
    using assms s1(1) by (simp add: api_Scheme_def Let_def machinery_ok_def s2_def s3_def s4_def s6_def)
  obtain m2 m3 m4 where ext: "s2 = s1 @ m2" "s3 = s2 @ m3" "s4 = s3 @ m4"
    using AddKnownTypes_extends unfolding s2_def s3_def s4_def AddLifecycleToScheme_def by metis
  obtain m6 where ext6: "s6 = s4 @ m6" using assms unfolding s6_def machinery_ok_def by (metis append_assoc)
  have "first_kind s6 t (kind_in ?gv t)" if "t \<in> set (sandbox_types @ lifecycle_types)" for t
  proof (cases "t \<in> set sandbox_types")
    case True
    then show ?thesis using s1(3) ext ext6 by auto
  next
    case False
    then have "t \<in> set lifecycle_types" using that by simp
    then have "first_kind s2 t (kind_in ?gv t)"
      unfolding s2_def AddLifecycleToScheme_def using s1(2) by (intro AddKnownTypes_first) auto
    then show ?thesis using ext(2,3) ext6 by (metis first_kind_append)
  qed
  moreover have "(t, kind_in ?int t) \<in> set s6" if "t \<in> set (sandbox_types @ lifecycle_types)" for t
  proof -
    have "(t, kind_in ?int t) \<in> set s4"
      using that AddKnownTypes_known [of t sandbox_types ?int s2] AddKnownTypes_known [of t lifecycle_types ?int s3] ext(3)
      unfolding s3_def s4_def by auto
    then show ?thesis using ext6 by simp
  qed
  ultimately show ?thesis using sch by blast
qed

section \<open>What a request does\<close>

text \<open>The Go type of what a request is answered with.\<close>

definition answer_type :: "api_request \<Rightarrow> gotype" where
  "answer_type r =
     (if ar_resource r = ''sandboxes'' then (upstream_pkg, case ar_verb r of VList o' \<Rightarrow> ''SandboxList'' | _ \<Rightarrow> ''Sandbox'')
      else (cocoon_pkg, if ar_resource r = ''sandboxes/pause'' then ''SandboxPauseOptions'' else if ar_resource r = ''sandboxes/resume'' then ''SandboxResumeOptions''
        else if ar_resource r = ''sandboxes/fork'' then ''SandboxForkResult'' else ''SandboxSnapshotResult''))"

text \<open>The one call of a node that a request on a sandbox stands for: whether it succeeded, and the world after it.\<close>

definition verb_outcome :: "(err + 'a) \<times> 'w \<Rightarrow> (bool \<times> 'w) option" where
  "verb_outcome x = Some (\<not> isl (fst x), snd x)"

definition asked_verb :: "api_request \<Rightarrow> Sandbox \<Rightarrow> 'w scatterGatherStore \<Rightarrow> 'w \<Rightarrow> (bool \<times> 'w) option" where
  "asked_verb r sb s w =
     (let node = sb_NodeName sb; cid = claimID sb
      in case ar_verb r of
           VDelete \<Rightarrow> if ar_resource r = ''sandboxes'' then verb_outcome (Release s node cid w) else None
         | VCreate obj \<Rightarrow>
             if ar_resource r = ''sandboxes/pause'' then verb_outcome (Pause s node cid w)
             else if ar_resource r = ''sandboxes/resume'' then verb_outcome (Resume s node cid w)
             else if ar_resource r = ''sandboxes/fork'' then
               (case obj of ObjForkOptions count ttl \<Rightarrow>
                  (case Fork s (sb_Namespace sb) node cid (cmp_OrI count 1) ttl w of (x, s', w') \<Rightarrow> verb_outcome (x, w')) | _ \<Rightarrow> None)
             else if ar_resource r = ''sandboxes/snapshot'' then
               (case obj of ObjSnapshotOptions name \<Rightarrow>
                  (case CheckpointName (sb_Namespace sb) name of Inl e \<Rightarrow> None | Inr ck \<Rightarrow> verb_outcome (store_Snapshot s node cid ck w)) | _ \<Rightarrow> None)
             else None
         | _ \<Rightarrow> None)"

lemma answer_with_Inr: "answer_with f x = (Inr out, s', w') \<longleftrightarrow> (\<exists>a. x = (Inr a, s', w') \<and> out = f a)"
  by (cases x) (auto simp: answer_with_def split: sum.splits)

lemma answer_with_isl: "answer_with f x = (res, s', w') \<Longrightarrow> \<exists>y. x = (y, s', w') \<and> isl res = isl y"
  by (cases x) (auto simp: answer_with_def split: sum.splits)

lemma lifecycle_acts:
  assumes "lifecycle_Create env s ns name verb invalid dry w = (res, s', w')"
  shows "isl res \<and> w' = w \<or> (\<exists>sb s1. store_Get env s w ns name = (Inr sb, s1) \<and> sb_NodeName sb \<noteq> [] \<and> claimID sb \<noteq> []
    \<and> \<not> dry \<and> verb sb s1 w = (res, s', w'))"
  using assms by (auto simp: lifecycle_Create_def split: if_splits option.splits prod.splits sum.splits)

lemma delete_acts:
  assumes "rest_Delete env s ns name validate dry w = (res, s', w')"
  shows "isl res \<and> w' = w \<or> (\<exists>sb s1. store_Get env s w ns name = (Inr sb, s1) \<and> sb_NodeName sb \<noteq> [] \<and> claimID sb \<noteq> []
    \<and> \<not> dry \<and> (\<exists>x. Release s1 (sb_NodeName sb) (claimID sb) w = (x, w') \<and> isl x = isl res))"
  using assms by (auto simp: rest_Delete_def claimID_def Let_def split: if_splits option.splits prod.splits sum.splits)

lemma storages_of: "map_of sandbox_storages res = Some st \<longleftrightarrow>
    res = ''sandboxes'' \<and> st = Sandboxes \<or> res = ''sandboxes/pause'' \<and> st = Subresource NewSandboxPauseREST
  \<or> res = ''sandboxes/resume'' \<and> st = Subresource NewSandboxResumeREST \<or> res = ''sandboxes/fork'' \<and> st = Subresource NewSandboxForkREST
  \<or> res = ''sandboxes/snapshot'' \<and> st = Subresource NewSandboxSnapshotREST"
  by (auto simp: sandbox_storages_def)

lemmas verb_defs = NewSandboxPauseREST_def NewSandboxResumeREST_def NewSandboxForkREST_def NewSandboxSnapshotREST_def
  wrong_type_def pause_verb_def resume_verb_def fork_verb_def snapshot_verb_def verb_result_def

text \<open>A subresource's verb either calls the node exactly once, or refuses and leaves everything as it is.\<close>

lemma subresource_verb:
  assumes "map_of sandbox_storages (ar_resource r) = Some (Subresource l)" "ar_verb r = VCreate obj" "lr_verb l obj sb s w = (res, s', w')"
  shows "isl res \<and> w' = w \<or> (\<exists>ok. asked_verb r sb s w = Some (ok, w') \<and> isl res = (\<not> ok))"
  using assms unfolding storages_of
  by (elim disjE conjE; cases obj) (auto simp: asked_verb_def verb_outcome_def verb_defs answer_with_def Let_def split: prod.splits sum.splits if_splits)

lemma subresource_answer:
  assumes "map_of sandbox_storages (ar_resource r) = Some (Subresource l)" "lr_verb l obj sb s w = (Inr out, s', w')"
  shows "object_type out = answer_type r"
  using assms unfolding storages_of
  by (elim disjE conjE; cases obj) (auto simp: answer_type_def verb_defs answer_with_Inr Let_def split: prod.splits sum.splits if_splits)

lemma group_answer:
  assumes "serve_group lib env sandbox_storages s r w = (Inr out, s', w')"
  shows "object_type out = answer_type r"
proof (cases "map_of sandbox_storages (ar_resource r) :: 'a storage option")
  case None
  then show ?thesis using assms by (simp add: serve_group_def)
next
  case (Some st)
  show ?thesis
  proof (cases st)
    case Sandboxes
    with Some have "ar_resource r = ''sandboxes''" unfolding storages_of by auto
    then show ?thesis using assms Some Sandboxes
      by (auto simp: serve_group_def sandbox_Create_def wrong_type_def answer_with_Inr answer_type_def
          split: api_verb.splits runtime_object.splits if_splits prod.splits sum.splits)
  next
    case (Subresource l)
    then obtain obj where obj: "ar_verb r = VCreate obj"
      and run: "lifecycle_Create env s (ar_namespace r) (ar_name r) (lr_verb l obj) (ar_validate r obj) (ar_dryRun r) w = (Inr out, s', w')"
      using assms Some by (auto simp: serve_group_def method_not_supported_def split: api_verb.splits)
    then show ?thesis using lifecycle_acts [OF run] subresource_answer Some Subresource by fastforce
  qed
qed

section \<open>Properties\<close>

text \<open>
  The installed group is well typed: with the API machinery as documented the scheme is built without a panic, every
  subresource's body has its kind under the served version first, never the internal one, so that asking a storage
  for its kind never panics either, and whatever a request is answered with has the type of its resource
  and verb, registered under the served and under the internal version.
\<close>

theorem api_group_typed:
  assumes "machinery_ok am"
  shows "\<exists>sch. api_Scheme am = Some sch
    \<and> (\<forall>(res, st)\<in>set (sandbox_storages :: (string \<times> 'w storage) list). case st of Sandboxes \<Rightarrow> True
         | Subresource l \<Rightarrow> GroupVersionKind_of sch l = Some (kind_in (am_GroupVersion am) (object_type (lr_newOptions l))))
    \<and> (\<forall>lib env (s :: 'w scatterGatherStore) r w obj s' w'. serve_group lib env sandbox_storages s r w = (Inr obj, s', w') \<longrightarrow>
         object_type obj = answer_type r
         \<and> hd (ObjectKinds sch obj) = kind_in (am_GroupVersion am) (answer_type r)
         \<and> kind_in \<lparr>gv_Group = gv_Group (am_GroupVersion am), gv_Version = am_Internal am\<rparr> (answer_type r) \<in> set (ObjectKinds sch obj))"
proof -
  obtain sch where sch: "api_Scheme am = Some sch"
    and kinds: "\<And>t. t \<in> set (sandbox_types @ lifecycle_types) \<Longrightarrow> first_kind sch t (kind_in (am_GroupVersion am) t)
      \<and> (t, kind_in \<lparr>gv_Group = gv_Group (am_GroupVersion am), gv_Version = am_Internal am\<rparr> t) \<in> set sch"
    using scheme_kinds [OF assms] by blast
  have first: "\<exists>ks. ObjectKinds sch obj = kind_in (am_GroupVersion am) (object_type obj) # ks" for obj
    using kinds [OF object_type_known] by (simp add: first_kind_def ObjectKinds_kinds)
  have int: "kind_in \<lparr>gv_Group = gv_Group (am_GroupVersion am), gv_Version = am_Internal am\<rparr> (object_type obj) \<in> set (ObjectKinds sch obj)" for obj
    using kinds [OF object_type_known, of obj] by (force simp: ObjectKinds_def)
  have "GroupVersionKind_of sch l = Some (kind_in (am_GroupVersion am) (object_type (lr_newOptions l)))" for l :: "'w lifecycleREST"
    using first [of "lr_newOptions l"] by (auto simp: GroupVersionKind_of_def)
  moreover have "object_type obj = answer_type r \<and> hd (ObjectKinds sch obj) = kind_in (am_GroupVersion am) (answer_type r)
      \<and> kind_in \<lparr>gv_Group = gv_Group (am_GroupVersion am), gv_Version = am_Internal am\<rparr> (answer_type r) \<in> set (ObjectKinds sch obj)"
    if "serve_group lib env sandbox_storages s r w = (Inr obj, s', w')" for lib env and s :: "'w scatterGatherStore" and r w obj s' w'
    using group_answer [OF that] first [of obj] int [of obj] by auto
  ultimately show ?thesis using sch by (intro exI [of _ sch]) (auto split: storage.splits)
qed

text \<open>
  C35. Creates aside, the group acts on what was asked for and on nothing else. A read changes no node. A delete or a lifecycle verb
  either fails and leaves every node as it was, or calls one node once: the node and the claim id are those of the
  object the store returned for the asked namespace and name, the call is the one its resource stands for, and
  the request succeeds exactly when that call did. A dry run never reaches a node.
\<close>

theorem group_acts_on_found:
  assumes "serve_group lib env sandbox_storages s r w = (res, s', w')"
    and "\<nexists>obj. ar_resource r = ''sandboxes'' \<and> ar_verb r = VCreate obj"
  shows "if ar_resource r = ''sandboxes'' \<and> ar_verb r \<noteq> VDelete then w' = w
    else isl res \<and> w' = w
      \<or> (\<exists>sb s1 ok. store_Get env s w (ar_namespace r) (ar_name r) = (Inr sb, s1) \<and> sb_Namespace sb = ar_namespace r \<and> sb_Name sb = ar_name r
           \<and> sb_NodeName sb \<noteq> [] \<and> claimID sb \<noteq> [] \<and> \<not> ar_dryRun r \<and> asked_verb r sb s1 w = Some (ok, w') \<and> isl res = (\<not> ok))"
proof (cases "ar_resource r = ''sandboxes'' \<and> ar_verb r \<noteq> VDelete")
  case True
  then show ?thesis using assms
    by (cases "ar_verb r") (auto simp: serve_group_def sandbox_storages_def split: prod.splits dest!: answer_with_isl)
next
  case False
  have named: "sb_Namespace sb = ar_namespace r \<and> sb_Name sb = ar_name r" if "store_Get env s w (ar_namespace r) (ar_name r) = (Inr sb, s1)" for sb s1
    using get_sound_lemma [of "io_marshal env" "io_sched env" "io_sched' env" s w "ar_namespace r" "ar_name r" sb] that by (simp add: store_Get_def)
  show ?thesis
  proof (cases "ar_resource r = ''sandboxes''")
    case True
    then obtain x where "rest_Delete env s (ar_namespace r) (ar_name r) (\<lambda>sb. ar_validate r (ObjSandbox sb)) (ar_dryRun r) w = (x, s', w')"
      and x: "isl res = isl x"
      using assms(1) False by (auto simp: serve_group_def sandbox_storages_def dest!: answer_with_isl)
    from delete_acts [OF this(1)] show ?thesis using True False x named by (auto simp: asked_verb_def verb_outcome_def Let_def)
  next
    case sub: False
    show ?thesis
    proof (cases "\<exists>l obj. map_of sandbox_storages (ar_resource r) = Some (Subresource l :: 'a storage) \<and> ar_verb r = VCreate obj")
      case True
      then obtain l :: "'a lifecycleREST" and obj where l: "map_of sandbox_storages (ar_resource r) = Some (Subresource l)" "ar_verb r = VCreate obj" by blast
      then have "lifecycle_Create env s (ar_namespace r) (ar_name r) (lr_verb l obj) (ar_validate r obj) (ar_dryRun r) w = (res, s', w')"
        using assms(1) by (simp add: serve_group_def)
      from lifecycle_acts [OF this] show ?thesis
      proof
        assume "\<exists>sb s1. store_Get env s w (ar_namespace r) (ar_name r) = (Inr sb, s1) \<and> sb_NodeName sb \<noteq> [] \<and> claimID sb \<noteq> []
            \<and> \<not> ar_dryRun r \<and> lr_verb l obj sb s1 w = (res, s', w')"
        then obtain sb s1 where sb: "store_Get env s w (ar_namespace r) (ar_name r) = (Inr sb, s1)" "sb_NodeName sb \<noteq> []" "claimID sb \<noteq> []"
          "\<not> ar_dryRun r" and verb: "lr_verb l obj sb s1 w = (res, s', w')" by blast
        show ?thesis using subresource_verb [OF l verb] sb named [OF sb(1)] sub by auto
      qed (simp add: sub)
    next
      case False
      then show ?thesis using assms(1) sub storages_of [of "ar_resource r" "Sandboxes :: 'a storage"]
        by (auto simp: serve_group_def method_not_supported_def split: option.splits storage.splits api_verb.splits)
    qed
  qed
qed

text \<open>Every model an OpenAPI definition refers to or depends on is one of the definitions, and the two kinds the group
  creates and lists carry the marker of their own kind.\<close>

theorem openapi_closed:
  "(name, d) \<in> set (sandboxOpenAPIDefinitions gv ref) \<Longrightarrow>
     set (schema_refs (oa_Schema d)) \<subseteq> ref ` fst ` set (sandboxOpenAPIDefinitions gv ref) \<and> set (oa_Dependencies d) \<subseteq> fst ` set (sandboxOpenAPIDefinitions gv ref)"
  "t \<in> set sandbox_types \<Longrightarrow> \<exists>d. map_of (sandboxOpenAPIDefinitions gv ref) (fst t @ ''.'' @ snd t) = Some d \<and> GVKMarker (kind_in gv t) \<in> set (sc_Extensions (oa_Schema d))"
proof -
  let ?refs = "concat (map (\<lambda>(n, d). schema_refs (oa_Schema d)) (sandboxOpenAPIDefinitions gv ref))"
  have refs: "?refs = [ref (sandboxDefPrefix @ ''Sandbox'')]"
    by (simp add: sandboxOpenAPIDefinitions_def Let_def stringSchema_def preserveUnknownObject_def)
  have names: "sandboxDefPrefix @ ''Sandbox'' \<in> fst ` set (sandboxOpenAPIDefinitions gv ref)"
    by (simp add: sandboxOpenAPIDefinitions_def Let_def)
  assume "(name, d) \<in> set (sandboxOpenAPIDefinitions gv ref)"
  moreover from this have "set (schema_refs (oa_Schema d)) \<subseteq> set ?refs" by force
  moreover have "set (oa_Dependencies d) \<subseteq> {sandboxDefPrefix @ ''Sandbox''}"
    using calculation(1) by (auto simp: sandboxOpenAPIDefinitions_def Let_def)
  ultimately show "set (schema_refs (oa_Schema d)) \<subseteq> ref ` fst ` set (sandboxOpenAPIDefinitions gv ref) \<and> set (oa_Dependencies d) \<subseteq> fst ` set (sandboxOpenAPIDefinitions gv ref)"
    using refs names by auto
next
  assume "t \<in> set sandbox_types"
  then show "\<exists>d. map_of (sandboxOpenAPIDefinitions gv ref) (fst t @ ''.'' @ snd t) = Some d \<and> GVKMarker (kind_in gv t) \<in> set (sc_Extensions (oa_Schema d))"
    by (auto simp: sandbox_types_def sandboxOpenAPIDefinitions_def Let_def sandboxDefPrefix_def gvkExtension_def kind_in_def)
qed

section \<open>Witnesses\<close>

definition demo_machinery :: api_machinery where
  "demo_machinery = \<lparr>am_GroupVersion = \<lparr>gv_Group = ''agents.x-k8s.io'', gv_Version = ''v1beta1''\<rparr>, am_Internal = ''__internal'',
     am_AddToScheme = (\<lambda>s. Inr (AddKnownTypes \<lparr>gv_Group = ''agents.x-k8s.io'', gv_Version = ''v1beta1''\<rparr> sandbox_types s)),
     am_AddMeta = (\<lambda>gv s. s @ [((''k8s.io/apimachinery/pkg/apis/meta/v1'', ''ListOptions''), \<lparr>gk_GV = gv, gk_Kind = ''ListOptions''\<rparr>)]),
     am_SetVersionPriority = (\<lambda>gv s. None)\<rparr>"

lemma demo_machinery_ok: "machinery_ok demo_machinery"
  unfolding machinery_ok_def first_kind_def demo_machinery_def
  by (simp add: AddKnownTypes_def sandbox_types_def lifecycle_types_def kind_in_def upstream_pkg_def cocoon_pkg_def)

theorem api_group_typed_witness:
  "\<exists>sch. api_Scheme demo_machinery = Some sch \<and> GroupVersionKind_of sch (NewSandboxForkREST :: unit lifecycleREST)
     = Some \<lparr>gk_GV = \<lparr>gv_Group = ''agents.x-k8s.io'', gv_Version = ''v1beta1''\<rparr>, gk_Kind = ''SandboxForkOptions''\<rparr>"
  using api_group_typed [OF demo_machinery_ok, where 'w = unit]
  by (auto simp: sandbox_storages_def NewSandboxForkREST_def kind_in_def demo_machinery_def)

definition demo_sleep :: "'w SandboxdClient \<Rightarrow> 'w SandboxdClient" where
  "demo_sleep cl = cl\<lparr>cl_Hibernate := (\<lambda>i w. (Inr (), w))\<rparr>"

definition demo_pause :: api_request where
  "demo_pause = \<lparr>ar_resource = ''sandboxes/pause'', ar_namespace = ''ns'', ar_name = ''a'', ar_verb = VCreate ObjPauseOptions, ar_dryRun = False,
     ar_validate = (\<lambda>obj. None)\<rparr>"

definition no_selectors :: selector_lib where
  "no_selectors = \<lparr>lib_Labels = Inl, lib_Fields = Inl\<rparr>"

theorem group_acts_on_found_witness:
  "\<exists>sb s1. store_Get demo_io (demo_api demo_sleep) read_fleet ''ns'' ''a'' = (Inr sb, s1) \<and> claimID sb = ''c2''
     \<and> asked_verb demo_pause sb s1 read_fleet = Some (True, read_fleet)
     \<and> fst (serve_group no_selectors demo_io sandbox_storages (demo_api demo_sleep) demo_pause read_fleet) = Inr ObjPauseOptions"
proof -
  let ?s = "(demo_api demo_sleep)\<lparr>sg_index := index_remember (nameKey ''ns'' ''a'') ''n1'' (newNodeIndex nodeIndexMaxEntries)\<rparr>"
  have run: "serve_group no_selectors demo_io sandbox_storages (demo_api demo_sleep) demo_pause read_fleet = (Inr ObjPauseOptions, ?s, read_fleet)"
    by (simp add: serve_group_def demo_pause_def sandbox_storages_def NewSandboxPauseREST_def lifecycle_Create_def demo_api_get demo_claimID
        pause_verb_def verb_result_def Pause_def with_client_def demo_api_client demo_sleep_def answer_with_def)
  have "\<nexists>obj. ar_resource demo_pause = ''sandboxes'' \<and> ar_verb demo_pause = VCreate obj" by (simp add: demo_pause_def)
  from group_acts_on_found [OF run this] run demo_claimID show ?thesis
    by (auto simp: demo_pause_def demo_api_get)
qed

end
