(* ===== verification/Data_Path.thy ===== *)
theory Data_Path
  imports Envd_Proxy E2B_Accounting
begin

text \<open>
  The data path of a sandbox across the two surfaces: the id, the token and the domain that the e2b surface publishes
  for a claim, and what the edge makes of a request built from them. Nothing here is code of its own: the theory
  states when a fleet holds a sandbox and shows that the edge then finds it, admits its token and forwards to it,
  whatever else it has served before.
\<close>

section \<open>A resolver over its sources\<close>

text \<open>What \<^verbatim>\<open>NewResolver\<close> sets up and no request changes: the claims are read from the inventory alone.\<close>

definition resolver_wf :: "'w storeResolver \<Rightarrow> bool" where
  "resolver_wf v \<longleftrightarrow> sg_src (rv_claims v) = rv_inventory v \<and> sg_factory (rv_claims v) = None"

definition same_sources :: "'w storeResolver \<Rightarrow> 'w storeResolver \<Rightarrow> bool" where
  "same_sources v v' \<longleftrightarrow> rv_inventory v' = rv_inventory v \<and> rv_lifecycle v' = rv_lifecycle v \<and> rv_namespace v' = rv_namespace v
     \<and> rv_secret v' = rv_secret v"

lemma same_sources_refl [simp]: "same_sources v v"
  by (simp add: same_sources_def)

lemma same_sources_trans: "same_sources u v \<Longrightarrow> same_sources v t \<Longrightarrow> same_sources u t"
  by (simp add: same_sources_def)

lemma same_sources_update [simp]: "same_sources v (v'\<lparr>rv_claims := st\<rparr>) = same_sources v v'" "same_sources v (v'\<lparr>rv_recent := m\<rparr>) = same_sources v v'"
  by (simp_all add: same_sources_def)

lemma resolve_keeps: "sg_src (snd (resolve ma sc sc' s w op key rows match)) = sg_src s \<and> sg_factory (snd (resolve ma sc sc' s w op key rows match)) = sg_factory s"
  by (auto simp: resolve_def Let_def split: prod.splits option.splits sum.splits)

lemma GetByClaimID_keeps: "sg_src (snd (GetByClaimID ma sc sc' s w ns cid match)) = sg_src s" "sg_factory (snd (GetByClaimID ma sc sc' s w ns cid match)) = sg_factory s"
  using resolve_keeps [of ma sc sc' s w "''claim-id get''" "claimKey ns cid" "rowByID cid" "claimMatch ns match"]
  by (simp_all add: GetByClaimID_def found_or_404_def)

lemma keep_owner_sources [simp]: "same_sources v (snd (keep_owner env sid ow adm v')) = same_sources v v'" "rv_claims (snd (keep_owner env sid ow adm v)) = rv_claims v"
  by (simp_all add: keep_owner_def Let_def)

lemma find_sources:
  "resolver_wf v \<Longrightarrow> resolver_wf (snd (resolver_find env w sid adm v)) \<and> same_sources v (snd (resolver_find env w sid adm v))"
proof -
  assume wf: "resolver_wf v"
  obtain got st where g: "GetByClaimID (ev_marshal env) (ev_sched env) (ev_sched env) (rv_claims v) w (rv_namespace v) (ClaimID sid)
      (\<lambda>cid. MatchesID (un_ToLower (ev_uni env)) cid sid) = (got, st)" by fastforce
  have st: "sg_src st = rv_inventory v" "sg_factory st = None"
    using wf GetByClaimID_keeps [of "ev_marshal env" "ev_sched env" "ev_sched env" "rv_claims v" w "rv_namespace v" "ClaimID sid"
        "\<lambda>cid. MatchesID (un_ToLower (ev_uni env)) cid sid"] by (simp_all add: g resolver_wf_def)
  show ?thesis
    using wf st by (auto simp: resolver_find_def g resolver_probe_def readOwner_def Let_def resolver_wf_def keep_owner_def split: option.splits sum.splits)
qed

lemma serve_sources:
  "resolver_wf (px_resolver s) \<Longrightarrow> resolver_wf (px_resolver (snd (serve env w r s))) \<and> same_sources (px_resolver s) (px_resolver (snd (serve env w r s)))"
  using find_sources [of "px_resolver s" env w]
  by (auto simp: serve_def Let_def resolver_Owner_def resolver_Locate_def split_beta split: option.splits)

section \<open>A sandbox a fleet holds\<close>

text \<open>
  A node holds the sandbox that the public id \<open>sid\<close> names: it has an address and a record of the claim with its token,
  no other node answers for the claim, no inventory lists another claim under the same public id, and the rate limiter
  admits a probe, should the inventories not list it yet.
\<close>

definition holds_sandbox :: "edge_env \<Rightarrow> 'w storeResolver \<Rightarrow> 'w \<Rightarrow> string \<Rightarrow> string \<Rightarrow> Owner \<Rightarrow> bool" where
  "holds_sandbox env v w sid node ow \<longleftrightarrow> ev_allow env \<and> node \<noteq> []
     \<and> nodeAddress v w node = Inr (ow_Address ow)
     \<and> (\<exists>r. store_Read (rv_lifecycle v) node (ow_ClaimID ow) w = Inr r \<and> sr_Token r = ow_Token ow)
     \<and> (\<exists>nodes. src_ListNodes (rv_inventory v) w = Inr nodes \<and> set (ev_sched env nodes) = set nodes \<and> node \<in> set nodes
          \<and> (\<forall>m\<in>set nodes. m \<noteq> node \<longrightarrow> isl (store_Read (rv_lifecycle v) m (ow_ClaimID ow) w)))
     \<and> (\<forall>m iv e. src_NodeInventory (rv_inventory v) w m = Inr iv \<longrightarrow> e \<in> set (ni_Entries iv) \<longrightarrow> MatchesID (un_ToLower (ev_uni env)) (ie_ID e) sid
          \<longrightarrow> ni_Node iv = node \<and> ie_ID e = ow_ClaimID ow)"

lemma holds_same: "same_sources v v' \<Longrightarrow> holds_sandbox env v' w sid node ow = holds_sandbox env v w sid node ow"
  by (simp add: holds_sandbox_def same_sources_def nodeAddress_def)

lemma holds_owner: "holds_sandbox env v w sid node ow \<Longrightarrow> ownerOn v w node (ow_ClaimID ow) = Inr ow"
  by (auto simp: holds_sandbox_def ownerOn_def)

lemma holds_elsewhere: "holds_sandbox env v w sid node ow \<Longrightarrow> src_ListNodes (rv_inventory v) w = Inr nodes \<Longrightarrow> m \<in> set nodes \<Longrightarrow> m \<noteq> node
    \<Longrightarrow> \<exists>e. ownerOn v w m (ow_ClaimID ow) = Inl e"
  by (auto simp: holds_sandbox_def ownerOn_def isl_def split: sum.splits)

lemma holds_probe:
  assumes "holds_sandbox env v w sid node ow"
  shows "FirstHit (ev_sched env) (rv_inventory v) w (\<lambda>m. case ownerOn v w m (ow_ClaimID ow) of Inl e \<Rightarrow> None | Inr o' \<Rightarrow> Some o') = Inr (Some ow)"
proof -
  obtain nodes where nodes: "src_ListNodes (rv_inventory v) w = Inr nodes" "set (ev_sched env nodes) = set nodes" "node \<in> set nodes"
    using assms holds_sandbox_def by metis
  let ?f = "\<lambda>m. case ownerOn v w m (ow_ClaimID ow) of Inl e \<Rightarrow> None | Inr o' \<Rightarrow> Some o'"
  have hit: "?f m = (if m = node then Some ow else None)" if "m \<in> set (ev_sched env nodes)" for m
    using that nodes(2) holds_owner [OF assms] holds_elsewhere [OF assms nodes(1), of m] by (cases "m = node") auto
  then have "first_hit ?f ms = Some ow" if "set ms \<subseteq> set (ev_sched env nodes)" "node \<in> set ms" for ms
    using that by (induction ms) (auto split: if_splits)
  then show ?thesis using nodes by (simp add: FirstHit_def)
qed

text \<open>What the cache knows of the id, if anything, is that owner.\<close>

definition cached_owner :: "string \<Rightarrow> Owner \<Rightarrow> 'w storeResolver \<Rightarrow> bool" where
  "cached_owner sid ow v \<longleftrightarrow> (\<forall>e. (sid, e) \<in> set (rv_recent v) \<longrightarrow> ro_owner e = ow)"

lemma recent_put_key: "(k, x) \<in> set (recent_put sid e now m) \<Longrightarrow> (k, x) \<in> set m \<or> k = sid \<and> x = e\<lparr>ro_until := now + recentOwnerTTL\<rparr>"
  by (auto simp: recent_put_def Let_def split: if_splits dest!: set_update_cases)

lemma keep_owner_cached: "cached_owner sid ow v \<Longrightarrow> sid' = sid \<Longrightarrow> cached_owner sid ow (snd (keep_owner env sid' ow adm v))"
  "cached_owner sid ow v \<Longrightarrow> sid' \<noteq> sid \<Longrightarrow> cached_owner sid ow (snd (keep_owner env sid' ow' adm v))"
  by (auto simp: cached_owner_def keep_owner_def resolver_entry_def Let_def dest!: recent_put_key)

lemma cached_claims [simp]: "cached_owner sid ow (v\<lparr>rv_claims := st\<rparr>) = cached_owner sid ow v"
  by (simp add: cached_owner_def)

lemma find_other: "cached_owner sid ow v \<Longrightarrow> sid' \<noteq> sid \<Longrightarrow> cached_owner sid ow (snd (resolver_find env w sid' adm v))"
  by (auto simp: resolver_find_def resolver_probe_def readOwner_def Let_def split_beta intro: keep_owner_cached split: option.splits sum.splits)

lemma holds_claims [simp]: "holds_sandbox env (v\<lparr>rv_claims := st\<rparr>) w sid node ow = holds_sandbox env v w sid node ow"
  by (rule holds_same) simp

text \<open>The claim's entry, when the inventories list it, names the node and the claim.\<close>

lemma held_entry:
  assumes "resolver_wf v" "holds_sandbox env v w sid node ow"
    and "fst (GetByClaimID ma sc sc' (rv_claims v) w ns cid (\<lambda>c. MatchesID (un_ToLower (ev_uni env)) c sid)) = Inr sb"
  shows "sb_NodeName sb = node \<and> map_index (sb_Annotations sb) ClaimIDAnnotation = ow_ClaimID ow"
proof -
  let ?match = "claimMatch ns (\<lambda>c. MatchesID (un_ToLower (ev_uni env)) c sid)"
  have "fst (resolve ma sc sc' (rv_claims v) w ''claim-id get'' (claimKey ns cid) (rowByID cid) ?match) = Inr (Some sb)"
    using assms(3) by (auto simp: GetByClaimID_def found_or_404_def split: sum.splits option.splits)
  from resolve_origin [OF this] have "published (rv_claims v) w ?match sb"
    using assms(1) by (auto simp: live_def nodeClient_def resolver_wf_def)
  then obtain m iv e where e: "src_NodeInventory (rv_inventory v) w m = Inr iv" "e \<in> set (ni_Entries iv)" "?match e" "sb = entryToSandbox (ni_Node iv) e"
    using assms(1) by (auto simp: published_def resolver_wf_def)
  then have "ni_Node iv = node \<and> ie_ID e = ow_ClaimID ow" using assms(2) by (auto simp: holds_sandbox_def claimMatch_def)
  then show ?thesis using e(3,4) by (auto simp: claimMatch_def)
qed

lemma miss_not_found:
  assumes "resolver_wf v" "src_ListNodes (rv_inventory v) w = Inr nodes"
    and "fst (GetByClaimID ma sc sc' (rv_claims v) w ns cid match) = Inl e"
  shows "k8s_IsNotFound e"
  using assms
  by (auto simp: GetByClaimID_def found_or_404_def resolve_def resolve_sweep_def FirstHit_def resolver_wf_def Let_def k8s_NewNotFound_def k8s_IsNotFound_def
      split: prod.splits option.splits sum.splits if_splits)

text \<open>The resolver answers the admission's verdict on the owner, and remembers no other.\<close>

lemma find_held:
  assumes wf: "resolver_wf v" and ok: "resolver_ok env v" and cached: "cached_owner sid ow v" and holds: "holds_sandbox env v w sid node ow"
    and cid: "ClaimID sid = ow_ClaimID ow" and sid: "strings_TrimSpace sid \<noteq> []"
  shows "(\<exists>e. fst (resolver_find env w sid adm v) = adm e \<and> ro_owner e = ow \<and> owner_ok env v e) \<and> cached_owner sid ow (snd (resolver_find env w sid adm v))"
proof (cases "recent_get sid (ev_now env) (rv_recent v)")
  case (Some e)
  then have "(sid, e) \<in> set (rv_recent v)" by (auto simp: recent_get_def split: option.splits if_splits dest: map_of_SomeD)
  then show ?thesis using Some sid ok cached by (auto simp: resolver_find_def resolver_ok_def owner_ok_def cached_owner_def)
next
  case None
  obtain got st where g: "GetByClaimID (ev_marshal env) (ev_sched env) (ev_sched env) (rv_claims v) w (rv_namespace v) (ow_ClaimID ow)
      (\<lambda>c. MatchesID (un_ToLower (ev_uni env)) c sid) = (got, st)" by fastforce
  let ?v = "v\<lparr>rv_claims := st\<rparr>"
  have holds': "holds_sandbox env ?v w sid node ow" and allow: "ev_allow env" using holds by (simp_all add: holds_sandbox_def [of env v])
  have keep: "(\<exists>e. fst (keep_owner env sid ow adm ?v) = adm e \<and> ro_owner e = ow \<and> owner_ok env v e) \<and> cached_owner sid ow (snd (keep_owner env sid ow adm ?v))"
    using keep_owner_admits(1) [of env ?v ow] keep_owner_admits(2) [of env sid ow adm ?v] keep_owner_cached(1) [of sid ow ?v sid env adm] cached
    by (auto simp: resolver_entry_def intro!: exI [of _ "resolver_entry env ?v ow"])
  show ?thesis
  proof (cases got)
    case (Inl e)
    obtain nodes where "src_ListNodes (rv_inventory v) w = Inr nodes" using holds holds_sandbox_def by metis
    then have "k8s_IsNotFound e" using miss_not_found [OF wf] g Inl by (metis fst_conv)
    moreover have "resolver_probe env w sid (ow_ClaimID ow) adm ?v = keep_owner env sid ow adm ?v"
      using holds_probe [OF holds'] allow by (simp add: resolver_probe_def)
    ultimately show ?thesis using None sid g Inl cid keep by (simp add: resolver_find_def)
  next
    case (Inr sb)
    then have "sb_NodeName sb = node" "map_index (sb_Annotations sb) ClaimIDAnnotation = ow_ClaimID ow"
      using held_entry [OF wf holds] g by (metis fst_conv)+
    moreover have "readOwner env w sid node (ow_ClaimID ow) adm ?v = keep_owner env sid ow adm ?v"
      using holds_owner [OF holds'] by (simp add: readOwner_def)
    moreover have "node \<noteq> []" using holds by (simp add: holds_sandbox_def)
    ultimately show ?thesis using None sid g Inr cid keep by (simp add: resolver_find_def)
  qed
qed

section \<open>The edge over a fleet that holds a sandbox\<close>

text \<open>What the edge keeps while it serves: its sources, its secret and its cache.\<close>

definition edge_holds :: "(string \<Rightarrow> string \<Rightarrow> string) \<Rightarrow> string \<Rightarrow> string \<Rightarrow> Owner \<Rightarrow> 'w storeResolver \<Rightarrow> bool" where
  "edge_holds hmac secret sid ow v \<longleftrightarrow> resolver_wf v \<and> edge_ok hmac secret v \<and> cached_owner sid ow v"

lemma NewResolver_holds:
  "NewResolver routed src ns secret = Inr v \<Longrightarrow> edge_holds hmac secret sid ow v"
  using NewResolver_ok [of routed src ns secret v hmac]
  by (auto simp: edge_holds_def NewResolver_def resolver_wf_def cached_owner_def NewScatterGatherStore_def split: option.splits if_splits)

lemma find_keeps_cache:
  assumes "edge_holds hmac secret sid ow v" "ev_hmac env = hmac" "sid' \<noteq> sid \<or> holds_sandbox env v w sid node ow" "ClaimID sid = ow_ClaimID ow"
    "strings_TrimSpace sid \<noteq> []"
  shows "cached_owner sid ow (snd (resolver_find env w sid' adm v))"
  using assms find_held [of v env sid ow w node adm] find_other [of sid ow v sid' env w adm] edge_ok_resolver [of env secret v]
  by (cases "sid' = sid") (auto simp: edge_holds_def)

text \<open>A request that cannot mislead the cache: it asks for another id, or the node holds the sandbox when it is served.\<close>

definition undisturbing :: "string \<Rightarrow> 'w storeResolver \<Rightarrow> string \<Rightarrow> string \<Rightarrow> Owner \<Rightarrow> edge_env \<times> 'w \<times> edge_request \<Rightarrow> bool" where
  "undisturbing domain v sid node ow q \<longleftrightarrow> (case q of (env, w, r) \<Rightarrow>
     (case routeOf (ev_uni env) r domain of None \<Rightarrow> True | Some rt \<Rightarrow> rt_sandboxID rt \<noteq> sid) \<or> holds_sandbox env v w sid node ow)"

lemma serve_holds:
  assumes "edge_holds hmac secret sid ow (px_resolver s)" "ev_hmac env = hmac" "undisturbing (op_Domain (px_opts s)) (px_resolver s) sid node ow (env, w, r)"
    "ClaimID sid = ow_ClaimID ow" "strings_TrimSpace sid \<noteq> []"
  shows "edge_holds hmac secret sid ow (px_resolver (snd (serve env w r s)))"
proof -
  have "cached_owner sid ow (px_resolver (snd (serve env w r s)))"
    using assms find_keeps_cache [OF assms(1,2) _ assms(4,5), of _ w node]
    by (auto simp: serve_def Let_def resolver_Owner_def resolver_Locate_def split_beta edge_holds_def undisturbing_def split: option.splits)
  then show ?thesis using assms(1,2) serve_sources [of s env w r] serve_ok [of hmac secret s env w r] by (simp add: edge_holds_def)
qed

lemma edge_run_holds:
  assumes "edge_holds hmac secret sid ow (px_resolver s)" "ClaimID sid = ow_ClaimID ow" "strings_TrimSpace sid \<noteq> []"
    "\<forall>q\<in>set reqs. ev_hmac (fst q) = hmac \<and> undisturbing (op_Domain (px_opts s)) (px_resolver s) sid node ow q"
  shows "edge_holds hmac secret sid ow (px_resolver (edge_run reqs s)) \<and> same_sources (px_resolver s) (px_resolver (edge_run reqs s))"
  using assms
proof (induction reqs arbitrary: s)
  case Nil
  then show ?case by (simp add: edge_run_def)
next
  case (Cons q reqs)
  obtain env w r where q: "q = (env, w, r)" by (cases q) auto
  let ?s = "snd (serve env w r s)"
  have run: "edge_run (q # reqs) s = edge_run reqs ?s" by (simp add: edge_run_def q)
  have holds: "edge_holds hmac secret sid ow (px_resolver ?s)" using Cons.prems serve_holds [of hmac secret sid ow s env node w r] by (simp add: q)
  have same: "same_sources (px_resolver s) (px_resolver ?s)" using Cons.prems(1) serve_sources [of s env w r] by (simp add: edge_holds_def)
  have "\<forall>q\<in>set reqs. ev_hmac (fst q) = hmac \<and> undisturbing (op_Domain (px_opts ?s)) (px_resolver ?s) sid node ow q"
    using Cons.prems(4) holds_same [OF same] by (auto simp: undisturbing_def)
  from Cons.IH [OF holds Cons.prems(2,3) this] show ?case using same same_sources_trans run by metis
qed

text \<open>A request with the sandbox's own token, by the host the client derives for it.\<close>

lemma serve_reaches:
  assumes holds: "edge_holds hmac secret sid ow (px_resolver s)" "ev_hmac env = hmac" "holds_sandbox env (px_resolver s) w sid node ow"
    and cid: "ClaimID sid = ow_ClaimID ow" "strings_TrimSpace sid \<noteq> []"
    and route: "routeOf (ev_uni env) r (op_Domain (px_opts s)) = Some \<lparr>rt_sandboxID = sid, rt_port = p\<rparr>"
    and path: "\<not> internalPath (ev_uni env) (eq_Path r)"
    and token: "strings_TrimSpace (map_index (eq_Header r) accessTokenHeader) = AccessToken hmac secret (ow_Token ow)" "AccessToken hmac secret (ow_Token ow) \<noteq> []"
  shows "fst (serve env w r s) = Forward \<lparr>rt_sandboxID = sid, rt_port = p\<rparr> \<lparr>tg_owner = ow, tg_port = p, tg_h2 = op_GuestHTTP2 (px_opts s)\<rparr>"
proof -
  let ?adm = "admit (AccessToken hmac secret (ow_Token ow))"
  have "resolver_wf (px_resolver s)" "resolver_ok env (px_resolver s)" "cached_owner sid ow (px_resolver s)" and sec: "rv_secret (px_resolver s) = secret"
    using holds edge_ok_resolver [of env secret "px_resolver s"] by (auto simp: edge_holds_def)
  from find_held [OF this(1-3) holds(3) cid, of ?adm]
  obtain e where e: "fst (resolver_find env w sid ?adm (px_resolver s)) = ?adm e" "ro_owner e = ow" "owner_ok env (px_resolver s) e" by blast
  then have "?adm e = Inr ow" using holds(2) sec by (simp add: admit_def owner_ok_def)
  then show ?thesis using route path token e(1) by (simp add: serve_def resolver_Owner_def Let_def split_beta)
qed

section \<open>The edge's handler\<close>

text \<open>
  \<^verbatim>\<open>Handler\<close>: the health probe before the relay. The \<^verbatim>\<open>ServeMux\<close> of net/http sends a client whose path is not the one \<open>clean\<close> makes of it
  there first, except for \<^verbatim>\<open>CONNECT\<close>, and a pattern for GET also serves HEAD.
\<close>

datatype handler_answer = NoContent | MovedTo string | Relayed edge_answer

definition edge_Handler :: "(string \<Rightarrow> string) \<Rightarrow> edge_env \<Rightarrow> 'w \<Rightarrow> string \<Rightarrow> edge_request \<Rightarrow> 'w proxy_server \<Rightarrow> handler_answer \<times> 'w proxy_server" where
  "edge_Handler clean env w meth r s =
     (if meth \<noteq> ''CONNECT'' \<and> clean (eq_Path r) \<noteq> eq_Path r then (MovedTo (clean (eq_Path r)), s)
      else if meth \<in> {''GET'', ''HEAD''} \<and> eq_Path r = ''/healthz'' then (NoContent, s)
      else (case serve env w r s of (a, s') \<Rightarrow> (Relayed a, s')))"

section \<open>From a create to the edge\<close>

text \<open>The claim that a create takes.\<close>

definition claimed :: "e2b_env \<Rightarrow> 'w Server \<Rightarrow> 'w scatterGatherStore \<Rightarrow> string \<Rightarrow> NewSandbox request_body \<Rightarrow> 'w \<Rightarrow> Assignment option" where
  "claimed env s st ns body w =
     (case decodeBody body of
        Inl r \<Rightarrow> None
      | Inr req \<Rightarrow>
          if create_refusal req \<noteq> None then None
          else (case create_claim env s st ns req w of (known, built, Inr a, st', w') \<Rightarrow> Some a | _ \<Rightarrow> None))"

lemma created_sandbox:
  assumes "createSandbox env o' s st ns body w = (WriteJSON 201 (J_Sandbox sb), st', w')" "claimed env s st ns body w = Some a"
  shows "es_SandboxID sb = PublicID (ev_lower env) (as_SandboxName a) \<and> es_Domain sb = so_Domain (sv_opts s)
    \<and> es_EnvdAccessToken sb = AccessToken (ev_mac env) (so_EnvdSecret (sv_opts s)) (as_Token a)"
  using assms
  by (auto simp: createSandbox_def claimed_def sandboxOf_def access_token_def Let_def bad_body_def decodeBody_def create_claim_error_def
      split: sum.splits prod.splits option.splits request_body.splits if_splits)

lemma hex_encoded: "list_all is_hex (hex_EncodeToString s)"
proof -
  have "is_hex (char_of (if d < 10 then 48 + d else 87 + d :: nat))" if "d < 16" for d
    using that by (auto simp: is_hex_def is_digit_def less_eq_char_def)
  moreover have "of_char c div 16 < (16 :: nat)" for c :: char by (rule less_mult_imp_div_less) simp
  ultimately show ?thesis by (auto simp: hex_EncodeToString_def list_all_iff)
qed

lemma hex_safe: "list_all is_hex s \<Longrightarrow> list_all isDNSSafe s"
  by (auto simp: list_all_iff dest: is_hex_safe)

lemma access_token_trim: "strings_TrimSpace (AccessToken hmac secret t) = AccessToken hmac secret t"
  unfolding AccessToken_def by (rule trim_space_safe [OF hex_safe [OF hex_encoded]])

lemma access_token_nonempty: "hmac secret t \<noteq> [] \<Longrightarrow> AccessToken hmac secret t \<noteq> []"
  by (cases "hmac secret t") (simp_all add: AccessToken_def hex_EncodeToString_def)

text \<open>The public id of a daemon's claim routes, trims to itself and names the claim.\<close>

lemma public_id_safe:
  assumes "list_all is_hex x" "sid = PublicID uni (''sb_'' @ x)"
  shows "list_all isDNSSafe sid \<and> sid \<noteq> [] \<and> strings_TrimSpace sid \<noteq> [] \<and> ClaimID sid = ''sb_'' @ x"
proof -
  have sid: "sid = ''sb-'' @ x" "ClaimID sid = ''sb_'' @ x" using claim_id_roundtrip [OF assms(1), of uni] assms(2) by metis+
  have "list_all isDNSSafe ''sb-''" by code_simp
  with sid(1) hex_safe [OF assms(1)] have "list_all isDNSSafe sid" by simp
  with sid trim_space_safe show ?thesis by simp
qed

end
