(* ===== verification/Commands.thy ===== *)
theory Commands
  imports Http_Listener Mesh_Inventory Kube_Setup Warm_Pool API_Group Data_Path
begin

text \<open>
  The three commands (cmd): how each reads its options, builds the inventory, the store and the surfaces over them, and
  how it ends. Flags are records of their values. What a command finds when it starts (files, the cluster, the nodes, free
  ports) is a record; a command that starts answers the parts it wired together, one that does not answers its error. What then runs is
  the listeners' state machine, composed with the main goroutine that waits for them and with its deferred stop.
\<close>

section \<open>Shared wiring\<close>

text \<open>An inventory source that lives in a part of the world.\<close>

definition map_source :: "('v \<Rightarrow> 'w) \<Rightarrow> 'w InventorySource \<Rightarrow> 'v InventorySource" where
  "map_source part src = \<lparr>src_ListNodes = (\<lambda>v. src_ListNodes src (part v)), src_NodeInventory = (\<lambda>v. src_NodeInventory src (part v)),
     src_NodeCapacity = (\<lambda>v. src_NodeCapacity src (part v)), src_NodeCapacities = (\<lambda>v. src_NodeCapacities src (part v))\<rparr>"

text \<open>The network of a process: the codecs, the connections, Go's zero HTTP client and the dialer's transport.\<close>

record 'w process_net =
  pn_wire :: wire
  pn_network :: "'w network"
  pn_zero :: "'w http_Client"
  pn_transport :: "'w http_Client"

definition sandboxdRequestTimeout :: int where "sandboxdRequestTimeout = 10 * second"

definition NewSandboxdHTTPClient :: "'w process_net \<Rightarrow> 'w http_Client" where
  "NewSandboxdHTTPClient n = (pn_transport n)\<lparr>hc_Timeout := sandboxdRequestTimeout\<rparr>"

definition node_Client :: "'w process_net \<Rightarrow> string \<Rightarrow> string \<Rightarrow> 'w Client" where
  "node_Client n addr token = client_New (pn_zero n) (SandboxdBaseURL addr) token [WithHTTPClient (NewSandboxdHTTPClient n)]"

definition NewSandboxdClientFactory :: "'w process_net \<Rightarrow> string \<Rightarrow> string \<Rightarrow> 'w SandboxdClient" where
  "NewSandboxdClientFactory n addr token = sandboxd_client (pn_wire n) (pn_network n) (node_Client n addr token)"

definition NewSandboxdFactory :: "'w process_net \<Rightarrow> string \<Rightarrow> string \<Rightarrow> 'w PoolSetter" where
  "NewSandboxdFactory n addr token pools w =
     (case client_SetPools (pn_wire n) (node_Client n addr token) pools w of (Inl e, w') \<Rightarrow> (Inl e, w') | (Inr info, w') \<Rightarrow> (Inr (Some info), w'))"

definition routed_store :: "'w process_net \<Rightarrow> string \<Rightarrow> 'w InventorySource \<Rightarrow> 'w scatterGatherStore" where
  "routed_store n token src = WithClaimRouting token (NewSandboxdClientFactory n) (NewScatterGatherStore src)"

text \<open>The surface of a process: the server, its builds and its listener.\<close>

record 'w surface_process =
  sp_server :: "'w Server"
  sp_builds :: "'w BuildOptions"
  sp_exec :: executor
  sp_listener :: e2b_listener

definition serve_e2b :: "(string \<Rightarrow> err option) \<Rightarrow> bool \<Rightarrow> string \<Rightarrow> 'w server_options \<Rightarrow> 'w BuildOptions \<Rightarrow> err + 'w surface_process" where
  "serve_e2b listen cancelled addr opts b =
     (case server_New opts of
        Inl e \<Rightarrow> Inl e
      | Inr s \<Rightarrow>
          (case e2b_Serve addr (listen addr) cancelled of
             Inl e \<Rightarrow> Inl e
           | Inr l \<Rightarrow> Inr \<lparr>sp_server = s, sp_builds = b, sp_exec = executor_New (nat (bo_Parallel b)) (bo_Timeout b) (bo_LogLines b), sp_listener = l\<rparr>))"

record 'w edge_process =
  ed_server :: "'w proxy_server"
  ed_listener :: proxy_listener

text \<open>The edge's part of a \<^verbatim>\<open>run\<close>: resolver, proxy, port and \<^verbatim>\<open>Serve\<close>; \<open>what\<close> is the text of the listen error.\<close>

definition serve_edge :: "(string \<Rightarrow> err option) \<Rightarrow> bool \<Rightarrow> string \<Rightarrow> 'w scatterGatherStore \<Rightarrow> 'w InventorySource \<Rightarrow> string \<Rightarrow> string \<Rightarrow> proxy_options \<Rightarrow> proxy_Flags
   \<Rightarrow> err + 'w edge_process" where
  "serve_edge listen cancelled what st fleet ns secret opts f =
     (case NewResolver (Some st) (Some fleet) ns secret of
        Inl e \<Rightarrow> Inl e
      | Inr v \<Rightarrow>
          (case proxy_NewServer (Some v) opts of
             Inl e \<Rightarrow> Inl e
           | Inr px \<Rightarrow>
               (case listen (pf_Addr f) of
                  Some e \<Rightarrow> Inl (Wrap (Msg what [pf_Addr f]) e)
                | None \<Rightarrow>
                    (case proxy_Serve f cancelled of
                       Inl e \<Rightarrow> Inl e
                     | Inr l \<Rightarrow> Inr \<lparr>ed_server = px, ed_listener = l\<rparr>))))"

section \<open>sandbox-e2b\<close>

record mesh_command =
  mc_Seeds :: "string list"
  mc_SandboxdToken :: string
  mc_SandboxdTokenFile :: string
  mc_PollInterval :: int
  mc_E2B :: e2b_Flags
  mc_Proxy :: proxy_Flags

definition mesh_defaults :: mesh_command where
  "mesh_defaults = \<lparr>mc_Seeds = [], mc_SandboxdToken = [], mc_SandboxdTokenFile = [], mc_PollInterval = 10 * second, mc_E2B = NewFlags,
     mc_Proxy = \<lparr>pf_Addr = [], pf_CertFile = [], pf_KeyFile = [], pf_GuestHTTP2 = False\<rparr>\<rparr>"

text \<open>What the process finds; a tick of the mesh reads the nodes in a world of its own and in orders of its own.\<close>

record 'w mesh_host =
  mh_SetupLog :: "err option"
  mh_os :: "'w host_os"
  mh_aws :: "s3Config \<Rightarrow> err + 'w s3_client"
  mh_net :: "'w process_net"
  mh_marshal :: metadata_encoder
  mh_tick1 :: "'w \<times> string list \<times> string list"
  mh_tick2 :: "'w \<times> string list \<times> string list"
  mh_Listen :: "string \<Rightarrow> err option"
  mh_cancelled :: bool

definition mesh_dial :: "'w mesh_host \<Rightarrow> string \<Rightarrow> 'w \<Rightarrow> string \<Rightarrow> mesh_answer" where
  "mesh_dial h token w addr =
     (let c = node_Client (mh_net h) addr token
      in mesh_read (mh_marshal h) \<lparr>nr_Info = client_Info (pn_wire (mh_net h)) c w, nr_Sandboxes = client_Sandboxes (pn_wire (mh_net h)) c w\<rparr>)"

definition mesh_start :: "'w mesh_host \<Rightarrow> string \<Rightarrow> string list \<Rightarrow> err + MeshSource" where
  "mesh_start h token seeds =
     (case (mh_tick1 h, mh_tick2 h) of ((w1, o1, o1'), (w2, o2, o2')) \<Rightarrow>
        mesh_New seeds 0 (mesh_dial h token w1) o1 o1' (mesh_dial h token w2) o2 o2')"

record 'w mesh_process =
  mp_source :: MeshSource
  mp_store :: "'w scatterGatherStore"
  mp_surface :: "'w surface_process"
  mp_edge :: "'w edge_process option"

text \<open>
  \<^verbatim>\<open>run\<close> up to the point where it waits. A failure answers the error, with the listener of the surface when it was up already: its
  deferred stop is still to run.
\<close>

definition mesh_run :: "('w \<Rightarrow> MeshSource) \<Rightarrow> 'w mesh_host \<Rightarrow> mesh_command \<Rightarrow> err \<times> e2b_listener option + 'w mesh_process" where
  "mesh_run part h o' =
     (let fleet = map_source part mesh_source
      in case mh_SetupLog h of
           Some e \<Rightarrow> Inl (Wrap (Msg ''setup log: %w'' []) e, None)
         | None \<Rightarrow>
             (case TokenFrom (\<lambda>f. os_ReadFile (mh_os h) (path_Clean f)) (mc_SandboxdToken o') (mc_SandboxdTokenFile o') of
                Inl e \<Rightarrow> Inl (e, None)
              | Inr token \<Rightarrow>
                  (case mesh_start h token (mc_Seeds o') of
                     Inl e \<Rightarrow> Inl (e, None)
                   | Inr src \<Rightarrow>
                       (let st = routed_store (mh_net h) token fleet
                        in case ServerOptions (mh_os h) (mh_aws h) fleet (mc_E2B o') of
                             Inl e \<Rightarrow> Inl (e, None)
                           | Inr (opts, b) \<Rightarrow>
                               (case serve_e2b (mh_Listen h) (mh_cancelled h) (fl_Addr (mc_E2B o')) opts b of
                                  Inl e \<Rightarrow> Inl (e, None)
                                | Inr sp \<Rightarrow>
                                    if pf_Addr (mc_Proxy o') = [] then Inr \<lparr>mp_source = src, mp_store = st, mp_surface = sp, mp_edge = None\<rparr>
                                    else (case serve_edge (mh_Listen h) (mh_cancelled h) ''listen on envd-proxy address %q: %w'' st fleet [] (so_EnvdSecret opts)
                                                 \<lparr>op_Domain = fl_Domain (mc_E2B o'), op_GuestHTTP2 = pf_GuestHTTP2 (mc_Proxy o'), op_NodeToken = token\<rparr> (mc_Proxy o') of
                                            Inl e \<Rightarrow> Inl (e, Some (sp_listener sp))
                                          | Inr ed \<Rightarrow> Inr \<lparr>mp_source = src, mp_store = st, mp_surface = sp, mp_edge = Some ed\<rparr>))))))"

section \<open>sandbox-envd-proxy\<close>

record edge_command =
  dc_Domain :: string
  dc_Namespace :: string
  dc_SandboxdToken :: string
  dc_SandboxdTokenFile :: string
  dc_EnvdSecretFile :: string
  dc_Proxy :: proxy_Flags
  dc_StaleAfter :: int

definition edge_defaults :: edge_command where
  "edge_defaults = \<lparr>dc_Domain = [], dc_Namespace = ''default'', dc_SandboxdToken = [], dc_SandboxdTokenFile = [], dc_EnvdSecretFile = [],
     dc_Proxy = \<lparr>pf_Addr = '':8443'', pf_CertFile = [], pf_KeyFile = [], pf_GuestHTTP2 = False\<rparr>, dc_StaleAfter = defaultStaleAfter\<rparr>"

text \<open>What a command in a cluster finds.\<close>

record 'w kube_host =
  kh_SetupLog :: "err option"
  kh_GetConfig :: "err option"
  kh_cache :: cache_io
  kh_source :: source_io
  kh_os :: "'w host_os"
  kh_aws :: "s3Config \<Rightarrow> err + 'w s3_client"
  kh_net :: "'w process_net"
  kh_Listen :: "string \<Rightarrow> err option"
  kh_cancelled :: bool

definition kube_fleet :: "('w \<Rightarrow> KubeSource \<times> time) \<Rightarrow> 'w InventorySource" where
  "kube_fleet part = map_source part kube_source"

definition edge_run_command :: "('w \<Rightarrow> KubeSource \<times> time) \<Rightarrow> 'w kube_host \<Rightarrow> edge_command \<Rightarrow> err + KubeSource \<times> 'w edge_process" where
  "edge_run_command part h o' =
     (case kh_GetConfig h of
        Some e \<Rightarrow> Inl (Wrap (Msg ''load kube config: %w'' []) e)
      | None \<Rightarrow>
          (case NewCache (kh_cache h) of
             Some e \<Rightarrow> Inl e
           | None \<Rightarrow>
               (case kube_Start (kh_source h) (dc_StaleAfter o') of
                  Inl e \<Rightarrow> Inl e
                | Inr src \<Rightarrow>
                    (case TokenFrom (\<lambda>f. os_ReadFile (kh_os h) (path_Clean f)) (dc_SandboxdToken o') (dc_SandboxdTokenFile o') of
                       Inl e \<Rightarrow> Inl e
                     | Inr token \<Rightarrow>
                         (case EnvdSecret (kh_os h) (dc_EnvdSecretFile o') of
                            Inl e \<Rightarrow> Inl e
                          | Inr secret \<Rightarrow>
                              (case serve_edge (kh_Listen h) (kh_cancelled h) ''listen on %q: %w'' (routed_store (kh_net h) token (kube_fleet part)) (kube_fleet part)
                                      (dc_Namespace o') secret
                                      \<lparr>op_Domain = dc_Domain o', op_GuestHTTP2 = pf_GuestHTTP2 (dc_Proxy o'), op_NodeToken = token\<rparr> (dc_Proxy o') of
                                 Inl e \<Rightarrow> Inl e
                               | Inr ed \<Rightarrow> Inr (src, ed)))))))"

section \<open>sandbox-apiserver\<close>

record api_command =
  ac_SandboxdToken :: string
  ac_SandboxdTokenFile :: string
  ac_WarmPoolDriver :: bool
  ac_WarmPoolInterval :: int
  ac_E2BAPI :: bool
  ac_E2B :: e2b_Flags
  ac_StaleAfter :: int

definition api_defaults :: api_command where
  "api_defaults = \<lparr>ac_SandboxdToken = [], ac_SandboxdTokenFile = [], ac_WarmPoolDriver = True, ac_WarmPoolInterval = 0, ac_E2BAPI = False,
     ac_E2B = NewFlags, ac_StaleAfter = defaultStaleAfter\<rparr>"

definition currentNamespace :: "(string \<Rightarrow> err + string) \<Rightarrow> string" where
  "currentNamespace read =
     (case read ''/var/run/secrets/kubernetes.io/serviceaccount/namespace'' of
        Inr b \<Rightarrow> if strings_TrimSpace b \<noteq> [] then strings_TrimSpace b else ''sandbox-system''
      | Inl e \<Rightarrow> ''sandbox-system'')"

text \<open>What the generic API server and the controller runtime answer; \<open>ah_manager\<close> builds a manager electing its leader in a namespace.\<close>

record 'w api_host = "'w kube_host" +
  ah_selfSigned :: "err option"
  ah_features :: "err option"
  ah_secureServing :: "err option"
  ah_authentication :: "err option"
  ah_authorization :: "err option"
  ah_newServer :: "err option"
  ah_install :: "string list \<Rightarrow> err option"
  ah_extScheme :: "err option"
  ah_invScheme :: "err option"
  ah_manager :: "string \<Rightarrow> err + 'w kube"
  ah_setup :: "err option"

text \<open>The first of the wrapped errors.\<close>

fun first_error :: "(string \<times> err option) list \<Rightarrow> err option" where
  "first_error [] = None"
| "first_error ((what, r) # rest) = (case r of Some e \<Rightarrow> Some (Wrap (Msg what []) e) | None \<Rightarrow> first_error rest)"

definition serverConfig :: "'w api_host \<Rightarrow> err option" where
  "serverConfig h = first_error
     [(''create self-signed certificates: %w'', ah_selfSigned h), (''apply features: %w'', ah_features h), (''apply secure serving: %w'', ah_secureServing h),
      (''apply authentication: %w'', ah_authentication h), (''apply authorization: %w'', ah_authorization h)]"

definition build_manager :: "'w api_host \<Rightarrow> string \<Rightarrow> int \<Rightarrow> 'w InventorySource \<Rightarrow> err + 'w Driver" where
  "build_manager h token interval fleet =
     (case ah_manager h (currentNamespace (os_ReadFile (kh_os h))) of
        Inl e \<Rightarrow> Inl (Wrap (Msg ''build warm-pool manager: %w'' []) e)
      | Inr kube \<Rightarrow>
          (case ah_setup h of
             Some e \<Rightarrow> Inl (Wrap (Msg ''set up warm-pool controller: %w'' []) e)
           | None \<Rightarrow> Inr (driver_New kube fleet token (NewSandboxdFactory (kh_net h)) interval)))"

definition startWarmPoolDriver :: "'w api_host \<Rightarrow> string \<Rightarrow> int \<Rightarrow> 'w InventorySource \<Rightarrow> err + 'w Driver" where
  "startWarmPoolDriver h token interval fleet =
     (case first_error [(''register extensions scheme: %w'', ah_extScheme h), (''register node inventory scheme: %w'', ah_invScheme h)] of
        Some e \<Rightarrow> Inl e
      | None \<Rightarrow> build_manager h token interval fleet)"

record 'w api_process =
  ap_source :: KubeSource
  ap_store :: "'w scatterGatherStore"
  ap_driver :: "'w Driver option"
  ap_surface :: "'w surface_process option"
  ap_storages :: "(string \<times> 'w storage) list"

text \<open>An optional part of the start: not asked for, it is None.\<close>

definition start_if :: "bool \<Rightarrow> (err + 'a) \<Rightarrow> err + 'a option" where
  "start_if asked r = (if \<not> asked then Inr None else case r of Inl e \<Rightarrow> Inl e | Inr a \<Rightarrow> Inr (Some a))"

definition startE2BServer :: "'w api_host \<Rightarrow> 'w InventorySource \<Rightarrow> e2b_Flags \<Rightarrow> err + 'w surface_process" where
  "startE2BServer h fleet f =
     (case ServerOptions (kh_os h) (kh_aws h) fleet f of
        Inl e \<Rightarrow> Inl e
      | Inr (opts, b) \<Rightarrow> serve_e2b (kh_Listen h) (kh_cancelled h) (fl_Addr f) opts b)"

text \<open>The part of \<^verbatim>\<open>run\<close> from the store on.\<close>

definition api_serve :: "'w api_host \<Rightarrow> api_command \<Rightarrow> KubeSource \<Rightarrow> 'w InventorySource \<Rightarrow> string \<Rightarrow> err + 'w api_process" where
  "api_serve h o' src fleet token =
     (case start_if (ac_WarmPoolDriver o') (startWarmPoolDriver h token (ac_WarmPoolInterval o') fleet) of
        Inl e \<Rightarrow> Inl e
      | Inr driver \<Rightarrow>
          (case start_if (ac_E2BAPI o') (startE2BServer h fleet (ac_E2B o')) of
             Inl e \<Rightarrow> Inl e
           | Inr surface \<Rightarrow>
               (case serverConfig h of
                  Some e \<Rightarrow> Inl e
                | None \<Rightarrow>
                    (case ah_newServer h of
                       Some e \<Rightarrow> Inl (Wrap (Msg ''build generic apiserver: %w'' []) e)
                     | None \<Rightarrow>
                         (case InstallSandboxAPI (ah_install h) of
                            Inl e \<Rightarrow> Inl e
                          | Inr storages \<Rightarrow>
                              Inr \<lparr>ap_source = src, ap_store = routed_store (kh_net h) token fleet, ap_driver = driver, ap_surface = surface,
                                   ap_storages = storages\<rparr>)))))"

definition api_run :: "('w \<Rightarrow> KubeSource \<times> time) \<Rightarrow> 'w api_host \<Rightarrow> api_command \<Rightarrow> err + 'w api_process" where
  "api_run part h o' =
     (case first_error [(''setup log: %w'', kh_SetupLog h), (''load kube config: %w'', kh_GetConfig h)] of
        Some e \<Rightarrow> Inl e
      | None \<Rightarrow>
          (case NewCache (kh_cache h) of
             Some e \<Rightarrow> Inl e
           | None \<Rightarrow>
               (case TokenFrom (\<lambda>f. os_ReadFile (kh_os h) (path_Clean f)) (ac_SandboxdToken o') (ac_SandboxdTokenFile o') of
                  Inl e \<Rightarrow> Inl e
                | Inr token \<Rightarrow>
                    (case kube_Start (kh_source h) (ac_StaleAfter o') of
                       Inl e \<Rightarrow> Inl e
                     | Inr src \<Rightarrow> api_serve h o' src (kube_fleet part) token))))"

section \<open>The driver's restarts\<close>

text \<open>\<^verbatim>\<open>runRestarting\<close>: in \<^verbatim>\<open>Start\<close> of a manager, in the select after it stopped, or over. Each build attempt gets its number.\<close>

datatype restart_pc = Managing | Pausing | Over

record restart_state =
  rs_ctx :: bool
  rs_pc :: restart_pc
  rs_builds :: nat
  rs_logged :: nat

inductive restart_step :: "(nat \<Rightarrow> bool) \<Rightarrow> restart_state \<Rightarrow> restart_state \<Rightarrow> bool" for builds :: "nat \<Rightarrow> bool" where
  rs_cancel: "\<not> rs_ctx s \<Longrightarrow> restart_step builds s (s\<lparr>rs_ctx := True\<rparr>)"
| rs_stopped: "rs_pc s = Managing \<Longrightarrow> restart_step builds s (s\<lparr>rs_pc := Pausing, rs_logged := Suc (rs_logged s)\<rparr>)"
| rs_over: "rs_pc s = Pausing \<Longrightarrow> rs_ctx s \<Longrightarrow> restart_step builds s (s\<lparr>rs_pc := Over\<rparr>)"
| rs_built: "rs_pc s = Pausing \<Longrightarrow> builds (rs_builds s) \<Longrightarrow> restart_step builds s (s\<lparr>rs_pc := Managing, rs_builds := Suc (rs_builds s)\<rparr>)"
| rs_failed: "rs_pc s = Pausing \<Longrightarrow> \<not> builds (rs_builds s) \<Longrightarrow> restart_step builds s (s\<lparr>rs_builds := Suc (rs_builds s), rs_logged := Suc (rs_logged s)\<rparr>)"

definition restart_init :: restart_state where
  "restart_init = \<lparr>rs_ctx = False, rs_pc = Managing, rs_builds = 0, rs_logged = 0\<rparr>"

lemma restart_over: "(restart_step builds)\<^sup>*\<^sup>* restart_init s \<Longrightarrow> rs_pc s = Over \<longrightarrow> rs_ctx s"
proof (induction rule: rtranclp_induct)
  case (step s t)
  from step.hyps(2) step.IH show ?case by cases auto
qed (simp add: restart_init_def)

lemma restart_now: "rs_pc s = Pausing \<Longrightarrow> builds (rs_builds s) \<Longrightarrow> \<exists>t. (restart_step builds)\<^sup>*\<^sup>* s t \<and> rs_pc t = Managing"
  by (rule exI [of _ "s\<lparr>rs_pc := Managing, rs_builds := Suc (rs_builds s)\<rparr>"]) (auto intro: rs_built)

lemma restart_builds_until:
  "rs_pc s = Pausing \<Longrightarrow> builds (rs_builds s + n) \<Longrightarrow> \<exists>t. (restart_step builds)\<^sup>*\<^sup>* s t \<and> rs_pc t = Managing"
proof (induction n arbitrary: s)
  case 0
  then show ?case using restart_now by simp
next
  case (Suc n)
  show ?case
  proof (cases "builds (rs_builds s)")
    case True
    then show ?thesis using restart_now Suc.prems by simp
  next
    case False
    let ?t = "s\<lparr>rs_builds := Suc (rs_builds s), rs_logged := Suc (rs_logged s)\<rparr>"
    have step: "restart_step builds s ?t" by (rule rs_failed) (use Suc.prems False in auto)
    from Suc.IH [of ?t] Suc.prems show ?thesis using step by (auto intro: converse_rtranclp_into_rtranclp)
  qed
qed

text \<open>
  The warm-pool driver comes back: its loop ends only with the context, and as long as it has not ended, a manager that stopped, and any number of
  builds that failed, are followed by a running manager as soon as a build succeeds.
\<close>

theorem driver_restarts:
  assumes "(restart_step builds)\<^sup>*\<^sup>* restart_init s"
  shows "(rs_pc s = Over \<longrightarrow> rs_ctx s) \<and> (rs_pc s \<noteq> Over \<longrightarrow> builds (rs_builds s + n) \<longrightarrow> (\<exists>t. (restart_step builds)\<^sup>*\<^sup>* s t \<and> rs_pc t = Managing))"
  using restart_over [OF assms] restart_builds_until [of s builds n] by (cases "rs_pc s") auto

section \<open>The life of sandbox-e2b\<close>

text \<open>
  The main goroutine of \<^verbatim>\<open>run\<close>: waiting for the signal when there is no edge, inside the edge's \<^verbatim>\<open>Serve\<close>, in its deferred stop with the result it will
  return, or back. The two listeners share its context; each sees it end in a step of its own.
\<close>

datatype main_pc = AwaitSignal | InServe | Deferred "err option" | Exited "err option"

record mesh_life =
  ml_ctx :: bool
  ml_main :: main_pc
  ml_surface :: e2b_listener
  ml_edge :: "proxy_listener option"

inductive mesh_step :: "proxy_Flags \<Rightarrow> mesh_life \<Rightarrow> mesh_life \<Rightarrow> bool" for f :: proxy_Flags where
  ms_signal: "\<not> ml_ctx s \<Longrightarrow> mesh_step f s (s\<lparr>ml_ctx := True\<rparr>)"
| ms_surface: "e2b_step (ml_surface s) l \<Longrightarrow> el_caller l = el_caller (ml_surface s) \<Longrightarrow> (el_ctx l \<longrightarrow> ml_ctx s) \<Longrightarrow> mesh_step f s (s\<lparr>ml_surface := l\<rparr>)"
| ms_edge: "ml_edge s = Some p \<Longrightarrow> proxy_step f p p' \<Longrightarrow> (pl_ctx p' \<longrightarrow> ml_ctx s) \<Longrightarrow> mesh_step f s (s\<lparr>ml_edge := Some p'\<rparr>)"
| ms_waited: "ml_main s = AwaitSignal \<Longrightarrow> ml_ctx s \<Longrightarrow> mesh_step f s (s\<lparr>ml_main := Deferred None\<rparr>)"
| ms_served: "ml_main s = InServe \<Longrightarrow> ml_edge s = Some p \<Longrightarrow> pl_main p = Returned r \<Longrightarrow> mesh_step f s (s\<lparr>ml_main := Deferred r\<rparr>)"
| ms_stop: "ml_main s = Deferred r \<Longrightarrow> el_caller (ml_surface s) = Working
     \<Longrightarrow> mesh_step f s (s\<lparr>ml_surface := (ml_surface s)\<lparr>el_stop := True, el_caller := Stopping\<rparr>\<rparr>)"
| ms_through: "ml_main s = Deferred r \<Longrightarrow> el_caller (ml_surface s) = Stopping \<Longrightarrow> el_drain (ml_surface s) = Drained b
     \<Longrightarrow> mesh_step f s (s\<lparr>ml_surface := (ml_surface s)\<lparr>el_caller := Stopped\<rparr>, ml_main := Exited r\<rparr>)"

text \<open>Where a start leaves the main goroutine; a start that failed before the surface listened has nothing to stop.\<close>

definition mesh_begin :: "bool \<Rightarrow> err \<times> e2b_listener option + 'w mesh_process \<Rightarrow> mesh_life option" where
  "mesh_begin cancelled r =
     (case r of
        Inr p \<Rightarrow> Some \<lparr>ml_ctx = cancelled, ml_main = (if mp_edge p = None then AwaitSignal else InServe), ml_surface = sp_listener (mp_surface p),
                       ml_edge = map_option ed_listener (mp_edge p)\<rparr>
      | Inl (e, Some l) \<Rightarrow> Some \<lparr>ml_ctx = cancelled, ml_main = Deferred (Some e), ml_surface = l, ml_edge = None\<rparr>
      | Inl (e, None) \<Rightarrow> None)"

text \<open>The listeners run inside it: each of its steps is one of theirs or none.\<close>

lemma mesh_projects:
  assumes "(mesh_step f)\<^sup>*\<^sup>* s0 s"
  shows "e2b_step\<^sup>*\<^sup>* (ml_surface s0) (ml_surface s)
    \<and> (case ml_edge s0 of None \<Rightarrow> ml_edge s = None | Some p \<Rightarrow> \<exists>p'. ml_edge s = Some p' \<and> (proxy_step f)\<^sup>*\<^sup>* p p')"
  using assms
proof (induction rule: rtranclp_induct)
  case base
  then show ?case by (auto split: option.splits)
next
  case (step s t)
  from step.hyps(2) show ?case
    by cases (use step.IH in \<open>auto split: option.splits intro: rtranclp.rtrancl_into_rtrancl el_stops el_through\<close>)
qed

text \<open>How the main goroutine stands to the listeners.\<close>

definition mesh_inv :: "mesh_life \<Rightarrow> bool" where
  "mesh_inv s \<longleftrightarrow> (el_ctx (ml_surface s) \<longrightarrow> ml_ctx s) \<and> (\<forall>p. ml_edge s = Some p \<longrightarrow> pl_ctx p \<longrightarrow> ml_ctx s)
     \<and> (case ml_main s of
          AwaitSignal \<Rightarrow> el_caller (ml_surface s) = Working \<and> ml_edge s = None
        | InServe \<Rightarrow> el_caller (ml_surface s) = Working \<and> ml_edge s \<noteq> None
        | Deferred r \<Rightarrow> el_caller (ml_surface s) \<noteq> Stopped \<and> (r = None \<longrightarrow> (case ml_edge s of None \<Rightarrow> ml_ctx s | Some p \<Rightarrow> pl_main p = Returned None))
        | Exited r \<Rightarrow> el_caller (ml_surface s) = Stopped \<and> (r = None \<longrightarrow> (case ml_edge s of None \<Rightarrow> ml_ctx s | Some p \<Rightarrow> pl_main p = Returned None)))"

lemma returned_stays: "proxy_step f p p' \<Longrightarrow> pl_main p = Returned r \<Longrightarrow> pl_main p' = Returned r"
  by (erule proxy_step.cases) auto

lemma mesh_inv_step: "mesh_step f s t \<Longrightarrow> mesh_inv s \<Longrightarrow> mesh_inv t"
  by (erule mesh_step.cases) (auto simp: mesh_inv_def returned_stays split: main_pc.splits option.splits)

lemma mesh_inv_steps: "(mesh_step f)\<^sup>*\<^sup>* s t \<Longrightarrow> mesh_inv s \<Longrightarrow> mesh_inv t"
  by (induction rule: rtranclp_induct) (auto intro: mesh_inv_step)

lemma serve_e2b_listener: "serve_e2b listen cancelled addr opts b = Inr sp \<Longrightarrow> e2b_Serve addr None cancelled = Inr (sp_listener sp)"
  by (auto simp: serve_e2b_def e2b_Serve_def split: sum.splits option.splits)

lemma serve_edge_listener: "serve_edge listen cancelled what st fleet ns secret opts f = Inr ed \<Longrightarrow> proxy_Serve f cancelled = Inr (ed_listener ed)"
  by (auto simp: serve_edge_def split: sum.splits option.splits)

lemma mesh_begins:
  assumes "mesh_begin (mh_cancelled h) (mesh_run part h o') = Some s"
  shows "mesh_inv s \<and> (\<exists>addr. e2b_Serve addr None (mh_cancelled h) = Inr (ml_surface s)) \<and> (\<forall>p. ml_edge s = Some p \<longrightarrow> proxy_Serve (mc_Proxy o') (mh_cancelled h) = Inr p)"
proof -
  have start: "ml_ctx s = mh_cancelled h \<and> (\<exists>addr. e2b_Serve addr None (mh_cancelled h) = Inr (ml_surface s))
      \<and> (\<forall>p. ml_edge s = Some p \<longrightarrow> proxy_Serve (mc_Proxy o') (mh_cancelled h) = Inr p)
      \<and> (case ml_main s of AwaitSignal \<Rightarrow> ml_edge s = None | InServe \<Rightarrow> ml_edge s \<noteq> None | Deferred r \<Rightarrow> r \<noteq> None | Exited r \<Rightarrow> False)"
    using assms
    by (auto simp: mesh_begin_def mesh_run_def Let_def split: go_splits dest!: serve_e2b_listener serve_edge_listener)
  moreover have "el_caller l = Working \<and> el_ctx l = c" if "e2b_Serve addr None c = Inr l" for addr c l
    using that by (auto simp: e2b_Serve_def)
  moreover have "pl_ctx p = c" if "proxy_Serve f c = Inr p" for f c p using that by (auto simp: proxy_Serve_def split: if_splits)
  ultimately show ?thesis by (fastforce simp: mesh_inv_def split: main_pc.splits)
qed

text \<open>Runs of a listener lift to runs of the process once its context is over.\<close>

lemma lift_edge:
  assumes "(proxy_step f)\<^sup>*\<^sup>* p p'" "ml_ctx s" "ml_edge s = Some p"
  shows "(mesh_step f)\<^sup>*\<^sup>* s (s\<lparr>ml_edge := Some p'\<rparr>)"
  using assms
proof (induction rule: rtranclp_induct)
  case base
  then have "s\<lparr>ml_edge := Some p\<rparr> = s" by (cases s) simp
  then show ?case by simp
next
  case (step q r)
  then have "mesh_step f (s\<lparr>ml_edge := Some q\<rparr>) (s\<lparr>ml_edge := Some r\<rparr>)"
    using ms_edge [of "s\<lparr>ml_edge := Some q\<rparr>" q f r] by simp
  with step show ?case by (meson rtranclp.rtrancl_into_rtrancl)
qed

text \<open>A step of the surface's listener that is not its caller's nor its context's.\<close>

definition quiet_step :: "e2b_listener \<Rightarrow> e2b_listener \<Rightarrow> bool" where
  "quiet_step l l' \<longleftrightarrow> e2b_step l l' \<and> el_caller l' = el_caller l \<and> el_ctx l' = el_ctx l"

lemma quiet_shut: "el_stop l \<Longrightarrow> el_drain l = WaitCtx \<Longrightarrow> quiet_step l (l\<lparr>el_srv := (el_srv l)\<lparr>hs_shutdown := True\<rparr>, el_drain := ShuttingDown\<rparr>)"
  using el_drains [of l "(el_srv l)\<lparr>hs_shutdown := True\<rparr>" ShuttingDown] by (simp add: quiet_step_def drain_simps)

lemma quiet_over: "el_drain l = ShuttingDown \<Longrightarrow> quiet_step l (l\<lparr>el_drain := Drained False\<rparr>)"
  using el_drains [of l "el_srv l" "Drained False"] by (simp add: quiet_step_def drain_simps)

lemma surface_drains:
  assumes "el_stop l"
  shows "\<exists>l' b. quiet_step\<^sup>*\<^sup>* l l' \<and> el_drain l' = Drained b \<and> el_caller l' = el_caller l"
proof (cases "el_drain l")
  case WaitCtx
  let ?l = "l\<lparr>el_srv := (el_srv l)\<lparr>hs_shutdown := True\<rparr>, el_drain := ShuttingDown\<rparr>"
  have "quiet_step\<^sup>*\<^sup>* l (?l\<lparr>el_drain := Drained False\<rparr>)"
    using quiet_shut [OF assms WaitCtx] quiet_over [of ?l] by (simp add: rtranclp.rtrancl_into_rtrancl)
  then show ?thesis by (intro exI [of _ "?l\<lparr>el_drain := Drained False\<rparr>"] exI [of _ False]) simp
next
  case ShuttingDown
  then show ?thesis using quiet_over by (intro exI [of _ "l\<lparr>el_drain := Drained False\<rparr>"] exI [of _ False]) auto
next
  case (Drained b)
  then show ?thesis by blast
qed

lemma lift_surface:
  assumes "quiet_step\<^sup>*\<^sup>* l l'" "el_ctx l \<longrightarrow> ml_ctx s" "ml_surface s = l"
  shows "(mesh_step f)\<^sup>*\<^sup>* s (s\<lparr>ml_surface := l'\<rparr>)"
proof -
  have "(mesh_step f)\<^sup>*\<^sup>* s (s\<lparr>ml_surface := l'\<rparr>) \<and> el_ctx l' = el_ctx l"
    using assms(1)
  proof (induction rule: rtranclp_induct)
    case base
    have "s\<lparr>ml_surface := l\<rparr> = s" using assms(3) by (cases s) simp
    then show ?case by simp
  next
    case (step x y)
    then have "mesh_step f (s\<lparr>ml_surface := x\<rparr>) (s\<lparr>ml_surface := y\<rparr>)"
      using ms_surface [of "s\<lparr>ml_surface := x\<rparr>" y f] assms(2) by (simp add: quiet_step_def)
    with step show ?case by (metis quiet_step_def rtranclp.rtrancl_into_rtrancl)
  qed
  then show ?thesis ..
qed

text \<open>The deferred stop always comes to its end.\<close>

lemma deferred_exits:
  assumes "ml_main s = Deferred r" "mesh_inv s" "el_caller (ml_surface s) = Stopping \<longrightarrow> el_stop (ml_surface s)"
  shows "\<exists>t. (mesh_step f)\<^sup>*\<^sup>* s t \<and> ml_main t = Exited r"
proof -
  have stopping: "\<exists>t. (mesh_step f)\<^sup>*\<^sup>* s t \<and> ml_main t = Exited r"
    if s: "ml_main s = Deferred r" "el_caller (ml_surface s) = Stopping" "el_stop (ml_surface s)" "el_ctx (ml_surface s) \<longrightarrow> ml_ctx s" for s
  proof -
    obtain l' b where l': "quiet_step\<^sup>*\<^sup>* (ml_surface s) l'" "el_drain l' = Drained b" "el_caller l' = Stopping"
      using surface_drains [OF s(3)] s(2) by metis
    have "(mesh_step f)\<^sup>*\<^sup>* s (s\<lparr>ml_surface := l'\<rparr>)" by (rule lift_surface [OF l'(1) s(4) refl])
    moreover have "mesh_step f (s\<lparr>ml_surface := l'\<rparr>) (s\<lparr>ml_surface := l'\<lparr>el_caller := Stopped\<rparr>, ml_main := Exited r\<rparr>)"
      using ms_through [of "s\<lparr>ml_surface := l'\<rparr>" r b f] l' s(1) by simp
    ultimately show ?thesis by (intro exI [of _ "s\<lparr>ml_surface := l'\<lparr>el_caller := Stopped\<rparr>, ml_main := Exited r\<rparr>"]) (simp add: rtranclp.rtrancl_into_rtrancl)
  qed
  show ?thesis
  proof (cases "el_caller (ml_surface s)")
    case Working
    let ?s = "s\<lparr>ml_surface := (ml_surface s)\<lparr>el_stop := True, el_caller := Stopping\<rparr>\<rparr>"
    have "mesh_step f s ?s" by (rule ms_stop [OF assms(1) Working])
    moreover have "\<exists>t. (mesh_step f)\<^sup>*\<^sup>* ?s t \<and> ml_main t = Exited r" by (rule stopping) (use assms in \<open>auto simp: mesh_inv_def\<close>)
    ultimately show ?thesis by (meson converse_rtranclp_into_rtranclp)
  next
    case Stopping
    then show ?thesis using stopping assms by (auto simp: mesh_inv_def)
  next
    case Stopped
    then show ?thesis using assms(1,2) by (simp add: mesh_inv_def)
  qed
qed

lemma stop_called:
  assumes "e2b_step\<^sup>*\<^sup>* s0 s" "e2b_Serve addr None cancelled = Inr s0"
  shows "el_caller s \<noteq> Working \<longrightarrow> el_stop s"
  using assms
proof (induction rule: rtranclp_induct)
  case base
  then show ?case by (auto simp: e2b_Serve_def)
next
  case (step s t)
  note IH = step.IH [OF step.prems]
  from step.hyps(2) show ?case by cases (use IH in \<open>auto simp: e2b_served_def\<close>)
qed

section \<open>Properties\<close>

text \<open>
  C39. \<^verbatim>\<open>sandbox-e2b\<close> ends cleanly. Whether its start succeeded or failed after the surface was listening, in every interleaving of its listeners, their
  connections and the main goroutine: when \<^verbatim>\<open>run\<close> is back, the surface's server is shut down and drained; when it is back without an error, a
  signal had come and the edge's server, where there is one, was drained too. And once the signal has come, \<^verbatim>\<open>run\<close> can
  always still come back.
\<close>

theorem mesh_run_ends:
  assumes "mesh_begin (mh_cancelled h) (mesh_run part h o') = Some s0" and "(mesh_step (mc_Proxy o'))\<^sup>*\<^sup>* s0 s"
  shows "(\<forall>r. ml_main s = Exited r \<longrightarrow> hs_shutdown (el_srv (ml_surface s)) \<and> (\<exists>idle. el_drain (ml_surface s) = Drained idle \<and> (idle \<longrightarrow> hs_conns (el_srv (ml_surface s)) = 0))
      \<and> (r = None \<longrightarrow> ml_ctx s \<and> (\<forall>p. ml_edge s = Some p \<longrightarrow> (\<exists>idle. pl_drain p = Drained idle \<and> (idle \<longrightarrow> hs_conns (pl_srv p) = 0)))))
    \<and> (ml_ctx s \<longrightarrow> (\<exists>t r. (mesh_step (mc_Proxy o'))\<^sup>*\<^sup>* s t \<and> ml_main t = Exited r))"
proof -
  let ?f = "mc_Proxy o'"
  obtain addr where l: "e2b_Serve addr None (mh_cancelled h) = Inr (ml_surface s0)" and inv0: "mesh_inv s0"
    and edge0: "\<And>p. ml_edge s0 = Some p \<Longrightarrow> proxy_Serve ?f (mh_cancelled h) = Inr p"
    using mesh_begins [OF assms(1)] by blast
  have inv: "mesh_inv s" by (rule mesh_inv_steps [OF assms(2) inv0])
  have surf: "e2b_step\<^sup>*\<^sup>* (ml_surface s0) (ml_surface s)" using mesh_projects [OF assms(2)] by blast
  have edge: "edge_listener.reachable ?f p" "case pl_main p of Returned None \<Rightarrow> (\<exists>b. pl_drain p = Drained b) | Returned (Some e) \<Rightarrow> \<not> err_Is e ErrServerClosed | _ \<Rightarrow> True"
    if p: "ml_edge s = Some p" for p
  proof -
    obtain p0 where "ml_edge s0 = Some p0" "(proxy_step ?f)\<^sup>*\<^sup>* p0 p"
      using mesh_projects [OF assms(2)] p by (cases "ml_edge s0") auto
    then show "edge_listener.reachable ?f p" "case pl_main p of Returned None \<Rightarrow> (\<exists>b. pl_drain p = Drained b) | Returned (Some e) \<Rightarrow> \<not> err_Is e ErrServerClosed | _ \<Rightarrow> True"
      using edge0 edge_reachable edge_returns by blast+
  qed
  have exited: "hs_shutdown (el_srv (ml_surface s)) \<and> (\<exists>idle. el_drain (ml_surface s) = Drained idle \<and> (idle \<longrightarrow> hs_conns (el_srv (ml_surface s)) = 0))
      \<and> (r = None \<longrightarrow> ml_ctx s \<and> (\<forall>p. ml_edge s = Some p \<longrightarrow> (\<exists>idle. pl_drain p = Drained idle \<and> (idle \<longrightarrow> hs_conns (pl_srv p) = 0))))"
    if r: "ml_main s = Exited r" for r
  proof -
    have "el_caller (ml_surface s) = Stopped" using inv r by (simp add: mesh_inv_def)
    moreover have "ml_ctx s \<and> (\<forall>p. ml_edge s = Some p \<longrightarrow> (\<exists>idle. pl_drain p = Drained idle \<and> (idle \<longrightarrow> hs_conns (pl_srv p) = 0)))" if "r = None"
      using inv r that edge edge_listener.drain_invariant by (fastforce simp: mesh_inv_def split: option.splits)
    ultimately show ?thesis using surface_drained [OF l surf] by blast
  qed
  have deferred: "\<exists>u r. (mesh_step ?f)\<^sup>*\<^sup>* s u \<and> ml_main u = Exited r"
    if t: "(mesh_step ?f)\<^sup>*\<^sup>* s t" "ml_main t = Deferred r" for t r
  proof -
    have "(mesh_step ?f)\<^sup>*\<^sup>* s0 t" using assms(2) t(1) by simp
    then have "el_caller (ml_surface t) = Stopping \<longrightarrow> el_stop (ml_surface t)"
      using mesh_projects stop_called [OF _ l] by force
    from deferred_exits [OF t(2) mesh_inv_steps [OF t(1) inv] this] show ?thesis using t(1) by (meson rtranclp_trans)
  qed
  have "\<exists>u r. (mesh_step ?f)\<^sup>*\<^sup>* s u \<and> ml_main u = Exited r" if ctx: "ml_ctx s"
  proof (cases "ml_main s")
    case AwaitSignal
    then have "mesh_step ?f s (s\<lparr>ml_main := Deferred None\<rparr>)" by (rule ms_waited [OF _ ctx])
    then show ?thesis using deferred [of "s\<lparr>ml_main := Deferred None\<rparr>" None] by auto
  next
    case InServe
    then obtain p where p: "ml_edge s = Some p" using inv by (auto simp: mesh_inv_def)
    obtain q r where q: "(proxy_step ?f)\<^sup>*\<^sup>* p q" "pl_main q = Returned r" using edge_returns_from [OF edge(1) [OF p]] by blast
    have "(mesh_step ?f)\<^sup>*\<^sup>* s (s\<lparr>ml_edge := Some q\<rparr>)" by (rule lift_edge [OF q(1) ctx p])
    moreover have "mesh_step ?f (s\<lparr>ml_edge := Some q\<rparr>) (s\<lparr>ml_edge := Some q, ml_main := Deferred r\<rparr>)"
      using ms_served [of "s\<lparr>ml_edge := Some q\<rparr>" q r ?f] InServe q(2) by simp
    ultimately have "(mesh_step ?f)\<^sup>*\<^sup>* s (s\<lparr>ml_edge := Some q, ml_main := Deferred r\<rparr>)" by (rule rtranclp.rtrancl_into_rtrancl)
    then show ?thesis by (rule deferred) simp
  next
    case (Deferred r)
    then show ?thesis using deferred by blast
  next
    case (Exited r)
    then show ?thesis by blast
  qed
  then show ?thesis using exited by blast
qed

section \<open>What a start wired together\<close>

lemma server_New_keeps:
  "server_New opts = Inr s \<Longrightarrow> so_EnvdSecret (sv_opts s) = so_EnvdSecret opts \<and> so_Domain (sv_opts s) = so_Domain opts"
  by (auto simp: server_New_def with_defaults_def Let_def split: sum.splits if_splits)

lemma ServerOptions_domain: "ServerOptions os aws fleet f = Inr (opts, b) \<Longrightarrow> so_Domain opts = fl_Domain f"
  by (auto simp: ServerOptions_def split: sum.splits)

lemma serve_e2b_server: "serve_e2b listen cancelled addr opts b = Inr sp \<Longrightarrow> server_New opts = Inr (sp_server sp)"
  by (auto simp: serve_e2b_def split: sum.splits)

lemma serve_edge_server:
  "serve_edge listen cancelled what st fleet ns secret opts f = Inr ed
    \<Longrightarrow> NewResolver (Some st) (Some fleet) ns secret = Inr (px_resolver (ed_server ed)) \<and> px_opts (ed_server ed) = opts"
  by (auto simp: serve_edge_def proxy_NewServer_def split: sum.splits option.splits if_splits)

text \<open>The surface and the edge of one process share the secret and the domain.\<close>

lemma mesh_run_shares:
  assumes "mesh_run part h o' = Inr p" "mp_edge p = Some ed"
  shows "NewResolver (Some (mp_store p)) (Some (map_source part mesh_source)) [] (so_EnvdSecret (sv_opts (sp_server (mp_surface p)))) = Inr (px_resolver (ed_server ed))
    \<and> so_Domain (sv_opts (sp_server (mp_surface p))) = fl_Domain (mc_E2B o') \<and> op_Domain (px_opts (ed_server ed)) = fl_Domain (mc_E2B o')"
  using assms
  by (auto simp: mesh_run_def Let_def split: go_splits dest!: serve_e2b_server server_New_keeps ServerOptions_domain serve_edge_server)

section \<open>A concrete mesh\<close>

text \<open>One node, \<open>h:1\<close>, with a warm sandbox of the template \<open>img\<close>; it answers every call, and its guest's port opens.\<close>

definition mesh_reply :: http_response where
  "mesh_reply = \<lparr>hp_StatusCode = 200, hp_Body = [], hp_Broken = None\<rparr>"

definition mesh_row :: SandboxSummary where
  "mesh_row = \<lparr>ss_ID = ''sb_0a'', ss_Key = \<lparr>pk_Template = ''img'', pk_Net = ''none'', pk_Size = ''small''\<rparr>, ss_Deadline = 0, ss_ClaimedAt = 0, ss_Hibernated = False,
     ss_Archived = False, ss_ClaimRef = ''team/x'', ss_Token = ''t1'', ss_Metadata = [], ss_CPUCount = 1, ss_MemTotalBytes = 1\<rparr>"

definition mesh_node_info :: NodeInfo where
  "mesh_node_info = \<lparr>nf_Pools = [\<lparr>nl_Key = \<lparr>pk_Template = ''img'', pk_Net = ''none'', pk_Size = ''small''\<rparr>, nl_Warm = 1, nl_Refilling = 0, nl_Target = 1, nl_Golden = True\<rparr>],
     nf_Templates = [], nf_Claimed = 0, nf_Hibernated = 0, nf_Archived = 0, nf_AdvertiseAddr = ''h:1'', nf_Peers = []\<rparr>"

definition mesh_claim_result :: ClaimResult where
  "mesh_claim_result = \<lparr>cr_ID = ''sb_0a'', cr_Token = ''t1'', cr_Deadline = 0, cr_OwnerAddr = ''h:1'', cr_NetRoute = [], cr_Redirect = []\<rparr>"

definition mesh_wire :: wire where
  "mesh_wire = \<lparr>wi_claim = (\<lambda>s. Inr []), wi_claim_reply = (\<lambda>r. Inr mesh_claim_result), wi_error = (\<lambda>b. b), wi_pools = (\<lambda>p. Inr []), wi_info = (\<lambda>b. Inr mesh_node_info),
     wi_renew = (\<lambda>r. Inr []), wi_deadline = (\<lambda>b. Inr 0), wi_fork = (\<lambda>f. Inr []), wi_children = (\<lambda>b. Inr []), wi_checkpoint = (\<lambda>c. Inr []),
     wi_captured = (\<lambda>b. Inl EOF), wi_checkpoints = (\<lambda>b. Inr []), wi_promote = (\<lambda>p. Inr []), wi_promoted = (\<lambda>b. Inl EOF), wi_labels = (\<lambda>l. Inr []),
     wi_summary = (\<lambda>b. Inr mesh_row), wi_sandboxes = (\<lambda>b. Inr [])\<rparr>"

definition mesh_http :: "MeshSource http_Client" where
  "mesh_http = \<lparr>hc_Timeout = 0, hc_Parse = (\<lambda>u. None), hc_Do = (\<lambda>t r w. (Inr mesh_reply, w))\<rparr>"

definition mesh_net :: "MeshSource process_net" where
  "mesh_net = \<lparr>pn_wire = mesh_wire,
     pn_network = \<lparr>nt_URL = (\<lambda>u. None), nt_Parse = (\<lambda>u. None), nt_Dial = (\<lambda>a w. (Inr 1, w)), nt_Handshake = (\<lambda>c n w. (None, w)), nt_Close = (\<lambda>c w. w),
       nt_Write = (\<lambda>c r w. (None, w)), nt_ReadResponse = (\<lambda>c n w. (Inr (mesh_reply\<lparr>hp_StatusCode := 101\<rparr>), w))\<rparr>,
     pn_zero = mesh_http, pn_transport = mesh_http\<rparr>"

definition mesh_empty :: MeshSource where
  "mesh_empty = \<lparr>ms_maxStale = 3, ms_members = [], ms_snap = mesh_snap_of []\<rparr>"

definition mesh_demo_host :: "MeshSource mesh_host" where
  "mesh_demo_host = \<lparr>mh_SetupLog = None,
     mh_os = \<lparr>os_ReadFile = os_ReadFile surface_os, os_MkdirAll = os_MkdirAll surface_os, os_OpenRoot = (\<lambda>p. Inl EOF)\<rparr>,
     mh_aws = (\<lambda>c. Inl EOF), mh_net = mesh_net, mh_marshal = (\<lambda>m. None), mh_tick1 = (mesh_empty, [''h:1''], [''h:1'']), mh_tick2 = (mesh_empty, [''h:1''], [''h:1'']),
     mh_Listen = (\<lambda>a. None), mh_cancelled = False\<rparr>"

definition mesh_demo_command :: mesh_command where
  "mesh_demo_command = mesh_defaults\<lparr>mc_Seeds := [''h:1''], mc_SandboxdToken := ''tok'', mc_E2B := surface_flags,
     mc_Proxy := \<lparr>pf_Addr = '':9'', pf_CertFile = [], pf_KeyFile = [], pf_GuestHTTP2 = False\<rparr>\<rparr>"

definition mesh_one :: MeshSource where
  "mesh_one =
     (let iv = \<lparr>ni_Name = [], ni_Node = ''h:1'', ni_Entries = [], ni_Address = ''h:1'',
                ni_Pools = [\<lparr>pc_Template = ''img'', pc_Net = ''none'', pc_Size = ''small'', pc_Warm = 1, pc_Target = 1\<rparr>], ni_Templates = [], ni_PublishedAt = 0\<rparr>
      in \<lparr>ms_maxStale = defaultMaxStale, ms_members = [(''h:1'', \<lparr>mm_seed = True, mm_fails = 0, mm_inv = Some iv\<rparr>)], ms_snap = mesh_snap_of [(''h:1'', iv)]\<rparr>)"

lemma mesh_get: "getJSON mesh_wire (node_Client mesh_net addr token) path f w = (case f [] of Inl e \<Rightarrow> Inl (Wrap (Msg ''sandboxd: decode %s reply: %w'' [path]) e) | Inr a \<Rightarrow> Inr a)"
  by (simp add: getJSON_def client_do_def node_Client_def client_New_def WithHTTPClient_def NewSandboxdHTTPClient_def mesh_net_def mesh_http_def mesh_reply_def decodeInto_def
      read_limited_def Let_def split: sum.split)

lemma mesh_dials: "mesh_dial mesh_demo_host token w addr = Inr (\<lparr>ni_Name = [], ni_Node = ''h:1'', ni_Entries = [], ni_Address = ''h:1'',
    ni_Pools = [\<lparr>pc_Template = ''img'', pc_Net = ''none'', pc_Size = ''small'', pc_Warm = 1, pc_Target = 1\<rparr>], ni_Templates = [], ni_PublishedAt = 0\<rparr>, [])"
proof -
  have host: "mh_net mesh_demo_host = mesh_net" "mh_marshal mesh_demo_host = (\<lambda>m. None)" "pn_wire mesh_net = mesh_wire" by (simp_all add: mesh_demo_host_def mesh_net_def)
  show ?thesis
    unfolding mesh_dial_def Let_def host client_Info_def client_Sandboxes_def listSandboxes_def mesh_get
    by (simp add: mesh_wire_def mesh_read_def mesh_node_info_def Let_def PoolCapacityFromInfo_def TemplatesFromInfo_def)
qed

lemma mesh_starts: "mesh_start mesh_demo_host token [''h:1''] = Inr mesh_one"
proof -
  have "mh_tick1 mesh_demo_host = (mesh_empty, [''h:1''], [''h:1''])" "mh_tick2 mesh_demo_host = (mesh_empty, [''h:1''], [''h:1''])"
    by (simp_all add: mesh_demo_host_def)
  then show ?thesis
    by (simp add: mesh_start_def mesh_dials mesh_New_def mesh_tick_def mesh_poll_def mesh_named_def mesh_dedupe_def mesh_merge_def mesh_account_all_def mesh_account_def
        mesh_heard_def mesh_key_def mesh_publish_def mesh_best_def mesh_consider_def mesh_byKey_def mesh_one_def map_filter_simps Let_def cmp_OrI_def defaultMaxStale_def)
qed

text \<open>What \<^verbatim>\<open>sandbox-e2b\<close> wires together over it.\<close>

definition mesh_store :: "MeshSource scatterGatherStore" where
  "mesh_store = routed_store mesh_net ''tok'' (map_source id mesh_source)"

definition mesh_server :: "MeshSource Server" where
  "mesh_server = \<lparr>sv_opts = \<lparr>so_Namespace = ''default'', so_Domain = ''d'', so_EnvdVersion = DefaultEnvdVersion, so_DefaultTimeoutSeconds = DefaultTimeoutSeconds,
     so_APIKeys = [''key team''], so_AllowAnonymous = False, so_Inventory = Some (map_source id mesh_source), so_TemplateAliases = [], so_EnvdSecret = ''x''\<rparr>,
     sv_keys = [(''key'', ''team'')], sv_aliases = [], sv_imageAliases = []\<rparr>"

definition mesh_edge :: "MeshSource proxy_server" where
  "mesh_edge = \<lparr>px_resolver = \<lparr>rv_claims = NewScatterGatherStore (map_source id mesh_source), rv_lifecycle = mesh_store, rv_inventory = map_source id mesh_source,
       rv_namespace = [], rv_secret = ''x'', rv_recent = []\<rparr>,
     px_opts = \<lparr>op_Domain = ''d'', op_GuestHTTP2 = False, op_NodeToken = ''tok''\<rparr>\<rparr>"

definition mesh_demo :: "MeshSource mesh_process" where
  "mesh_demo = \<lparr>mp_source = mesh_one, mp_store = mesh_store,
     mp_surface = \<lparr>sp_server = mesh_server, sp_builds = no_builds, sp_exec = executor_New 0 0 0,
       sp_listener = \<lparr>el_ctx = False, el_stop = False, el_srv = http_fresh, el_drain = WaitCtx, el_serving = True, el_logged = [], el_caller = Working\<rparr>\<rparr>,
     mp_edge = Some \<lparr>ed_server = mesh_edge, ed_listener = listener_start\<rparr>\<rparr>"

lemma mesh_demo_runs: "mesh_run id mesh_demo_host mesh_demo_command = Inr mesh_demo"
proof -
  have t: "path_Clean ''k'' = ''k''" "path_Clean ''s'' = ''s''" "strings_TrimSpace ''key team'' = ''key team''"
    "strings_TrimSpace ''x'' = ''x''" "strings_TrimSpace ''d'' = ''d''" "strings_Fields ''key team'' = [''key'', ''team'']"
    "strings_HasPrefix ''key team'' ''#'' = False" "strings_TrimSpace ''tok'' = ''tok''" by code_simp+
  have host: "mh_SetupLog mesh_demo_host = None" "mh_net mesh_demo_host = mesh_net" "mh_Listen mesh_demo_host = (\<lambda>a. None)" "\<not> mh_cancelled mesh_demo_host"
    by (simp_all add: mesh_demo_host_def)
  have cmd: "mc_Seeds mesh_demo_command = [''h:1'']" "mc_SandboxdToken mesh_demo_command = ''tok''" "mc_SandboxdTokenFile mesh_demo_command = []"
    "mc_E2B mesh_demo_command = surface_flags" "mc_Proxy mesh_demo_command = \<lparr>pf_Addr = '':9'', pf_CertFile = [], pf_KeyFile = [], pf_GuestHTTP2 = False\<rparr>"
    by (simp_all add: mesh_demo_command_def mesh_defaults_def)
  let ?opts = "\<lparr>so_Namespace = ''default'', so_Domain = ''d'', so_EnvdVersion = [], so_DefaultTimeoutSeconds = 0, so_APIKeys = [''key team''],
      so_AllowAnonymous = False, so_Inventory = Some (map_source id mesh_source), so_TemplateAliases = [], so_EnvdSecret = ''x''\<rparr>"
  have opts: "ServerOptions (mh_os mesh_demo_host) (mh_aws mesh_demo_host) (map_source id mesh_source) surface_flags = Inr (?opts, no_builds)"
    by (simp add: mesh_demo_host_def ServerOptions_def fileLines_def EnvdSecret_def buildOptions_def surface_os_def surface_flags_def NewFlags_def t)
  have server: "server_New ?opts = Inr mesh_server"
    by (simp add: server_New_def with_defaults_def cmp_Or_def cmp_OrI_def Let_def t mesh_server_def)
  have flags: "fl_Domain surface_flags = ''d''" by (simp add: surface_flags_def)
  show ?thesis
    by (simp add: mesh_run_def host cmd TokenFrom_def mesh_starts opts serve_e2b_def server e2b_Serve_def serve_edge_def NewResolver_def proxy_NewServer_def t proxy_Serve_def
        mesh_demo_def mesh_edge_def mesh_store_def listener_start_def Let_def flags no_builds_def)
qed

text \<open>The process after its signal.\<close>

theorem mesh_run_ends_witness:
  "\<exists>s0 t r. mesh_begin False (mesh_run id mesh_demo_host mesh_demo_command) = Some s0 \<and> ml_main s0 = InServe
     \<and> (mesh_step (mc_Proxy mesh_demo_command))\<^sup>*\<^sup>* (s0\<lparr>ml_ctx := True\<rparr>) t \<and> ml_main t = Exited r"
proof -
  let ?r = "mesh_run id mesh_demo_host mesh_demo_command"
  have quiet: "mh_cancelled mesh_demo_host = False" by (simp add: mesh_demo_host_def)
  obtain s0 where s0: "mesh_begin False ?r = Some s0" "\<not> ml_ctx s0" "ml_main s0 = InServe"
    by (simp add: mesh_demo_runs mesh_begin_def mesh_demo_def)
  have "(mesh_step (mc_Proxy mesh_demo_command))\<^sup>*\<^sup>* s0 (s0\<lparr>ml_ctx := True\<rparr>)" using ms_signal [OF s0(2)] by auto
  from mesh_run_ends [OF _ this, where part = id and h = mesh_demo_host] s0 show ?thesis by (auto simp: quiet)
qed

section \<open>A create on the concrete mesh\<close>

definition mesh_envd :: "MeshSource envd_io" where
  "mesh_envd = \<lparr>eo_Write = (\<lambda>c r w. (None, w)), eo_ReadResponse = (\<lambda>c w. (Inr (mesh_reply\<lparr>hp_StatusCode := 204\<rparr>), w)), eo_Close = (\<lambda>c w. w),
     eo_init = (\<lambda>i. []), eo_start = (\<lambda>p. []), eo_metrics = (\<lambda>b. Inl EOF), eo_envs = (\<lambda>b. Inl EOF), eo_event = demo_event, eo_sha512 = (\<lambda>t. t)\<rparr>"

definition mesh_assignment :: Assignment where
  "mesh_assignment = \<lparr>as_SandboxName = ''sb_0a'', as_Node = ''h:1'', as_Address = ''h:1'', as_Token = ''t1'', as_Deadline = 0, as_NetRoute = []\<rparr>"

lemma mesh_fleet:
  "src_ListNodes (map_source id mesh_source) mesh_one = Inr [''h:1'']"
  "src_NodeCapacity (map_source id mesh_source) mesh_one ''h:1'' = Inr (''h:1'', [\<lparr>pc_Template = ''img'', pc_Net = ''none'', pc_Size = ''small'', pc_Warm = 1, pc_Target = 1\<rparr>])"
  "src_NodeCapacities (map_source id mesh_source) mesh_one =
     Inr [\<lparr>np_Node = ''h:1'', np_Address = ''h:1'', np_Pools = [\<lparr>pc_Template = ''img'', pc_Net = ''none'', pc_Size = ''small'', pc_Warm = 1, pc_Target = 1\<rparr>], np_Templates = []\<rparr>]"
  "src_NodeInventory (map_source id mesh_source) mesh_one n = Inr iv \<Longrightarrow> ni_Entries iv = []"
  by (auto simp: map_source_def mesh_source_def mesh_one_def mesh_ListNodes_def mesh_NodeCapacity_def mesh_NodeCapacities_def mesh_NodeInventory_def mesh_snap_of_def Let_def
      map_filter_simps split: if_splits)

lemma mesh_claim: "cl_Claim (NewSandboxdClientFactory mesh_net addr token) spec w = (Inr mesh_claim_result, w)"
  by (simp add: NewSandboxdClientFactory_def sandboxd_client_def client_Claim_def node_Client_def client_New_def WithHTTPClient_def NewSandboxdHTTPClient_def
      mesh_net_def mesh_http_def mesh_wire_def mesh_reply_def mesh_claim_result_def Let_def)

lemma mesh_reads: "cl_Sandbox (NewSandboxdClientFactory mesh_net addr token) ''sb_0a'' w = Inr mesh_row"
proof -
  have wire: "pn_wire mesh_net = mesh_wire" by (simp add: mesh_net_def)
  show ?thesis by (simp add: NewSandboxdClientFactory_def sandboxd_client_def client_Sandbox_def wire mesh_get) (simp add: mesh_wire_def)
qed

lemma mesh_opens: "cl_DialPort (NewSandboxdClientFactory mesh_net addr tok) sid token port w = (Inr 1, w)"
  by (simp add: NewSandboxdClientFactory_def sandboxd_client_def client_DialPort_def DialPort_def port_upgrade_def mesh_net_def mesh_reply_def split_beta Let_def)

lemma mesh_store_parts: "sg_src mesh_store = map_source id mesh_source" "sg_factory mesh_store = Some (NewSandboxdClientFactory mesh_net)" "sg_token mesh_store = ''tok''"
  by (simp_all add: mesh_store_def routed_store_def WithClaimRouting_def NewScatterGatherStore_def)

lemma mesh_creates:
  "\<exists>sb st. createSandbox accounting_env mesh_envd mesh_server mesh_store ''team'' (Body accounting_request) mesh_one = (WriteJSON 201 (J_Sandbox sb), st, mesh_one)
     \<and> es_SandboxID sb = ''sb-0a'' \<and> es_EnvdAccessToken sb = ''7431'' \<and> es_Domain sb = ''d''"
  "claimed accounting_env mesh_server mesh_store ''team'' (Body accounting_request) mesh_one = Some mesh_assignment"
proof -
  have pool: "create_pool mesh_server accounting_request = \<lparr>pk_Template = ''img'', pk_Net = ''none'', pk_Size = ''small''\<rparr>"
    by (simp add: create_pool_def server_poolKey_def mesh_server_def accounting_request_def netFor_def NetDefault_def SizeClassSmall_def)
  have refusal: "create_refusal accounting_request = None" by code_simp
  obtain st where claim: "create_claim accounting_env mesh_server mesh_store ''team'' accounting_request mesh_one = (True, False, Inr mesh_assignment, st, mesh_one)"
    and st: "sg_src st = sg_src mesh_store" "sg_factory st = sg_factory mesh_store"
    by (simp add: create_claim_def pool Claim_def mesh_store_parts mesh_fleet warmCandidates_def poolCapacityMatches_def cmp_Or_def claim_loop.simps claim_attempt_def
        pickPowerOfTwo_def mesh_claim redirect_targets_def mesh_assignment_def mesh_claim_result_def Let_def)
  then show "claimed accounting_env mesh_server mesh_store ''team'' (Body accounting_request) mesh_one = Some mesh_assignment"
    by (simp add: claimed_def decodeBody_def refusal)
  have dial: "DialGuestPort st ''h:1'' i relay p mesh_one = (Inr 1, mesh_one)" for i relay p
    by (simp add: DialGuestPort_def with_client_def nodeClient_def st mesh_store_parts mesh_fleet mesh_opens)
  have init: "create_init accounting_env mesh_envd st mesh_assignment accounting_request token False mesh_one = (None, mesh_one)" for token
    by (simp add: create_init_def initEnvd_def envdCallOver_def envdRoundTrip_def mesh_assignment_def dial mesh_envd_def mesh_reply_def read_limited_def envdReplyMax_def Let_def)
  have "PublicID (ev_lower accounting_env) ''sb_0a'' = ''sb-0a''" "access_token accounting_env mesh_server ''t1'' = ''7431''"
    unfolding accounting_env_def mesh_server_def access_token_def by code_simp+
  with claim init show "\<exists>sb st. createSandbox accounting_env mesh_envd mesh_server mesh_store ''team'' (Body accounting_request) mesh_one = (WriteJSON 201 (J_Sandbox sb), st, mesh_one)
     \<and> es_SandboxID sb = ''sb-0a'' \<and> es_EnvdAccessToken sb = ''7431'' \<and> es_Domain sb = ''d''"
    by (simp add: createSandbox_def decodeBody_def refusal sandboxOf_def mesh_assignment_def Let_def) (simp add: mesh_server_def)
qed

lemma mesh_holds: "holds_sandbox edge_env0 (px_resolver mesh_edge) mesh_one ''sb-0a'' ''h:1'' \<lparr>ow_ClaimID = ''sb_0a'', ow_Address = ''h:1'', ow_Token = ''t1''\<rparr>"
  by (auto simp: holds_sandbox_def edge_env0_def mesh_edge_def nodeAddress_def mesh_fleet store_Read_def nodeClient_def mesh_store_parts mesh_reads dest: mesh_fleet(4))
    (simp add: mesh_row_def)

end
