(* ===== verification/Store_Watch.thy ===== *)
theory Store_Watch
  imports Store_Read
begin

text \<open>
  The watch of the store (\<^verbatim>\<open>runWatch\<close> in pkg/scale/sandboxstore\_impl.go) as a state machine: its state
  is the map \<^verbatim>\<open>known\<close> of what it last reported, a tick polls the world and emits the difference. A
  watcher that stops, or a context that ends, cuts the event stream off; the stream here is the whole
  one. The order in which a tick ranges over \<^verbatim>\<open>known\<close> for deletions is an argument.
\<close>

datatype watch_event = Added Sandbox | Modified Sandbox | Deleted Sandbox | Bookmark Sandbox

type_synonym known = "(string \<times> Sandbox) list"

definition InitialEventsAnnotationKey :: string where "InitialEventsAnnotationKey = ''k8s.io/initial-events-end''"

text \<open>The initial list: every item is known and added.\<close>

definition watch_initial :: "Sandbox list \<Rightarrow> watch_event list \<times> known" where
  "watch_initial items =
     (map Added items, foldl (\<lambda>known sb. AList.update (objKey sb) sb known) [] items)"

text \<open>The first loop of a tick: what is new or changed, with the map \<^verbatim>\<open>cur\<close> it builds.\<close>

fun watch_scan :: "known \<Rightarrow> Sandbox list \<Rightarrow> known \<Rightarrow> watch_event list \<times> known" where
  "watch_scan known [] cur = ([], cur)"
| "watch_scan known (sb # items) cur =
     (let k = objKey sb;
          (evs, cur') = watch_scan known items (AList.update k sb cur)
      in (case map_of known k of
            None \<Rightarrow> Added sb # evs
          | Some prev \<Rightarrow> if sb_ResourceVersion prev \<noteq> sb_ResourceVersion sb then Modified sb # evs else evs, cur'))"

text \<open>The second loop: what is gone, unless its own node still holds it.\<close>

fun watch_sweep :: "(Sandbox \<Rightarrow> bool) \<Rightarrow> known \<Rightarrow> string list \<Rightarrow> known \<Rightarrow> watch_event list \<times> known" where
  "watch_sweep held known [] cur = ([], cur)"
| "watch_sweep held known (k # ks) cur =
     (case map_of known k of
        None \<Rightarrow> watch_sweep held known ks cur
      | Some prev \<Rightarrow>
          if map_of cur k \<noteq> None then watch_sweep held known ks cur
          else if held prev then watch_sweep held known ks (AList.update k prev cur)
          else (let (evs, cur') = watch_sweep held known ks cur in (Deleted prev # evs, cur')))"

definition watch_tick :: "(Sandbox \<Rightarrow> bool) \<Rightarrow> string list \<Rightarrow> Sandbox list \<Rightarrow> known \<Rightarrow> watch_event list \<times> known" where
  "watch_tick held ord items known =
     (let (evs, cur) = watch_scan known items [];
          (evs', cur') = watch_sweep held known ord cur
      in (evs @ evs', cur'))"

definition watch_poll :: "(string list \<Rightarrow> string list) \<Rightarrow> 'w scatterGatherStore \<Rightarrow> 'w \<Rightarrow> string \<Rightarrow> selectors \<Rightarrow> known
   \<Rightarrow> err + Sandbox list" where
  "watch_poll sched s w namespace sel known =
     (case pinnedName namespace sel of
        Some name \<Rightarrow> pollPinned sched s w namespace name (map_of known (namespacedName namespace name)) sel
      | None \<Rightarrow> listInventories s w namespace sel)"

definition watch_held :: "metadata_encoder \<Rightarrow> 'w scatterGatherStore \<Rightarrow> 'w \<Rightarrow> string \<Rightarrow> selectors \<Rightarrow> Sandbox \<Rightarrow> bool" where
  "watch_held marshal s w namespace sel prev =
     (pinnedName namespace sel \<noteq> None \<and> heldByNode marshal s w prev sel)"

text \<open>One tick of the ticker; a failed poll reports nothing and keeps what is known.\<close>

definition watch_step :: "metadata_encoder \<Rightarrow> (string list \<Rightarrow> string list) \<Rightarrow> string list \<Rightarrow> 'w scatterGatherStore \<Rightarrow> string
   \<Rightarrow> selectors \<Rightarrow> 'w \<Rightarrow> known \<Rightarrow> watch_event list \<times> known" where
  "watch_step marshal sched ord s namespace sel w known =
     (case watch_poll sched s w namespace sel known of
        Inl e \<Rightarrow> ([], known)
      | Inr items \<Rightarrow> watch_tick (watch_held marshal s w namespace sel) ord items known)"

definition watch_start :: "metadata_encoder \<Rightarrow> (string list \<Rightarrow> string list) \<Rightarrow> (string list \<Rightarrow> string list)
   \<Rightarrow> 'w scatterGatherStore \<Rightarrow> ListOptions \<Rightarrow> selectors \<Rightarrow> 'w \<Rightarrow> (watch_event list \<times> known) \<times> 'w scatterGatherStore" where
  "watch_start marshal sched sched' s opts sel w =
     (let (r, s') = listItems marshal sched sched' s w (lo_Namespace opts) sel;
          (evs, known) = (case r of Inl e \<Rightarrow> ([], []) | Inr items \<Rightarrow> watch_initial items);
          mark = (if lo_WatchList opts
                  then [Bookmark (empty_Sandbox\<lparr>sb_Annotations := [InitialEventsAnnotationKey \<mapsto> ''true'']\<rparr>)] else [])
      in ((evs @ mark, known), s'))"

text \<open>The ticks after the start: the worlds they find and the orders they sweep in.\<close>

fun watch_ticks :: "metadata_encoder \<Rightarrow> (string list \<Rightarrow> string list) \<Rightarrow> 'w scatterGatherStore \<Rightarrow> string \<Rightarrow> selectors
   \<Rightarrow> ('w \<times> string list) list \<Rightarrow> known \<Rightarrow> watch_event list \<times> known" where
  "watch_ticks marshal sched s namespace sel [] known = ([], known)"
| "watch_ticks marshal sched s namespace sel ((w, ord) # ws) known =
     (let (evs, known') = watch_step marshal sched ord s namespace sel w known;
          (evs', known'') = watch_ticks marshal sched s namespace sel ws known'
      in (evs @ evs', known''))"

section \<open>A client of the watch\<close>

text \<open>What a client that applies the events holds: the objects by namespace and name.\<close>

fun apply_event :: "watch_event \<Rightarrow> (string \<rightharpoonup> Sandbox) \<Rightarrow> (string \<rightharpoonup> Sandbox)" where
  "apply_event (Added sb) v = v(objKey sb \<mapsto> sb)"
| "apply_event (Modified sb) v = v(objKey sb \<mapsto> sb)"
| "apply_event (Deleted sb) v = v(objKey sb := None)"
| "apply_event (Bookmark sb) v = v"

definition replay :: "watch_event list \<Rightarrow> (string \<rightharpoonup> Sandbox) \<Rightarrow> (string \<rightharpoonup> Sandbox)" where
  "replay evs v = fold apply_event evs v"

definition versions :: "(string \<rightharpoonup> Sandbox) \<Rightarrow> string \<rightharpoonup> string" where
  "versions v k = map_option sb_ResourceVersion (v k)"

text \<open>An event is legal for a client: it adds what is absent, changes or deletes what is present.\<close>

fun legal :: "watch_event \<Rightarrow> (string \<rightharpoonup> Sandbox) \<Rightarrow> bool" where
  "legal (Added sb) v = (v (objKey sb) = None)"
| "legal (Modified sb) v = (v (objKey sb) \<noteq> None)"
| "legal (Deleted sb) v = (v (objKey sb) \<noteq> None)"
| "legal (Bookmark sb) v = True"

fun all_legal :: "watch_event list \<Rightarrow> (string \<rightharpoonup> Sandbox) \<Rightarrow> bool" where
  "all_legal [] v = True"
| "all_legal (e # es) v = (legal e v \<and> all_legal es (apply_event e v))"

definition known_ok :: "known \<Rightarrow> bool" where
  "known_ok known \<longleftrightarrow> (\<forall>(k, sb)\<in>set known. objKey sb = k)"

text \<open>
  The polls of a run are unambiguous: each lists a key once, and each sweep ranges over every known key
  once, in whatever order.
\<close>

fun watch_ok :: "metadata_encoder \<Rightarrow> (string list \<Rightarrow> string list) \<Rightarrow> 'w scatterGatherStore \<Rightarrow> string \<Rightarrow> selectors
   \<Rightarrow> ('w \<times> string list) list \<Rightarrow> known \<Rightarrow> bool" where
  "watch_ok marshal sched s namespace sel [] known = True"
| "watch_ok marshal sched s namespace sel ((w, ord) # ws) known =
     (distinct ord \<and> set ord = fst ` set known
      \<and> (case watch_poll sched s w namespace sel known of
           Inl e \<Rightarrow> True | Inr items \<Rightarrow> distinct (map objKey items))
      \<and> watch_ok marshal sched s namespace sel ws (snd (watch_step marshal sched ord s namespace sel w known)))"

definition item_map :: "Sandbox list \<Rightarrow> string \<rightharpoonup> Sandbox" where
  "item_map items = map_of (map (\<lambda>sb. (objKey sb, sb)) items)"

lemma item_map_Nil [simp]: "item_map [] = Map.empty"
  by (simp add: item_map_def)

lemma item_map_Cons [simp]: "item_map (sb # items) = (item_map items)(objKey sb \<mapsto> sb)"
  by (simp add: item_map_def)

lemma item_map_None: "item_map items k = None \<longleftrightarrow> k \<notin> objKey ` set items"
  by (induction items) auto

lemma item_map_objKey: "item_map items k = Some sb \<Longrightarrow> objKey sb = k"
  by (induction items) (auto split: if_splits)

lemma replay_simps [simp]:
  "replay [] v = v" "replay (e # es) v = replay es (apply_event e v)"
  by (simp_all add: replay_def)

lemma replay_append: "replay (es @ es') v = replay es' (replay es v)"
  by (simp add: replay_def)

lemma all_legal_append: "all_legal (es @ es') v \<longleftrightarrow> all_legal es v \<and> all_legal es' (replay es v)"
  by (induction es arbitrary: v) auto

lemma versions_None: "versions v k = None \<longleftrightarrow> v k = None"
  by (simp add: versions_def)

lemma versions_upd [simp]: "versions (v(k \<mapsto> sb)) = (versions v)(k \<mapsto> sb_ResourceVersion sb)"
  by (auto simp: versions_def)

lemma scan_cur:
  "distinct (map objKey items) \<Longrightarrow>
   map_of (snd (watch_scan known items cur)) k = (case item_map items k of None \<Rightarrow> map_of cur k | Some sb \<Rightarrow> Some sb)"
proof (induction known items cur rule: watch_scan.induct)
  case (2 known sb items cur)
  have "item_map items (objKey sb) = None" using 2 by (simp add: item_map_None)
  with 2 show ?case by (auto simp: Let_def update_conv' split: prod.splits option.splits)
qed simp

text \<open>The first loop tells a client whose versions are the known ones exactly what the poll listed.\<close>

lemma scan_events:
  "distinct (map objKey items) \<Longrightarrow> (\<And>k. k \<in> objKey ` set items \<Longrightarrow> versions v k = versions (map_of known) k) \<Longrightarrow>
   all_legal (fst (watch_scan known items cur)) v
   \<and> versions (replay (fst (watch_scan known items cur)) v) = versions v ++ versions (item_map items)"
proof (induction known items cur arbitrary: v rule: watch_scan.induct)
  case (2 known sb items cur)
  let ?rest = "fst (watch_scan known items (AList.update (objKey sb) sb cur))"
  have ver: "versions v (objKey sb) = versions (map_of known) (objKey sb)" by (rule 2(3)) simp
  have fresh: "objKey sb \<notin> objKey ` set items" using 2(2) by simp
  have rest: "all_legal ?rest v' \<and> versions (replay ?rest v') = versions v' ++ versions (item_map items)"
    if "v' = v \<or> v' = v(objKey sb \<mapsto> sb)" for v'
  proof (rule 2(1))
    show "distinct (map objKey items)" using 2(2) by simp
    show "versions v' k = versions (map_of known) k" if "k \<in> objKey ` set items" for k
    proof -
      have "k \<noteq> objKey sb" using that fresh by blast
      then show ?thesis using 2(3) [of k] that \<open>v' = v \<or> v' = v(objKey sb \<mapsto> sb)\<close> by auto
    qed
  qed simp_all
  have none: "versions (item_map items) (objKey sb) = None" using fresh by (simp add: item_map_None versions_None)
  have pres: "v (objKey sb) = None \<longleftrightarrow> map_of known (objKey sb) = None"
    using ver versions_None by metis
  have same: "(versions v ++ versions (item_map items))(objKey sb \<mapsto> sb_ResourceVersion prev)
      = versions v ++ versions (item_map items)" if "map_of known (objKey sb) = Some prev" for prev
    using that ver none by (auto simp: versions_def map_add_def fun_eq_iff split: option.splits)
  have listed: "versions v ++ versions (item_map (sb # items))
      = (versions v ++ versions (item_map items))(objKey sb \<mapsto> sb_ResourceVersion sb)"
    by (simp del: fun_upd_apply)
  show ?case
    using pres same rest [of "v(objKey sb \<mapsto> sb)"] rest [of v] none
    by (auto simp: Let_def map_add_upd_left domIff listed simp del: item_map_Cons fun_upd_apply split: prod.splits option.splits)
qed (auto simp: versions_def map_add_def fun_eq_iff)

text \<open>The second loop deletes what is known, not listed and not held, and keeps what is held.\<close>

lemma sweep_cur:
  "map_of (snd (watch_sweep held known ks cur)) k =
     (if map_of cur k = None \<and> k \<in> set ks
      then (case map_of known k of None \<Rightarrow> None | Some prev \<Rightarrow> if held prev then Some prev else None)
      else map_of cur k)"
  by (induction held known ks cur rule: watch_sweep.induct)
     (auto simp: Let_def update_conv' split: prod.splits option.splits)

lemma sweep_events:
  assumes "known_ok known"
  shows "distinct ks \<Longrightarrow> \<forall>k\<in>set ks. map_of cur k = None \<longrightarrow> versions v k = versions (map_of known) k
   \<Longrightarrow> all_legal (fst (watch_sweep held known ks cur)) v
     \<and> (\<forall>k. replay (fst (watch_sweep held known ks cur)) v k =
         (if map_of cur k = None \<and> k \<in> set ks \<and> (\<exists>prev. map_of known k = Some prev \<and> \<not> held prev)
          then None else v k))"
proof (induction ks arbitrary: cur v)
  case (Cons k ks)
  show ?case
  proof (cases "map_of known k")
    case None
    with Cons(1) [of cur v] Cons(2,3) show ?thesis by auto
  next
    case (Some prev)
    have key: "objKey prev = k" using Some assms by (auto simp: known_ok_def dest!: map_of_SomeD)
    show ?thesis
    proof (cases "map_of cur k")
      case None
      have fresh: "k \<notin> set ks" "distinct ks" using Cons(2) by auto
      have "v k \<noteq> None" using Cons(3) Some None by (auto simp: versions_def)
      moreover have "\<forall>k'\<in>set ks. map_of cur k' = None \<longrightarrow> versions (v(k := None)) k' = versions (map_of known) k'"
        using Cons(3) fresh by (auto simp: versions_def)
      note gone = Cons(1) [OF fresh(2) this]
      moreover have "\<forall>k'\<in>set ks. map_of (AList.update k prev cur) k' = None \<longrightarrow> versions v k' = versions (map_of known) k'"
        using Cons(3) fresh by (auto simp: update_conv')
      note kept = Cons(1) [OF fresh(2) this]
      ultimately show ?thesis
        using fresh Some None key kept
        by (cases "watch_sweep held known ks cur") (auto simp: Let_def update_conv' simp del: fun_upd_apply, auto split: if_splits)
    next
      case (Some sb)
      with Cons(1) [of cur v] Cons(2,3) \<open>map_of known k = Some prev\<close> show ?thesis by auto
    qed
  qed
qed simp

lemma known_ok_update: "known_ok m \<Longrightarrow> objKey sb = k \<Longrightarrow> known_ok (AList.update k sb m)"
  by (induction m) (auto simp: known_ok_def)

lemma known_ok_scan: "known_ok cur \<Longrightarrow> known_ok (snd (watch_scan known items cur))"
proof (induction known items cur rule: watch_scan.induct)
  case (2 known sb items cur)
  have "known_ok (AList.update (objKey sb) sb cur)" using 2(2) by (rule known_ok_update) simp
  with 2(1) show ?case by (auto simp: Let_def split: prod.splits)
qed simp

text \<open>One tick: a client that agreed with what was known agrees with what is known afterwards.\<close>

lemma tick_refines:
  assumes known: "known_ok known" and items: "distinct (map objKey items)"
    and ord: "distinct ord" "set ord = fst ` set known"
    and v: "versions v = versions (map_of known)"
  shows "all_legal (fst (watch_tick held ord items known)) v
    \<and> versions (replay (fst (watch_tick held ord items known)) v) = versions (map_of (snd (watch_tick held ord items known)))"
proof -
  obtain evs cur where scan: "watch_scan known items [] = (evs, cur)" by (metis surj_pair)
  obtain evs' cur' where sweep: "watch_sweep held known ord cur = (evs', cur')" by (metis surj_pair)
  have cur: "map_of cur k = item_map items k" for k
    using scan_cur [OF items, of known "[]" k] scan by (simp split: option.splits)
  have one: "all_legal evs v"
    "versions (replay evs v) k = (case item_map items k of None \<Rightarrow> versions v k | Some sb \<Rightarrow> Some (sb_ResourceVersion sb))" for k
    using scan_events [OF items, of v known "[]"] v scan by (auto simp: map_add_def versions_def split: option.splits)
  have two: "all_legal evs' (replay evs v)"
    "replay evs' (replay evs v) k =
       (if map_of cur k = None \<and> k \<in> set ord \<and> (\<exists>prev. map_of known k = Some prev \<and> \<not> held prev)
        then None else replay evs v k)" for k
    using sweep_events [OF known ord(1), of cur "replay evs v" held] sweep one(2) v cur by simp_all
  have "versions (replay evs' (replay evs v)) k = versions (map_of cur') k" for k
  proof (cases "map_of cur k = None \<and> k \<in> set ord")
    case True
    with two(2) [of k] one(2) [of k] cur [of k] v sweep_cur [of held known ord cur k] sweep show ?thesis
      by (auto simp: versions_def split: option.splits)
  next
    case False
    then have "map_of cur' k = map_of cur k" "replay evs' (replay evs v) k = replay evs v k"
      using two(2) [of k] sweep_cur [of held known ord cur k] sweep by auto
    moreover have "map_of known k = None" if "map_of cur k = None" using that False ord(2) by (simp add: map_of_eq_None_iff)
    ultimately show ?thesis using one(2) [of k] cur [of k] v
      by (cases "item_map items k") (auto simp: versions_def)
  qed
  with one(1) two(1) scan sweep show ?thesis
    by (auto simp: watch_tick_def replay_append all_legal_append)
qed

lemma known_ok_sweep: "known_ok known \<Longrightarrow> known_ok cur \<Longrightarrow> known_ok (snd (watch_sweep held known ks cur))"
proof (induction ks arbitrary: cur)
  case (Cons k ks)
  have "objKey prev = k" if "map_of known k = Some prev" for prev
    using that Cons(2) by (auto simp: known_ok_def dest!: map_of_SomeD)
  with Cons show ?case
    by (auto simp: Let_def known_ok_update split: option.splits prod.splits) (metis snd_conv)+
qed simp

lemma known_ok_tick: "known_ok known \<Longrightarrow> known_ok (snd (watch_tick held ord items known))"
  using known_ok_scan [of "[]" known items] known_ok_sweep [of known]
  by (auto simp: watch_tick_def known_ok_def [of "[]"] split: prod.splits) (metis snd_conv)

lemma step_refines:
  assumes "known_ok known" "distinct ord" "set ord = fst ` set known" "versions v = versions (map_of known)"
    and "\<And>items. watch_poll sched s w namespace sel known = Inr items \<Longrightarrow> distinct (map objKey items)"
    and "watch_step marshal sched ord s namespace sel w known = (evs, known')"
  shows "known_ok known' \<and> all_legal evs v \<and> versions (replay evs v) = versions (map_of known')"
proof (cases "watch_poll sched s w namespace sel known")
  case (Inr items)
  let ?held = "watch_held marshal s w namespace sel"
  have tick: "watch_tick ?held ord items known = (evs, known')" using assms(6) Inr by (simp add: watch_step_def)
  have "distinct (map objKey items)" using assms(5) Inr by blast
  from tick_refines [OF assms(1) this assms(2-4), of ?held] known_ok_tick [OF assms(1), of ?held ord items]
  show ?thesis by (simp add: tick)
qed (use assms in \<open>simp add: watch_step_def\<close>)

lemma ticks_refine:
  "known_ok known \<Longrightarrow> versions v = versions (map_of known) \<Longrightarrow> watch_ok marshal sched s namespace sel ws known
   \<Longrightarrow> watch_ticks marshal sched s namespace sel ws known = (evs, known')
   \<Longrightarrow> known_ok known' \<and> all_legal evs v \<and> versions (replay evs v) = versions (map_of known')"
proof (induction marshal sched s namespace sel ws known arbitrary: v evs rule: watch_ticks.induct)
  case (2 marshal sched s namespace sel w ord ws known)
  obtain es k1 where step: "watch_step marshal sched ord s namespace sel w known = (es, k1)" by (metis surj_pair)
  obtain es' where rest: "watch_ticks marshal sched s namespace sel ws k1 = (es', known')" "evs = es @ es'"
    using 2(5) step by (auto split: prod.splits)
  have ok: "watch_ok marshal sched s namespace sel ws k1" using 2(4) step by simp
  have one: "known_ok k1 \<and> all_legal es v \<and> versions (replay es v) = versions (map_of k1)"
    by (rule step_refines [OF 2(2) _ _ 2(3) _ step]) (use 2(4) in auto)
  have "known_ok known' \<and> all_legal es' (replay es v) \<and> versions (replay es' (replay es v)) = versions (map_of known')"
    by (rule 2(1) [OF step [symmetric] refl _ _ ok rest(1)]) (use one in simp_all)
  with one rest(2) show ?case by (simp add: all_legal_append replay_append)
qed simp

lemma initial_events:
  "versions v = versions (map_of known) \<Longrightarrow> known_ok known \<Longrightarrow>
   versions (replay (map Added items) v) = versions (map_of (foldl (\<lambda>known sb. AList.update (objKey sb) sb known) known items))
   \<and> known_ok (foldl (\<lambda>known sb. AList.update (objKey sb) sb known) known items)"
proof (induction items arbitrary: v known)
  case (Cons sb items)
  have "versions (v(objKey sb \<mapsto> sb)) = versions (map_of (AList.update (objKey sb) sb known))"
    using Cons(2) by (simp add: update_conv' del: fun_upd_apply)
  from Cons(1) [OF this] Cons(3) show ?case by (simp add: known_ok_update del: fun_upd_apply)
qed simp

lemma initial_legal: "distinct (map objKey items) \<Longrightarrow> \<forall>k\<in>objKey ` set items. v k = None \<Longrightarrow> all_legal (map Added items) v"
proof (induction items arbitrary: v)
  case (Cons sb items)
  have "all_legal (map Added items) (v(objKey sb \<mapsto> sb))" using Cons(2,3) by (intro Cons(1)) (auto simp: image_iff)
  with Cons(3) show ?case by simp
qed simp

lemma watch_ok_append:
  "watch_ok marshal sched s namespace sel (ws @ ws') known \<longleftrightarrow> watch_ok marshal sched s namespace sel ws known
   \<and> watch_ok marshal sched s namespace sel ws' (snd (watch_ticks marshal sched s namespace sel ws known))"
  by (induction ws arbitrary: known) (auto simp: split: prod.splits)

lemma watch_ticks_append:
  "snd (watch_ticks marshal sched s namespace sel (ws @ ws') known)
   = snd (watch_ticks marshal sched s namespace sel ws' (snd (watch_ticks marshal sched s namespace sel ws known)))"
  by (induction ws arbitrary: known) (auto split: prod.splits, metis snd_conv)

text \<open>After a tick that lists without a pinned name, what is known is what the poll listed.\<close>

lemma unpinned_tick_known:
  assumes "distinct (map objKey items)"
  shows "map_of (snd (watch_tick (\<lambda>sb. False) ord items known)) = item_map items"
proof
  fix k
  show "map_of (snd (watch_tick (\<lambda>sb. False) ord items known)) k = item_map items k"
    using scan_cur [OF assms, of known "[]" k]
      sweep_cur [of "\<lambda>sb. False" known ord "snd (watch_scan known items [])" k]
    by (auto simp: watch_tick_def split: prod.splits option.splits if_splits)
qed

text \<open>
  C31. A watch without a pinned name mirrors the listing: whatever the worlds its ticks find, the order its
  sweeps range in and the polls that failed on the way, every event is legal for the client (nothing is
  added twice, nothing absent is modified or deleted), and after a tick whose poll succeeded the client
  holds exactly the listed objects at their listed versions. Each poll must list a name once.
\<close>

theorem watch_mirrors_list:
  assumes pin: "pinnedName (lo_Namespace opts) sel = None"
    and start: "watch_start marshal sched sched' s opts sel w0 = ((evs0, known0), s')"
    and init: "case listInventories s w0 (lo_Namespace opts) sel of Inl e \<Rightarrow> True | Inr items0 \<Rightarrow> distinct (map objKey items0)"
    and ok: "watch_ok marshal sched s' (lo_Namespace opts) sel (ws @ [(w, ord)]) known0"
    and ticks: "watch_ticks marshal sched s' (lo_Namespace opts) sel (ws @ [(w, ord)]) known0 = (evs, known)"
    and poll: "listInventories s' w (lo_Namespace opts) sel = Inr items"
  shows "all_legal (evs0 @ evs) Map.empty
    \<and> versions (replay (evs0 @ evs) Map.empty) = versions (item_map items)"
proof -
  have none: "versions Map.empty = versions (map_of [])" "known_ok []" by (simp_all add: known_ok_def)
  have zero: "known_ok known0" "all_legal evs0 Map.empty" "versions (replay evs0 Map.empty) = versions (map_of known0)"
    using start init initial_events [OF none] initial_legal [of _ Map.empty] pin
    by (auto simp: watch_start_def listItems_def Let_def watch_initial_def all_legal_append replay_append
        known_ok_def split: sum.splits prod.splits if_splits)
  have run: "all_legal evs (replay evs0 Map.empty)" "versions (replay evs (replay evs0 Map.empty)) = versions (map_of known)"
    using ticks_refine [OF zero(1,3) ok ticks] by simp_all
  let ?k = "snd (watch_ticks marshal sched s' (lo_Namespace opts) sel ws known0)"
  have items: "distinct (map objKey items)" "watch_poll sched s' w (lo_Namespace opts) sel ?k = Inr items"
    using ok poll pin by (simp_all add: watch_ok_append watch_poll_def)
  have "known = snd (watch_step marshal sched ord s' (lo_Namespace opts) sel w ?k)"
    using ticks watch_ticks_append [of marshal sched s' "lo_Namespace opts" sel ws "[(w, ord)]" known0]
    by (simp add: split_beta)
  moreover have "watch_held marshal s' w (lo_Namespace opts) sel = (\<lambda>sb. False)"
    using pin by (simp add: watch_held_def fun_eq_iff)
  ultimately have "map_of known = item_map items"
    using items unpinned_tick_known [OF items(1)] by (simp add: watch_step_def)
  with run zero show ?thesis by (simp add: all_legal_append replay_append)
qed

text \<open>Nothing is reported where everything listed is known at its version.\<close>

lemma scan_quiet:
  "\<forall>sb\<in>set items. versions (map_of known) (objKey sb) = Some (sb_ResourceVersion sb) \<Longrightarrow>
   fst (watch_scan known items cur) = []"
  by (induction known items cur rule: watch_scan.induct)
     (auto simp: Let_def versions_def split: option.splits prod.splits)

lemma sweep_quiet:
  "\<forall>k prev. map_of known k = Some prev \<longrightarrow> map_of cur k \<noteq> None \<or> held prev \<Longrightarrow>
   fst (watch_sweep held known ks cur) = []"
proof (induction held known ks cur rule: watch_sweep.induct)
  case (2 held known k ks cur)
  have "\<forall>k' prev. map_of known k' = Some prev \<longrightarrow> map_of (AList.update k x cur) k' \<noteq> None \<or> held prev" for x
    using 2(5) by (auto simp: update_conv')
  with 2 show ?case by (fastforce split: option.splits)
qed simp

lemma tick_known:
  assumes "distinct (map objKey items)"
  shows "map_of (snd (watch_tick held ord items known)) k =
    (case item_map items k of Some sb \<Rightarrow> Some sb
     | None \<Rightarrow> if k \<in> set ord then (case map_of known k of None \<Rightarrow> None | Some prev \<Rightarrow> if held prev then Some prev else None)
               else None)"
  using scan_cur [OF assms, of known "[]" k]
    sweep_cur [of held known ord "snd (watch_scan known items [])" k]
  by (auto simp: watch_tick_def split: prod.splits option.splits)

text \<open>
  An unchanged listing is silent: a tick that lists what the tick before it listed, and finds the same
  objects held, emits no event, pinned or not.
\<close>

theorem watch_quiet:
  assumes "distinct (map objKey items)"
  shows "fst (watch_tick held ord' items (snd (watch_tick held ord items known))) = []"
proof -
  let ?k = "snd (watch_tick held ord items known)"
  obtain evs cur where scan: "watch_scan ?k items [] = (evs, cur)" by (metis surj_pair)
  have item: "item_map items (objKey sb) = Some sb" if "sb \<in> set items" for sb
    using that assms by (induction items) (auto simp: image_iff)
  have "evs = []"
    using scan_quiet [of items ?k "[]"] scan item
    by (simp add: tick_known [OF assms] versions_def)
  moreover have "map_of cur k = item_map items k" for k
    using scan_cur [OF assms, of ?k "[]" k] scan by (simp split: option.splits)
  then have "fst (watch_sweep held ?k ord' cur) = []"
    by (intro sweep_quiet) (auto simp: tick_known [OF assms] split: option.splits if_splits)
  ultimately show ?thesis using scan by (simp add: watch_tick_def split: prod.splits)
qed

text \<open>What a watch tells about one key, and what is left of it when several listed objects share it.\<close>

fun about :: "string \<Rightarrow> watch_event \<Rightarrow> bool" where
  "about k (Added sb) = (objKey sb = k)"
| "about k (Modified sb) = (objKey sb = k)"
| "about k (Deleted sb) = (objKey sb = k)"
| "about k (Bookmark sb) = False"

definition report :: "known \<Rightarrow> Sandbox \<Rightarrow> watch_event list" where
  "report known sb = (case map_of known (objKey sb) of
     None \<Rightarrow> [Added sb] | Some prev \<Rightarrow> if sb_ResourceVersion prev \<noteq> sb_ResourceVersion sb then [Modified sb] else [])"

abbreviation of_key :: "string \<Rightarrow> Sandbox list \<Rightarrow> Sandbox list" where
  "of_key k items \<equiv> filter (\<lambda>sb. objKey sb = k) items"

abbreviation remember_all :: "known \<Rightarrow> Sandbox list \<Rightarrow> known" where
  "remember_all \<equiv> foldl (\<lambda>known sb. AList.update (objKey sb) sb known)"

lemma scan_report: "watch_scan known items cur = (concat (map (report known) items), remember_all cur items)"
  by (induction known items cur rule: watch_scan.induct) (auto simp: report_def Let_def split: option.splits)

lemma remember_all_key: "map_of (remember_all m items) k = (if of_key k items = [] then map_of m k else Some (last (of_key k items)))"
  by (induction items arbitrary: m) (auto simp: update_conv')

lemma report_about: "filter (about k) (concat (map (report known) items)) = concat (map (report known) (of_key k items))"
  by (induction items) (auto simp: report_def split: option.splits)

lemma report_shared:
  assumes "map_of known k = Some prev"
  shows "concat (map (report known) (of_key k items)) = map Modified (filter (\<lambda>sb. sb_ResourceVersion sb \<noteq> sb_ResourceVersion prev) (of_key k items))"
  using assms by (induction items) (auto simp: report_def)

lemma sweep_about:
  "known_ok known \<Longrightarrow> map_of cur k \<noteq> None \<Longrightarrow> filter (about k) (fst (watch_sweep held known ks cur)) = []"
proof (induction held known ks cur rule: watch_sweep.induct)
  case (2 held known k' ks cur)
  have "objKey prev = k'" if "map_of known k' = Some prev" for prev
    using that "2.prems"(1) by (auto simp: known_ok_def dest!: map_of_SomeD)
  with 2 show ?case by (fastforce simp: update_conv' Let_def split: option.splits prod.splits)
qed simp

lemma replay_about_eq: "v k = v' k \<Longrightarrow> replay evs v k = replay (filter (about k) evs) v' k"
proof (induction evs arbitrary: v v')
  case (Cons e evs)
  have "apply_event e v k = (if about k e then apply_event e v' else v') k" by (cases e) (use Cons(2) in auto)
  from Cons(1) [of "apply_event e v" "if about k e then apply_event e v' else v'", OF this] show ?case by (cases "about k e") simp_all
qed simp

lemma replay_about: "replay evs v k = replay (filter (about k) evs) v k"
  by (rule replay_about_eq) simp

lemma replay_modified: "sbs \<noteq> [] \<Longrightarrow> \<forall>sb \<in> set sbs. objKey sb = k \<Longrightarrow> replay (map Modified sbs) v k = Some (last sbs)"
  by (induction sbs arbitrary: v) auto

text \<open>The objects of one key whose version is not that of the last of them: a tick reports each of them anew.\<close>

definition overshadowed :: "string \<Rightarrow> Sandbox list \<Rightarrow> Sandbox list" where
  "overshadowed k items = filter (\<lambda>sb. sb_ResourceVersion sb \<noteq> sb_ResourceVersion (last (of_key k items))) (of_key k items)"

lemma tick_about:
  assumes "known_ok known" "of_key k items \<noteq> []" "map_of known k = Some (last (of_key k items))"
    "watch_tick held ord items known = (evs, known')"
  shows "filter (about k) evs = map Modified (overshadowed k items) \<and> map_of known' k = Some (last (of_key k items)) \<and> known_ok known'"
proof -
  have cur: "map_of (remember_all [] items) k = Some (last (of_key k items))" using assms(2) by (simp add: remember_all_key)
  have "evs = concat (map (report known) items) @ fst (watch_sweep held known ord (remember_all [] items))"
    "known' = snd (watch_sweep held known ord (remember_all [] items))"
    using assms(4) by (auto simp: watch_tick_def scan_report split: prod.splits)
  moreover have "known_ok known'" using known_ok_tick [OF assms(1), of held ord items] assms(4) by simp
  ultimately show ?thesis using sweep_about [OF assms(1), of "remember_all [] items" k held ord] cur
    by (simp add: report_about report_shared [OF assms(3)] overshadowed_def sweep_cur)
qed

lemma ticks_about:
  assumes "of_key k items \<noteq> []" "pinnedName ns sel = None" "\<forall>(w, ord) \<in> set ws. listInventories s w ns sel = Inr items"
  shows "known_ok known \<Longrightarrow> map_of known k = Some (last (of_key k items)) \<Longrightarrow> watch_ticks marshal sched s ns sel ws known = (evs, known')
    \<Longrightarrow> filter (about k) evs = concat (replicate (length ws) (map Modified (overshadowed k items)))
      \<and> map_of known' k = Some (last (of_key k items))"
  using assms(3)
proof (induction ws arbitrary: known evs)
  case (Cons p ws)
  obtain w ord where p: "p = (w, ord)" by (cases p)
  obtain es k1 where step: "watch_step marshal sched ord s ns sel w known = (es, k1)" by (metis surj_pair)
  obtain es' where rest: "watch_ticks marshal sched s ns sel ws k1 = (es', known')" "evs = es @ es'"
    using Cons(4) step p by (auto split: prod.splits)
  have "watch_tick (watch_held marshal s w ns sel) ord items known = (es, k1)"
    using step Cons(5) assms(2) p by (simp add: watch_step_def watch_poll_def)
  from tick_about [OF Cons(2) assms(1) Cons(3) this] Cons(1) [OF _ _ rest(1)] Cons(5) rest(2) show ?case by simp
qed simp

text \<open>
  C36. Claims on one name are listed as objects with one key, and a watch keeps only the last of them. Let the listing of
  an unpinned watch hold, among whatever else, objects of one key of which one has another version than the last, and let
  it never change. Then every tick reports as modified, again, each object of the key whose version is not the last
  one's, and nothing else of that key; after any number of ticks the watch records the last object of the
  listing while its client is left with another object, of another version.
\<close>

theorem watch_shared_name_churn:
  assumes "pinnedName (lo_Namespace opts) sel = None"
    and "watch_start marshal sched sched' s opts sel w0 = ((evs0, known0), s')"
    and "listInventories s w0 (lo_Namespace opts) sel = Inr items"
    and "a \<in> set items" and "objKey a = k" and "sb_ResourceVersion a \<noteq> sb_ResourceVersion (last (of_key k items))"
    and "\<forall>(w, ord) \<in> set ws. listInventories s' w (lo_Namespace opts) sel = Inr items"
    and "watch_ticks marshal sched s' (lo_Namespace opts) sel ws known0 = (evs, known)" and "ws \<noteq> []"
  shows "filter (about k) evs = concat (replicate (length ws) (map Modified (overshadowed k items))) \<and> a \<in> set (overshadowed k items)
    \<and> map_of known k = Some (last (of_key k items))
    \<and> (\<exists>c. replay (evs0 @ evs) Map.empty k = Some c \<and> sb_ResourceVersion c \<noteq> sb_ResourceVersion (last (of_key k items)))"
proof -
  have a: "a \<in> set (overshadowed k items)" using assms(4-6) by (simp add: overshadowed_def)
  have ne: "of_key k items \<noteq> []" using assms(4,5) by (auto simp: filter_empty_conv)
  have "known0 = remember_all [] items"
    using assms(1-3) by (auto simp: watch_start_def listItems_def watch_initial_def Let_def)
  then have zero: "known_ok known0" "map_of known0 k = Some (last (of_key k items))"
    using initial_events [of Map.empty "[]" items] ne by (simp_all add: known_ok_def [of "[]"] remember_all_key)
  note run = ticks_about [OF ne assms(1,7) zero assms(8)]
  obtain n where n: "length ws = Suc n" using assms(9) by (cases ws) auto
  let ?last = "last (overshadowed k items)"
  have keys: "\<forall>sb \<in> set (overshadowed k items). objKey sb = k" by (simp add: overshadowed_def)
  have "replay (evs0 @ evs) Map.empty k = replay (concat (replicate (length ws) (map Modified (overshadowed k items)))) (replay evs0 Map.empty) k"
    using replay_about [of evs "replay evs0 Map.empty" k] run by (simp add: replay_append)
  also have "\<dots> = replay (map Modified (concat (replicate (length ws) (overshadowed k items)))) (replay evs0 Map.empty) k"
    by (simp add: map_concat)
  also have "\<dots> = Some (last (concat (replicate (length ws) (overshadowed k items))))"
    using a keys n by (intro replay_modified) auto
  also have "last (concat (replicate (length ws) (overshadowed k items))) = ?last"
    unfolding n replicate_append_same [symmetric] replicate_Suc using a by (auto simp: last_append)
  finally have "replay (evs0 @ evs) Map.empty k = Some ?last" .
  moreover have "?last \<in> set (overshadowed k items)" using a by (intro last_in_set) auto
  ultimately show ?thesis using run a by (auto simp: overshadowed_def)
qed

definition shared_item :: "string \<Rightarrow> Sandbox" where
  "shared_item rv = empty_Sandbox\<lparr>sb_Namespace := ''ns'', sb_Name := ''a'', sb_ResourceVersion := rv\<rparr>"

lemma shared_item_simps [simp]:
  "objKey (shared_item rv) = ''ns/a''" "sb_ResourceVersion (shared_item rv) = rv"
  by (simp_all add: shared_item_def objKey_def namespacedName_def)

theorem watch_quiet_witness:
  "fst (watch_tick (\<lambda>sb. False) [''ns/a''] [shared_item ''1'']
      (snd (watch_tick (\<lambda>sb. False) [] [shared_item ''1''] []))) = []"
  using watch_quiet [of "[shared_item ''1'']" "\<lambda>sb. False" "[''ns/a'']" "[]" "[]"] by simp

text \<open>A fleet whose one node is lost between the start of the watch and its first tick.\<close>

definition watch_options :: ListOptions where
  "watch_options = \<lparr>lo_Namespace = ''ns'', lo_LabelSelector = [], lo_FieldSelector = [], lo_WatchList = True\<rparr>"

definition watch_items :: "Sandbox list" where
  "watch_items = [entryToSandbox ''n1'' (demo_entry ''ns/a'' ''c2''), entryToSandbox ''n1'' (demo_entry ''ns/b'' ''c1'')]"

lemma watch_items_keys: "map objKey watch_items = [''ns/a'', ''ns/b'']"
  by (simp add: watch_items_def objKey_def namespacedName_def demo_entry_def splitNamespacedName_def)

lemma watch_fleet_before: "listInventories read_store read_fleet ''ns'' every = Inr watch_items"
  by (simp add: listInventories_def read_store_nodes read_store_def NewScatterGatherStore_def static_source_def
      static_ListNodes_def static_NodeInventory_def read_fleet_def materialize_def selected_def every_def demo_entry_def
      splitNamespacedName_def sandbox_order_def watch_items_def)

lemma watch_fleet_after: "listInventories read_store (static_Remove ''n1'' read_fleet) ''ns'' every = Inr []"
  by (simp add: listInventories_def read_store_def NewScatterGatherStore_def static_source_def static_ListNodes_def
      static_Remove_def read_fleet_def)

lemma every_unpinned: "pinnedName ns every = None"
  by (simp add: pinnedName_def every_def)

text \<open>A fleet with two claims on one name.\<close>

definition shared_fleet :: StaticInventorySource where
  "shared_fleet = \<lparr>st_inv = [(''n1'', \<lparr>ni_Name = ''n1'', ni_Node = ''n1'', ni_Entries = [demo_entry ''ns/a'' ''c1'', demo_entry ''ns/b'' ''c3'', demo_entry ''ns/a'' ''c2''],
     ni_Address = ''h:1'', ni_Pools = [], ni_Templates = [], ni_PublishedAt = 0\<rparr>)], st_partition = [], st_applies = 0\<rparr>"

abbreviation shared_one :: "string \<Rightarrow> Sandbox" where
  "shared_one cid \<equiv> entryToSandbox ''n1'' (demo_entry ''ns/a'' cid)"

lemma shared_listing: "listInventories read_store shared_fleet ''ns'' every
    = Inr [shared_one ''c1'', shared_one ''c2'', entryToSandbox ''n1'' (demo_entry ''ns/b'' ''c3'')]"
  by (simp add: listInventories_def read_store_def NewScatterGatherStore_def static_source_def
      static_ListNodes_def static_NodeInventory_def shared_fleet_def materialize_def selected_def every_def demo_entry_def
      splitNamespacedName_def sandbox_order_def)

lemma shared_versions: "sb_ResourceVersion (shared_one ''c1'') \<noteq> sb_ResourceVersion (shared_one ''c2'')"
proof -
  let ?tail = "''|'' @ PhaseRunning @ ''|ns/a||img||''"
  have "fnv64a (''ns/a|c'' @ CHR ''1'' # ?tail) \<noteq> fnv64a (''ns/a|c'' @ CHR ''2'' # ?tail)" by (rule fnv64a_byte) simp
  then show ?thesis
    by (auto simp: demo_entry_def splitNamespacedName_def resourceVersionFor_def deadlineValue_def claimedAtValue_def dest!: format_nat_inj simp flip: word_unat_eq_iff)
qed

theorem watch_shared_name_churn_witness:
  "\<exists>evs0 known0 s' evs known. watch_start (\<lambda>md. None) (\<lambda>ns. ns) (\<lambda>ns. ns) read_store watch_options every shared_fleet = ((evs0, known0), s')
    \<and> watch_ticks (\<lambda>md. None) (\<lambda>ns. ns) s' ''ns'' every [(shared_fleet, [''ns/a'', ''ns/b'']), (shared_fleet, [''ns/a'', ''ns/b''])] known0 = (evs, known)
    \<and> filter (about ''ns/a'') evs = [Modified (shared_one ''c1''), Modified (shared_one ''c1'')]
    \<and> map_of known ''ns/a'' = Some (shared_one ''c2'')"
proof -
  let ?ws = "[(shared_fleet, [''ns/a'', ''ns/b'']), (shared_fleet, [''ns/a'', ''ns/b''])]"
  let ?items = "[shared_one ''c1'', shared_one ''c2'', entryToSandbox ''n1'' (demo_entry ''ns/b'' ''c3'')]"
  have ns: "lo_Namespace watch_options = ''ns''" by (simp add: watch_options_def)
  obtain evs0 known0 where start: "watch_start (\<lambda>md. None) (\<lambda>ns. ns) (\<lambda>ns. ns) read_store watch_options every shared_fleet = ((evs0, known0), read_store)"
    by (cases "watch_initial ?items") (simp add: watch_start_def listItems_def every_unpinned ns shared_listing Let_def)
  obtain evs known where ticks: "watch_ticks (\<lambda>md. None) (\<lambda>ns. ns) read_store ''ns'' every ?ws known0 = (evs, known)" by (metis surj_pair)
  have keys: "objKey (shared_one c) = ''ns/a''" "objKey (entryToSandbox ''n1'' (demo_entry ''ns/b'' c)) = ''ns/b''" for c
    by (simp_all add: objKey_def namespacedName_def demo_entry_def splitNamespacedName_def)
  have rv: "sb_ResourceVersion (shared_one ''c1'') \<noteq> sb_ResourceVersion (shared_one ''c2'')" by (rule shared_versions)
  have over: "overshadowed ''ns/a'' ?items = [shared_one ''c1'']" using rv by (simp add: overshadowed_def keys)
  have "filter (about ''ns/a'') evs = concat (replicate (length ?ws) (map Modified (overshadowed ''ns/a'' ?items)))
      \<and> map_of known ''ns/a'' = Some (last (of_key ''ns/a'' ?items))"
    using watch_shared_name_churn [of watch_options every, OF every_unpinned start shared_listing [folded ns], of "shared_one ''c1''" "''ns/a''" ?ws]
      ticks rv by (simp add: ns shared_listing keys)
  then show ?thesis using start ticks unfolding over by (auto simp: keys)
qed

abbreviation watch_demo_start :: "(watch_event list \<times> known) \<times> StaticInventorySource scatterGatherStore" where
  "watch_demo_start \<equiv> watch_start (\<lambda>md. None) (\<lambda>ns. ns) (\<lambda>ns. ns) read_store watch_options every read_fleet"

lemma watch_demo_known: "fst ` set (snd (fst watch_demo_start)) = {''ns/a'', ''ns/b''}" "snd watch_demo_start = read_store"
  using watch_items_keys
  by (simp_all add: watch_start_def listItems_def every_unpinned watch_options_def watch_fleet_before watch_initial_def Let_def
      watch_items_def)

theorem watch_mirrors_list_witness:
  "\<exists>evs0 known0 s' evs known. watch_demo_start = ((evs0, known0), s')
    \<and> watch_ticks (\<lambda>md. None) (\<lambda>ns. ns) s' ''ns'' every [(static_Remove ''n1'' read_fleet, [''ns/a'', ''ns/b''])] known0 = (evs, known)
    \<and> versions (replay (evs0 @ evs) Map.empty) = versions (item_map [])"
proof -
  obtain evs0 known0 where start: "watch_demo_start = ((evs0, known0), read_store)"
    using watch_demo_known(2) by (metis prod.collapse)
  let ?ws = "[] @ [(static_Remove ''n1'' read_fleet, [''ns/a'', ''ns/b''])]"
  obtain evs known where ticks: "watch_ticks (\<lambda>md. None) (\<lambda>ns. ns) read_store ''ns'' every ?ws known0 = (evs, known)"
    by (metis surj_pair)
  have ok: "watch_ok (\<lambda>md. None) (\<lambda>ns. ns) read_store ''ns'' every ?ws known0"
    using watch_demo_known(1) start by (simp add: watch_poll_def every_unpinned watch_fleet_after)
  have ns: "lo_Namespace watch_options = ''ns''" by (simp add: watch_options_def)
  have "versions (replay (evs0 @ evs) Map.empty) = versions (item_map [])"
    using watch_mirrors_list [of watch_options every, OF every_unpinned start _ ok [folded ns] ticks [folded ns]
        watch_fleet_after [folded ns]] watch_fleet_before watch_items_keys by (simp add: ns)
  then show ?thesis using start ticks by auto
qed

end
