(* ===== verification/Log_Bridge.thy ===== *)
theory Log_Bridge
  imports Go_Prelude
begin

text \<open>
  The bridge from logr to the program's own log (pkg/logbridge/logbridge.go). A value's \<^verbatim>\<open>%v\<close> rendering is an argument; what is
  logged is a list of entries, an error entry with the error it carries. The log drops an error entry whose error is nil.
\<close>

record 'a sink =
  sk_name :: string
  sk_kv :: "'a list"

definition logbridge_New :: "'a sink" where
  "logbridge_New = \<lparr>sk_name = [], sk_kv = []\<rparr>"

datatype log_entry = LogInfo string string | LogError string err string

definition sink_Enabled :: "int \<Rightarrow> bool" where
  "sink_Enabled level = (level = 0)"

definition funcName :: "'a sink \<Rightarrow> string" where
  "funcName s = cmp_Or (sk_name s) ''controller-runtime''"

text \<open>The loop over the pairs: a last key without a value is left out.\<close>

fun pairs_text :: "('a \<Rightarrow> string) \<Rightarrow> 'a list \<Rightarrow> string" where
  "pairs_text v (k # x # rest) = '' '' @ v k @ ''='' @ v x @ pairs_text v rest"
| "pairs_text v _ = []"

definition sink_line :: "('a \<Rightarrow> string) \<Rightarrow> 'a sink \<Rightarrow> string \<Rightarrow> 'a list \<Rightarrow> string" where
  "sink_line v s m kvs = (let pairs = sk_kv s @ kvs in if pairs = [] then m else m @ pairs_text v pairs)"

definition sink_Info :: "('a \<Rightarrow> string) \<Rightarrow> 'a sink \<Rightarrow> string \<Rightarrow> 'a list \<Rightarrow> log_entry list \<Rightarrow> log_entry list" where
  "sink_Info v s m kvs log = log @ [LogInfo (funcName s) (sink_line v s m kvs)]"

text \<open>\<^verbatim>\<open>log.Error\<close> of the program's log.\<close>

definition core_Error :: "string \<Rightarrow> err option \<Rightarrow> string \<Rightarrow> log_entry list \<Rightarrow> log_entry list" where
  "core_Error f e line log = (case e of None \<Rightarrow> log | Some e' \<Rightarrow> log @ [LogError f e' line])"

definition sink_Error :: "('a \<Rightarrow> string) \<Rightarrow> 'a sink \<Rightarrow> err option \<Rightarrow> string \<Rightarrow> 'a list \<Rightarrow> log_entry list \<Rightarrow> log_entry list" where
  "sink_Error v s e m kvs log =
     (let e' = (case e of None \<Rightarrow> Some (PlainError (Msg m [])) | Some x \<Rightarrow> Some x) in core_Error (funcName s) e' (sink_line v s m kvs) log)"

definition WithValues :: "'a list \<Rightarrow> 'a sink \<Rightarrow> 'a sink" where
  "WithValues kvs s = s\<lparr>sk_kv := sk_kv s @ kvs\<rparr>"

definition WithName :: "string \<Rightarrow> 'a sink \<Rightarrow> 'a sink" where
  "WithName name s = s\<lparr>sk_name := (if sk_name s \<noteq> [] then sk_name s @ ''.'' @ name else name)\<rparr>"

text \<open>No error is lost: each call appends one entry, and values bound to a logger are those of its calls.\<close>

theorem error_logged: "\<exists>e'. sink_Error v s e m kvs log = log @ [LogError (funcName s) e' (sink_line v s m kvs)] \<and> (\<forall>x. e = Some x \<longrightarrow> e' = x)"
  by (cases e) (auto simp: sink_Error_def core_Error_def)

theorem bound_values: "sink_line v (WithValues kvs s) m kvs' = sink_line v s m (kvs @ kvs')"
  by (simp add: sink_line_def WithValues_def Let_def)

theorem nested_names: "sk_name s \<noteq> [] \<Longrightarrow> funcName (WithName b (WithName a s)) = sk_name s @ ''.'' @ a @ ''.'' @ b"
  by (simp add: funcName_def WithName_def cmp_Or_def)

end
