(* ===== verification/Spec2Isabelle.thy ===== *)
theory Spec2Isabelle
  imports Commands Store_Watch Log_Bridge
begin

text \<open>
  A verification development of the sandbox operator: the control plane that hands out warm microVMs
  of a fleet of nodes, each run by the daemon \<^verbatim>\<open>sandboxd\<close>, through an aggregated Kubernetes API and an
  e2b-compatible HTTP API, and the edge proxy that carries a caller's traffic into a sandbox.

  \<^bold>\<open>The program and its parts.\<close> Nodes publish inventories. An inventory source (in memory, from Kubernetes objects, or
  polled from the mesh) lists the nodes with their addresses, warm pools, promoted templates and sandboxes.
  The store (\<^verbatim>\<open>scatterGatherStore\<close>) reads and lists sandboxes from the source and the nodes, watches them by polling, and
  routes a claim or a lifecycle verb to a node through the daemon's HTTP client, learning in an index which node holds
  which sandbox. Three front ends sit on the store: the storage of the aggregated API, the e2b surface with its template
  builds, and the edge. The warm-pool driver tells the nodes how many microVMs of each pool key to keep warm. Three commands wire these parts together: \<^verbatim>\<open>sandbox-apiserver\<close>
  (storage, driver and e2b surface over Kubernetes), \<^verbatim>\<open>sandbox-envd-proxy\<close> (the edge over Kubernetes) and \<^verbatim>\<open>sandbox-e2b\<close> (surface and edge over the mesh, without Kubernetes).

  \<^bold>\<open>The theories.\<close> \<open>Go_Prelude\<close> holds what the sources use of Go and its library, the error values and the shared
  lemmas; \<open>Scale_Types\<close> the records of api/v1beta1 and of the daemon's bodies. Each further theory models one part.
  \<^item> \<open>Pool_Key\<close>: pkg/scale/poolkey.go, size classes and the pool key.
  \<^item> \<open>Node_Index\<close>: pkg/scale/nodeindex.go, the bounded two-generation index; the mutex makes an execution a sequence of operations.
  \<^item> \<open>Inventory_Source\<close>: the interface \<^verbatim>\<open>InventorySource\<close> as the locale \<open>inventory_source\<close>, and the static source as its first instance.
  \<^item> \<open>Kube_Inventory\<close>: pkg/scale/kubeinventory/source.go; informer events, snapshot and freshness, a second instance of the locale.
  \<^item> \<open>Mesh_Inventory\<close>: pkg/scale/meshinventory/source.go; one tick of polls, failure counts, merges and joins. Map iteration orders are arguments.
  \<^item> \<open>Store_Entry\<close>, \<open>Store_Read\<close>, \<open>Store_Watch\<close>, \<open>Store_Lifecycle\<close>, \<open>Claim_Routing\<close>: pkg/scale/sandboxstore*.go. The synthesized Sandbox objects,
    the concurrent reads (the order in which goroutines answer is an argument), the watch as a state machine over polls, the verbs of a node with their
    error translation, and the claim with its redirects and retries.
  \<^item> \<open>Sandboxd_Client\<close>: pkg/sandboxd, every verb of the HTTP client with its escapes, caps and errors, and the port relay's handshake.
  \<^item> \<open>Warm_Pool\<close>: pkg/scale/warmpool/driver.go, one reconcile pass.
  \<^item> \<open>Sandbox_REST\<close>: pkg/scale/apiserver, create as a claim, delete as a release, the lifecycle subresources.
  \<^item> \<open>E2B_Ids\<close>, \<open>Envd_Proxy\<close>: pkg/e2bcompat/sandboxid.go and pkg/envdproxy, from the host name of a request to the admitted relay.
  \<^item> \<open>E2B_Types\<close>, \<open>E2B_Config\<close>, \<open>E2B_List\<close>, \<open>E2B_Envd\<close>, \<open>E2B_Templates\<close>, \<open>E2B_Server\<close>: pkg/e2bcompat; bodies and replies, keys and aliases, listing and
    paging, the calls into the agent of a guest, built templates and tags, and every sandbox handler.
  \<^item> \<open>Build_Shell\<close>, \<open>Build_Executor\<close>, \<open>E2B_Uploads\<close>, \<open>E2B_Builds\<close>: pkg/e2bbuild and pkg/e2bcompat/uploads.go, builds.go; the scripts of a build, its run and
    records, the archives it copies, and registering, starting, polling and publishing it.
  \<^item> \<open>E2B_Surface\<close>: pkg/e2bcompat/server.go (\<^verbatim>\<open>Handler\<close>), flags.go and uploads_s3.go; the routes, their authentication, and one step of the whole surface.
  \<^item> \<open>API_Group\<close>: pkg/scale/apiserver/scheme.go, openapi.go, apiserver.go; the registered kinds, the storages of the group and the dispatch to them.
  \<^item> \<open>Kube_Setup\<close>, \<open>Log_Bridge\<close>: pkg/scale/kubeinventory/cache.go, applier.go and the start of its source; pkg/logbridge.
  \<^item> \<open>Http_Listener\<close>: \<^verbatim>\<open>Serve\<close> of pkg/envdproxy/flags.go and of pkg/e2bcompat/server.go, as step relations of the server, its connections, the draining goroutine and the caller.
  \<^item> \<open>Data_Path\<close>: the edge's handler, and what it answers over a fleet in which a node holds a sandbox.
  \<^item> \<open>Commands\<close>: cmd/; the options and the start of each command with every failure, the restarts of the driver, and \<^verbatim>\<open>sandbox-e2b\<close> from its start to its exit.
  \<^item> \<open>Claim_Ledger\<close>, \<open>E2B_Accounting\<close>: what a process holds of the claims it was granted, across the store, the e2b handlers and the builds.

  \<^bold>\<open>State and operations.\<close> A method on a struct is a function on the struct's record; a mutated receiver or world is an argument and a result.
  The world \<open>'w\<close> is abstract: a daemon, a connection or a disk is a record of functions on it (\<open>SandboxdClient\<close>, \<open>envd_io\<close>, \<open>Client\<close>, \<open>s3_client\<close>), so
  the theorems hold of every behaviour of the nodes. An error is a value of \<open>err\<close>, with the wrapping that \<^verbatim>\<open>errors.Is\<close> and \<^verbatim>\<open>errors.As\<close> look
  through; a result is \<open>err + 'a\<close>. Log output is left out. Integers are unbounded with the 32- and 64-bit wrap-around written out where a value can reach it.
  What the code draws from outside (random numbers, clocks, generated names, JSON and selector libraries, keyed hashes) is an argument or a field of a record.

  \<^bold>\<open>Interfaces.\<close> Where a part relies on another the contract is a locale and the part's lemmas are proved in it: \<open>inventory_source\<close> (static, Kubernetes and mesh sources),
  \<open>claim_ledger\<close> and its extension \<open>guest_ledger\<close> (the store over a recording client, and the traffic with envd), \<open>guest_connections\<close> (no leaked connection),
  \<open>quiet_guest\<close> (a build's guest), \<open>archive_store\<close> (what a COPY step may rely on), \<open>hint_index\<close> (the resolution index), \<open>listener\<close> (a server that is drained: the edge's and the surface's). Each is interpreted on the model's own definitions.

  \<^bold>\<open>What is shown.\<close> A claim is sent again only after an answer that delivered nothing, ends with an owner the inventory knows, and reports no capacity only when
  every candidate was asked. Every claim that a node confirmed to a create, a fork or a build of the e2b surface is published or given back; a
  request whose reply was lost may have delivered all the same, which only the lease ends. The reads are sound and complete
  against the inventories that can be read, the watch refines the listing it polls, the sources list exactly the fresh nodes. The index answers the last node remembered
  and stays bounded. The pool driver conserves what it distributes and reports. Authentication and admission: nothing is done on the surface without a key, a
  delete stays in its namespace, the edge forwards only to the token's sandbox, an upload link opens only what it was signed for. Builds hold no more slots than
  configured, run at most once, end, are polled without gaps, replace only older generations, and read only whole archives. Paging ends and lists each
  sandbox once. The installed API group is well typed and acts only on the object it found. The listeners drain before they return, and \<^verbatim>\<open>sandbox-e2b\<close> ends with its servers
  drained. Across the parts, a sandbox that the surface of a running \<^verbatim>\<open>sandbox-e2b\<close> created is reached through its edge with what the create answered. Round trips: ids, host names, page tokens, checkpoint names, shell quoting.

  \<^bold>\<open>Bounds and fuel.\<close> Loops are structural or end by a proved measure: the claim loop drops a candidate in each round, the stream reader consumes its body,
  paging follows tokens for at most one request more than there are sandboxes (this bound is proved enough). The ready poll of a build gets as many polls as its
  timeout allows, as an argument. The capacities of the index and of the edge's cache, the caps on replies and log lines are the code's own numbers.

  A concurrent part is a step relation over the places its goroutines are at; that it ends is shown by a rank that every step lowers.

  \<^bold>\<open>Not modelled.\<close> The registration of flags (names and help texts handed to a library; the values are records), argument parsing, log setup and exit codes of the commands, the
  running of the generic API server and of the controller runtime, table conversion, the copying of bytes by the reverse proxy: libraries do these. version/ holds linker variables,
  api/v1beta1/zz_generated.deepcopy.go is generated; examples/ and test/ are clients of the program. Deadlines of calls are left out: a call
  that runs into one fails like a broken connection. A fan-out of goroutines is taken to run in a given order, named at each such definition; the stop of a
  watcher cuts its events off.
\<close>

section \<open>Properties\<close>

text \<open>
  C2. A created sandbox is reachable. When \<^verbatim>\<open>sandbox-e2b\<close> runs with an edge and a create on its surface answered 201, the id, the domain and the token in that answer are
  enough: a request to the host the client derives from them for a port, with that token, on a clean path that is neither internal nor the health probe's, is forwarded by the
  edge to that port of the claim, on its node and with its token. This holds at once, before any inventory lists the sandbox, and after any requests the edge has served, as long as they asked for other
  ids or came while the node held the claim. The claim id is one of the daemon's, \<^verbatim>\<open>sb_\<close> and hexadecimal digits, and the domain has no colon or bracket.
\<close>

theorem created_sandbox_reachable:
  assumes run: "mesh_run part h o' = Inr p" "mp_edge p = Some ed"
    and create: "createSandbox env gio (sp_server (mp_surface p)) st ns body w0 = (WriteJSON 201 (J_Sandbox sb), st', w1)"
    and claim: "claimed env (sp_server (mp_surface p)) st ns body w0 = Some a" "as_SandboxName a = ''sb_'' @ x" "list_all is_hex x"
    and owner: "ow = \<lparr>ow_ClaimID = as_SandboxName a, ow_Address = addr, ow_Token = as_Token a\<rparr>"
    and earlier: "\<forall>q\<in>set reqs. ev_hmac (fst q) = ev_mac env
      \<and> undisturbing (fl_Domain (mc_E2B o')) (px_resolver (ed_server ed)) (es_SandboxID sb) (as_Node a) ow q"
    and now: "ev_hmac env' = ev_mac env" "holds_sandbox env' (px_resolver (ed_server ed)) w (es_SandboxID sb) (as_Node a) ow"
    and domain: "is_ascii (fl_Domain (mc_E2B o'))" "\<forall>c\<in>set (fl_Domain (mc_E2B o')). c \<notin> set '':[]''"
    and port: "0 < n" "n < 2 ^ 16"
    and request: "eq_Host r = sandboxHost (es_Domain sb) \<lparr>rt_sandboxID = es_SandboxID sb, rt_port = n\<rparr>"
      "strings_TrimSpace (map_index (eq_Header r) sandboxIDHeader) = []" "map_index (eq_Header r) accessTokenHeader = es_EnvdAccessToken sb"
      "es_EnvdAccessToken sb \<noteq> []" "\<not> internalPath (ev_uni env') (eq_Path r)" "eq_Path r \<noteq> ''/healthz''" "clean (eq_Path r) = eq_Path r"
  shows "fst (edge_Handler clean env' w meth r (edge_run reqs (ed_server ed)))
    = Relayed (Forward \<lparr>rt_sandboxID = es_SandboxID sb, rt_port = n\<rparr> \<lparr>tg_owner = ow, tg_port = n, tg_h2 = op_GuestHTTP2 (px_opts (ed_server ed))\<rparr>)"
proof -
  let ?sv = "sp_server (mp_surface p)" and ?e = "edge_run reqs (ed_server ed)"
  let ?secret = "so_EnvdSecret (sv_opts ?sv)" and ?sid = "es_SandboxID sb"
  note shares = mesh_run_shares [OF run]
  note created = created_sandbox [OF create claim(1)]
  have sid: "list_all isDNSSafe ?sid" "?sid \<noteq> []" "strings_TrimSpace ?sid \<noteq> []" "ClaimID ?sid = ow_ClaimID ow"
    using public_id_safe [OF claim(3), of ?sid "ev_lower env"] created claim(2) owner by simp_all
  have "edge_holds (ev_mac env) ?secret ?sid ow (px_resolver (ed_server ed))" using shares NewResolver_holds by blast
  from edge_run_holds [OF this sid(4,3), of reqs "as_Node a"] earlier shares
  have kept: "edge_holds (ev_mac env) ?secret ?sid ow (px_resolver ?e)" "same_sources (px_resolver (ed_server ed)) (px_resolver ?e)" by simp_all
  have route: "routeOf (ev_uni env') r (op_Domain (px_opts ?e)) = Some \<lparr>rt_sandboxID = ?sid, rt_port = n\<rparr>"
    using host_routes [OF sid(1,2) port domain, of "[]" 0 "ev_uni env'"] request(1,2) shares created by (simp add: routeOf_def)
  have token: "es_EnvdAccessToken sb = AccessToken (ev_mac env) ?secret (ow_Token ow)" using created owner by simp
  have "fst (serve env' w r ?e) = Forward \<lparr>rt_sandboxID = ?sid, rt_port = n\<rparr> \<lparr>tg_owner = ow, tg_port = n, tg_h2 = op_GuestHTTP2 (px_opts ?e)\<rparr>"
    using serve_reaches [OF kept(1) now(1) _ sid(4,3) route request(5)] now(2) holds_same [OF kept(2)] request(3,4) token by (simp add: access_token_trim)
  then show ?thesis using request(6,7) by (simp add: edge_Handler_def split_beta)
qed

section \<open>Witness\<close>

text \<open>The create on the concrete mesh, whose inventory does not list the sandbox yet, after a request for another id.\<close>

theorem created_sandbox_reachable_witness:
  "\<exists>sb st. createSandbox accounting_env mesh_envd mesh_server mesh_store ''team'' (Body accounting_request) mesh_one = (WriteJSON 201 (J_Sandbox sb), st, mesh_one)
    \<and> fst (edge_Handler id edge_env0 mesh_one ''GET'' (edge_get (sandboxHost (es_Domain sb) \<lparr>rt_sandboxID = es_SandboxID sb, rt_port = 22\<rparr>) (es_EnvdAccessToken sb))
        (edge_run [(edge_env0, mesh_one, edge_get ''22-c9.d'' ''guess'')] mesh_edge))
      = Relayed (Forward \<lparr>rt_sandboxID = ''sb-0a'', rt_port = 22\<rparr>
          \<lparr>tg_owner = \<lparr>ow_ClaimID = ''sb_0a'', ow_Address = ''h:1'', ow_Token = ''t1''\<rparr>, tg_port = 22, tg_h2 = False\<rparr>)"
proof -
  obtain sb st where sb: "createSandbox accounting_env mesh_envd mesh_server mesh_store ''team'' (Body accounting_request) mesh_one = (WriteJSON 201 (J_Sandbox sb), st, mesh_one)"
    "es_SandboxID sb = ''sb-0a''" "es_EnvdAccessToken sb = ''7431''" "es_Domain sb = ''d''" using mesh_creates(1) by blast
  have parts: "mp_edge mesh_demo = Some \<lparr>ed_server = mesh_edge, ed_listener = listener_start\<rparr>" "sp_server (mp_surface mesh_demo) = mesh_server"
    "fl_Domain (mc_E2B mesh_demo_command) = ''d''" by (simp_all add: mesh_demo_def mesh_demo_command_def surface_flags_def)
  have facts: "list_all is_hex ''0a''" "is_ascii ''d''" "strings_TrimSpace [] = []" by code_simp+
  have a: "as_SandboxName mesh_assignment = ''sb_'' @ ''0a''" "as_Node mesh_assignment = ''h:1''" "as_Token mesh_assignment = ''t1''" by (simp_all add: mesh_assignment_def)
  have mac: "ev_hmac edge_env0 = ev_mac accounting_env" by (simp add: edge_env0_def accounting_env_def demo_io_def io.defs)
  let ?r = "edge_get (sandboxHost (es_Domain sb) \<lparr>rt_sandboxID = es_SandboxID sb, rt_port = 22\<rparr>) (es_EnvdAccessToken sb)"
  let ?ow = "\<lparr>ow_ClaimID = as_SandboxName mesh_assignment, ow_Address = ''h:1'', ow_Token = as_Token mesh_assignment\<rparr>"
  have "fst (edge_Handler id edge_env0 mesh_one ''GET'' ?r (edge_run [(edge_env0, mesh_one, edge_get ''22-c9.d'' ''guess'')] mesh_edge))
      = Relayed (Forward \<lparr>rt_sandboxID = es_SandboxID sb, rt_port = 22\<rparr> \<lparr>tg_owner = ?ow, tg_port = 22, tg_h2 = op_GuestHTTP2 (px_opts mesh_edge)\<rparr>)"
    by (rule created_sandbox_reachable [OF mesh_demo_runs parts(1) sb(1) [folded parts(2)] mesh_creates(2) [folded parts(2)] a(1) facts(1) refl, simplified])
      (use facts mac mesh_holds edge_routes in \<open>auto simp: a parts sb(2-4) undisturbing_def edge_get_def sandboxIDHeader_def accessTokenHeader_def map_index_def\<close>)
  then show ?thesis using sb by (simp add: a) (simp add: mesh_edge_def)
qed

end
